(* ===== verification/Prelude.thy ===== *)
theory Prelude
  imports Complex_Main "HOL-Library.List_Lexorder" "HOL-Library.Char_ord"
    "HOL-Library.Product_Lexorder"
begin

text \<open>
  What every component shares: the two time types, the error values, the SQL statements of the
  repositories as list operations, and the lemmas about them.

  A table is the list of its rows. The repositories run single SQL statements, so each statement
  shape of the code is one combinator: \<open>sql_update\<close> is UPDATE .. WHERE, \<open>sql_delete\<close> is
  DELETE .. WHERE, \<open>sql_count\<close> is the \<open>rowCount\<close> the code reads back, \<open>sql_first\<close> is
  \<open>rows[0]\<close> of a SELECT, \<open>sql_page\<close> is ORDER BY .. LIMIT. A row that another transaction
  holds is skipped by FOR UPDATE SKIP LOCKED: the set of such rows is an argument of the
  operations that use it.
\<close>

section \<open>Identifiers and time\<close>

text \<open>
  An identifier is the canonical lower-case text of a UUID, ordered as text.
  PostgreSQL stores timestamps in microseconds and the driver hands them to JavaScript as a
  \<open>Date\<close> in milliseconds: the fraction is dropped.
\<close>

type_synonym uuid = string
type_synonym pg_time = int
type_synonym js_time = int

definition js_of_pg :: "pg_time \<Rightarrow> js_time" where
  "js_of_pg t = t div 1000"

definition pg_of_js :: "js_time \<Rightarrow> pg_time" where
  "pg_of_js m = m * 1000"

named_theorems time_simps \<open>conversions between the two clocks\<close>

lemma js_of_pg_of_js [simp, time_simps]: "js_of_pg (pg_of_js m) = m"
  by (simp add: js_of_pg_def pg_of_js_def)

lemma pg_of_js_of_pg_le [time_simps]: "pg_of_js (js_of_pg t) \<le> t"
  by (simp add: js_of_pg_def pg_of_js_def)

lemma pg_of_js_of_pg_gap [time_simps]: "t < pg_of_js (js_of_pg t) + 1000"
  by (simp add: js_of_pg_def pg_of_js_def)

lemma pg_of_js_le_iff [simp]: "pg_of_js a \<le> pg_of_js b \<longleftrightarrow> a \<le> b"
  by (simp add: pg_of_js_def)

lemma pg_of_js_less_iff [simp]: "pg_of_js a < pg_of_js b \<longleftrightarrow> a < b"
  by (simp add: pg_of_js_def)

lemma pg_of_js_eq_iff [simp]: "pg_of_js a = pg_of_js b \<longleftrightarrow> a = b"
  by (simp add: pg_of_js_def)

lemma js_of_pg_mono: "s \<le> t \<Longrightarrow> js_of_pg s \<le> js_of_pg t"
  by (simp add: js_of_pg_def zdiv_mono1)

lemma js_of_pg_less_imp: "js_of_pg s < js_of_pg t \<Longrightarrow> s < t"
  using js_of_pg_mono [of t s] by linarith

lemma js_less_pg: "js_of_pg s < js_of_pg t \<Longrightarrow> pg_of_js (js_of_pg s) < t"
  using js_of_pg_less_imp [of s t] pg_of_js_of_pg_le [of s] by linarith

lemma pg_of_js_less_pg_iff: "m < js_of_pg t \<Longrightarrow> pg_of_js m < t"
  using js_less_pg [of "pg_of_js m" t] by simp

section \<open>Errors as values\<close>

text \<open>
  \<open>sql_error\<close> is what makes a statement raise and its transaction roll back: a unique index
  (SQLSTATE 23505), a CHECK constraint (23514), a foreign key (23503), the live-account triggers (P0E01), or an
  \<open>Error\<close> thrown by the code itself inside the transaction. \<open>api_error\<close> is
  \<open>ApiError\<close>: HTTP status, stable code, optional Retry-After seconds. A service call ends in a
  value, in an \<open>ApiError\<close> or in an exception nobody handles.
\<close>

datatype sql_error = Unique_violation | Check_violation | Foreign_key_violation | Live_account_trigger | Thrown string

datatype api_error = Api_error (err_status: nat) (err_code: string) (err_retry: "nat option")

abbreviation api_error :: "nat \<Rightarrow> string \<Rightarrow> api_error" where
  "api_error st c \<equiv> Api_error st c None"

datatype failure = Api api_error | Unhandled sql_error

text \<open>Sequencing of fallible steps: the first error ends the transaction.\<close>

definition and_then :: "'e + 'a \<Rightarrow> ('a \<Rightarrow> 'e + 'b) \<Rightarrow> 'e + 'b" where
  "and_then r k = (case r of Inl e \<Rightarrow> Inl e | Inr x \<Rightarrow> k x)"

lemma and_then_simps [simp]:
  "and_then (Inl e) k = Inl e"
  "and_then (Inr x) k = k x"
  by (simp_all add: and_then_def)

lemma and_then_Inr_iff: "and_then r k = Inr y \<longleftrightarrow> (\<exists>x. r = Inr x \<and> k x = Inr y)"
  by (cases r) auto

lemma and_then_InrE [elim]:
  assumes "and_then r k = Inr y"
  obtains x where "r = Inr x" "k x = Inr y"
  using assms by (auto simp: and_then_Inr_iff)

lemma and_then_cong [fundef_cong]:
  "r = r' \<Longrightarrow> (\<And>x. r' = Inr x \<Longrightarrow> k x = k' x) \<Longrightarrow> and_then r k = and_then r' k'"
  by (cases r') auto

section \<open>SQL statements on tables\<close>

definition sql_update :: "('r \<Rightarrow> bool) \<Rightarrow> ('r \<Rightarrow> 'r) \<Rightarrow> 'r list \<Rightarrow> 'r list" where
  "sql_update p f t = map (\<lambda>r. if p r then f r else r) t"

definition sql_delete :: "('r \<Rightarrow> bool) \<Rightarrow> 'r list \<Rightarrow> 'r list" where
  "sql_delete p t = filter (\<lambda>r. \<not> p r) t"

definition sql_count :: "('r \<Rightarrow> bool) \<Rightarrow> 'r list \<Rightarrow> nat" where
  "sql_count p t = length (filter p t)"

definition sql_exists :: "('r \<Rightarrow> bool) \<Rightarrow> 'r list \<Rightarrow> bool" where
  "sql_exists p t = list_ex p t"

definition sql_first :: "('r \<Rightarrow> bool) \<Rightarrow> 'r list \<Rightarrow> 'r option" where
  "sql_first p t = List.find p t"

definition sql_page :: "('r \<Rightarrow> 'k::linorder) \<Rightarrow> nat \<Rightarrow> 'r list \<Rightarrow> 'r list" where
  "sql_page key n t = take n (sort_key key t)"

text \<open>ORDER BY .. FOR UPDATE SKIP LOCKED LIMIT n: a locked row does not count in the limit.\<close>

definition sql_candidates ::
  "('r \<Rightarrow> bool) \<Rightarrow> ('r \<Rightarrow> 'k::linorder) \<Rightarrow> ('r \<Rightarrow> bool) \<Rightarrow> nat \<Rightarrow> 'r list \<Rightarrow> 'r list" where
  "sql_candidates p key locked n t =
     sql_page key n (filter (\<lambda>r. p r \<and> \<not> locked r) t)"

named_theorems table_simps \<open>reading a table after a statement\<close>

lemma sql_update_Nil [simp, table_simps]: "sql_update p f [] = []"
  by (simp add: sql_update_def)

lemma sql_update_Cons [simp]:
  "sql_update p f (r # t) = (if p r then f r else r) # sql_update p f t"
  by (simp add: sql_update_def)

lemma sql_update_append [simp]: "sql_update p f (s @ t) = sql_update p f s @ sql_update p f t"
  by (simp add: sql_update_def)

lemma sql_delete_Nil [simp]: "sql_delete p [] = []"
  by (simp add: sql_delete_def)

lemma sql_delete_Cons [simp]:
  "sql_delete p (r # t) = (if p r then sql_delete p t else r # sql_delete p t)"
  by (simp add: sql_delete_def)

lemma sql_count_Nil [simp]: "sql_count p [] = 0"
  by (simp add: sql_count_def)

lemma sql_count_Cons [simp]: "sql_count p (r # t) = (if p r then Suc (sql_count p t) else sql_count p t)"
  by (simp add: sql_count_def)

lemma sql_count_append [simp]: "sql_count p (s @ t) = sql_count p s + sql_count p t"
  by (simp add: sql_count_def)

lemma sql_first_Nil [simp]: "sql_first p [] = None"
  by (simp add: sql_first_def)

lemma sql_first_Cons [simp]: "sql_first p (r # t) = (if p r then Some r else sql_first p t)"
  by (simp add: sql_first_def)

lemma sql_exists_Nil [simp]: "\<not> sql_exists p []"
  by (simp add: sql_exists_def)

lemma sql_exists_Cons [simp]: "sql_exists p (r # t) \<longleftrightarrow> p r \<or> sql_exists p t"
  by (simp add: sql_exists_def)

lemma sql_exists_append [simp]: "sql_exists p (s @ t) \<longleftrightarrow> sql_exists p s \<or> sql_exists p t"
  by (simp add: sql_exists_def)

lemma sql_exists_iff: "sql_exists p t \<longleftrightarrow> (\<exists>r \<in> set t. p r)"
  by (simp add: sql_exists_def list_ex_iff)

lemma set_sql_delete [simp]: "set (sql_delete p t) = {r \<in> set t. \<not> p r}"
  by (auto simp: sql_delete_def)

lemma set_sql_update: "set (sql_update p f t) = (\<lambda>r. if p r then f r else r) ` set t"
  by (simp add: sql_update_def)

lemma bex_sql_update: "(\<exists>r \<in> set (sql_update p f t). q r) \<longleftrightarrow> (\<exists>r \<in> set t. q (if p r then f r else r))"
  by (simp only: set_sql_update bex_simps ball_simps)

lemma ball_sql_update: "(\<forall>r \<in> set (sql_update p f t). q r) \<longleftrightarrow> (\<forall>r \<in> set t. q (if p r then f r else r))"
  by (simp only: set_sql_update bex_simps ball_simps)

lemma in_sql_updateE:
  assumes "r \<in> set (sql_update p f t)"
  obtains s where "s \<in> set t" "r = (if p s then f s else s)"
  using assms by (auto simp: sql_update_def)

lemma length_sql_update [simp]: "length (sql_update p f t) = length t"
  by (simp add: sql_update_def)

lemma sql_update_id: "(\<And>r. r \<in> set t \<Longrightarrow> \<not> p r) \<Longrightarrow> sql_update p f t = t"
  by (induction t) auto

lemma filter_sql_update_other:
  "(\<And>r. r \<in> set t \<Longrightarrow> p r \<Longrightarrow> \<not> q r \<and> \<not> q (f r)) \<Longrightarrow> filter q (sql_update p f t) = filter q t"
  by (induction t) auto

lemma sql_count_0_iff: "sql_count p t = 0 \<longleftrightarrow> (\<forall>r \<in> set t. \<not> p r)"
  by (simp add: sql_count_def filter_empty_conv)

lemma sql_count_mono: "(\<And>r. r \<in> set t \<Longrightarrow> p r \<Longrightarrow> q r) \<Longrightarrow> sql_count p t \<le> sql_count q t"
  by (induction t) (auto simp: le_Suc_eq)

lemma sql_count_le_length: "sql_count p t \<le> length t"
  by (simp add: sql_count_def)

lemma length_sql_delete: "length (sql_delete p t) + sql_count p t = length t"
  by (induction t) auto

lemma sql_first_SomeD: "sql_first p t = Some r \<Longrightarrow> r \<in> set t \<and> p r"
  by (induction t) (auto split: if_splits)

lemma sql_first_None_iff: "sql_first p t = None \<longleftrightarrow> (\<forall>r \<in> set t. \<not> p r)"
  by (induction t) auto

lemma sql_first_Some_iff_exists: "(\<exists>r. sql_first p t = Some r) \<longleftrightarrow> sql_exists p t"
  by (induction t) auto

lemma sql_exists_sql_update:
  "sql_exists q (sql_update p f t) \<longleftrightarrow> sql_exists (\<lambda>r. q (if p r then f r else r)) t"
  by (induction t) auto

lemma map_sql_update: "(\<And>r. k (f r) = k r) \<Longrightarrow> map k (sql_update p f t) = map k t"
  by (induction t) auto

lemma map_sql_delete_subset: "set (map k (sql_delete p t)) \<subseteq> set (map k t)"
  by auto

lemma distinct_map_sql_delete: "distinct (map k t) \<Longrightarrow> distinct (map k (sql_delete p t))"
  by (simp add: sql_delete_def distinct_map_filter)

lemma sql_page_subset: "set (sql_page key n t) \<subseteq> set t"
  by (auto simp: sql_page_def dest: in_set_takeD)

lemma length_sql_page: "length (sql_page key n t) = min n (length t)"
  by (simp add: sql_page_def)

lemma distinct_sql_page: "distinct t \<Longrightarrow> distinct (sql_page key n t)"
  by (simp add: sql_page_def distinct_take)

lemma sorted_sql_page: "sorted (map key (sql_page key n t))"
  by (simp add: sql_page_def take_map [symmetric] sorted_wrt_take)

lemma sql_candidatesD:
  "r \<in> set (sql_candidates p key locked n t) \<Longrightarrow> r \<in> set t \<and> p r \<and> \<not> locked r"
  using sql_page_subset [of key n "filter (\<lambda>r. p r \<and> \<not> locked r) t"]
  by (auto simp: sql_candidates_def)

lemma length_sql_candidates: "length (sql_candidates p key locked n t) \<le> n"
  by (simp add: sql_candidates_def length_sql_page)

lemma distinct_sql_candidates: "distinct t \<Longrightarrow> distinct (sql_candidates p key locked n t)"
  by (simp add: sql_candidates_def distinct_sql_page)

text \<open>A page holds the least rows: whatever it leaves out is not below what it takes.\<close>

lemma sql_page_least:
  assumes "r \<in> set (sql_page key n t)" "s \<in> set t" "s \<notin> set (sql_page key n t)"
  shows "key r \<le> key s"
proof -
  let ?u = "sort_key key t"
  have "s \<in> set ?u" using assms(2) by simp
  moreover have "set ?u = set (take n ?u) \<union> set (drop n ?u)"
    by (metis append_take_drop_id set_append)
  ultimately have s: "s \<in> set (drop n ?u)" using assms(3) by (auto simp: sql_page_def)
  have "sorted (map key (take n ?u @ drop n ?u))"
    by (simp del: append_take_drop_id add: append_take_drop_id)
  then show ?thesis
    using assms(1) s by (auto simp: sql_page_def sorted_append simp del: append_take_drop_id)
qed

section \<open>Rows found by a unique key\<close>

text \<open>
  A primary key makes a row the only one with its key. The facts below are what the
  components use of it: the row a key selects, and the one row a keyed UPDATE changes.
\<close>

lemma distinct_keyD: "distinct (map k t) \<Longrightarrow> r \<in> set t \<Longrightarrow> s \<in> set t \<Longrightarrow> k r = k s \<Longrightarrow> r = s"
  by (induction t) (auto simp: image_iff)

lemma distinct_key_distinct: "distinct (map k t) \<Longrightarrow> distinct t"
  by (simp add: distinct_map)

lemma sql_count_key_le_1:
  assumes "distinct (map k t)" and "\<And>r. p r \<Longrightarrow> k r = x"
  shows "sql_count p t \<le> 1"
  using assms
proof (induction t)
  case (Cons r t)
  show ?case
  proof (cases "p r")
    case True
    with Cons.prems have "\<forall>s \<in> set t. \<not> p s" by (metis distinct.simps(2) image_eqI image_set list.simps(9))
    then have "sql_count p t = 0" by (simp add: sql_count_0_iff)
    with True show ?thesis by simp
  next
    case False
    with Cons show ?thesis by simp
  qed
qed simp

lemma sql_count_1_iff_exists:
  assumes "distinct (map k t)" and "\<And>r. p r \<Longrightarrow> k r = x"
  shows "sql_count p t = 1 \<longleftrightarrow> sql_exists p t"
  using sql_count_key_le_1 [OF assms] sql_count_0_iff [of p t]
  by (force simp: sql_exists_iff)

lemma sql_first_key:
  assumes "distinct (map k t)" "r \<in> set t" "p r" "\<And>s. p s \<Longrightarrow> k s = k r"
  shows "sql_first p t = Some r"
proof -
  obtain s where s: "sql_first p t = Some s"
    using assms(2,3) by (cases "sql_first p t") (auto simp: sql_first_None_iff)
  then have "s \<in> set t" "p s" by (auto dest: sql_first_SomeD)
  then have "s = r" by (rule distinct_keyD [OF assms(1) _ assms(2) assms(4)])
  with s show ?thesis by simp
qed

lemma list_all_sql_update:
  "list_all q t \<Longrightarrow> (\<And>r. r \<in> set t \<Longrightarrow> q r \<Longrightarrow> p r \<Longrightarrow> q (f r)) \<Longrightarrow> list_all q (sql_update p f t)"
  by (induction t) auto

lemma list_all_sql_delete: "list_all q t \<Longrightarrow> list_all q (sql_delete p t)"
  by (induction t) auto

text \<open>At most one row: the shape of a partial unique index.\<close>

definition unique_where :: "('r \<Rightarrow> bool) \<Rightarrow> ('r \<Rightarrow> 'k) \<Rightarrow> 'r list \<Rightarrow> bool" where
  "unique_where p k t = distinct (map k (filter p t))"

lemma unique_where_Nil [simp]: "unique_where p k []"
  by (simp add: unique_where_def)

lemma unique_where_sql_delete: "unique_where p k t \<Longrightarrow> unique_where p k (sql_delete q t)"
proof -
  have "filter p (sql_delete q t) = filter (\<lambda>r. \<not> q r) (filter p t)"
    by (simp add: sql_delete_def filter_filter conj_commute)
  then show "unique_where p k t \<Longrightarrow> unique_where p k (sql_delete q t)"
    by (simp only: unique_where_def distinct_map_filter)
qed

lemma unique_where_append:
  "unique_where p k (t @ [r]) \<longleftrightarrow>
     unique_where p k t \<and> (p r \<longrightarrow> (\<forall>s \<in> set t. p s \<longrightarrow> k s \<noteq> k r))"
  by (simp add: unique_where_def image_iff) metis

text \<open>An update that only takes rows out of the index keeps it.\<close>

lemma unique_where_sql_update_shrink:
  assumes "unique_where p k t" "\<And>r. r \<in> set t \<Longrightarrow> q r \<Longrightarrow> p (f r) \<Longrightarrow> p r \<and> k (f r) = k r"
  shows "unique_where p k (sql_update q f t)"
  using assms
proof (induction t)
  case (Cons r t)
  have key: "k ` set (filter p (sql_update q f t)) \<subseteq> k ` set (filter p t)"
  proof
    fix x assume "x \<in> k ` set (filter p (sql_update q f t))"
    then obtain s where "s \<in> set (sql_update q f t)" "p s" "x = k s" by auto
    then obtain u where "u \<in> set t" "s = (if q u then f u else u)"
      by (auto simp: set_sql_update)
    with \<open>p s\<close> \<open>x = k s\<close> Cons.prems(2) [of u] show "x \<in> k ` set (filter p t)"
      by (cases "q u") (auto simp: image_iff)
  qed
  have "unique_where p k (sql_update q f t)"
    using Cons by (simp add: unique_where_def split: if_splits)
  then show ?case
  proof (cases "p (if q r then f r else r)")
    case False
    with \<open>unique_where p k (sql_update q f t)\<close> show ?thesis by (simp add: unique_where_def)
  next
    case True
    then have "p r" "k (if q r then f r else r) = k r" using Cons.prems(2) [of r] by (auto split: if_splits)
    moreover from this(1) have "k r \<notin> k ` set (filter p t)" using Cons.prems(1) by (simp add: unique_where_def)
    ultimately show ?thesis
      using \<open>unique_where p k (sql_update q f t)\<close> key True by (auto simp: unique_where_def)
  qed
qed simp

lemma unique_whereD:
  "unique_where p k t \<Longrightarrow> r \<in> set t \<Longrightarrow> s \<in> set t \<Longrightarrow> p r \<Longrightarrow> p s \<Longrightarrow> k r = k s \<Longrightarrow> r = s"
  unfolding unique_where_def by (rule distinct_keyD [where t = "filter p t" and k = k]) auto

text \<open>With a primary key the index says: two indexed rows with one key are one row.\<close>

lemma unique_where_iff:
  assumes "distinct (map i t)"
  shows "unique_where p k t \<longleftrightarrow> (\<forall>x \<in> set t. \<forall>y \<in> set t. p x \<longrightarrow> p y \<longrightarrow> k x = k y \<longrightarrow> i x = i y)"
proof -
  have "distinct (filter p t)" using distinct_key_distinct [OF assms] by simp
  then have "unique_where p k t \<longleftrightarrow> inj_on k (set (filter p t))"
    by (simp add: unique_where_def distinct_map)
  also have "\<dots> \<longleftrightarrow> (\<forall>x \<in> set t. \<forall>y \<in> set t. p x \<longrightarrow> p y \<longrightarrow> k x = k y \<longrightarrow> x = y)"
    unfolding inj_on_def by auto
  also have "\<dots> \<longleftrightarrow> (\<forall>x \<in> set t. \<forall>y \<in> set t. p x \<longrightarrow> p y \<longrightarrow> k x = k y \<longrightarrow> i x = i y)"
    using distinct_keyD [OF assms] by metis
  finally show ?thesis .
qed

section \<open>Rows that evolve\<close>

text \<open>An UPDATE relates each row to its successor, in place.\<close>

lemma list_all2_sql_update:
  assumes "\<And>r. r \<in> set t \<Longrightarrow> R r (if p r then f r else r)"
  shows "list_all2 R t (sql_update p f t)"
  using assms by (simp add: sql_update_def list_all2_conv_all_nth)

lemma list_all2_setD1: "list_all2 R s t \<Longrightarrow> x \<in> set s \<Longrightarrow> \<exists>y \<in> set t. R x y"
  by (auto simp: list_all2_conv_all_nth in_set_conv_nth) (metis nth_mem)

lemma list_all2_setD2: "list_all2 R s t \<Longrightarrow> y \<in> set t \<Longrightarrow> \<exists>x \<in> set s. R x y"
  by (auto simp: list_all2_conv_all_nth in_set_conv_nth) (metis nth_mem)

lemma list_all2_map_eq: "list_all2 R s t \<Longrightarrow> (\<And>x y. R x y \<Longrightarrow> k x = k y) \<Longrightarrow> map k s = map k t"
  by (induction rule: list_all2_induct) auto

section \<open>UPDATE .. FROM candidates\<close>

text \<open>
  A statement that picks candidate rows and then updates the rows with their ids touches
  exactly the candidates, because ids are unique.
\<close>

lemma in_candidate_ids:
  assumes "distinct (map k t)" "set c \<subseteq> set t" "r \<in> set t"
  shows "k r \<in> set (map k c) \<longleftrightarrow> r \<in> set c"
proof
  assume "k r \<in> set (map k c)"
  then obtain s where "s \<in> set c" "k r = k s" by auto
  then show "r \<in> set c" using assms distinct_keyD [OF assms(1,3), of s] by auto
qed simp

lemma length_chosen:
  assumes "distinct (map k t)" "set c \<subseteq> set t" "distinct c"
  shows "length (filter (\<lambda>r. k r \<in> set (map k c)) t) = length c"
proof -
  have "set (filter (\<lambda>r. k r \<in> set (map k c)) t) = set c"
    using assms(2) in_candidate_ids [OF assms(1,2)] by auto
  moreover have "distinct (filter (\<lambda>r. k r \<in> set (map k c)) t)"
    using assms(1) by (simp add: distinct_key_distinct)
  ultimately show ?thesis using assms(3) by (metis distinct_card)
qed

lemma sql_count_chosen:
  assumes "distinct (map k t)" "set c \<subseteq> set t" "distinct c"
  shows "sql_count (\<lambda>r. k r \<in> set (map k c)) t = length c"
  using length_chosen [OF assms] by (simp add: sql_count_def)

lemma sql_candidates_subset: "set (sql_candidates p key locked n t) \<subseteq> set t"
  by (auto dest: sql_candidatesD)

text \<open>A candidate left out means the limit was reached by rows that come no later.\<close>

lemma sql_candidates_left_out:
  assumes "r \<in> set t" "p r" "\<not> locked r" "r \<notin> set (sql_candidates p key locked n t)"
  shows "length (sql_candidates p key locked n t) = n"
    and "s \<in> set (sql_candidates p key locked n t) \<Longrightarrow> key s \<le> key r"
proof -
  let ?u = "filter (\<lambda>r. p r \<and> \<not> locked r) t"
  have r: "r \<in> set ?u" using assms by simp
  show "length (sql_candidates p key locked n t) = n"
  proof (rule ccontr)
    assume "length (sql_candidates p key locked n t) \<noteq> n"
    then have "length ?u < n" by (simp add: sql_candidates_def length_sql_page min_def split: if_splits)
    then have "sql_page key n ?u = sort_key key ?u" by (simp add: sql_page_def)
    with r assms(4) show False by (simp add: sql_candidates_def)
  qed
  show "s \<in> set (sql_candidates p key locked n t) \<Longrightarrow> key s \<le> key r"
    using sql_page_least [OF _ r] assms(4) by (auto simp: sql_candidates_def)
qed

section \<open>Looking up a key after a statement\<close>

lemma sql_first_update_key:
  assumes "\<And>r. k (f r) = k r"
  shows "sql_first (\<lambda>r. k r = x) (sql_update p f t) =
    map_option (\<lambda>r. if p r then f r else r) (sql_first (\<lambda>r. k r = x) t)"
  by (induction t) (auto simp: assms)

lemma sql_first_delete_key:
  assumes "distinct (map k t)"
  shows "sql_first (\<lambda>r. k r = x) (sql_delete p t) =
    (case sql_first (\<lambda>r. k r = x) t of None \<Rightarrow> None | Some r \<Rightarrow> if p r then None else Some r)"
  using assms
proof (induction t)
  case (Cons r t)
  have "sql_first (\<lambda>s. k s = k r) (sql_delete p t) = None"
    using Cons.prems by (auto simp: sql_first_None_iff image_iff)
  then show ?case using Cons by (cases "k r = x") auto
qed simp

lemma sql_first_append:
  "sql_first p (s @ t) = (case sql_first p s of None \<Rightarrow> sql_first p t | Some r \<Rightarrow> Some r)"
  by (induction s) auto

lemma sql_first_unique:
  "distinct (map k t) \<Longrightarrow> r \<in> set t \<Longrightarrow> sql_first (\<lambda>s. k s = k r) t = Some r"
  by (rule sql_first_key [where k = k]) auto

end
