(* ===== verification/Schema.thy ===== *)
theory Schema
  imports Prelude
begin

text \<open>
  The PostgreSQL tables of \<open>db/schema_postgres.sql\<close> that the modelled repositories read and
  write, one record per row type and one field per column the code uses, and the database as
  the record of all tables. Nullable columns are options.

  A statement that writes a table is checked by the constraints of that table: CHECK
  constraints on the rows, primary keys and (partial) unique indexes over the table. Each
  \<open>write_<table>\<close> returns the database with the new table, or the violation that makes
  the statement raise. The components prove that their own statements never raise one.
\<close>

section \<open>Accounts, sessions and one-time codes\<close>

datatype role = User | Admin | Superadmin

record account_row =
  ua_id :: uuid
  ua_role :: role
  ua_phone_hash :: string
  ua_phone_encrypted :: string
  ua_banned :: bool
  ua_deleted_at :: "pg_time option"

definition live_account :: "account_row \<Rightarrow> bool" where
  "live_account a \<longleftrightarrow> ua_deleted_at a = None"

definition active_account :: "account_row \<Rightarrow> bool" where
  "active_account a \<longleftrightarrow> ua_deleted_at a = None \<and> \<not> ua_banned a"

record tombstone_row =
  at_phone_hash :: string
  at_expires_at :: pg_time

datatype consent_type =
    Terms_of_service_acceptance | Privacy_notice_acknowledgement
  | Sensitive_data_consent | Location_consent

record consent_row =
  uc_user_id :: uuid
  uc_type :: consent_type
  uc_granted :: bool
  uc_document_version :: string
  uc_withdrawn_at :: "pg_time option"
  uc_granted_at :: pg_time
  uc_event_sequence :: nat

datatype otp_delivery_state = Otp_pending | Otp_accepted | Otp_sent | Otp_failed | Otp_unknown

record otp_row =
  ov_id :: uuid
  ov_phone_hash :: string
  ov_otp_hash :: string
  ov_expires_at :: pg_time
  ov_used :: bool
  ov_idempotency_key :: uuid
  ov_status :: otp_delivery_state
  ov_provider :: string
  ov_transaction_id :: "string option"
  ov_message_id :: "string option"
  ov_error_code :: "string option"
  ov_sent_at :: "pg_time option"
  ov_created_at :: pg_time
  ov_attempt_number :: nat
  ov_settlement_deadline :: pg_time
  ov_provider_sent_at :: "pg_time option"
  ov_failed_at :: "pg_time option"
  ov_last_webhook_at :: "pg_time option"

datatype revocation_reason = Replay | Logout | Logout_all | User_revoked | Banned | Legacy_revoked

record family_row =
  rf_id :: uuid
  rf_user_id :: uuid
  rf_created_at :: pg_time
  rf_last_refreshed_at :: pg_time
  rf_expires_at :: pg_time
  rf_revoked_at :: "pg_time option"
  rf_revocation_reason :: "revocation_reason option"

record refresh_row =
  rt_id :: uuid
  rt_user_id :: uuid
  rt_token_hash :: string
  rt_jti :: uuid
  rt_revoked :: bool
  rt_expires_at :: pg_time
  rt_created_at :: pg_time
  rt_family_id :: uuid
  rt_parent_id :: "uuid option"
  rt_rotated_at :: "pg_time option"

record device_row =
  dt_id :: uuid
  dt_user_id :: uuid
  dt_session_id :: "uuid option"
  dt_token :: string
  dt_platform :: string
  dt_app_version :: "string option"
  dt_created_at :: pg_time
  dt_last_used_at :: "pg_time option"

section \<open>Profiles\<close>

text \<open>A date is its year, month and day.\<close>

type_synonym pg_date = "int \<times> int \<times> int"

datatype sex = Male | Female | Other

record profile_row =
  pr_user_id :: uuid
  pr_firstname :: string
  pr_birthdate :: pg_date
  pr_sex :: "sex option"
  pr_bio :: "string option"

datatype looking_for = Looking_for sex | Both

record preferences_row =
  pf_user_id :: uuid
  pf_min_age :: int
  pf_max_age :: int
  pf_max_distance_km :: int
  pf_looking_for :: looking_for

record presence_row =
  pe_user_id :: uuid
  pe_latitude :: "real option"
  pe_longitude :: "real option"
  pe_location_fresh :: bool
  pe_updated_at :: pg_time

record deletion_token_row =
  dk_id :: uuid
  dk_user_id :: uuid
  dk_token_hash :: string
  dk_expires_at :: pg_time

section \<open>Photos\<close>

datatype photo_status = Ph_pending | Ph_processing | Ph_ready | Ph_deleting

record photo_metadata =
  pm_mime_type :: string
  pm_size_bytes :: nat
  pm_width :: nat
  pm_height :: nat
  pm_sha256 :: string

record photo_row =
  up_id :: uuid
  up_user_id :: uuid
  up_object_key :: string
  up_status :: photo_status
  up_metadata :: "photo_metadata option"
  up_updated_at :: pg_time

datatype request_status = Rq_processing | Rq_completed | Rq_consumed

record upload_request_row =
  ur_user_id :: uuid
  ur_idempotency_key :: uuid
  ur_request_sha256 :: string
  ur_photo_id :: "uuid option"
  ur_status :: request_status
  ur_created_at :: pg_time
  ur_updated_at :: pg_time
  ur_expires_at :: pg_time

datatype moderation_status = Mod_pending | Mod_approved | Mod_rejected

text \<open>The moderation cases of photos: one case per photo.\<close>

record photo_case_row =
  mc_user_id :: uuid
  mc_photo_id :: uuid
  mc_status :: moderation_status
  mc_reasons :: "string list"
  mc_policy_version :: string
  mc_face_count :: "int option"
  mc_sharpness_score :: "real option"
  mc_nsfw_score :: "real option"

text \<open>The moderation cases of texts: one per biography, one per profile answer.\<close>

datatype text_source = Bio_text | Answer_text uuid

record text_case_row =
  tm_user_id :: uuid
  tm_source :: text_source
  tm_status :: moderation_status
  tm_reasons :: "string list"
  tm_policy_version :: string
  tm_version :: nat
  tm_reviewed_by :: "uuid option"
  tm_reviewed_at :: "pg_time option"
  tm_review_reason :: "string option"
  tm_updated_at :: pg_time

section \<open>Matches and messages\<close>

datatype match_status = Awaiting_continuation | Active | Confirmed | Expired | Ended

record match_row =
  mi_id :: uuid
  mi_user1 :: uuid
  mi_user2 :: uuid
  mi_status :: match_status
  mi_expires_at :: pg_time
  mi_purge_after :: "pg_time option"
  mi_initiator :: "uuid option"
  mi_created_at :: pg_time
  mi_last_message_at :: "pg_time option"

record match_state_row =
  ms_match_id :: uuid
  ms_user_id :: uuid
  ms_revealed :: bool
  ms_continued :: bool

record message_row =
  cm_id :: uuid
  cm_match_id :: uuid
  cm_sender_id :: uuid
  cm_idempotency_key :: "uuid option"
  cm_content :: string
  cm_created_at :: pg_time
  cm_read_at :: "pg_time option"

record usage_row =
  cu_user_id :: uuid
  cu_week_start :: int
  cu_used_count :: int

record block_row =
  ub_blocker :: uuid
  ub_blocked :: uuid
  ub_created_at :: pg_time

datatype report_reason = Inappropriate_content | Fake_profile | Harassment | Spam | Other_reason

datatype report_status = Rp_pending | Rp_reviewed | Rp_dismissed

record report_row =
  rp_id :: uuid
  rp_reporter_id :: uuid
  rp_reported_id :: uuid
  rp_match_id :: "uuid option"
  rp_reason :: report_reason
  rp_description :: "string option"
  rp_status :: report_status
  rp_created_at :: pg_time
  rp_resolved_at :: "pg_time option"

datatype subscription_status =
    Incomplete | Incomplete_expired | Trialing | Sub_active | Past_due | Canceled | Unpaid | Paused

record plan_row =
  pl_code :: string
  pl_weekly_limit :: "int option"
  pl_trial_days :: nat
  pl_active :: bool

datatype billing_period = Monthly | Annual

record subscription_row =
  us_user_id :: uuid
  us_plan :: string
  us_provider :: "string option"
  us_provider_subscription_id :: "string option"
  us_status :: "subscription_status option"
  us_period_ends_at :: "pg_time option"
  us_trial_ends_at :: "pg_time option"
  us_provider_price_id :: "string option"
  us_billing_period :: "billing_period option"
  us_cancel_at_period_end :: bool
  us_period_starts_at :: "pg_time option"
  us_canceled_at :: "pg_time option"
  us_event_created_at :: "pg_time option"
  us_projection_version :: nat
  us_snapshot_at :: "pg_time option"

record billing_customer_row =
  bc_user_id :: uuid
  bc_stripe_customer_id :: string
  bc_deleted_at :: "pg_time option"
  bc_trial_used_at :: "pg_time option"
  bc_reconciliation_due_at :: pg_time
  bc_reconciled_at :: "pg_time option"

datatype checkout_status = Ck_creating | Ck_open | Ck_completed | Ck_expired | Ck_failed

record checkout_row =
  bs_id :: uuid
  bs_user_id :: uuid
  bs_idempotency_key :: uuid
  bs_billing_period :: billing_period
  bs_stripe_session_id :: "string option"
  bs_checkout_url :: "string option"
  bs_status :: checkout_status
  bs_expires_at :: pg_time
  bs_updated_at :: pg_time
  bs_creation_started_at :: "pg_time option"
  bs_created_customer_id :: "string option"
  bs_customer_erased_at :: "pg_time option"

record webhook_row =
  we_id :: string
  we_type :: string
  we_object_id :: "string option"
  we_livemode :: bool
  we_created_at :: pg_time

datatype invoice_status = Inv_draft | Inv_open | Inv_paid | Inv_void | Inv_uncollectible

record invoice_row =
  bi_invoice_id :: string
  bi_user_id :: "uuid option"
  bi_status :: "invoice_status option"
  bi_amount_remaining :: int
  bi_stripe_customer_id :: string
  bi_stripe_subscription_id :: "string option"
  bi_currency :: string
  bi_amount_due :: int
  bi_amount_paid :: int
  bi_period_starts_at :: pg_time
  bi_period_ends_at :: pg_time
  bi_paid_at :: "pg_time option"
  bi_created_at :: pg_time
  bi_event_created_at :: "pg_time option"

datatype swipe_choice = Like | Pass

record swipe_row =
  sd_actor :: uuid
  sd_target :: uuid
  sd_decision :: swipe_choice
  sd_swiped_at :: pg_time
  sd_expires_at :: pg_time

section \<open>Notifications and the outbox\<close>

datatype notification_type =
    New_match | New_message | Profile_liked | Match_expiring
  | Billing_payment_failed | Subscription_trial_ending

record notification_row =
  no_id :: uuid
  no_user_id :: uuid
  no_type :: notification_type
  no_payload :: "(string \<times> string) list"
  no_dedup_key :: "string option"
  no_billing_reference :: "string option"
  no_billing_trial_ends_at :: "pg_time option"
  no_expires_at :: pg_time

record push_delivery_row =
  pd_id :: uuid
  pd_notification_id :: uuid
  pd_device_id :: uuid
  pd_session_id :: "uuid option"

datatype outbox_event_type =
    Photo_delete | Notification_push | Account_erase
  | Billing_subscription_reconcile | Billing_customer_reconcile

datatype outbox_status = Oe_pending | Oe_processing | Oe_completed | Oe_dead_letter | Oe_discarded

record outbox_row =
  oe_id :: uuid
  oe_event_type :: outbox_event_type
  oe_aggregate_id :: uuid
  oe_payload :: string
  oe_status :: outbox_status
  oe_attempts :: nat
  oe_available_at :: pg_time
  oe_locked_at :: "pg_time option"
  oe_locked_by :: "uuid option"
  oe_last_error_code :: "string option"
  oe_created_at :: pg_time
  oe_processed_at :: "pg_time option"
  oe_dead_lettered_at :: "pg_time option"
  oe_resolved_at :: "pg_time option"
  oe_resolved_by :: "uuid option"
  oe_resolution_reason :: "string option"

datatype operator_action = Retry | Discard

record operator_action_row =
  oa_event_id :: "uuid option"
  oa_administrator_id :: uuid
  oa_administrator_role :: role
  oa_event_type :: outbox_event_type
  oa_action :: operator_action
  oa_reason :: string
  oa_created_at :: pg_time

section \<open>Requests of data subjects, erasures and the access log\<close>

datatype data_request_type = Access_request | Erasure_request | Portability_request | Rectification_request
  | Restriction_request | Objection_request

datatype data_request_status = Dr_pending | Dr_in_progress | Dr_completed | Dr_rejected

record data_request_row =
  dr_id :: uuid
  dr_user_id :: uuid
  dr_type :: data_request_type
  dr_status :: data_request_status
  dr_requested_at :: pg_time
  dr_completed_at :: "pg_time option"
  dr_handled_by :: "uuid option"
  dr_notes :: "string option"

datatype erasure_step = Step_stripe | Step_photos | Step_swipes | Step_postgres | Step_completed

record erasure_row =
  ea_request_id :: uuid
  ea_user_id :: uuid
  ea_step :: erasure_step
  ea_updated_at :: pg_time
  ea_completed_at :: "pg_time option"

datatype access_action = View_profile | View_messages | View_matches | Export_data | Admin_ban | Admin_unban
  | Admin_review_report | Admin_review_dsr | Admin_reconcile_photo | View_moderation_content | Admin_review_content
  | System_anonymize | System_export_portability

record access_log_row =
  al_id :: uuid
  al_accessed_user_id :: uuid
  al_accessor_id :: "uuid option"
  al_accessor_role :: string
  al_action :: access_action
  al_reason :: "string option"
  al_accessed_at :: pg_time

section \<open>The database\<close>

record privacy_tables =
  data_subject_request :: "data_request_row list"
  account_erasure :: "erasure_row list"
  data_access_log :: "access_log_row list"

record stripe_tables =
  billing_customer :: "billing_customer_row list"
  billing_checkout_session :: "checkout_row list"
  stripe_webhook_event :: "webhook_row list"

record db =
  user_account :: "account_row list"
  account_tombstone :: "tombstone_row list"
  user_consent :: "consent_row list"
  consent_next_event :: nat
  otp_verification :: "otp_row list"
  otp_next_attempt :: nat
  refresh_token_family :: "family_row list"
  refresh_tokens :: "refresh_row list"
  device_token :: "device_row list"
  user_profile :: "profile_row list"
  user_preferences :: "preferences_row list"
  user_presence :: "presence_row list"
  account_deletion_token :: "deletion_token_row list"
  user_photo :: "photo_row list"
  photo_upload_request :: "upload_request_row list"
  photo_moderation_case :: "photo_case_row list"
  text_moderation_case :: "text_case_row list"
  match_init :: "match_row list"
  match_state :: "match_state_row list"
  chat_message :: "message_row list"
  continuation_usage :: "usage_row list"
  user_block :: "block_row list"
  user_report :: "report_row list"
  subscription_plan :: "plan_row list"
  user_subscription :: "subscription_row list"
  billing_invoice :: "invoice_row list"
  stripe :: stripe_tables
  swipe_decision :: "swipe_row list"
  notification :: "notification_row list"
  notification_push_delivery :: "push_delivery_row list"
  outbox_event :: "outbox_row list"
  outbox_operator_action :: "operator_action_row list"
  privacy :: privacy_tables

definition empty_db :: db where
  "empty_db = \<lparr> user_account = [], account_tombstone = [], user_consent = [], consent_next_event = 1,
     otp_verification = [], otp_next_attempt = 1,
     refresh_token_family = [], refresh_tokens = [], device_token = [], user_profile = [],
     user_preferences = [], user_presence = [], account_deletion_token = [],
     user_photo = [], photo_upload_request = [], photo_moderation_case = [], text_moderation_case = [], match_init = [],
     match_state = [], chat_message = [], continuation_usage = [], user_block = [],
     user_report = [], subscription_plan = [], user_subscription = [],
     billing_invoice = [], 
     stripe = \<lparr> billing_customer = [], billing_checkout_session = [], stripe_webhook_event = [] \<rparr>, swipe_decision = [],
     notification = [], notification_push_delivery = [], outbox_event = [],
     outbox_operator_action = [],
     privacy = \<lparr> data_subject_request = [], account_erasure = [], data_access_log = [] \<rparr> \<rparr>"

section \<open>Constraints\<close>

subsection \<open>Outbox\<close>

text \<open>The pattern \<open>^[a-z][a-z0-9_]{0,63}$\<close> of \<open>last_error_code\<close>.\<close>

definition error_code_ok :: "string \<Rightarrow> bool" where
  "error_code_ok c \<longleftrightarrow> (case c of [] \<Rightarrow> False
     | x # xs \<Rightarrow> x \<in> set ''abcdefghijklmnopqrstuvwxyz'' \<and> length xs \<le> 63 \<and>
         list_all (\<lambda>y. y \<in> set ''abcdefghijklmnopqrstuvwxyz0123456789_'') xs)"

text \<open>\<open>chk_outbox_event_*\<close>, \<open>outbox_event_last_error_code_check\<close> and \<open>outbox_event_attempts_check\<close>.\<close>

definition outbox_row_ok :: "outbox_row \<Rightarrow> bool" where
  "outbox_row_ok e \<longleftrightarrow>
     (oe_status e = Oe_completed \<longleftrightarrow> oe_processed_at e \<noteq> None) \<and>
     (oe_status e \<in> {Oe_dead_letter, Oe_discarded} \<longleftrightarrow> oe_dead_lettered_at e \<noteq> None) \<and>
     (if oe_status e = Oe_processing then oe_locked_at e \<noteq> None \<and> oe_locked_by e \<noteq> None
      else oe_locked_at e = None \<and> oe_locked_by e = None) \<and>
     (if oe_status e = Oe_discarded
      then oe_resolved_at e \<noteq> None \<and>
        (case oe_resolution_reason e of None \<Rightarrow> False | Some r \<Rightarrow> 3 \<le> length r \<and> length r \<le> 500)
      else oe_resolved_at e = None \<and> oe_resolved_by e = None \<and> oe_resolution_reason e = None) \<and>
     (case oe_last_error_code e of None \<Rightarrow> True | Some c \<Rightarrow> error_code_ok c) \<and>
     oe_attempts e \<le> 100"

definition outbox_key :: "outbox_row \<Rightarrow> outbox_event_type \<times> uuid" where
  "outbox_key e = (oe_event_type e, oe_aggregate_id e)"

definition outbox_table_ok :: "outbox_row list \<Rightarrow> bool" where
  "outbox_table_ok t \<longleftrightarrow> list_all outbox_row_ok t \<and> distinct (map oe_id t) \<and> distinct (map outbox_key t)"

definition write_outbox :: "outbox_row list \<Rightarrow> db \<Rightarrow> sql_error + db" where
  "write_outbox t d =
     (if \<not> list_all outbox_row_ok t then Inl Check_violation
      else if \<not> (distinct (map oe_id t) \<and> distinct (map outbox_key t)) then Inl Unique_violation
      else Inr (d\<lparr>outbox_event := t\<rparr>))"

lemma write_outbox_Inr_iff:
  "write_outbox t d = Inr d' \<longleftrightarrow> outbox_table_ok t \<and> d' = d\<lparr>outbox_event := t\<rparr>"
  by (auto simp: write_outbox_def outbox_table_ok_def)

lemma write_outbox_ok: "outbox_table_ok t \<Longrightarrow> write_outbox t d = Inr (d\<lparr>outbox_event := t\<rparr>)"
  by (simp add: write_outbox_Inr_iff)

text \<open>
  DELETE FROM outbox_event with its foreign keys: push deliveries go with their event
  (ON DELETE CASCADE), the audit rows of operators keep their decision (ON DELETE SET NULL).
\<close>

definition delete_outbox :: "(outbox_row \<Rightarrow> bool) \<Rightarrow> db \<Rightarrow> db" where
  "delete_outbox p d =
     (let gone = (\<lambda>i. sql_exists (\<lambda>e. p e \<and> oe_id e = i) (outbox_event d)) in
      d\<lparr>outbox_event := sql_delete p (outbox_event d),
        notification_push_delivery :=
          sql_delete (\<lambda>r. gone (pd_id r)) (notification_push_delivery d),
        outbox_operator_action :=
          sql_update (\<lambda>r. case oa_event_id r of None \<Rightarrow> False | Some i \<Rightarrow> gone i)
            (\<lambda>r. r\<lparr>oa_event_id := None\<rparr>) (outbox_operator_action d)\<rparr>)"

lemma delete_outbox_table [simp]: "outbox_event (delete_outbox p d) = sql_delete p (outbox_event d)"
  by (simp add: delete_outbox_def Let_def)

lemma outbox_table_okD:
  assumes "outbox_table_ok t"
  shows "\<And>e. e \<in> set t \<Longrightarrow> outbox_row_ok e" "distinct (map oe_id t)" "distinct (map outbox_key t)"
  using assms by (auto simp: outbox_table_ok_def list_all_iff)

lemma outbox_table_ok_delete: "outbox_table_ok t \<Longrightarrow> outbox_table_ok (sql_delete p t)"
  by (simp add: outbox_table_ok_def list_all_sql_delete distinct_map_sql_delete)

lemma outbox_table_ok_update:
  assumes "outbox_table_ok t"
    and "\<And>e. oe_id (f e) = oe_id e" "\<And>e. outbox_key (f e) = outbox_key e"
    and "\<And>e. e \<in> set t \<Longrightarrow> p e \<Longrightarrow> outbox_row_ok e \<Longrightarrow> outbox_row_ok (f e)"
  shows "outbox_table_ok (sql_update p f t)"
  using assms by (simp add: outbox_table_ok_def list_all_sql_update map_sql_update)

subsection \<open>Photos\<close>

definition photo_object_key :: "uuid \<Rightarrow> uuid \<Rightarrow> string" where
  "photo_object_key user i = ''profile-photos/'' @ user @ ''/'' @ i @ ''.webp''"

text \<open>
  \<open>chk_user_photo_*\<close>: the object key is derived from the ids, the metadata are complete or
  absent (one option field), within bounds, and present on a ready photo.
\<close>

definition photo_metadata_ok :: "photo_metadata \<Rightarrow> bool" where
  "photo_metadata_ok m \<longleftrightarrow> pm_mime_type m = ''image/webp'' \<and>
     1 \<le> pm_size_bytes m \<and> pm_size_bytes m \<le> 500000 \<and> 1 \<le> pm_width m \<and> pm_width m \<le> 2048 \<and>
     1 \<le> pm_height m \<and> pm_height m \<le> 2048 \<and> length (pm_sha256 m) = 32"

definition photo_row_ok :: "photo_row \<Rightarrow> bool" where
  "photo_row_ok p \<longleftrightarrow> up_object_key p = photo_object_key (up_user_id p) (up_id p) \<and>
     (case up_metadata p of None \<Rightarrow> up_status p \<noteq> Ph_ready | Some m \<Rightarrow> photo_metadata_ok m)"

text \<open>\<open>uq_user_photo_in_progress\<close> and \<open>uq_user_photo_ready\<close>, and the unique keys.\<close>

definition in_progress :: "photo_row \<Rightarrow> bool" where
  "in_progress p \<longleftrightarrow> up_status p = Ph_pending \<or> up_status p = Ph_processing"

definition is_ready :: "photo_row \<Rightarrow> bool" where
  "is_ready p \<longleftrightarrow> up_status p = Ph_ready"

definition photo_unique_ok :: "photo_row list \<Rightarrow> bool" where
  "photo_unique_ok t \<longleftrightarrow> distinct (map up_id t) \<and> distinct (map up_object_key t) \<and>
     unique_where in_progress up_user_id t \<and> unique_where is_ready up_user_id t"

definition photo_table_ok :: "photo_row list \<Rightarrow> bool" where
  "photo_table_ok t \<longleftrightarrow> list_all photo_row_ok t \<and> photo_unique_ok t"

definition write_photos :: "photo_row list \<Rightarrow> db \<Rightarrow> sql_error + db" where
  "write_photos t d =
     (if \<not> list_all photo_row_ok t then Inl Check_violation
      else if \<not> photo_unique_ok t then Inl Unique_violation
      else Inr (d\<lparr>user_photo := t\<rparr>))"

lemma write_photos_Inr_iff:
  "write_photos t d = Inr d' \<longleftrightarrow> photo_table_ok t \<and> d' = d\<lparr>user_photo := t\<rparr>"
  by (auto simp: write_photos_def photo_table_ok_def)

text \<open>\<open>fct_require_live_account\<close>: a row that names a deleted account raises P0E01.\<close>

definition account_deleted :: "uuid \<Rightarrow> db \<Rightarrow> bool" where
  "account_deleted u d = sql_exists (\<lambda>a. ua_id a = u \<and> ua_deleted_at a \<noteq> None) (user_account d)"

text \<open>\<open>trg_live_photo\<close> guards every inserted or updated row that is not \<open>deleting\<close>.\<close>

definition insert_photo :: "photo_row \<Rightarrow> db \<Rightarrow> sql_error + db" where
  "insert_photo p d =
     (if up_status p \<noteq> Ph_deleting \<and> account_deleted (up_user_id p) d then Inl Live_account_trigger
      else write_photos (user_photo d @ [p]) d)"

definition update_photos :: "(photo_row \<Rightarrow> bool) \<Rightarrow> (photo_row \<Rightarrow> photo_row) \<Rightarrow> db \<Rightarrow> sql_error + db" where
  "update_photos p f d =
     (if sql_exists (\<lambda>r. p r \<and> up_status (f r) \<noteq> Ph_deleting \<and> account_deleted (up_user_id (f r)) d)
          (user_photo d)
      then Inl Live_account_trigger
      else write_photos (sql_update p f (user_photo d)) d)"

text \<open>
  DELETE FROM user_photo: the moderation case goes with the photo (ON DELETE CASCADE), an upload
  request forgets it (ON DELETE SET NULL).
\<close>

definition delete_photos :: "(photo_row \<Rightarrow> bool) \<Rightarrow> db \<Rightarrow> db" where
  "delete_photos p d =
     (let gone = (\<lambda>i. sql_exists (\<lambda>r. p r \<and> up_id r = i) (user_photo d)) in
      d\<lparr>user_photo := sql_delete p (user_photo d),
        photo_upload_request := sql_update (\<lambda>r. case ur_photo_id r of None \<Rightarrow> False | Some i \<Rightarrow> gone i)
          (\<lambda>r. r\<lparr>ur_photo_id := None\<rparr>) (photo_upload_request d),
        photo_moderation_case := sql_delete (\<lambda>c. gone (mc_photo_id c)) (photo_moderation_case d)\<rparr>)"

subsection \<open>Upload requests\<close>

definition request_key :: "upload_request_row \<Rightarrow> uuid \<times> uuid" where
  "request_key r = (ur_user_id r, ur_idempotency_key r)"

definition request_table_ok :: "upload_request_row list \<Rightarrow> bool" where
  "request_table_ok t \<longleftrightarrow>
     list_all (\<lambda>r. ur_created_at r < ur_expires_at r \<and> length (ur_request_sha256 r) = 32) t \<and>
     distinct (map request_key t) \<and> unique_where (\<lambda>r. ur_photo_id r \<noteq> None) ur_photo_id t"

text \<open>\<open>trg_live_photo_request\<close> guards inserts; then the constraints.\<close>

definition insert_request :: "upload_request_row \<Rightarrow> db \<Rightarrow> sql_error + db" where
  "insert_request r d =
     (let t = photo_upload_request d @ [r] in
      if account_deleted (ur_user_id r) d then Inl Live_account_trigger
      else if \<not> (ur_created_at r < ur_expires_at r \<and> length (ur_request_sha256 r) = 32)
      then Inl Check_violation
      else if \<not> (distinct (map request_key t) \<and> unique_where (\<lambda>r. ur_photo_id r \<noteq> None) ur_photo_id t)
      then Inl Unique_violation
      else Inr (d\<lparr>photo_upload_request := t\<rparr>))"

text \<open>\<open>uq_content_moderation_photo\<close> and \<open>trg_live_moderation\<close>.\<close>

definition insert_photo_case :: "photo_case_row \<Rightarrow> db \<Rightarrow> sql_error + db" where
  "insert_photo_case c d =
     (if account_deleted (mc_user_id c) d then Inl Live_account_trigger
      else if sql_exists (\<lambda>x. mc_photo_id x = mc_photo_id c) (photo_moderation_case d)
      then Inl Unique_violation
      else Inr (d\<lparr>photo_moderation_case := photo_moderation_case d @ [c]\<rparr>))"

subsection \<open>Matches and messages\<close>

text \<open>\<open>match_init_check\<close>, the primary key, the unique pair, and \<open>trg_live_match\<close>.\<close>

definition match_pair :: "match_row \<Rightarrow> uuid \<times> uuid" where
  "match_pair m = (mi_user1 m, mi_user2 m)"

definition match_table_ok :: "match_row list \<Rightarrow> bool" where
  "match_table_ok t \<longleftrightarrow> list_all (\<lambda>m. mi_user1 m < mi_user2 m) t \<and>
     distinct (map mi_id t) \<and> distinct (map match_pair t)"

definition insert_match :: "match_row \<Rightarrow> db \<Rightarrow> sql_error + db" where
  "insert_match m d =
     (if account_deleted (mi_user1 m) d \<or> account_deleted (mi_user2 m) d then Inl Live_account_trigger
      else if \<not> mi_user1 m < mi_user2 m then Inl Check_violation
      else if sql_exists (\<lambda>x. mi_id x = mi_id m \<or> match_pair x = match_pair m) (match_init d)
      then Inl Unique_violation
      else Inr (d\<lparr>match_init := match_init d @ [m]\<rparr>))"

text \<open>\<open>fct_require_live_match\<close>: a participant of the match is deleted.\<close>

definition match_has_deleted :: "uuid \<Rightarrow> db \<Rightarrow> bool" where
  "match_has_deleted m d = sql_exists (\<lambda>r. mi_id r = m \<and>
     (account_deleted (mi_user1 r) d \<or> account_deleted (mi_user2 r) d)) (match_init d)"

definition state_key :: "match_state_row \<Rightarrow> uuid \<times> uuid" where
  "state_key s = (ms_match_id s, ms_user_id s)"

text \<open>\<open>trg_live_match_state\<close> guards inserts and updates, \<open>match_state_pkey\<close> the key.\<close>

definition insert_match_state :: "match_state_row \<Rightarrow> db \<Rightarrow> sql_error + db" where
  "insert_match_state s d =
     (if match_has_deleted (ms_match_id s) d then Inl Live_account_trigger
      else if sql_exists (\<lambda>x. state_key x = state_key s) (match_state d) then Inl Unique_violation
      else Inr (d\<lparr>match_state := match_state d @ [s]\<rparr>))"

definition update_match_states ::
  "(match_state_row \<Rightarrow> bool) \<Rightarrow> (match_state_row \<Rightarrow> match_state_row) \<Rightarrow> db \<Rightarrow> sql_error + db" where
  "update_match_states p f d =
     (if sql_exists (\<lambda>s. p s \<and> match_has_deleted (ms_match_id (f s)) d) (match_state d)
      then Inl Live_account_trigger
      else Inr (d\<lparr>match_state := sql_update p f (match_state d)\<rparr>))"

text \<open>\<open>trg_live_message\<close>, the primary key and \<open>idx_chat_message_sender_idempotency\<close>.\<close>

definition message_key :: "message_row \<Rightarrow> uuid \<times> uuid option" where
  "message_key c = (cm_sender_id c, cm_idempotency_key c)"

definition has_message_key :: "message_row \<Rightarrow> bool" where
  "has_message_key c \<longleftrightarrow> cm_idempotency_key c \<noteq> None"

definition message_table_ok :: "message_row list \<Rightarrow> bool" where
  "message_table_ok t \<longleftrightarrow> distinct (map cm_id t) \<and> unique_where has_message_key message_key t"

text \<open>
  DELETE FROM match_init: its states and messages go with the match (ON DELETE CASCADE), a report
  forgets it (ON DELETE SET NULL).
\<close>

definition delete_matches :: "(match_row \<Rightarrow> bool) \<Rightarrow> db \<Rightarrow> db" where
  "delete_matches p d =
     (let gone = (\<lambda>i. sql_exists (\<lambda>m. p m \<and> mi_id m = i) (match_init d)) in
      d\<lparr>match_init := sql_delete p (match_init d),
        match_state := sql_delete (\<lambda>s. gone (ms_match_id s)) (match_state d),
        chat_message := sql_delete (\<lambda>c. gone (cm_match_id c)) (chat_message d),
        user_report := sql_update (\<lambda>r. case rp_match_id r of None \<Rightarrow> False | Some i \<Rightarrow> gone i)
          (\<lambda>r. r\<lparr>rp_match_id := None\<rparr>) (user_report d)\<rparr>)"

definition usage_key :: "usage_row \<Rightarrow> uuid \<times> int" where
  "usage_key r = (cu_user_id r, cu_week_start r)"

end
