(* ===== verification/Pagination.thy ===== *)
theory Pagination
  imports Prelude
begin

text \<open>
  \<open>src/common/pagination.ts\<close> and the keyset queries of the repositories: a page is the
  first rows in descending key order that lie below the cursor, asked for with one row more
  than the page holds, and the cursor of the next page is made from the last row kept.
  \<open>keyset_walk\<close> is a client that follows \<open>next_cursor\<close> to the end. The locale
  \<open>keyset_feed\<close> states what a feed must promise for that walk to be complete: among the
  rows of the feed, the cursor made from a row cuts where the row's own key does.
\<close>

section \<open>Pages\<close>

definition below :: "'k::linorder option \<Rightarrow> 'k \<Rightarrow> bool" where
  "below c k = (case c of None \<Rightarrow> True | Some b \<Rightarrow> k < b)"

text \<open>WHERE (cursor IS NULL OR key < cursor) ORDER BY key DESC LIMIT n.\<close>

definition keyset_page :: "('r \<Rightarrow> 'k::linorder) \<Rightarrow> nat \<Rightarrow> 'k option \<Rightarrow> 'r list \<Rightarrow> 'r list" where
  "keyset_page key n c t = take n (rev (sort_key key (filter (\<lambda>r. below c (key r)) t)))"

definition cursor_page :: "'r list \<Rightarrow> nat \<Rightarrow> ('r \<Rightarrow> 'c) \<Rightarrow> 'r list \<times> 'c option" where
  "cursor_page rows limit cursor_of =
     (let has_more = length rows > limit;
          items = (if has_more then take limit rows else rows)
      in (items, if has_more \<and> items \<noteq> [] then Some (cursor_of (last items)) else None))"

fun keyset_walk ::
  "('r \<Rightarrow> 'k::linorder) \<Rightarrow> ('r \<Rightarrow> 'k) \<Rightarrow> nat \<Rightarrow> nat \<Rightarrow> 'k option \<Rightarrow> 'r list \<Rightarrow> 'r list" where
  "keyset_walk key cursor_of limit 0 c t = []"
| "keyset_walk key cursor_of limit (Suc fuel) c t =
     (case cursor_page (keyset_page key (limit + 1) c t) limit cursor_of of
        (items, None) \<Rightarrow> items
      | (items, Some c') \<Rightarrow> items @ keyset_walk key cursor_of limit fuel (Some c') t)"

section \<open>Lemmas\<close>

lemma length_keyset_page: "length (keyset_page key n c t) \<le> n"
  by (simp add: keyset_page_def)

lemma set_keyset_page: "r \<in> set (keyset_page key n c t) \<Longrightarrow> r \<in> set t \<and> below c (key r)"
  by (auto simp: keyset_page_def dest: in_set_takeD)

lemma keyset_page_filter:
  "keyset_page key n c t = take n (filter (\<lambda>r. below c (key r)) (rev (sort_key key t)))"
  by (simp add: keyset_page_def filter_sort [symmetric] rev_filter)

lemma cursor_page_items: "fst (cursor_page rows limit f) = take limit rows"
  by (simp add: cursor_page_def Let_def)

lemma cursor_page_next:
  "snd (cursor_page rows limit f) =
     (if limit < length rows \<and> 0 < limit then Some (f (rows ! (limit - 1))) else None)"
  by (auto simp: cursor_page_def Let_def last_conv_nth min_def)

text \<open>The rows in descending order, with no key twice.\<close>

lemma descending_rev_sort:
  assumes "distinct (map key t)"
  shows "sorted_wrt (\<lambda>r s. key s < key r) (rev (sort_key key t))"
proof -
  have "distinct (map key (sort_key key t))"
    using assms by (simp add: distinct_map)
  then have "sorted_wrt (<) (map key (sort_key key t))"
    by (simp add: strict_sorted_iff)
  then show ?thesis by (simp add: sorted_wrt_rev sorted_wrt_map)
qed

lemma descending_filter_drop:
  fixes key :: "'r \<Rightarrow> 'k::linorder"
  assumes "sorted_wrt (\<lambda>r s. key s < key r) rs" "0 < n" "n < length rs"
  shows "filter (\<lambda>r. key r < key (rs ! (n - 1))) rs = drop n rs"
proof -
  have split: "rs = take n rs @ drop n rs" by simp
  have lt: "key s < key r" if "r \<in> set (take n rs)" "s \<in> set (drop n rs)" for r s
    using assms(1) that by (metis append_take_drop_id sorted_wrt_append)
  have "\<not> key r < key (rs ! (n - 1))" if r: "r \<in> set (take n rs)" for r
  proof -
    from r obtain i where "i < n" "i < length rs" "r = rs ! i"
      by (auto simp: in_set_conv_nth)
    show ?thesis
    proof (cases "i = n - 1")
      case True
      with \<open>r = rs ! i\<close> show ?thesis by simp
    next
      case False
      with \<open>i < n\<close> have "i < n - 1" by simp
      then show ?thesis
        using assms \<open>r = rs ! i\<close> sorted_wrt_nth_less [OF assms(1), of i "n - 1"]
        by (simp add: not_less order_less_imp_le)
    qed
  qed
  moreover have "rs ! (n - 1) \<in> set (take n rs)"
    using assms by (auto simp: in_set_conv_nth intro!: exI [of _ "n - 1"])
  then have "key s < key (rs ! (n - 1))" if "s \<in> set (drop n rs)" for s
    using lt that by blast
  ultimately have "filter (\<lambda>r. key r < key (rs ! (n - 1))) (take n rs @ drop n rs) = drop n rs"
    by (simp add: filter_empty_conv filter_id_conv del: append_take_drop_id)
  then show ?thesis by simp
qed

section \<open>The contract of a feed\<close>

locale keyset_feed =
  fixes key :: "'r \<Rightarrow> 'k::linorder"
    and cursor_of :: "'r \<Rightarrow> 'k"
    and feed_ok :: "'r list \<Rightarrow> bool"
  assumes key_distinct: "feed_ok t \<Longrightarrow> distinct (map key t)"
    and cursor_cuts: "feed_ok t \<Longrightarrow> r \<in> set t \<Longrightarrow> s \<in> set t \<Longrightarrow>
      key s < cursor_of r \<longleftrightarrow> key s < key r"
begin

lemma walk_from:
  assumes "feed_ok t" "0 < limit"
    and "length (filter (\<lambda>r. below c (key r)) t) < fuel"
  shows "keyset_walk key cursor_of limit fuel c t
    = filter (\<lambda>r. below c (key r)) (rev (sort_key key t))"
  using assms(3)
proof (induction fuel arbitrary: c)
  case (Suc fuel)
  let ?S = "rev (sort_key key t)"
  let ?R = "filter (\<lambda>r. below c (key r)) ?S"
  have desc: "sorted_wrt (\<lambda>r s. key s < key r) ?R"
    by (rule sorted_wrt_filter) (rule descending_rev_sort [OF key_distinct [OF assms(1)]])
  have count: "length (filter P ?S) = length (filter P t)" for P
    by (simp add: filter_sort rev_filter [symmetric])
  have page: "keyset_page key (limit + 1) c t = take (limit + 1) ?R"
    by (simp add: keyset_page_filter)
  show ?case
  proof (cases "length ?R \<le> limit")
    case True
    then show ?thesis using page by (simp add: cursor_page_def)
  next
    case False
    define l where "l = ?R ! (limit - 1)"
    define b where "b = cursor_of l"
    have cp: "cursor_page (keyset_page key (limit + 1) c t) limit cursor_of = (take limit ?R, Some b)"
      using False assms(2) page unfolding b_def l_def
      by (intro prod_eqI) (simp_all add: cursor_page_items cursor_page_next)
    have "l \<in> set ?R" using False assms(2) unfolding l_def by (intro nth_mem) simp
    then have l: "l \<in> set t" "below c (key l)" by simp_all
    have imp: "below (Some b) (key s) \<longleftrightarrow> below c (key s) \<and> key s < key l" if "s \<in> set t" for s
      using cursor_cuts [OF assms(1) l(1) that] l(2)
      by (auto simp: below_def b_def split: option.splits)
    have "filter (\<lambda>r. below (Some b) (key r)) ?S = filter (\<lambda>r. key r < key l) ?R"
      unfolding filter_filter by (rule filter_cong) (simp_all add: imp)
    also have "\<dots> = drop limit ?R"
      using descending_filter_drop [OF desc assms(2)] False unfolding l_def by simp
    finally have rest: "filter (\<lambda>r. below (Some b) (key r)) ?S = drop limit ?R" .
    have "length (filter (\<lambda>r. below (Some b) (key r)) t) < fuel"
      using arg_cong [OF rest, of length] count Suc.prems False assms(2) by simp
    then have "keyset_walk key cursor_of limit fuel (Some b) t = drop limit ?R"
      using Suc.IH [of "Some b"] rest by simp
    then show ?thesis using cp by simp
  qed
qed simp

lemma walk_complete:
  assumes "feed_ok t" "0 < limit" "length t < fuel"
  shows "keyset_walk key cursor_of limit fuel None t = rev (sort_key key t)"
  using walk_from [OF assms(1,2), of None fuel] assms(3) by (simp add: below_def)

end

text \<open>A feed whose cursor is the exact key of its row, over rows with distinct keys.\<close>

definition exact_feed_ok :: "('r \<Rightarrow> 'k) \<Rightarrow> 'r list \<Rightarrow> bool" where
  "exact_feed_ok key t = distinct (map key t)"

interpretation exact_feed: keyset_feed key key "exact_feed_ok key" for key :: "'r \<Rightarrow> 'k::linorder"
  by unfold_locales (simp_all add: exact_feed_ok_def)

end
