(* ===== verification/Outbox.thy ===== *)
theory Outbox
  imports Schema Pagination
begin

text \<open>
  The transactional outbox: \<open>src/outbox/outbox.repository.ts\<close>, its models and the paging
  helper it shares (\<open>src/common/pagination.ts\<close>). Every method of the repository is one
  definition, from its SQL; a method that runs one statement is one statement here.
  Dates computed by the service arrive in milliseconds, \<open>clock_timestamp()\<close> of the database
  in microseconds. Identifiers drawn by \<open>randomUUID()\<close> are arguments.
\<close>

section \<open>Queueing\<close>

record new_outbox_event =
  ne_event_type :: outbox_event_type
  ne_aggregate_id :: uuid
  ne_payload :: "string option"

definition new_outbox_row :: "uuid \<Rightarrow> new_outbox_event \<Rightarrow> pg_time \<Rightarrow> outbox_row" where
  "new_outbox_row i ev now =
     \<lparr> oe_id = i, oe_event_type = ne_event_type ev, oe_aggregate_id = ne_aggregate_id ev,
       oe_payload = (case ne_payload ev of None \<Rightarrow> ''{}'' | Some p \<Rightarrow> p),
       oe_status = Oe_pending, oe_attempts = 0, oe_available_at = now, oe_locked_at = None,
       oe_locked_by = None, oe_last_error_code = None, oe_created_at = now,
       oe_processed_at = None, oe_dead_lettered_at = None, oe_resolved_at = None,
       oe_resolved_by = None, oe_resolution_reason = None \<rparr>"

definition outbox_conflict :: "new_outbox_event \<Rightarrow> outbox_row \<Rightarrow> bool" where
  "outbox_conflict ev e \<longleftrightarrow> outbox_key e = (ne_event_type ev, ne_aggregate_id ev)"

text \<open>INSERT .. ON CONFLICT (event_type, aggregate_id) DO NOTHING; the value is rowCount = 1.\<close>

definition enqueue :: "uuid \<Rightarrow> new_outbox_event \<Rightarrow> pg_time \<Rightarrow> db \<Rightarrow> sql_error + bool \<times> db" where
  "enqueue i ev now d =
     (if sql_exists (outbox_conflict ev) (outbox_event d) then Inr (False, d)
      else and_then (write_outbox (outbox_event d @ [new_outbox_row i ev now]) d)
             (\<lambda>d'. Inr (True, d')))"

definition reset_outbox_row :: "pg_time \<Rightarrow> outbox_row \<Rightarrow> outbox_row" where
  "reset_outbox_row clk e =
     e\<lparr>oe_status := Oe_pending, oe_attempts := 0, oe_available_at := clk, oe_locked_at := None,
       oe_locked_by := None, oe_last_error_code := None, oe_processed_at := None,
       oe_dead_lettered_at := None, oe_resolved_at := None, oe_resolved_by := None,
       oe_resolution_reason := None\<rparr>"

definition requeue :: "uuid \<Rightarrow> new_outbox_event \<Rightarrow> pg_time \<Rightarrow> pg_time \<Rightarrow> db \<Rightarrow> sql_error + db" where
  "requeue i ev now clk d =
     (if sql_exists (outbox_conflict ev) (outbox_event d)
      then write_outbox (sql_update (outbox_conflict ev) (reset_outbox_row clk) (outbox_event d)) d
      else write_outbox (outbox_event d @ [new_outbox_row i ev now]) d)"

section \<open>Claims\<close>

definition claimable :: "js_time \<Rightarrow> js_time \<Rightarrow> outbox_row \<Rightarrow> bool" where
  "claimable now stale_before e \<longleftrightarrow>
     oe_status e = Oe_pending \<and> oe_available_at e \<le> pg_of_js now \<or>
     oe_status e = Oe_processing \<and>
       (case oe_locked_at e of None \<Rightarrow> False | Some l \<Rightarrow> l \<le> pg_of_js stale_before)"

definition claim_order :: "outbox_row \<Rightarrow> pg_time \<times> pg_time \<times> uuid" where
  "claim_order e = (oe_available_at e, oe_created_at e, oe_id e)"

definition claim_row :: "uuid \<Rightarrow> js_time \<Rightarrow> outbox_row \<Rightarrow> outbox_row" where
  "claim_row w now e =
     e\<lparr>oe_status := Oe_processing, oe_attempts := oe_attempts e + 1,
       oe_locked_at := Some (pg_of_js now), oe_locked_by := Some w\<rparr>"

definition claim_candidates ::
  "js_time \<Rightarrow> js_time \<Rightarrow> nat \<Rightarrow> (uuid \<Rightarrow> bool) \<Rightarrow> outbox_row list \<Rightarrow> outbox_row list" where
  "claim_candidates now stale_before limit locked t =
     sql_candidates (claimable now stale_before) claim_order (\<lambda>e. locked (oe_id e)) limit t"

text \<open>The claimed events come back as they are after the UPDATE (RETURNING).\<close>

definition claim_batch ::
  "uuid \<Rightarrow> js_time \<Rightarrow> js_time \<Rightarrow> nat \<Rightarrow> (uuid \<Rightarrow> bool) \<Rightarrow> db \<Rightarrow> sql_error + outbox_row list \<times> db" where
  "claim_batch w now stale_before limit locked d =
     (let c = claim_candidates now stale_before limit locked (outbox_event d);
          chosen = (\<lambda>e. oe_id e \<in> set (map oe_id c));
          t = sql_update chosen (claim_row w now) (outbox_event d)
      in and_then (write_outbox t d) (\<lambda>d'. Inr (filter chosen t, d')))"

definition owned :: "uuid \<Rightarrow> uuid \<Rightarrow> outbox_row \<Rightarrow> bool" where
  "owned i w e \<longleftrightarrow> oe_id e = i \<and> oe_status e = Oe_processing \<and> oe_locked_by e = Some w"

definition renew_claim :: "uuid \<Rightarrow> uuid \<Rightarrow> pg_time \<Rightarrow> db \<Rightarrow> sql_error + bool \<times> db" where
  "renew_claim i w clk d =
     and_then (write_outbox (sql_update (owned i w) (\<lambda>e. e\<lparr>oe_locked_at := Some clk\<rparr>) (outbox_event d)) d)
       (\<lambda>d'. Inr (sql_count (owned i w) (outbox_event d) = 1, d'))"

definition complete_row :: "js_time \<Rightarrow> outbox_row \<Rightarrow> outbox_row" where
  "complete_row processed_at e =
     e\<lparr>oe_status := Oe_completed, oe_processed_at := Some (pg_of_js processed_at),
       oe_locked_at := None, oe_locked_by := None, oe_last_error_code := None,
       oe_dead_lettered_at := None\<rparr>"

definition complete :: "uuid \<Rightarrow> uuid \<Rightarrow> js_time \<Rightarrow> db \<Rightarrow> sql_error + bool \<times> db" where
  "complete i w processed_at d =
     and_then (write_outbox (sql_update (owned i w) (complete_row processed_at) (outbox_event d)) d)
       (\<lambda>d'. Inr (sql_count (owned i w) (outbox_event d) = 1, d'))"

datatype retry_result = Retry_pending | Retry_dead_letter | Not_owned

definition reschedule_row ::
  "js_time \<Rightarrow> string \<Rightarrow> nat \<Rightarrow> pg_time \<Rightarrow> outbox_row \<Rightarrow> outbox_row" where
  "reschedule_row available_at code max_attempts clk e =
     e\<lparr>oe_status := (if max_attempts \<le> oe_attempts e then Oe_dead_letter else Oe_pending),
       oe_available_at := pg_of_js available_at, oe_locked_at := None, oe_locked_by := None,
       oe_last_error_code := Some code,
       oe_dead_lettered_at := (if max_attempts \<le> oe_attempts e then Some clk else None)\<rparr>"

definition reschedule ::
  "uuid \<Rightarrow> uuid \<Rightarrow> js_time \<Rightarrow> string \<Rightarrow> nat \<Rightarrow> pg_time \<Rightarrow> db \<Rightarrow> sql_error + retry_result \<times> db" where
  "reschedule i w available_at code max_attempts clk d =
     (let f = reschedule_row available_at code max_attempts clk in
      and_then (write_outbox (sql_update (owned i w) f (outbox_event d)) d)
        (\<lambda>d'. Inr (case map_option (oe_status \<circ> f) (sql_first (owned i w) (outbox_event d)) of
                     Some Oe_pending \<Rightarrow> Retry_pending
                   | Some Oe_dead_letter \<Rightarrow> Retry_dead_letter
                   | _ \<Rightarrow> Not_owned, d')))"

section \<open>Cleanup\<close>

definition older_than :: "js_time \<Rightarrow> pg_time option \<Rightarrow> bool" where
  "older_than before o' = (case o' of None \<Rightarrow> False | Some t \<Rightarrow> t \<le> pg_of_js before)"

definition cleanup_at :: "outbox_row \<Rightarrow> pg_time" where
  "cleanup_at e = (case (if oe_status e = Oe_completed then oe_processed_at e else oe_resolved_at e)
     of None \<Rightarrow> 0 | Some t \<Rightarrow> t)"

definition purge_candidates :: "js_time \<Rightarrow> nat \<Rightarrow> outbox_row list \<Rightarrow> outbox_row list" where
  "purge_candidates before limit t =
     (let key = (\<lambda>e. (cleanup_at e, oe_id e));
          completed = sql_page key limit
            (filter (\<lambda>e. oe_status e = Oe_completed \<and> older_than before (oe_processed_at e)) t);
          discarded = sql_page key limit
            (filter (\<lambda>e. oe_status e = Oe_discarded \<and> older_than before (oe_resolved_at e)) t)
      in sql_page key limit (completed @ discarded))"

definition purge_completed :: "js_time \<Rightarrow> nat \<Rightarrow> db \<Rightarrow> nat \<times> db" where
  "purge_completed before limit d =
     (let ids = map oe_id (purge_candidates before limit (outbox_event d));
          doomed = (\<lambda>e. oe_id e \<in> set ids)
      in (sql_count doomed (outbox_event d), delete_outbox doomed d))"

section \<open>Dead letters\<close>

definition dead_letter_key :: "outbox_row \<Rightarrow> pg_time \<times> uuid" where
  "dead_letter_key e = (case oe_dead_lettered_at e of None \<Rightarrow> 0 | Some t \<Rightarrow> t, oe_id e)"

definition list_dead_letters :: "nat \<Rightarrow> (pg_time \<times> uuid) option \<Rightarrow> db \<Rightarrow> outbox_row list" where
  "list_dead_letters limit cursor d =
     keyset_page dead_letter_key limit cursor
       (filter (\<lambda>e. oe_status e = Oe_dead_letter) (outbox_event d))"

section \<open>Operator decisions\<close>

datatype operator_result = Updated | Not_found | Not_dead_letter | Discard_not_allowed

record outbox_operator =
  op_user_id :: uuid
  op_role :: role

definition operator_action_of ::
  "outbox_row \<Rightarrow> outbox_operator \<Rightarrow> operator_action \<Rightarrow> string \<Rightarrow> pg_time \<Rightarrow> operator_action_row" where
  "operator_action_of e op act reason clk =
     \<lparr> oa_event_id = Some (oe_id e), oa_administrator_id = op_user_id op,
       oa_administrator_role = op_role op, oa_event_type = oe_event_type e, oa_action = act,
       oa_reason = reason, oa_created_at = clk \<rparr>"

text \<open>
  \<open>outbox_operator_action_reason_check\<close> and \<open>.._role_check\<close>.
\<close>

definition write_operator_action :: "operator_action_row \<Rightarrow> db \<Rightarrow> sql_error + db" where
  "write_operator_action r d =
     (if 3 \<le> length (oa_reason r) \<and> length (oa_reason r) \<le> 500 \<and>
         oa_administrator_role r \<in> {Admin, Superadmin}
      then Inr (d\<lparr>outbox_operator_action := outbox_operator_action d @ [r]\<rparr>)
      else Inl Check_violation)"

definition discard_row :: "uuid \<Rightarrow> string \<Rightarrow> pg_time \<Rightarrow> outbox_row \<Rightarrow> outbox_row" where
  "discard_row op_id reason clk e =
     e\<lparr>oe_status := Oe_discarded, oe_locked_at := None, oe_locked_by := None,
       oe_processed_at := None, oe_resolved_at := Some clk, oe_resolved_by := Some op_id,
       oe_resolution_reason := Some reason\<rparr>"

definition discard_allowed :: "outbox_row \<Rightarrow> db \<Rightarrow> bool" where
  "discard_allowed e d \<longleftrightarrow>
     oe_event_type e = Notification_push \<or>
     oe_event_type e = Photo_delete \<and>
       \<not> sql_exists (\<lambda>p. up_id p = oe_aggregate_id e) (user_photo d)"

definition resolve_dead_letter ::
  "uuid \<Rightarrow> outbox_operator \<Rightarrow> string \<Rightarrow> operator_action \<Rightarrow> pg_time \<Rightarrow> db
    \<Rightarrow> sql_error + operator_result \<times> db" where
  "resolve_dead_letter i op reason act clk d =
     (case sql_first (\<lambda>e. oe_id e = i) (outbox_event d) of
        None \<Rightarrow> Inr (Not_found, d)
      | Some e \<Rightarrow>
          if oe_status e \<noteq> Oe_dead_letter then Inr (Not_dead_letter, d)
          else if act = Discard \<and> \<not> discard_allowed e d then Inr (Discard_not_allowed, d)
          else and_then (write_operator_action (operator_action_of e op act reason clk) d)
            (\<lambda>d1. and_then
              (write_outbox (sql_update (\<lambda>r. oe_id r = i)
                 (if act = Retry then reset_outbox_row clk
                  else discard_row (op_user_id op) reason clk) (outbox_event d1)) d1)
              (\<lambda>d2. Inr (Updated, d2))))"

section \<open>Status snapshot\<close>

definition status_count :: "(outbox_event_type \<Rightarrow> bool) \<Rightarrow> outbox_status \<Rightarrow> outbox_row list \<Rightarrow> nat" where
  "status_count ty s t = sql_count (\<lambda>e. ty (oe_event_type e) \<and> oe_status e = s) t"

definition oldest_pending :: "(outbox_event_type \<Rightarrow> bool) \<Rightarrow> outbox_row list \<Rightarrow> pg_time option" where
  "oldest_pending ty t =
     (case map oe_available_at (filter (\<lambda>e. ty (oe_event_type e) \<and> oe_status e = Oe_pending) t) of
        [] \<Rightarrow> None | x # xs \<Rightarrow> Some (fold min xs x))"

definition billing_event :: "outbox_event_type \<Rightarrow> bool" where
  "billing_event ty \<longleftrightarrow> ty = Billing_subscription_reconcile \<or> ty = Billing_customer_reconcile"

record outbox_snapshot =
  os_pending :: nat
  os_processing :: nat
  os_dead_letter :: nat
  os_discarded :: nat
  os_oldest_pending_at :: "pg_time option"
  os_push :: "nat \<times> nat \<times> nat \<times> nat \<times> nat \<times> pg_time option"
  os_billing :: "nat \<times> nat \<times> nat \<times> nat \<times> pg_time option"

definition status_snapshot :: "db \<Rightarrow> outbox_snapshot" where
  "status_snapshot d =
     (let t = outbox_event d; all = (\<lambda>_. True); push = (\<lambda>ty. ty = Notification_push) in
      \<lparr> os_pending = status_count all Oe_pending t,
        os_processing = status_count all Oe_processing t,
        os_dead_letter = status_count all Oe_dead_letter t,
        os_discarded = status_count all Oe_discarded t,
        os_oldest_pending_at = oldest_pending all t,
        os_push = (status_count push Oe_pending t, status_count push Oe_processing t,
          status_count push Oe_completed t, status_count push Oe_dead_letter t,
          status_count push Oe_discarded t, oldest_pending push t),
        os_billing = (status_count billing_event Oe_pending t,
          status_count billing_event Oe_processing t, status_count billing_event Oe_completed t,
          status_count billing_event Oe_dead_letter t, oldest_pending billing_event t) \<rparr>)"

section \<open>Every statement keeps the constraints of the table\<close>

text \<open>
  One lemma per row transformation: it keeps the CHECK constraints, and it leaves the primary
  key and the (type, aggregate) key alone. The statement lemmas then say that the statement
  does not raise, and what the table is afterwards.
\<close>

lemma row_keys [simp]:
  "oe_id (claim_row w now e) = oe_id e" "outbox_key (claim_row w now e) = outbox_key e"
  "oe_id (complete_row p e) = oe_id e" "outbox_key (complete_row p e) = outbox_key e"
  "oe_id (reschedule_row a c m k e) = oe_id e" "outbox_key (reschedule_row a c m k e) = outbox_key e"
  "oe_id (reset_outbox_row k e) = oe_id e" "outbox_key (reset_outbox_row k e) = outbox_key e"
  "oe_id (discard_row u r k e) = oe_id e" "outbox_key (discard_row u r k e) = outbox_key e"
  by (simp_all add: claim_row_def complete_row_def reschedule_row_def reset_outbox_row_def
      discard_row_def outbox_key_def)

lemma claim_row_ok:
  assumes "outbox_row_ok e" "claimable now stale e" "oe_attempts e < 100"
  shows "outbox_row_ok (claim_row w now e)"
  using assms by (auto simp: outbox_row_ok_def claim_row_def claimable_def split: option.splits)

lemma claim_row_blocked: "100 \<le> oe_attempts e \<Longrightarrow> \<not> outbox_row_ok (claim_row w now e)"
  by (simp add: outbox_row_ok_def claim_row_def)

lemma complete_row_ok: "outbox_row_ok e \<Longrightarrow> owned i w e \<Longrightarrow> outbox_row_ok (complete_row p e)"
  by (auto simp: outbox_row_ok_def complete_row_def owned_def split: option.splits)

lemma renew_row_ok:
  "outbox_row_ok e \<Longrightarrow> owned i w e \<Longrightarrow> outbox_row_ok (e\<lparr>oe_locked_at := Some clk\<rparr>)"
  by (auto simp: outbox_row_ok_def owned_def split: option.splits)

lemma reschedule_row_ok:
  "outbox_row_ok e \<Longrightarrow> owned i w e \<Longrightarrow> error_code_ok c \<Longrightarrow> outbox_row_ok (reschedule_row a c m k e)"
  by (auto simp: outbox_row_ok_def reschedule_row_def owned_def split: option.splits)

lemma reset_outbox_row_ok: "outbox_row_ok (reset_outbox_row clk e)"
  by (simp add: outbox_row_ok_def reset_outbox_row_def)

lemma discard_row_ok:
  "outbox_row_ok e \<Longrightarrow> oe_status e = Oe_dead_letter \<Longrightarrow> 3 \<le> length r \<Longrightarrow> length r \<le> 500 \<Longrightarrow>
     outbox_row_ok (discard_row u r clk e)"
  by (auto simp: outbox_row_ok_def discard_row_def split: option.splits)

lemma new_outbox_row_ok: "outbox_row_ok (new_outbox_row i ev now)"
  by (simp add: outbox_row_ok_def new_outbox_row_def)

lemmas row_ok_facts = claim_row_ok complete_row_ok renew_row_ok reschedule_row_ok
  reset_outbox_row_ok discard_row_ok new_outbox_row_ok

lemma owned_count:
  assumes "outbox_table_ok t"
  shows "sql_count (owned i w) t = 1 \<longleftrightarrow> sql_exists (owned i w) t"
  by (rule sql_count_1_iff_exists [where k = oe_id and x = i])
    (use assms in \<open>auto simp: outbox_table_ok_def owned_def\<close>)

lemma complete_ok:
  assumes "outbox_table_ok (outbox_event d)"
  shows "complete i w p d = Inr (sql_exists (owned i w) (outbox_event d),
    d\<lparr>outbox_event := sql_update (owned i w) (complete_row p) (outbox_event d)\<rparr>)"
    and "outbox_table_ok (sql_update (owned i w) (complete_row p) (outbox_event d))"
proof -
  show ok: "outbox_table_ok (sql_update (owned i w) (complete_row p) (outbox_event d))"
    by (rule outbox_table_ok_update [OF assms]) (auto intro: complete_row_ok)
  show "complete i w p d = Inr (sql_exists (owned i w) (outbox_event d),
    d\<lparr>outbox_event := sql_update (owned i w) (complete_row p) (outbox_event d)\<rparr>)"
    using owned_count [OF assms, of i w] by (simp add: complete_def write_outbox_ok [OF ok])
qed

lemma renew_claim_ok:
  assumes "outbox_table_ok (outbox_event d)"
  shows "renew_claim i w clk d = Inr (sql_exists (owned i w) (outbox_event d),
    d\<lparr>outbox_event := sql_update (owned i w) (\<lambda>e. e\<lparr>oe_locked_at := Some clk\<rparr>) (outbox_event d)\<rparr>)"
    and "outbox_table_ok (sql_update (owned i w) (\<lambda>e. e\<lparr>oe_locked_at := Some clk\<rparr>) (outbox_event d))"
proof -
  show ok: "outbox_table_ok (sql_update (owned i w) (\<lambda>e. e\<lparr>oe_locked_at := Some clk\<rparr>) (outbox_event d))"
    by (rule outbox_table_ok_update [OF assms]) (auto intro: renew_row_ok simp: outbox_key_def)
  show "renew_claim i w clk d = Inr (sql_exists (owned i w) (outbox_event d),
    d\<lparr>outbox_event := sql_update (owned i w) (\<lambda>e. e\<lparr>oe_locked_at := Some clk\<rparr>) (outbox_event d)\<rparr>)"
    using owned_count [OF assms, of i w] by (simp add: renew_claim_def write_outbox_ok [OF ok])
qed

lemma reschedule_ok:
  assumes "outbox_table_ok (outbox_event d)" "error_code_ok c"
  shows "reschedule i w a c m clk d = Inr
    (case sql_first (owned i w) (outbox_event d) of
       None \<Rightarrow> Not_owned
     | Some e \<Rightarrow> if m \<le> oe_attempts e then Retry_dead_letter else Retry_pending,
     d\<lparr>outbox_event := sql_update (owned i w) (reschedule_row a c m clk) (outbox_event d)\<rparr>)"
    and "outbox_table_ok (sql_update (owned i w) (reschedule_row a c m clk) (outbox_event d))"
proof -
  show ok: "outbox_table_ok (sql_update (owned i w) (reschedule_row a c m clk) (outbox_event d))"
    by (rule outbox_table_ok_update [OF assms(1)]) (auto intro: reschedule_row_ok assms(2))
  show "reschedule i w a c m clk d = Inr
    (case sql_first (owned i w) (outbox_event d) of
       None \<Rightarrow> Not_owned
     | Some e \<Rightarrow> if m \<le> oe_attempts e then Retry_dead_letter else Retry_pending,
     d\<lparr>outbox_event := sql_update (owned i w) (reschedule_row a c m clk) (outbox_event d)\<rparr>)"
    by (simp add: reschedule_def write_outbox_ok [OF ok] reschedule_row_def split: option.split)
qed

lemma claim_candidates_facts:
  assumes "outbox_table_ok t"
  shows "set (claim_candidates now stale n locked t) \<subseteq> set t"
    and "distinct (claim_candidates now stale n locked t)"
    and "length (claim_candidates now stale n locked t) \<le> n"
    and "e \<in> set (claim_candidates now stale n locked t) \<Longrightarrow>
      claimable now stale e \<and> \<not> locked (oe_id e)"
  using sql_candidatesD [of e "claimable now stale" claim_order "\<lambda>e. locked (oe_id e)" n t]
    distinct_sql_candidates [OF distinct_key_distinct [OF outbox_table_okD(2) [OF assms]]]
  by (simp_all add: claim_candidates_def length_sql_candidates sql_candidates_subset)

text \<open>The claim in terms of its candidates: each is updated, nothing else is.\<close>

definition claimed_table ::
  "uuid \<Rightarrow> js_time \<Rightarrow> outbox_row list \<Rightarrow> outbox_row list \<Rightarrow> outbox_row list" where
  "claimed_table w now c t = sql_update (\<lambda>e. e \<in> set c) (claim_row w now) t"

lemma claim_batch_eq:
  assumes "outbox_table_ok (outbox_event d)"
    and c: "c = claim_candidates now stale n locked (outbox_event d)"
  shows "claim_batch w now stale n locked d =
    and_then (write_outbox (claimed_table w now c (outbox_event d)) d)
      (\<lambda>d'. Inr (map (claim_row w now) (filter (\<lambda>e. e \<in> set c) (outbox_event d)), d'))"
proof -
  let ?t = "outbox_event d"
  have "\<And>e. e \<in> set ?t \<Longrightarrow> oe_id e \<in> set (map oe_id c) \<longleftrightarrow> e \<in> set c"
    using in_candidate_ids [OF outbox_table_okD(2) [OF assms(1)]] claim_candidates_facts(1) [OF assms(1)]
    unfolding c by blast
  then have upd: "sql_update (\<lambda>e. oe_id e \<in> set (map oe_id c)) (claim_row w now) ?t
      = claimed_table w now c ?t"
    and flt: "filter (\<lambda>e. oe_id e \<in> set (map oe_id c)) ?t = filter (\<lambda>e. e \<in> set c) ?t"
    by (auto simp: claimed_table_def sql_update_def cong: filter_cong)
  have ret: "filter (\<lambda>e. oe_id e \<in> set (map oe_id c)) (sql_update P (claim_row w now) ?t)
      = map (\<lambda>e. if P e then claim_row w now e else e)
          (filter (\<lambda>e. oe_id e \<in> set (map oe_id c)) ?t)" for P
    by (simp add: sql_update_def filter_map comp_def if_distrib)
  have all: "map (\<lambda>e. if oe_id e \<in> set (map oe_id c) then claim_row w now e else e)
      (filter (\<lambda>e. oe_id e \<in> set (map oe_id c)) ?t)
    = map (claim_row w now) (filter (\<lambda>e. oe_id e \<in> set (map oe_id c)) ?t)"
    by (rule map_cong) auto
  show ?thesis
    unfolding claim_batch_def Let_def c [symmetric] ret all unfolding flt upd by (rule refl)
qed

lemma claimed_table_ok:
  assumes "outbox_table_ok (outbox_event d)"
    and "c = claim_candidates now stale n locked (outbox_event d)"
    and "\<And>e. e \<in> set c \<Longrightarrow> oe_attempts e < 100"
  shows "outbox_table_ok (claimed_table w now c (outbox_event d))"
  unfolding claimed_table_def
proof (rule outbox_table_ok_update [OF assms(1)])
  show "outbox_row_ok (claim_row w now e)"
    if "e \<in> set (outbox_event d)" "e \<in> set c" "outbox_row_ok e" for e
    using claim_candidates_facts(4) [OF assms(1)] that assms(2,3) by (blast intro: claim_row_ok)
qed simp_all

lemma claim_batch_Inr_iff:
  assumes "outbox_table_ok (outbox_event d)"
    and "c = claim_candidates now stale n locked (outbox_event d)"
  shows "claim_batch w now stale n locked d = Inr (evs, d') \<longleftrightarrow>
    (\<forall>e \<in> set c. oe_attempts e < 100) \<and>
    evs = map (claim_row w now) (filter (\<lambda>e. e \<in> set c) (outbox_event d)) \<and>
    d' = d\<lparr>outbox_event := claimed_table w now c (outbox_event d)\<rparr>"
proof -
  have sub: "set c \<subseteq> set (outbox_event d)"
    using claim_candidates_facts(1) [OF assms(1)] assms(2) by blast
  have "outbox_table_ok (claimed_table w now c (outbox_event d)) \<longleftrightarrow> (\<forall>e \<in> set c. oe_attempts e < 100)"
  proof
    assume ok: "outbox_table_ok (claimed_table w now c (outbox_event d))"
    show "\<forall>e \<in> set c. oe_attempts e < 100"
    proof
      fix e assume "e \<in> set c"
      then have "claim_row w now e \<in> set (claimed_table w now c (outbox_event d))"
        using sub by (auto simp: claimed_table_def set_sql_update)
      then have "outbox_row_ok (claim_row w now e)" using ok outbox_table_okD(1) by blast
      then show "oe_attempts e < 100" using claim_row_blocked [of e w now] by (meson not_less)
    qed
  next
    assume "\<forall>e \<in> set c. oe_attempts e < 100"
    then show "outbox_table_ok (claimed_table w now c (outbox_event d))"
      using claimed_table_ok [OF assms] by blast
  qed
  then show ?thesis
    unfolding claim_batch_eq [OF assms]
    by (auto simp: and_then_Inr_iff write_outbox_Inr_iff)
qed

lemma claim_count:
  assumes "outbox_table_ok (outbox_event d)"
    and "c = claim_candidates now stale n locked (outbox_event d)"
  shows "length (filter (\<lambda>e. e \<in> set c) (outbox_event d)) = length c"
    and "set (filter (\<lambda>e. e \<in> set c) (outbox_event d)) = set c"
proof -
  have sub: "set c \<subseteq> set (outbox_event d)" and dist: "distinct c"
    using claim_candidates_facts(1,2) [OF assms(1)] assms(2) by blast+
  show *: "set (filter (\<lambda>e. e \<in> set c) (outbox_event d)) = set c" using sub by auto
  have "distinct (filter (\<lambda>e. e \<in> set c) (outbox_event d))"
    using outbox_table_okD(2) [OF assms(1)] by (simp add: distinct_key_distinct)
  then show "length (filter (\<lambda>e. e \<in> set c) (outbox_event d)) = length c"
    using * dist by (metis distinct_card)
qed

end
