(* ===== verification/Outbox_Lifecycle.thy ===== *)
theory Outbox_Lifecycle
  imports Outbox
begin

text \<open>
  What the outbox promises its clients: the claim, the lease of a claimed event, the life of an
  event through its statuses under any interleaving of workers, producers and operators, the
  operator decisions, the cleanup and the dead-letter listing.
\<close>

section \<open>The claim\<close>


text \<open>A small outbox: a due photo deletion and a push that a crashed worker left behind.\<close>

definition sample_event :: outbox_row where
  "sample_event = new_outbox_row ''e1''
     \<lparr>ne_event_type = Photo_delete, ne_aggregate_id = ''p1'', ne_payload = None\<rparr> 1000"

definition sample_stale :: outbox_row where
  "sample_stale = claim_row ''w0'' 2 (new_outbox_row ''e2''
     \<lparr>ne_event_type = Notification_push, ne_aggregate_id = ''n1'', ne_payload = None\<rparr> 2000)"

definition sample_outbox :: db where
  "sample_outbox = empty_db\<lparr>outbox_event := [sample_event, sample_stale]\<rparr>"

lemmas sample_outbox_defs = sample_outbox_def sample_event_def sample_stale_def empty_db_def
  new_outbox_row_def claim_row_def

lemma sample_outbox_ok: "outbox_table_ok (outbox_event sample_outbox)"
  by (simp add: sample_outbox_defs outbox_table_ok_def outbox_row_ok_def outbox_key_def)


section \<open>Stale claims and the attempts column\<close>

text \<open>The claim has no attempt limit of its own: once a candidate of the batch has been
  claimed a hundred times (a handler that kills its process leaves the event to be claimed again
  after each lock timeout), the CHECK constraint \<open>attempts <= 100\<close> makes the whole statement
  raise. No event is claimed, whoever asks, until that row is changed by hand.\<close>

theorem claim_cap_blocks_queue:
  assumes "outbox_table_ok (outbox_event d)"
    and "e \<in> set (claim_candidates now stale n locked (outbox_event d))"
    and "100 \<le> oe_attempts e"
  shows "claim_batch w now stale n locked d = Inl Check_violation"
proof -
  define c where "c = claim_candidates now stale n locked (outbox_event d)"
  have "e \<in> set (outbox_event d)" "e \<in> set c"
    using claim_candidates_facts(1) [OF assms(1)] assms(2) c_def by blast+
  then have "claim_row w now e \<in> set (claimed_table w now c (outbox_event d))"
    by (auto simp: claimed_table_def set_sql_update)
  with claim_row_blocked [OF assms(3)] have "\<not> list_all outbox_row_ok (claimed_table w now c (outbox_event d))"
    by (auto simp: list_all_iff)
  then show ?thesis
    by (simp add: claim_batch_eq [OF assms(1) c_def] write_outbox_def)
qed

definition poisoned_outbox :: db where
  "poisoned_outbox = empty_db\<lparr>outbox_event := [sample_stale\<lparr>oe_attempts := 100\<rparr>, sample_event]\<rparr>"

lemma poisoned_outbox_ok: "outbox_table_ok (outbox_event poisoned_outbox)"
  by (simp add: poisoned_outbox_def sample_outbox_defs outbox_table_ok_def outbox_row_ok_def
      outbox_key_def)

theorem claim_cap_blocks_queue_witness:
  "claim_batch ''w1'' 10 5 50 (\<lambda>_. False) poisoned_outbox = Inl Check_violation"
proof (rule claim_cap_blocks_queue [OF poisoned_outbox_ok])
  show "sample_stale\<lparr>oe_attempts := 100\<rparr> \<in> set (claim_candidates 10 5 50 (\<lambda>_. False)
      (outbox_event poisoned_outbox))"
    by (simp add: poisoned_outbox_def sample_outbox_defs claim_candidates_def sql_candidates_def
        sql_page_def claimable_def claim_order_def pg_of_js_def)
qed simp

section \<open>The lease\<close>

text \<open>
  A claimed event is held by one worker. The contract: reporting the end of a job is
  accepted from its holder only, takes the job away from it, and changes nothing when it is
  refused. Both \<open>complete\<close> and \<open>reschedule\<close> are such reports.
\<close>

text \<open>The workers of a list report, in this order, on the same job: which reports count.\<close>

fun job_reports :: "(uuid \<Rightarrow> uuid \<Rightarrow> 's \<Rightarrow> (bool \<times> 's) option) \<Rightarrow> uuid \<Rightarrow> uuid list \<Rightarrow> 's \<Rightarrow> bool list" where
  "job_reports report i [] s = []"
| "job_reports report i (w # ws) s =
     (case report i w s of None \<Rightarrow> [] | Some (b, s') \<Rightarrow> b # job_reports report i ws s')"

locale leased_jobs =
  fixes holder :: "'s \<Rightarrow> uuid \<Rightarrow> uuid option"
    and report :: "uuid \<Rightarrow> uuid \<Rightarrow> 's \<Rightarrow> (bool \<times> 's) option"
    and inv :: "'s \<Rightarrow> bool"
  assumes report_runs: "inv s \<Longrightarrow> \<exists>b s'. report i w s = Some (b, s') \<and> inv s'"
    and report_holder: "inv s \<Longrightarrow> report i w s = Some (b, s') \<Longrightarrow> b \<longleftrightarrow> holder s i = Some w"
    and report_accepted: "inv s \<Longrightarrow> report i w s = Some (True, s') \<Longrightarrow>
      holder s' i = None \<and> (\<forall>j. j \<noteq> i \<longrightarrow> holder s' j = holder s j)"
    and report_refused: "inv s \<Longrightarrow> report i w s = Some (False, s') \<Longrightarrow> s' = s"
begin

lemma reports_unheld:
  "inv s \<Longrightarrow> holder s i = None \<Longrightarrow> job_reports report i ws s = map (\<lambda>_. False) ws"
proof (induction ws)
  case (Cons w ws)
  from report_runs [OF Cons.prems(1)] obtain b s' where r: "report i w s = Some (b, s')" by blast
  with report_holder [OF Cons.prems(1) r] Cons.prems(2) have "\<not> b" by simp
  with r report_refused [OF Cons.prems(1), of i w s'] have "s' = s" by simp
  with r \<open>\<not> b\<close> Cons show ?case by simp
qed simp

lemma length_reports: "inv s \<Longrightarrow> length (job_reports report i ws s) = length ws"
proof (induction ws arbitrary: s)
  case (Cons w ws)
  from report_runs [OF Cons.prems] obtain b s' where "report i w s = Some (b, s')" "inv s'"
    by blast
  with Cons.IH show ?case by simp
qed simp

lemma at_most_one_report_counts:
  "inv s \<Longrightarrow> length (filter id (job_reports report i ws s)) \<le> 1"
proof (induction ws arbitrary: s)
  case (Cons w ws)
  from report_runs [OF Cons.prems] obtain b s' where r: "report i w s = Some (b, s')" and "inv s'"
    by blast
  show ?case
  proof (cases b)
    case True
    with r have "holder s' i = None" using report_accepted [OF Cons.prems, of i w s'] by simp
    then have "job_reports report i ws s' = map (\<lambda>_. False) ws" by (rule reports_unheld [OF \<open>inv s'\<close>])
    then show ?thesis using r by (simp add: comp_def)
  next
    case False
    then show ?thesis using r Cons.IH [OF \<open>inv s'\<close>] by simp
  qed
qed simp

end

text \<open>The outbox provides it: the holder of an event is the worker that locks it.\<close>

definition holder :: "db \<Rightarrow> uuid \<Rightarrow> uuid option" where
  "holder d i = (case sql_first (\<lambda>e. oe_id e = i) (outbox_event d) of
     None \<Rightarrow> None
   | Some e \<Rightarrow> if oe_status e = Oe_processing then oe_locked_by e else None)"

definition outbox_inv :: "db \<Rightarrow> bool" where
  "outbox_inv d = outbox_table_ok (outbox_event d)"

definition report_complete :: "js_time \<Rightarrow> uuid \<Rightarrow> uuid \<Rightarrow> db \<Rightarrow> (bool \<times> db) option" where
  "report_complete p i w d = (case complete i w p d of Inl _ \<Rightarrow> None | Inr r \<Rightarrow> Some r)"

definition report_failure ::
  "js_time \<Rightarrow> string \<Rightarrow> nat \<Rightarrow> pg_time \<Rightarrow> uuid \<Rightarrow> uuid \<Rightarrow> db \<Rightarrow> (bool \<times> db) option" where
  "report_failure a c m clk i w d =
     (case reschedule i w a c m clk d of
        Inl _ \<Rightarrow> None | Inr (r, d') \<Rightarrow> Some (r \<noteq> Not_owned, d'))"

lemma exists_owned_iff:
  assumes "outbox_table_ok (outbox_event d)"
  shows "sql_exists (owned i w) (outbox_event d) \<longleftrightarrow> holder d i = Some w"
proof (cases "sql_first (\<lambda>e. oe_id e = i) (outbox_event d)")
  case None
  then have "holder d i = None" by (simp add: holder_def)
  moreover have "\<forall>e \<in> set (outbox_event d). oe_id e \<noteq> i"
    using None by (simp add: sql_first_None_iff)
  then have "\<not> sql_exists (owned i w) (outbox_event d)" by (auto simp: sql_exists_iff owned_def)
  ultimately show ?thesis by simp
next
  case (Some e)
  then have e: "e \<in> set (outbox_event d)" "oe_id e = i" by (auto dest: sql_first_SomeD)
  have "x = e" if "x \<in> set (outbox_event d)" "oe_id x = i" for x
    using distinct_keyD [OF outbox_table_okD(2) [OF assms] that(1) e(1)] that(2) e(2) by simp
  then have "sql_exists (owned i w) (outbox_event d) \<longleftrightarrow> owned i w e"
    using e(1) by (auto simp: sql_exists_iff owned_def)
  then show ?thesis using Some e(2) by (simp add: holder_def owned_def)
qed

lemma first_owned:
  "sql_first (owned i w) t = None \<longleftrightarrow> \<not> sql_exists (owned i w) t"
  by (auto simp: sql_first_None_iff sql_exists_iff)

lemma holder_update_other:
  assumes "\<And>e. oe_id (f e) = oe_id e" "j \<noteq> i"
  shows "holder (d\<lparr>outbox_event := sql_update (owned i w) f (outbox_event d)\<rparr>) j = holder d j"
proof (cases "sql_first (\<lambda>e. oe_id e = j) (outbox_event d)")
  case None
  then show ?thesis
    by (simp add: holder_def sql_first_update_key [where k = oe_id and f = f, OF assms(1)])
next
  case (Some e)
  have "oe_id e = j" using sql_first_SomeD [OF Some] by simp
  with assms(2) Some show ?thesis
    by (simp add: holder_def sql_first_update_key [where k = oe_id and f = f, OF assms(1)] owned_def)
qed

lemma holder_update_same:
  assumes "outbox_table_ok (outbox_event d)" "holder d i = Some w"
    and "\<And>e. oe_id (f e) = oe_id e" "\<And>e. oe_status (f e) \<noteq> Oe_processing"
  shows "holder (d\<lparr>outbox_event := sql_update (owned i w) f (outbox_event d)\<rparr>) i = None"
proof -
  from assms(2) obtain e where e: "sql_first (\<lambda>e. oe_id e = i) (outbox_event d) = Some e"
    and "oe_status e = Oe_processing" "oe_locked_by e = Some w"
    by (auto simp: holder_def split: option.splits if_splits)
  moreover have "oe_id e = i" using sql_first_SomeD [OF e] by simp
  ultimately show ?thesis
    using assms(4) by (simp add: holder_def sql_first_update_key [where k = oe_id and f = f, OF assms(3)] owned_def)
qed

lemma unowned_update:
  "\<not> sql_exists (owned i w) (outbox_event d) \<Longrightarrow>
     d\<lparr>outbox_event := sql_update (owned i w) f (outbox_event d)\<rparr> = d"
  by (simp add: sql_update_id sql_exists_iff)

lemma report_complete_eq:
  assumes "outbox_inv s"
  shows "report_complete p i w s = Some (holder s i = Some w,
    s\<lparr>outbox_event := sql_update (owned i w) (complete_row p) (outbox_event s)\<rparr>)"
  using complete_ok(1) [OF assms [unfolded outbox_inv_def], of i w p]
    exists_owned_iff [OF assms [unfolded outbox_inv_def], of i w]
  by (simp add: report_complete_def)

interpretation completion: leased_jobs holder "report_complete p" outbox_inv for p
proof (unfold_locales, goal_cases)
  case (1 s i w)
  then show ?case
    using complete_ok(2) [of s i w p] by (simp add: report_complete_eq outbox_inv_def)
next
  case (2 s i w b s')
  then show ?case by (simp add: report_complete_eq)
next
  case (3 s i w s')
  then have h: "holder s i = Some w"
    and s': "s' = s\<lparr>outbox_event := sql_update (owned i w) (complete_row p) (outbox_event s)\<rparr>"
    by (simp_all add: report_complete_eq)
  have "outbox_table_ok (outbox_event s)" using 3(1) by (simp add: outbox_inv_def)
  then have "holder s' i = None"
    unfolding s' by (rule holder_update_same [OF _ h]) (simp_all add: complete_row_def)
  moreover have "holder s' j = holder s j" if "j \<noteq> i" for j
    unfolding s' by (rule holder_update_other) (simp_all add: that)
  ultimately show ?case by blast
next
  case (4 s i w s')
  then have "holder s i \<noteq> Some w"
    and s': "s' = s\<lparr>outbox_event := sql_update (owned i w) (complete_row p) (outbox_event s)\<rparr>"
    by (simp_all add: report_complete_eq)
  then have "\<not> sql_exists (owned i w) (outbox_event s)"
    using exists_owned_iff [OF 4(1) [unfolded outbox_inv_def]] by simp
  then show ?case unfolding s' by (rule unowned_update)
qed

text \<open>A failure is reported with a code that the schema accepts.\<close>

lemma report_failure_eq:
  assumes "outbox_inv s" "error_code_ok c"
  shows "report_failure a c m clk i w s = Some (holder s i = Some w,
    s\<lparr>outbox_event := sql_update (owned i w) (reschedule_row a c m clk) (outbox_event s)\<rparr>)"
  using reschedule_ok(1) [OF assms(1) [unfolded outbox_inv_def] assms(2), of i w a m clk]
    exists_owned_iff [OF assms(1) [unfolded outbox_inv_def], of i w] first_owned [of i w "outbox_event s"]
  by (cases "sql_first (owned i w) (outbox_event s)") (simp_all add: report_failure_def)

definition failure_report :: "js_time \<Rightarrow> nat \<Rightarrow> pg_time \<Rightarrow> uuid \<Rightarrow> uuid \<Rightarrow> db \<Rightarrow> (bool \<times> db) option" where
  "failure_report a m clk = report_failure a ''handler_failed'' m clk"

lemma handler_failed_ok: "error_code_ok ''handler_failed''"
  by (simp add: error_code_ok_def)

interpretation failing: leased_jobs holder "failure_report a m clk" outbox_inv for a m clk
proof (unfold_locales, goal_cases)
  case (1 s i w)
  then show ?case
    using reschedule_ok(2) [OF _ handler_failed_ok, of s i w a m clk]
    by (simp add: failure_report_def report_failure_eq [OF _ handler_failed_ok] outbox_inv_def)
next
  case (2 s i w b s')
  then show ?case by (simp add: failure_report_def report_failure_eq [OF _ handler_failed_ok])
next
  case (3 s i w s')
  then have h: "holder s i = Some w" and s': "s' = s\<lparr>outbox_event := sql_update (owned i w)
      (reschedule_row a ''handler_failed'' m clk) (outbox_event s)\<rparr>"
    by (simp_all add: failure_report_def report_failure_eq [OF _ handler_failed_ok])
  have "outbox_table_ok (outbox_event s)" using 3(1) by (simp add: outbox_inv_def)
  then have "holder s' i = None"
    unfolding s' by (rule holder_update_same [OF _ h]) (simp_all add: reschedule_row_def)
  moreover have "holder s' j = holder s j" if "j \<noteq> i" for j
    unfolding s' by (rule holder_update_other) (simp_all add: that)
  ultimately show ?case by blast
next
  case (4 s i w s')
  then have "holder s i \<noteq> Some w" and s': "s' = s\<lparr>outbox_event := sql_update (owned i w)
      (reschedule_row a ''handler_failed'' m clk) (outbox_event s)\<rparr>"
    by (simp_all add: failure_report_def report_failure_eq [OF _ handler_failed_ok])
  then have "\<not> sql_exists (owned i w) (outbox_event s)"
    using exists_owned_iff [OF 4(1) [unfolded outbox_inv_def]] by simp
  then show ?case unfolding s' by (rule unowned_update)
qed

text \<open>Whatever workers report the completion of a claimed event, in whatever order and
  however late, every report runs and at most one of them counts: the event is completed once
  for one claim.\<close>

theorem completion_counts_once:
  assumes "outbox_table_ok (outbox_event d)"
  shows "length (job_reports (report_complete p) i ws d) = length ws \<and>
    length (filter id (job_reports (report_complete p) i ws d)) \<le> 1"
proof
  have inv: "outbox_inv d" using assms by (simp add: outbox_inv_def)
  show "length (filter id (job_reports (report_complete p) i ws d)) \<le> 1"
    by (rule completion.at_most_one_report_counts [OF inv])
  show "length (job_reports (report_complete p) i ws d) = length ws"
    by (rule completion.length_reports [OF inv])
qed

theorem completion_counts_once_witness:
  "outbox_table_ok (outbox_event sample_outbox) \<and>
   length (filter id (job_reports (report_complete 20) ''e2'' [''w1'', ''w0'', ''w0''] sample_outbox)) \<le> 1"
  using completion_counts_once [OF sample_outbox_ok] sample_outbox_ok by blast

section \<open>The life of an event\<close>

text \<open>
  The committed transactions of producers, workers, the cleanup and the operators, in any
  interleaving; \<open>elsewhere\<close> is any transaction that does not write the outbox.
\<close>

inductive outbox_step :: "db \<Rightarrow> db \<Rightarrow> bool" where
  enqueues: "enqueue i ev now d = Inr (b, d') \<Longrightarrow> outbox_step d d'"
| requeues: "requeue i ev now clk d = Inr d' \<Longrightarrow> outbox_step d d'"
| claims: "claim_batch w js stale n locked d = Inr (evs, d') \<Longrightarrow> outbox_step d d'"
| renews: "renew_claim i w clk d = Inr (b, d') \<Longrightarrow> outbox_step d d'"
| completes: "complete i w p d = Inr (b, d') \<Longrightarrow> outbox_step d d'"
| reschedules: "reschedule i w a c m clk d = Inr (r, d') \<Longrightarrow> outbox_step d d'"
| purges: "purge_completed before n d = (k, d') \<Longrightarrow> outbox_step d d'"
| resolves: "resolve_dead_letter i op reason act clk d = Inr (res, d') \<Longrightarrow> outbox_step d d'"
| elsewhere: "outbox_event d' = outbox_event d \<Longrightarrow> outbox_step d d'"

definition status_of :: "db \<Rightarrow> uuid \<Rightarrow> outbox_status option" where
  "status_of d i = map_option oe_status (sql_first (\<lambda>e. oe_id e = i) (outbox_event d))"

text \<open>The edges of the status machine; a missing event is \<open>None\<close>. Requeueing (a producer that
  asks for the same aggregate again) puts an event of any status back to pending.\<close>

fun status_edge :: "outbox_status option \<Rightarrow> outbox_status option \<Rightarrow> bool" where
  "status_edge None (Some Oe_pending) = True"
| "status_edge (Some _) (Some Oe_pending) = True"
| "status_edge (Some Oe_pending) (Some Oe_processing) = True"
| "status_edge (Some Oe_processing) (Some Oe_completed) = True"
| "status_edge (Some Oe_processing) (Some Oe_dead_letter) = True"
| "status_edge (Some Oe_dead_letter) (Some Oe_discarded) = True"
| "status_edge (Some Oe_completed) None = True"
| "status_edge (Some Oe_discarded) None = True"
| "status_edge _ _ = False"

lemma status_of_update:
  assumes "\<And>e. oe_id (f e) = oe_id e"
  shows "status_of (d\<lparr>outbox_event := sql_update p f (outbox_event d)\<rparr>) i =
    (case sql_first (\<lambda>e. oe_id e = i) (outbox_event d) of
       None \<Rightarrow> None | Some e \<Rightarrow> Some (oe_status (if p e then f e else e)))"
  by (simp add: status_of_def sql_first_update_key [where k = oe_id and f = f, OF assms]
      split: option.split)

lemma status_of_eq_cases:
  assumes "\<And>e. oe_id (f e) = oe_id e"
    and "\<And>e. e \<in> set (outbox_event d) \<Longrightarrow> p e \<Longrightarrow>
      oe_status (f e) = oe_status e \<or> status_edge (Some (oe_status e)) (Some (oe_status (f e)))"
  shows "status_of (d\<lparr>outbox_event := sql_update p f (outbox_event d)\<rparr>) i = status_of d i \<or>
    status_edge (status_of d i) (status_of (d\<lparr>outbox_event := sql_update p f (outbox_event d)\<rparr>) i)"
proof (cases "sql_first (\<lambda>e. oe_id e = i) (outbox_event d)")
  case None
  then show ?thesis by (simp add: status_of_update [OF assms(1)] status_of_def [of d i])
next
  case (Some e)
  then have "e \<in> set (outbox_event d)" by (auto dest: sql_first_SomeD)
  with Some assms(2) [of e] show ?thesis
    by (auto simp: status_of_update [OF assms(1)] status_of_def [of d i])
qed

lemma status_of_append:
  "oe_id e \<notin> set (map oe_id (outbox_event d)) \<Longrightarrow>
   status_of (d\<lparr>outbox_event := outbox_event d @ [e]\<rparr>) i =
     (if i = oe_id e then Some (oe_status e) else status_of d i)"
proof (cases "sql_first (\<lambda>e. oe_id e = i) (outbox_event d)")
  case (Some x)
  assume "oe_id e \<notin> set (map oe_id (outbox_event d))"
  with sql_first_SomeD [OF Some] have "i \<noteq> oe_id e" by (metis image_eqI image_set)
  with Some show ?thesis by (simp add: status_of_def sql_first_append)
qed (simp add: status_of_def sql_first_append)

lemma write_append_fresh:
  "write_outbox (outbox_event d @ [e]) d = Inr d' \<Longrightarrow>
     d' = d\<lparr>outbox_event := outbox_event d @ [e]\<rparr> \<and> oe_id e \<notin> set (map oe_id (outbox_event d))"
  by (auto simp: write_outbox_Inr_iff outbox_table_ok_def)

lemma enqueue_edge:
  assumes "enqueue i ev now d = Inr (b, d')"
  shows "status_of d' j = status_of d j \<or> status_edge (status_of d j) (status_of d' j)"
proof (cases "sql_exists (outbox_conflict ev) (outbox_event d)")
  case True
  then show ?thesis using assms by (simp add: enqueue_def)
next
  case False
  then have "write_outbox (outbox_event d @ [new_outbox_row i ev now]) d = Inr d'"
    using assms by (auto simp: enqueue_def and_then_Inr_iff)
  note fresh = write_append_fresh [OF this]
  then have "status_of d j = None" if "j = i"
    using that by (auto simp: status_of_def sql_first_None_iff new_outbox_row_def)
  then show ?thesis using fresh by (auto simp: status_of_append new_outbox_row_def)
qed

lemma requeue_edge:
  assumes "requeue i ev now clk d = Inr d'"
  shows "status_of d' j = status_of d j \<or> status_edge (status_of d j) (status_of d' j)"
proof (cases "sql_exists (outbox_conflict ev) (outbox_event d)")
  case True
  then have d': "d' = d\<lparr>outbox_event :=
      sql_update (outbox_conflict ev) (reset_outbox_row clk) (outbox_event d)\<rparr>"
    using assms by (simp add: requeue_def write_outbox_Inr_iff)
  show ?thesis unfolding d' by (rule status_of_eq_cases) (simp_all add: reset_outbox_row_def)
next
  case False
  then have "write_outbox (outbox_event d @ [new_outbox_row i ev now]) d = Inr d'"
    using assms by (simp add: requeue_def)
  note fresh = write_append_fresh [OF this]
  then have "status_of d j = None" if "j = i"
    using that by (auto simp: status_of_def sql_first_None_iff new_outbox_row_def)
  then show ?thesis using fresh by (auto simp: status_of_append new_outbox_row_def)
qed

lemma claim_edge:
  assumes "outbox_inv d" "claim_batch w now stale n locked d = Inr (evs, d')"
  shows "status_of d' j = status_of d j \<or> status_edge (status_of d j) (status_of d' j)"
proof -
  define c where "c = claim_candidates now stale n locked (outbox_event d)"
  have ok: "outbox_table_ok (outbox_event d)" using assms(1) by (simp add: outbox_inv_def)
  have d': "d' = d\<lparr>outbox_event := claimed_table w now c (outbox_event d)\<rparr>"
    using assms(2) claim_batch_Inr_iff [OF ok c_def] by blast
  show ?thesis unfolding d' claimed_table_def
  proof (rule status_of_eq_cases)
    fix e assume "e \<in> set c"
    then have "claimable now stale e" using claim_candidates_facts(4) [OF ok] c_def by blast
    then show "oe_status (claim_row w now e) = oe_status e \<or>
        status_edge (Some (oe_status e)) (Some (oe_status (claim_row w now e)))"
      by (auto simp: claimable_def claim_row_def)
  qed simp
qed

lemma owned_edge:
  assumes "outbox_inv d" "\<And>e. oe_id (f e) = oe_id e"
    and "\<And>e. owned i w e \<Longrightarrow> oe_status (f e) \<in> {Oe_processing, Oe_pending, Oe_completed, Oe_dead_letter}"
    and "d' = d\<lparr>outbox_event := sql_update (owned i w) f (outbox_event d)\<rparr>"
  shows "status_of d' j = status_of d j \<or> status_edge (status_of d j) (status_of d' j)"
  unfolding assms(4)
proof (rule status_of_eq_cases [OF assms(2)])
  fix e assume o: "owned i w e"
  then have "oe_status e = Oe_processing" by (simp add: owned_def)
  then show "oe_status (f e) = oe_status e \<or> status_edge (Some (oe_status e)) (Some (oe_status (f e)))"
    using assms(3) [OF o] by auto
qed

lemma reschedule_Inr:
  assumes "outbox_inv d" "reschedule i w a c m clk d = Inr (r, d')"
  shows "d' = d\<lparr>outbox_event := sql_update (owned i w) (reschedule_row a c m clk) (outbox_event d)\<rparr>"
  using assms(2) by (auto simp: reschedule_def Let_def and_then_Inr_iff write_outbox_Inr_iff)

lemma purge_edge:
  assumes "outbox_inv d"
  shows "status_of (snd (purge_completed before n d)) j = status_of d j \<or>
    status_edge (status_of d j) (status_of (snd (purge_completed before n d)) j)"
proof -
  let ?c = "purge_candidates before n (outbox_event d)"
  let ?p = "\<lambda>e. oe_id e \<in> set (map oe_id ?c)"
  have ok: "outbox_table_ok (outbox_event d)" using assms by (simp add: outbox_inv_def)
  have sub: "e \<in> set (outbox_event d) \<and> oe_status e \<in> {Oe_completed, Oe_discarded}"
    if "e \<in> set ?c" for e
    using that by (fastforce simp: purge_candidates_def Let_def dest!: subsetD [OF sql_page_subset])
  have finished: "oe_status e \<in> {Oe_completed, Oe_discarded}" if "e \<in> set (outbox_event d)" "?p e" for e
  proof -
    have "e \<in> set ?c"
      using in_candidate_ids [OF outbox_table_okD(2) [OF ok], of ?c e] sub that by blast
    then show ?thesis using sub by blast
  qed
  show ?thesis
  proof (cases "sql_first (\<lambda>e. oe_id e = j) (outbox_event d)")
    case None
    then show ?thesis
      by (simp add: purge_completed_def Let_def status_of_def
          sql_first_delete_key [OF outbox_table_okD(2) [OF ok]])
  next
    case (Some e)
    then have "e \<in> set (outbox_event d)" by (auto dest: sql_first_SomeD)
    then have "\<not> ?p e \<or> status_edge (Some (oe_status e)) None" using finished [of e] by auto
    moreover have "status_of (snd (purge_completed before n d)) j
        = (if ?p e then None else Some (oe_status e))"
      using Some by (simp add: purge_completed_def Let_def status_of_def
          sql_first_delete_key [OF outbox_table_okD(2) [OF ok]])
    ultimately show ?thesis using Some by (auto simp: status_of_def [of d] split: if_splits)
  qed
qed

lemma resolve_cases:
  assumes "resolve_dead_letter i op reason act clk d = Inr (res, d')"
  shows "(d' = d \<and> res \<noteq> Updated) \<or> res = Updated \<and>
    (\<exists>e. sql_first (\<lambda>e. oe_id e = i) (outbox_event d) = Some e \<and> oe_status e = Oe_dead_letter \<and>
      (act = Retry \<or> discard_allowed e d) \<and> 3 \<le> length reason \<and> length reason \<le> 500 \<and>
      op_role op \<in> {Admin, Superadmin} \<and>
      d' = d\<lparr>outbox_operator_action := outbox_operator_action d @ [operator_action_of e op act reason clk],
        outbox_event := sql_update (\<lambda>r. oe_id r = i)
          (if act = Retry then reset_outbox_row clk else discard_row (op_user_id op) reason clk)
          (outbox_event d)\<rparr>)"
  using assms
  by (cases act) (auto simp: resolve_dead_letter_def and_then_Inr_iff write_outbox_Inr_iff
      write_operator_action_def operator_action_of_def split: option.splits if_splits)

lemma resolve_edge:
  assumes "outbox_inv d" "resolve_dead_letter i op reason act clk d = Inr (res, d')"
  shows "status_of d' j = status_of d j \<or> status_edge (status_of d j) (status_of d' j)"
proof (cases "res = Updated")
  case False
  then show ?thesis using resolve_cases [OF assms(2)] by blast
next
  case True
  let ?f = "if act = Retry then reset_outbox_row clk else discard_row (op_user_id op) reason clk"
  from True obtain e
    where e: "sql_first (\<lambda>e. oe_id e = i) (outbox_event d) = Some e" "oe_status e = Oe_dead_letter"
    and d': "d' = d\<lparr>outbox_operator_action := outbox_operator_action d @ [operator_action_of e op act reason clk],
      outbox_event := sql_update (\<lambda>r. oe_id r = i) ?f (outbox_event d)\<rparr>"
    using resolve_cases [OF assms(2)] by blast
  let ?d = "d\<lparr>outbox_operator_action := outbox_operator_action d @ [operator_action_of e op act reason clk]\<rparr>"
  have same: "status_of ?d j = status_of d j" by (simp add: status_of_def)
  have e': "e \<in> set (outbox_event d)" "oe_id e = i" using sql_first_SomeD [OF e(1)] by auto
  have dist: "distinct (map oe_id (outbox_event d))"
    using assms(1) by (simp add: outbox_inv_def outbox_table_ok_def)
  have "status_of (?d\<lparr>outbox_event := sql_update (\<lambda>r. oe_id r = i) ?f (outbox_event ?d)\<rparr>) j = status_of ?d j \<or>
    status_edge (status_of ?d j) (status_of (?d\<lparr>outbox_event := sql_update (\<lambda>r. oe_id r = i) ?f (outbox_event ?d)\<rparr>) j)"
  proof (rule status_of_eq_cases)
    fix x assume "x \<in> set (outbox_event ?d)" "oe_id x = i"
    then have "x = e" using distinct_keyD [OF dist _ e'(1)] e'(2) by simp
    then show "oe_status (?f x) = oe_status x \<or> status_edge (Some (oe_status x)) (Some (oe_status (?f x)))"
      using e(2) by (auto simp: reset_outbox_row_def discard_row_def)
  qed simp
  then show ?thesis unfolding d' by (simp add: same)
qed



section \<open>Operators\<close>

text \<open>C3. An operator decision changes the database only for a dead letter, and then it appends
  exactly one audit row with the operator, the decision and the reason. A discard is accepted for
  a push notification, or for a photo deletion whose photo is already gone; never for an account
  erasure or a billing reconciliation. A refused decision leaves the database as it was.\<close>

theorem operator_decision_audited:
  assumes "outbox_table_ok (outbox_event d)"
    and "resolve_dead_letter i op reason act clk d = Inr (res, d')"
  shows "(res \<noteq> Updated \<longrightarrow> d' = d) \<and>
    (res = Updated \<longrightarrow>
      (\<exists>e \<in> set (outbox_event d). oe_id e = i \<and> oe_status e = Oe_dead_letter \<and>
        outbox_operator_action d' = outbox_operator_action d @ [operator_action_of e op act reason clk] \<and>
        (act = Discard \<longrightarrow> oe_event_type e = Notification_push \<or>
          oe_event_type e = Photo_delete \<and> oe_aggregate_id e \<notin> up_id ` set (user_photo d))) \<and>
      status_of d' i = Some (if act = Retry then Oe_pending else Oe_discarded) \<and>
      outbox_table_ok (outbox_event d'))"
proof (cases "res = Updated")
  case False
  then show ?thesis using resolve_cases [OF assms(2)] by blast
next
  case True
  let ?f = "if act = Retry then reset_outbox_row clk else discard_row (op_user_id op) reason clk"
  from True obtain e
    where e: "sql_first (\<lambda>e. oe_id e = i) (outbox_event d) = Some e" "oe_status e = Oe_dead_letter"
    and allowed: "act = Retry \<or> discard_allowed e d" and len: "3 \<le> length reason" "length reason \<le> 500"
    and d': "d' = d\<lparr>outbox_operator_action := outbox_operator_action d @ [operator_action_of e op act reason clk],
      outbox_event := sql_update (\<lambda>r. oe_id r = i) ?f (outbox_event d)\<rparr>"
    using resolve_cases [OF assms(2)] by blast
  have mem: "e \<in> set (outbox_event d)" "oe_id e = i" using sql_first_SomeD [OF e(1)] by auto
  have st: "status_of d' i = Some (if act = Retry then Oe_pending else Oe_discarded)"
    using e mem(2) by (simp add: d' status_of_def sql_first_update_key [where k = oe_id and f = ?f]
        reset_outbox_row_def discard_row_def)
  have ok: "outbox_table_ok (sql_update (\<lambda>r. oe_id r = i) ?f (outbox_event d))"
  proof (rule outbox_table_ok_update [OF assms(1)])
    fix x assume "x \<in> set (outbox_event d)" "oe_id x = i" "outbox_row_ok x"
    then have "x = e"
      using distinct_keyD [OF outbox_table_okD(2) [OF assms(1)] _ mem(1)] mem(2) by simp
    then show "outbox_row_ok (?f x)"
      using \<open>outbox_row_ok x\<close> e(2) len by (simp add: reset_outbox_row_ok discard_row_ok)
  qed simp_all
  have "act = Discard \<longrightarrow> oe_event_type e = Notification_push \<or>
      oe_event_type e = Photo_delete \<and> oe_aggregate_id e \<notin> up_id ` set (user_photo d)"
    using allowed by (auto simp: discard_allowed_def sql_exists_iff)
  with True e mem st ok show ?thesis by (auto simp: d')
qed

definition dead_letter_outbox :: db where
  "dead_letter_outbox = empty_db\<lparr>outbox_event :=
     [sample_event\<lparr>oe_status := Oe_dead_letter, oe_attempts := 10, oe_dead_lettered_at := Some 5000\<rparr>]\<rparr>"

lemmas dead_letter_outbox_defs = dead_letter_outbox_def sample_outbox_defs

lemma dead_letter_outbox_ok: "outbox_table_ok (outbox_event dead_letter_outbox)"
  by (simp add: dead_letter_outbox_defs outbox_table_ok_def outbox_row_ok_def outbox_key_def)

theorem operator_decision_audited_witness:
  "\<exists>d'. resolve_dead_letter ''e1'' \<lparr>op_user_id = ''a1'', op_role = Admin\<rparr> ''photo is gone'' Discard 9000
      dead_letter_outbox = Inr (Updated, d') \<and> status_of d' ''e1'' = Some Oe_discarded"
proof -
  obtain d' where r: "resolve_dead_letter ''e1'' \<lparr>op_user_id = ''a1'', op_role = Admin\<rparr>
      ''photo is gone'' Discard 9000 dead_letter_outbox = Inr (Updated, d')"
    by (simp add: resolve_dead_letter_def dead_letter_outbox_defs discard_allowed_def
        write_operator_action_def operator_action_of_def write_outbox_def discard_row_def
        outbox_row_ok_def outbox_key_def)
  with operator_decision_audited [OF dead_letter_outbox_ok r] show ?thesis by auto
qed

section \<open>Cleanup\<close>

text \<open>The cleanup removes at most \<open>limit\<close> events, the count it reports; each was completed
  or discarded no later than the cutoff, so an event that still has work, or a dead letter nobody
  has decided on, is never removed; and the audit rows of operators are kept.\<close>

theorem purge_removes_only_settled:
  assumes "outbox_table_ok (outbox_event d)"
    and "purge_completed before n d = (k, d')"
  shows "k \<le> n \<and> length (outbox_event d') + k = length (outbox_event d) \<and>
    (\<forall>e \<in> set (outbox_event d) - set (outbox_event d').
       oe_status e = Oe_completed \<and> older_than before (oe_processed_at e) \<or>
       oe_status e = Oe_discarded \<and> older_than before (oe_resolved_at e)) \<and>
    map oa_reason (outbox_operator_action d') = map oa_reason (outbox_operator_action d) \<and>
    outbox_table_ok (outbox_event d')"
proof -
  let ?c = "purge_candidates before n (outbox_event d)"
  let ?p = "\<lambda>e. oe_id e \<in> set (map oe_id ?c)"
  let ?key = "\<lambda>e. (cleanup_at e, oe_id e)"
  let ?A = "sql_page ?key n (filter (\<lambda>e. oe_status e = Oe_completed \<and> older_than before (oe_processed_at e)) (outbox_event d))"
  let ?B = "sql_page ?key n (filter (\<lambda>e. oe_status e = Oe_discarded \<and> older_than before (oe_resolved_at e)) (outbox_event d))"
  have c: "?c = sql_page ?key n (?A @ ?B)" by (simp add: purge_candidates_def Let_def)
  have dist: "distinct (outbox_event d)"
    using outbox_table_okD(2) [OF assms(1)] by (rule distinct_key_distinct)
  have A: "\<And>e. e \<in> set ?A \<Longrightarrow> e \<in> set (outbox_event d) \<and> oe_status e = Oe_completed \<and> older_than before (oe_processed_at e)"
    and B: "\<And>e. e \<in> set ?B \<Longrightarrow> e \<in> set (outbox_event d) \<and> oe_status e = Oe_discarded \<and> older_than before (oe_resolved_at e)"
    by (auto dest!: subsetD [OF sql_page_subset])
  have "distinct ?A" "distinct ?B" by (intro distinct_sql_page distinct_filter dist)+
  moreover have "set ?A \<inter> set ?B = {}"
  proof -
    have False if "e \<in> set ?A" "e \<in> set ?B" for e using A [OF that(1)] B [OF that(2)] by simp
    then show ?thesis by blast
  qed
  ultimately have "distinct (?A @ ?B)" by simp
  then have cd: "distinct ?c" unfolding c by (rule distinct_sql_page)
  have sub: "set ?c \<subseteq> set ?A \<union> set ?B" using sql_page_subset [of ?key n "?A @ ?B"] c by auto
  then have inT: "set ?c \<subseteq> set (outbox_event d)" using A B by blast
  have k: "k = length ?c" and d': "d' = delete_outbox ?p d"
    using assms(2) sql_count_chosen [OF outbox_table_okD(2) [OF assms(1)] inT cd]
    by (auto simp: purge_completed_def Let_def)
  have "k \<le> n" by (simp add: k c length_sql_page)
  moreover have "length (outbox_event d') + k = length (outbox_event d)"
    using length_sql_delete [of ?p "outbox_event d"]
      sql_count_chosen [OF outbox_table_okD(2) [OF assms(1)] inT cd] by (simp add: d' k)
  moreover have "oe_status e = Oe_completed \<and> older_than before (oe_processed_at e) \<or>
       oe_status e = Oe_discarded \<and> older_than before (oe_resolved_at e)"
    if "e \<in> set (outbox_event d)" "e \<notin> set (outbox_event d')" for e
  proof -
    have "?p e" using that by (auto simp: d')
    then have "e \<in> set ?c"
      using in_candidate_ids [OF outbox_table_okD(2) [OF assms(1)] inT that(1)] by blast
    then show ?thesis using sub A B by blast
  qed
  moreover have "map oa_reason (outbox_operator_action d') = map oa_reason (outbox_operator_action d)"
    by (simp add: d' delete_outbox_def Let_def map_sql_update)
  moreover have "outbox_table_ok (outbox_event d')"
    by (simp add: d' outbox_table_ok_delete [OF assms(1)])
  ultimately show ?thesis by blast
qed

definition settled_outbox :: db where
  "settled_outbox = empty_db\<lparr>outbox_event := [sample_stale, complete_row 3 sample_event]\<rparr>"

lemmas settled_outbox_defs = settled_outbox_def sample_outbox_defs complete_row_def

lemma settled_outbox_ok: "outbox_table_ok (outbox_event settled_outbox)"
  by (simp add: settled_outbox_defs outbox_table_ok_def outbox_row_ok_def outbox_key_def)

theorem purge_removes_only_settled_witness:
  "\<exists>d'. purge_completed 100 5 settled_outbox = (1, d') \<and> outbox_event d' = [sample_stale] \<and>
     length (outbox_event d') + 1 = length (outbox_event settled_outbox)"
proof -
  obtain d' where r: "purge_completed 100 5 settled_outbox = (1, d')"
    and left: "outbox_event d' = [sample_stale]"
    by (simp add: purge_completed_def purge_candidates_def sql_page_def older_than_def cleanup_at_def
        settled_outbox_defs delete_outbox_def Let_def pg_of_js_def)
  have "length (outbox_event d') + 1 = length (outbox_event settled_outbox)"
    using purge_removes_only_settled [OF settled_outbox_ok r] by blast
  with r left show ?thesis by (intro exI conjI)
qed

section \<open>Listing dead letters\<close>

text \<open>
  \<open>OutboxAdminService.deadLetters\<close> makes the next cursor from \<open>row.dead_lettered_at\<close>, a
  JavaScript \<open>Date\<close>: the microseconds are gone, while the query compares with the column.
\<close>

definition dead_letter_cursor :: "outbox_row \<Rightarrow> pg_time \<times> uuid" where
  "dead_letter_cursor e = (pg_of_js (js_of_pg (fst (dead_letter_key e))), oe_id e)"

definition dead_letters :: "db \<Rightarrow> outbox_row list" where
  "dead_letters d = filter (\<lambda>e. oe_status e = Oe_dead_letter) (outbox_event d)"

definition separate_millis :: "outbox_row list \<Rightarrow> bool" where
  "separate_millis t = distinct (map (\<lambda>e. js_of_pg (fst (dead_letter_key e))) t)"

interpretation dead_letter_feed: keyset_feed dead_letter_key dead_letter_cursor separate_millis
proof unfold_locales
  fix t assume "separate_millis t"
  then show "distinct (map dead_letter_key t)"
    by (auto simp: separate_millis_def distinct_map inj_on_def)
next
  fix t r s assume ok: "separate_millis t" and mem: "r \<in> set t" "s \<in> set t"
  let ?at = "\<lambda>e. fst (dead_letter_key e)"
  have snd_key: "snd (dead_letter_key e) = oe_id e" for e by (simp add: dead_letter_key_def)
  show "dead_letter_key s < dead_letter_cursor r \<longleftrightarrow> dead_letter_key s < dead_letter_key r"
  proof (cases "r = s")
    case True
    then show ?thesis
      using pg_of_js_of_pg_le [of "?at s"]
      by (auto simp: dead_letter_cursor_def less_prod_def' snd_key)
  next
    case False
    have ms: "js_of_pg (?at r) \<noteq> js_of_pg (?at s)"
      using ok mem False distinct_keyD [of "\<lambda>e. js_of_pg (?at e)" t r s] by (auto simp: separate_millis_def)
    show ?thesis
      using ms js_less_pg [of "?at s" "?at r"] pg_of_js_of_pg_le [of "?at r"]
        pg_of_js_of_pg_le [of "?at s"] pg_of_js_of_pg_gap [of "?at s"] js_of_pg_mono [of "?at s" "?at r"]
        pg_of_js_of_pg_gap [of "?at r"]
      by (auto simp: dead_letter_cursor_def less_prod_def' snd_key js_of_pg_def pg_of_js_def)
  qed
qed

text \<open>The administrator's page, and an administrator who follows the cursor to the end.\<close>

definition admin_dead_letters ::
  "int \<Rightarrow> (pg_time \<times> uuid) option \<Rightarrow> db \<Rightarrow> api_error + outbox_row list \<times> (pg_time \<times> uuid) option" where
  "admin_dead_letters limit cursor d =
     (if limit < 1 \<or> limit > 100 then Inl (api_error 400 ''invalid_outbox_request'')
      else Inr (cursor_page (list_dead_letters (nat limit + 1) cursor d) (nat limit) dead_letter_cursor))"

fun follow_dead_letters ::
  "nat \<Rightarrow> int \<Rightarrow> (pg_time \<times> uuid) option \<Rightarrow> db \<Rightarrow> api_error + outbox_row list" where
  "follow_dead_letters 0 limit cursor d = Inr []"
| "follow_dead_letters (Suc fuel) limit cursor d =
     and_then (admin_dead_letters limit cursor d) (\<lambda>(items, next).
       case next of None \<Rightarrow> Inr items
       | Some c \<Rightarrow> and_then (follow_dead_letters fuel limit (Some c) d) (\<lambda>rest. Inr (items @ rest)))"

lemma follow_dead_letters_walk:
  assumes "1 \<le> limit" "limit \<le> 100"
  shows "follow_dead_letters fuel limit c d =
    Inr (keyset_walk dead_letter_key dead_letter_cursor (nat limit) fuel c (dead_letters d))"
proof (induction fuel arbitrary: c)
  case (Suc fuel)
  have "admin_dead_letters limit c d = Inr (cursor_page (keyset_page dead_letter_key (nat limit + 1) c
      (dead_letters d)) (nat limit) dead_letter_cursor)"
    using assms by (simp add: admin_dead_letters_def list_dead_letters_def dead_letters_def)
  then show ?case using Suc.IH by (auto split: prod.split option.split)
qed simp

text \<open>When no two dead letters fall in the same millisecond, following the cursors lists every
  dead letter exactly once, newest first, with any page size the service accepts.\<close>

theorem dead_letters_listed_once:
  assumes "separate_millis (dead_letters d)" "1 \<le> limit" "limit \<le> 100"
    and "length (dead_letters d) < fuel"
  shows "follow_dead_letters fuel limit None d = Inr (rev (sort_key dead_letter_key (dead_letters d)))"
proof -
  have "0 < nat limit" using assms(2) by simp
  then show ?thesis
    using dead_letter_feed.walk_complete [OF assms(1) _ assms(4)]
    by (simp add: follow_dead_letters_walk [OF assms(2,3)])
qed

theorem dead_letters_listed_once_witness:
  "follow_dead_letters 3 1 None dead_letter_outbox =
     Inr (rev (sort_key dead_letter_key (dead_letters dead_letter_outbox))) \<and>
   length (dead_letters dead_letter_outbox) = 1"
  using dead_letters_listed_once [of dead_letter_outbox 1 3]
  by (simp add: dead_letters_def dead_letter_outbox_defs separate_millis_def)

definition twin_dead_letters :: db where
  "twin_dead_letters = empty_db\<lparr>outbox_event :=
     [sample_event\<lparr>oe_status := Oe_dead_letter, oe_attempts := 10, oe_dead_lettered_at := Some 5000200\<rparr>,
      new_outbox_row ''e3'' \<lparr>ne_event_type = Notification_push, ne_aggregate_id = ''n3'', ne_payload = None\<rparr> 1000
        \<lparr>oe_status := Oe_dead_letter, oe_attempts := 10, oe_dead_lettered_at := Some 5000500\<rparr>]\<rparr>"

text \<open>Without that, the listing loses events. Two events dead-lettered 300 microseconds apart:
  a page of one shows the newer, and its cursor, cut to the millisecond, lies before the older
  one. The older event is a dead letter and is on no page.\<close>

theorem dead_letter_listing_skips:
  "outbox_table_ok (outbox_event twin_dead_letters) \<and>
   map oe_id (dead_letters twin_dead_letters) = [''e1'', ''e3''] \<and>
   map_sum id (map oe_id) (follow_dead_letters 10 1 None twin_dead_letters) = Inr [''e3'']"
proof (intro conjI)
  note defs = twin_dead_letters_def sample_outbox_defs
  show "outbox_table_ok (outbox_event twin_dead_letters)"
    by (simp add: defs outbox_table_ok_def outbox_row_ok_def outbox_key_def)
  show "map oe_id (dead_letters twin_dead_letters) = [''e1'', ''e3'']"
    by (simp add: defs dead_letters_def)
  show "map_sum id (map oe_id) (follow_dead_letters 10 1 None twin_dead_letters) = Inr [''e3'']"
    by (simp add: numeral_nat admin_dead_letters_def list_dead_letters_def keyset_page_def below_def
        dead_letter_key_def cursor_page_def dead_letter_cursor_def js_of_pg_def pg_of_js_def defs)
qed

end
