(* ===== verification/Photos.thy ===== *)
theory Photos
  imports Outbox
begin

text \<open>
  The profile photo and its recoverable life across two stores:
  \<open>src/photos/photos.repository.ts\<close>. A photo is \<open>processing\<close> while its object is uploaded,
  \<open>ready\<close> when it is the user's photo, \<open>deleting\<close> until the object is gone. Every deletion
  decided in SQL leaves an outbox event for the worker that removes the object. An upload is made
  idempotent by its request row.
\<close>

record photo_object =
  po_id :: uuid
  po_user_id :: uuid
  po_object_key :: string
  po_status :: photo_status
  po_moderation_status :: "moderation_status option"
  po_moderation_reasons :: "string list option"

record processing_photo =
  pp_id :: uuid
  pp_user_id :: uuid
  pp_object_key :: string
  pp_idempotency_key :: uuid
  pp_request_sha256 :: string
  pp_created_at :: js_time
  pp_expires_at :: js_time

datatype photo_creation =
    Created
  | Replay_photo photo_object
  | Profile_not_found
  | Update_in_progress
  | Idempotency_conflict
  | Idempotency_consumed

record upload_request =
  uq_request_sha256 :: string
  uq_request_status :: request_status
  uq_photo_id :: "uuid option"
  uq_user_id :: "uuid option"
  uq_object_key :: "string option"
  uq_photo_status :: "photo_status option"
  uq_moderation_status :: "moderation_status option"
  uq_moderation_reasons :: "string list option"

record automated_moderation =
  am_status :: moderation_status
  am_reasons :: "string list"
  am_policy_version :: string
  am_face_count :: "int option"
  am_sharpness_score :: "real option"
  am_nsfw_score :: "real option"

text \<open>The decision when no analysis is available: a person looks at the photo.\<close>

definition manual_photo_moderation :: automated_moderation where
  "manual_photo_moderation =
     \<lparr> am_status = Mod_pending, am_reasons = [''analysis_unavailable''],
       am_policy_version = ''local_vision_v1'', am_face_count = None, am_sharpness_score = None,
       am_nsfw_score = None \<rparr>"

section \<open>Operations of the repository\<close>

definition lock_active_profile :: "uuid \<Rightarrow> db \<Rightarrow> bool" where
  "lock_active_profile u d \<longleftrightarrow>
     sql_exists (\<lambda>p. pr_user_id p = u) (user_profile d) \<and> sql_exists (\<lambda>a. ua_id a = u \<and> live_account a) (user_account d)"

text \<open>The LEFT JOIN of the request with its photo and the photo's moderation case.\<close>

definition keyed :: "uuid \<Rightarrow> uuid \<Rightarrow> upload_request_row \<Rightarrow> bool" where
  "keyed u k r \<longleftrightarrow> ur_user_id r = u \<and> ur_idempotency_key r = k"

definition find_request :: "uuid \<Rightarrow> uuid \<Rightarrow> db \<Rightarrow> upload_request option" where
  "find_request u k d =
     (case sql_first (keyed u k) (photo_upload_request d) of
        None \<Rightarrow> None
      | Some r \<Rightarrow>
          let photo = (case ur_photo_id r of None \<Rightarrow> None
                | Some i \<Rightarrow> sql_first (\<lambda>p. up_id p = i) (user_photo d));
              mod_case = (case photo of None \<Rightarrow> None
                | Some p \<Rightarrow> sql_first (\<lambda>c. mc_photo_id c = up_id p) (photo_moderation_case d))
          in Some \<lparr> uq_request_sha256 = ur_request_sha256 r, uq_request_status = ur_status r,
               uq_photo_id = ur_photo_id r, uq_user_id = map_option up_user_id photo,
               uq_object_key = map_option up_object_key photo,
               uq_photo_status = map_option up_status photo,
               uq_moderation_status = map_option mc_status mod_case,
               uq_moderation_reasons = map_option mc_reasons mod_case \<rparr>)"

definition creation_result_for_existing_request ::
  "upload_request option \<Rightarrow> processing_photo \<Rightarrow> photo_creation option" where
  "creation_result_for_existing_request req photo =
     (case req of None \<Rightarrow> None
      | Some r \<Rightarrow>
          if uq_request_sha256 r \<noteq> pp_request_sha256 photo then Some Idempotency_conflict
          else if uq_request_status r = Rq_processing then Some Update_in_progress
          else if uq_request_status r = Rq_completed then
            (case (uq_photo_id r, uq_object_key r) of
               (Some i, Some key) \<Rightarrow>
                 if uq_user_id r = Some (pp_user_id photo) \<and> uq_photo_status r = Some Ph_ready
                 then Some (Replay_photo
                   \<lparr> po_id = i, po_user_id = pp_user_id photo, po_object_key = key,
                     po_status = Ph_ready,
                     po_moderation_status = Some (case uq_moderation_status r of
                       None \<Rightarrow> Mod_pending | Some m \<Rightarrow> m),
                     po_moderation_reasons = Some (case uq_moderation_reasons r of
                       None \<Rightarrow> [''analysis_unavailable''] | Some rs \<Rightarrow> rs) \<rparr>)
                 else Some Idempotency_consumed
             | _ \<Rightarrow> Some Idempotency_consumed)
          else Some Idempotency_consumed)"

definition expired_request :: "processing_photo \<Rightarrow> upload_request_row \<Rightarrow> bool" where
  "expired_request photo r \<longleftrightarrow> ur_user_id r = pp_user_id photo \<and>
     ur_idempotency_key r = pp_idempotency_key photo \<and>
     ur_expires_at r \<le> pg_of_js (pp_created_at photo)"

definition processing_row :: "processing_photo \<Rightarrow> pg_time \<Rightarrow> photo_row" where
  "processing_row photo now =
     \<lparr> up_id = pp_id photo, up_user_id = pp_user_id photo, up_object_key = pp_object_key photo,
       up_status = Ph_processing, up_metadata = None, up_updated_at = now \<rparr>"

definition request_row :: "processing_photo \<Rightarrow> upload_request_row" where
  "request_row photo =
     \<lparr> ur_user_id = pp_user_id photo, ur_idempotency_key = pp_idempotency_key photo,
       ur_request_sha256 = pp_request_sha256 photo, ur_photo_id = Some (pp_id photo),
       ur_status = Rq_processing, ur_created_at = pg_of_js (pp_created_at photo),
       ur_updated_at = pg_of_js (pp_created_at photo),
       ur_expires_at = pg_of_js (pp_expires_at photo) \<rparr>"

definition create_processing ::
  "processing_photo \<Rightarrow> pg_time \<Rightarrow> db \<Rightarrow> sql_error + photo_creation \<times> db" where
  "create_processing photo now d =
     (if \<not> lock_active_profile (pp_user_id photo) d then Inr (Profile_not_found, d)
      else
        let d1 = d\<lparr>photo_upload_request := sql_delete (expired_request photo) (photo_upload_request d)\<rparr>
        in case creation_result_for_existing_request
               (find_request (pp_user_id photo) (pp_idempotency_key photo) d1) photo of
             Some r \<Rightarrow> Inr (r, d1)
           | None \<Rightarrow>
               if sql_exists (\<lambda>p. up_user_id p = pp_user_id photo \<and> in_progress p) (user_photo d1)
               then Inr (Update_in_progress, d1)
               else and_then (insert_photo (processing_row photo now) d1) (\<lambda>d2.
                    and_then (insert_request (request_row photo) d2) (\<lambda>d3.
                    Inr (Created, d3))))"

definition processing_of :: "uuid \<Rightarrow> uuid \<Rightarrow> photo_row \<Rightarrow> bool" where
  "processing_of i u p \<longleftrightarrow> up_id p = i \<and> up_user_id p = u \<and> up_status p = Ph_processing"

definition record_processed ::
  "uuid \<Rightarrow> uuid \<Rightarrow> photo_metadata \<Rightarrow> pg_time \<Rightarrow> db \<Rightarrow> sql_error + bool \<times> db" where
  "record_processed i u m clk d =
     and_then (update_photos (processing_of i u)
         (\<lambda>p. p\<lparr>up_metadata := Some m, up_updated_at := clk\<rparr>) d)
       (\<lambda>d'. Inr (sql_count (processing_of i u) (user_photo d) = 1, d'))"

text \<open>The deletions of the previous photos are queued one by one, each with an id of its own.\<close>

definition photo_delete_event :: "uuid \<Rightarrow> new_outbox_event" where
  "photo_delete_event i =
     \<lparr> ne_event_type = Photo_delete, ne_aggregate_id = i, ne_payload = None \<rparr>"

fun enqueue_deletions :: "(uuid \<Rightarrow> uuid) \<Rightarrow> pg_time \<Rightarrow> uuid list \<Rightarrow> db \<Rightarrow> sql_error + db" where
  "enqueue_deletions fresh now [] d = Inr d"
| "enqueue_deletions fresh now (i # is) d =
     and_then (enqueue (fresh i) (photo_delete_event i) now d)
       (\<lambda>(_, d'). enqueue_deletions fresh now is d')"

definition ready_of :: "uuid \<Rightarrow> photo_row \<Rightarrow> bool" where
  "ready_of u p \<longleftrightarrow> up_user_id p = u \<and> up_status p = Ph_ready"

definition set_status :: "photo_status \<Rightarrow> pg_time \<Rightarrow> photo_row \<Rightarrow> photo_row" where
  "set_status s clk p = p\<lparr>up_status := s, up_updated_at := clk\<rparr>"

definition case_row :: "uuid \<Rightarrow> uuid \<Rightarrow> automated_moderation \<Rightarrow> photo_case_row" where
  "case_row u i m =
     \<lparr> mc_user_id = u, mc_photo_id = i, mc_status = am_status m, mc_reasons = am_reasons m,
       mc_policy_version = am_policy_version m, mc_face_count = am_face_count m,
       mc_sharpness_score = am_sharpness_score m, mc_nsfw_score = am_nsfw_score m \<rparr>"

definition request_of :: "uuid \<Rightarrow> uuid \<Rightarrow> upload_request_row \<Rightarrow> bool" where
  "request_of u i r \<longleftrightarrow> ur_user_id r = u \<and> ur_photo_id r = Some i \<and> ur_status r = Rq_processing"

definition activate ::
  "uuid \<Rightarrow> uuid \<Rightarrow> automated_moderation \<Rightarrow> (uuid \<Rightarrow> uuid) \<Rightarrow> pg_time \<Rightarrow> pg_time \<Rightarrow> db
    \<Rightarrow> sql_error + bool \<times> db" where
  "activate i u m fresh now clk d =
     (if \<not> lock_active_profile u d then Inr (False, d)
      else if \<not> sql_exists (\<lambda>p. processing_of i u p \<and> up_metadata p \<noteq> None) (user_photo d)
      then Inr (False, d)
      else
        let previous = map up_id (filter (ready_of u) (user_photo d)) in
        and_then (update_photos (ready_of u) (set_status Ph_deleting clk) d) (\<lambda>d1.
        and_then (enqueue_deletions fresh now previous d1) (\<lambda>d2.
        and_then (update_photos (processing_of i u) (set_status Ph_ready clk) d2) (\<lambda>d3.
        if sql_count (processing_of i u) (user_photo d2) \<noteq> 1
        then Inl (Thrown ''Photo activation invariant violated'')
        else and_then (insert_photo_case (case_row u i m) d3) (\<lambda>d4.
          if sql_count (request_of u i) (photo_upload_request d4) \<noteq> 1
          then Inl (Thrown ''Photo idempotency invariant violated'')
          else Inr (True, d4\<lparr>photo_upload_request := sql_update (request_of u i)
            (\<lambda>r. r\<lparr>ur_status := Rq_completed, ur_updated_at := clk\<rparr>)
            (photo_upload_request d4)\<rparr>))))))"

definition begin_delete :: "uuid \<Rightarrow> (uuid \<Rightarrow> uuid) \<Rightarrow> pg_time \<Rightarrow> pg_time \<Rightarrow> db \<Rightarrow> sql_error + bool \<times> db" where
  "begin_delete u fresh now clk d =
     (if \<not> lock_active_profile u d then Inr (False, d)
      else and_then (update_photos (ready_of u) (set_status Ph_deleting clk) d) (\<lambda>d1.
        case sql_first (ready_of u) (user_photo d) of
          None \<Rightarrow> Inr (True, d1)
        | Some p \<Rightarrow> and_then (enqueue (fresh (up_id p)) (photo_delete_event (up_id p)) now d1)
            (\<lambda>(_, d2). Inr (True, d2))))"

definition photo_object_of :: "photo_row \<Rightarrow> photo_object" where
  "photo_object_of p =
     \<lparr> po_id = up_id p, po_user_id = up_user_id p, po_object_key = up_object_key p,
       po_status = up_status p, po_moderation_status = None, po_moderation_reasons = None \<rparr>"

definition begin_account_deletion ::
  "uuid \<Rightarrow> nat \<Rightarrow> pg_time \<Rightarrow> db \<Rightarrow> sql_error + photo_object list \<times> db" where
  "begin_account_deletion u limit clk d =
     (let ids = map up_id (sql_page up_id limit (filter (\<lambda>p. up_user_id p = u) (user_photo d)));
          chosen = (\<lambda>p. up_id p \<in> set ids)
      in and_then (update_photos chosen (set_status Ph_deleting clk) d) (\<lambda>d'.
           Inr (map photo_object_of (filter chosen (user_photo d')), d')))"

definition complete_deletion :: "uuid \<Rightarrow> pg_time \<Rightarrow> db \<Rightarrow> db" where
  "complete_deletion i clk d =
     delete_photos (\<lambda>p. up_id p = i \<and> up_status p = Ph_deleting)
       (d\<lparr>photo_upload_request := sql_update (\<lambda>r. ur_photo_id r = Some i)
          (\<lambda>r. r\<lparr>ur_status := Rq_consumed, ur_photo_id := None, ur_updated_at := clk\<rparr>)
          (photo_upload_request d)\<rparr>)"

definition discard_processing :: "uuid \<Rightarrow> uuid \<Rightarrow> db \<Rightarrow> db" where
  "discard_processing i u d =
     delete_photos (\<lambda>p. up_id p = i \<and> up_user_id p = u \<and> in_progress p)
       (d\<lparr>photo_upload_request := sql_delete (request_of u i) (photo_upload_request d)\<rparr>)"

definition find_deleting :: "uuid \<Rightarrow> db \<Rightarrow> photo_object option" where
  "find_deleting i d = map_option photo_object_of
     (sql_first (\<lambda>p. up_id p = i \<and> up_status p = Ph_deleting) (user_photo d))"

definition purge_expired_upload_requests :: "js_time \<Rightarrow> nat \<Rightarrow> db \<Rightarrow> nat \<times> db" where
  "purge_expired_upload_requests before limit d =
     (let keys = map request_key (sql_page (\<lambda>r. (ur_expires_at r, request_key r)) limit
            (filter (\<lambda>r. ur_expires_at r \<le> pg_of_js before) (photo_upload_request d)));
          doomed = (\<lambda>r. request_key r \<in> set keys)
      in (sql_count doomed (photo_upload_request d),
          d\<lparr>photo_upload_request := sql_delete doomed (photo_upload_request d)\<rparr>))"

definition cleanup_due :: "js_time \<Rightarrow> js_time \<Rightarrow> photo_row \<Rightarrow> bool" where
  "cleanup_due stale_before retry_before p \<longleftrightarrow>
     in_progress p \<and> up_updated_at p \<le> pg_of_js stale_before \<or>
     up_status p = Ph_deleting \<and> up_updated_at p \<le> pg_of_js retry_before"

definition claim_cleanup_batch ::
  "js_time \<Rightarrow> js_time \<Rightarrow> js_time \<Rightarrow> nat \<Rightarrow> (uuid \<Rightarrow> bool) \<Rightarrow> db \<Rightarrow> sql_error + photo_object list \<times> db" where
  "claim_cleanup_batch now stale_before retry_before limit locked d =
     (let ids = map up_id (sql_candidates (cleanup_due stale_before retry_before)
            (\<lambda>p. (up_updated_at p, up_id p)) (\<lambda>p. locked (up_id p)) limit (user_photo d));
          chosen = (\<lambda>p. up_id p \<in> set ids)
      in and_then (update_photos chosen (set_status Ph_deleting (pg_of_js now)) d) (\<lambda>d'.
           Inr (map photo_object_of (filter chosen (user_photo d')), d')))"

end
