(* ===== verification/Photo_Lifecycle.thy ===== *)
theory Photo_Lifecycle
  imports Photos
begin

text \<open>
  What the photo repository promises: at most one ready photo and one upload in progress per
  user, a status machine in which a photo that is being deleted never comes back, an activation
  that swaps the photos and queues the deletion of the old one in one transaction, and uploads
  that replay under their idempotency key.
\<close>

section \<open>Lemmas on the statements\<close>

lemma lock_active_profile_not_deleted:
  assumes "distinct (map ua_id (user_account d))" "lock_active_profile u d"
  shows "\<not> account_deleted u d"
proof
  assume "account_deleted u d"
  then obtain a where a: "a \<in> set (user_account d)" "ua_id a = u" "ua_deleted_at a \<noteq> None"
    by (auto simp: account_deleted_def sql_exists_iff)
  from assms(2) obtain b where b: "b \<in> set (user_account d)" "ua_id b = u" "ua_deleted_at b = None"
    by (auto simp: lock_active_profile_def sql_exists_iff live_account_def)
  have "a = b" by (rule distinct_keyD [OF assms(1) a(1) b(1)]) (simp add: a b)
  with a b show False by simp
qed

lemma photo_table_okD:
  assumes "photo_table_ok t"
  shows "\<And>p. p \<in> set t \<Longrightarrow> photo_row_ok p" "distinct (map up_id t)"
    "unique_where in_progress up_user_id t" "unique_where is_ready up_user_id t"
  using assms by (auto simp: photo_table_ok_def photo_unique_ok_def list_all_iff)

lemma photo_idD:
  "photo_table_ok t \<Longrightarrow> p \<in> set t \<Longrightarrow> q \<in> set t \<Longrightarrow> up_id p = up_id q \<Longrightarrow> p = q"
  by (rule distinct_keyD [where k = up_id]) (auto dest: photo_table_okD)

text \<open>An update of photos that keeps their identity, their rows valid and the indexes unique.\<close>

lemma photo_table_ok_update:
  assumes "photo_table_ok t"
    and "\<And>p. up_id (f p) = up_id p" "\<And>p. up_object_key (f p) = up_object_key p"
    and "\<And>p. p \<in> set t \<Longrightarrow> q p \<Longrightarrow> photo_row_ok p \<Longrightarrow> photo_row_ok (f p)"
    and "unique_where in_progress up_user_id (sql_update q f t)"
    and "unique_where is_ready up_user_id (sql_update q f t)"
  shows "photo_table_ok (sql_update q f t)"
  using assms by (simp add: photo_table_ok_def photo_unique_ok_def list_all_sql_update map_sql_update)

lemma photo_table_ok_delete: "photo_table_ok t \<Longrightarrow> photo_table_ok (sql_delete q t)"
  by (simp add: photo_table_ok_def photo_unique_ok_def list_all_sql_delete distinct_map_sql_delete
      unique_where_sql_delete)

lemma set_status_simps [simp]:
  "up_id (set_status s clk p) = up_id p" "up_user_id (set_status s clk p) = up_user_id p"
  "up_object_key (set_status s clk p) = up_object_key p" "up_status (set_status s clk p) = s"
  "up_metadata (set_status s clk p) = up_metadata p"
  by (simp_all add: set_status_def)

lemma deleting_table_ok:
  assumes "photo_table_ok t"
  shows "photo_table_ok (sql_update q (set_status Ph_deleting clk) t)"
  by (rule photo_table_ok_update [OF assms])
    (auto simp: photo_row_ok_def in_progress_def is_ready_def split: option.splits
      intro!: unique_where_sql_update_shrink photo_table_okD(3,4) [OF assms])

lemma update_to_deleting:
  assumes "photo_table_ok (user_photo d)"
  shows "update_photos q (set_status Ph_deleting clk) d =
    Inr (d\<lparr>user_photo := sql_update q (set_status Ph_deleting clk) (user_photo d)\<rparr>)"
proof -
  have "\<not> sql_exists (\<lambda>r. q r \<and> up_status (set_status Ph_deleting clk r) \<noteq> Ph_deleting \<and>
      account_deleted (up_user_id (set_status Ph_deleting clk r)) d) (user_photo d)"
    by (simp add: sql_exists_iff)
  then show ?thesis
    using deleting_table_ok [OF assms] by (simp add: update_photos_def write_photos_Inr_iff)
qed

text \<open>The one row that enters the index, when no row with its key is left in it.\<close>

lemma unique_where_enter:
  assumes "unique_where p k t" "distinct (map i t)"
    and "\<And>r. r \<in> set t \<Longrightarrow> q r \<Longrightarrow> i r = x \<and> k (f r) = u"
    and "\<And>s. s \<in> set t \<Longrightarrow> p s \<Longrightarrow> \<not> q s \<Longrightarrow> k s \<noteq> u"
  shows "unique_where p k (sql_update q f t)"
  using assms
proof (induction t)
  case (Cons r t)
  have IH: "unique_where p k (sql_update q f t)"
    using Cons by (simp add: unique_where_def split: if_splits)
  show ?case
  proof (cases "q r")
    case True
    have no_q: "\<not> q s" if "s \<in> set t" for s
      using Cons.prems(2,3) True that by (metis distinct.simps(2) image_eqI image_set list.set_intros(1,2) list.simps(9))
    then have same: "sql_update q f t = t" by (rule sql_update_id)
    have "k s \<noteq> u" if "s \<in> set t" "p s" for s using Cons.prems(4) [of s] no_q that by simp
    then have "u \<notin> k ` set (filter p t)" by fastforce
    then show ?thesis using IH True Cons.prems(3) [of r] by (simp add: same unique_where_def)
  next
    case False
    have "k r \<notin> k ` set (filter p (sql_update q f t))" if "p r"
    proof
      assume "k r \<in> k ` set (filter p (sql_update q f t))"
      then obtain s where s: "s \<in> set t" "p (if q s then f s else s)" "k r = k (if q s then f s else s)"
        by (auto simp: set_sql_update)
      show False
      proof (cases "q s")
        case True
        with s Cons.prems(3) [of s] have "k r = u" by simp
        with Cons.prems(4) [of r] False that show False by simp
      next
        case False
        with s that Cons.prems(1) show False by (force simp: unique_where_def)
      qed
    qed
    with False IH show ?thesis by (auto simp: unique_where_def)
  qed
qed simp

section \<open>The invariant\<close>

text \<open>
  Besides the constraints of the tables: a moderation case belongs to a photo whose upload has
  ended, and a deletion event, whatever its status, names no photo that is alive.
\<close>

definition photo_inv :: "db \<Rightarrow> bool" where
  "photo_inv d \<longleftrightarrow> photo_table_ok (user_photo d) \<and> outbox_table_ok (outbox_event d) \<and>
     distinct (map ua_id (user_account d)) \<and>
     (\<forall>c \<in> set (photo_moderation_case d). \<forall>p \<in> set (user_photo d).
        up_id p = mc_photo_id c \<longrightarrow> \<not> in_progress p) \<and>
     (\<forall>e \<in> set (outbox_event d). \<forall>p \<in> set (user_photo d).
        outbox_key e = (Photo_delete, up_id p) \<longrightarrow> up_status p = Ph_deleting)"

lemma photo_invD:
  assumes "photo_inv d"
  shows "photo_table_ok (user_photo d)" "outbox_table_ok (outbox_event d)"
    "distinct (map ua_id (user_account d))"
    "\<And>c p. c \<in> set (photo_moderation_case d) \<Longrightarrow> p \<in> set (user_photo d) \<Longrightarrow>
       up_id p = mc_photo_id c \<Longrightarrow> \<not> in_progress p"
    "\<And>e p. e \<in> set (outbox_event d) \<Longrightarrow> p \<in> set (user_photo d) \<Longrightarrow>
       outbox_key e = (Photo_delete, up_id p) \<Longrightarrow> up_status p = Ph_deleting"
  using assms by (auto simp: photo_inv_def)

text \<open>Queueing the deletions: it never raises when the drawn ids are new.\<close>

lemma enqueue_deletion_ok:
  assumes "outbox_table_ok (outbox_event d)" "n \<notin> oe_id ` set (outbox_event d)"
  shows "enqueue n (photo_delete_event i) now d =
    (if (Photo_delete, i) \<in> outbox_key ` set (outbox_event d) then Inr (False, d)
     else Inr (True, d\<lparr>outbox_event := outbox_event d @ [new_outbox_row n (photo_delete_event i) now]\<rparr>))"
    (is "_ = ?r")
    and "(Photo_delete, i) \<notin> outbox_key ` set (outbox_event d) \<Longrightarrow>
      outbox_table_ok (outbox_event d @ [new_outbox_row n (photo_delete_event i) now])"
proof -
  let ?row = "new_outbox_row n (photo_delete_event i) now"
  have key: "outbox_key ?row = (Photo_delete, i)" "oe_id ?row = n"
    by (simp_all add: new_outbox_row_def photo_delete_event_def outbox_key_def)
  have ex: "sql_exists (outbox_conflict (photo_delete_event i)) (outbox_event d) \<longleftrightarrow>
      (Photo_delete, i) \<in> outbox_key ` set (outbox_event d)"
    by (force simp: sql_exists_iff outbox_conflict_def photo_delete_event_def)
  show ok: "outbox_table_ok (outbox_event d @ [?row])"
    if "(Photo_delete, i) \<notin> outbox_key ` set (outbox_event d)"
    using assms that by (auto simp: outbox_table_ok_def key new_outbox_row_ok)
  show "enqueue n (photo_delete_event i) now d = ?r"
    using ok by (simp add: enqueue_def ex write_outbox_ok)
qed

lemma enqueue_deletions_ok:
  assumes "outbox_table_ok (outbox_event d)" "inj_on fresh (set is)" "distinct is"
    and "fresh ` set is \<inter> oe_id ` set (outbox_event d) = {}"
  obtains t where "enqueue_deletions fresh now is d = Inr (d\<lparr>outbox_event := t\<rparr>)"
    and "outbox_table_ok t" and "set (outbox_event d) \<subseteq> set t"
    and "outbox_key ` set t = outbox_key ` set (outbox_event d) \<union> Pair Photo_delete ` set is"
    and "\<And>e. e \<in> set t \<Longrightarrow> e \<notin> set (outbox_event d) \<Longrightarrow>
      oe_status e = Oe_pending \<and> oe_available_at e = now \<and> outbox_key e \<in> Pair Photo_delete ` set is"
  using assms
proof (induction "is" arbitrary: d thesis)
  case Nil
  show ?case
    by (rule Nil.prems(1) [of "outbox_event d"]) (use Nil.prems(2) in auto)
next
  case (Cons i "is")
  let ?row = "new_outbox_row (fresh i) (photo_delete_event i) now"
  have new: "fresh i \<notin> oe_id ` set (outbox_event d)" using Cons.prems(5) by auto
  have inj: "inj_on fresh (set is)" using Cons.prems(3) by (rule inj_on_subset) auto
  have row: "outbox_key ?row = (Photo_delete, i)" "oe_id ?row = fresh i"
    "oe_status ?row = Oe_pending" "oe_available_at ?row = now"
    by (simp_all add: new_outbox_row_def photo_delete_event_def outbox_key_def)
  show ?case
  proof (cases "(Photo_delete, i) \<in> outbox_key ` set (outbox_event d)")
    case True
    have dist: "distinct is" and "fresh ` set is \<inter> oe_id ` set (outbox_event d) = {}"
      using Cons.prems(4,5) by auto
    from Cons.IH [OF _ Cons.prems(2) inj this] obtain t where
      t: "enqueue_deletions fresh now is d = Inr (d\<lparr>outbox_event := t\<rparr>)"
      "outbox_table_ok t" "set (outbox_event d) \<subseteq> set t"
      "outbox_key ` set t = outbox_key ` set (outbox_event d) \<union> Pair Photo_delete ` set is"
      "\<And>e. e \<in> set t \<Longrightarrow> e \<notin> set (outbox_event d) \<Longrightarrow>
        oe_status e = Oe_pending \<and> oe_available_at e = now \<and> outbox_key e \<in> Pair Photo_delete ` set is"
      by blast
    have first: "enqueue (fresh i) (photo_delete_event i) now d = Inr (False, d)"
      using True enqueue_deletion_ok(1) [OF Cons.prems(2) new] by simp
    show ?thesis
    proof (rule Cons.prems(1) [of t])
      show "enqueue_deletions fresh now (i # is) d = Inr (d\<lparr>outbox_event := t\<rparr>)"
        by (simp add: first t(1))
      show "outbox_key ` set t = outbox_key ` set (outbox_event d) \<union> Pair Photo_delete ` set (i # is)"
        using t(4) True by auto
    qed (use t(2,3,5) in auto)
  next
    case False
    let ?d = "d\<lparr>outbox_event := outbox_event d @ [?row]\<rparr>"
    have dist: "distinct is" and ok: "outbox_table_ok (outbox_event ?d)"
      and "fresh ` set is \<inter> oe_id ` set (outbox_event ?d) = {}"
      using Cons.prems(3,4,5) enqueue_deletion_ok(2) [OF Cons.prems(2) new False]
      by (auto simp: row inj_on_def)
    from Cons.IH [OF _ ok inj dist this(3)] obtain t where
      t: "enqueue_deletions fresh now is ?d = Inr (?d\<lparr>outbox_event := t\<rparr>)"
      "outbox_table_ok t" "set (outbox_event ?d) \<subseteq> set t"
      "outbox_key ` set t = outbox_key ` set (outbox_event ?d) \<union> Pair Photo_delete ` set is"
      "\<And>e. e \<in> set t \<Longrightarrow> e \<notin> set (outbox_event ?d) \<Longrightarrow>
        oe_status e = Oe_pending \<and> oe_available_at e = now \<and> outbox_key e \<in> Pair Photo_delete ` set is"
      by blast
    have first: "enqueue (fresh i) (photo_delete_event i) now d = Inr (True, ?d)"
      using False enqueue_deletion_ok(1) [OF Cons.prems(2) new] by simp
    show ?thesis
    proof (rule Cons.prems(1) [of t])
      show "enqueue_deletions fresh now (i # is) d = Inr (d\<lparr>outbox_event := t\<rparr>)"
        by (simp add: first t(1))
      show "outbox_key ` set t = outbox_key ` set (outbox_event d) \<union> Pair Photo_delete ` set (i # is)"
        using t(4) by (auto simp: row)
      fix e assume "e \<in> set t" "e \<notin> set (outbox_event d)"
      then show "oe_status e = Oe_pending \<and> oe_available_at e = now \<and>
          outbox_key e \<in> Pair Photo_delete ` set (i # is)"
        using t(5) [of e] row by (cases "e = ?row") auto
    qed (use t(2,3) in auto)
  qed
qed

section \<open>Activation\<close>

text \<open>What an activation does to the photos: the user's ready photo starts to go, the new one
  is ready.\<close>

definition retired :: "uuid \<Rightarrow> pg_time \<Rightarrow> photo_row list \<Rightarrow> photo_row list" where
  "retired u clk t = sql_update (ready_of u) (set_status Ph_deleting clk) t"

definition swapped :: "uuid \<Rightarrow> uuid \<Rightarrow> pg_time \<Rightarrow> photo_row list \<Rightarrow> photo_row list" where
  "swapped i u clk t = sql_update (processing_of i u) (set_status Ph_ready clk) (retired u clk t)"

definition candidate :: "uuid \<Rightarrow> uuid \<Rightarrow> photo_row \<Rightarrow> bool" where
  "candidate i u p \<longleftrightarrow> processing_of i u p \<and> up_metadata p \<noteq> None"

lemma processing_in_retired:
  "p \<in> set (retired u clk t) \<and> processing_of i u p \<longleftrightarrow> p \<in> set t \<and> processing_of i u p"
proof
  assume "p \<in> set (retired u clk t) \<and> processing_of i u p"
  then obtain q where "q \<in> set t" "p = (if ready_of u q then set_status Ph_deleting clk q else q)"
    "processing_of i u p"
    by (auto simp: retired_def set_sql_update)
  then show "p \<in> set t \<and> processing_of i u p"
    by (cases "ready_of u q") (simp_all add: processing_of_def)
next
  assume p: "p \<in> set t \<and> processing_of i u p"
  then have "\<not> ready_of u p" by (simp add: processing_of_def ready_of_def)
  with p show "p \<in> set (retired u clk t) \<and> processing_of i u p"
    unfolding retired_def set_sql_update by force
qed

lemma ready_not_in_retired:
  "p \<in> set (retired u clk t) \<Longrightarrow> is_ready p \<Longrightarrow> up_user_id p \<noteq> u"
  unfolding retired_def set_sql_update is_ready_def
  by (erule imageE) (simp add: ready_of_def split: if_splits)

lemma candidate_is_the_processing_one:
  assumes "photo_table_ok t" "sql_exists (candidate i u) t" "p \<in> set t" "processing_of i u p"
  shows "candidate i u p"
proof -
  obtain q where "q \<in> set t" "candidate i u q" using assms(2) by (auto simp: sql_exists_iff)
  then show ?thesis
    using photo_idD [OF assms(1,3), of q] assms(4) by (simp add: candidate_def processing_of_def)
qed

lemma swapped_ok:
  assumes "photo_table_ok t" "sql_exists (candidate i u) t"
  shows "photo_table_ok (swapped i u clk t)"
proof -
  have ok: "photo_table_ok (retired u clk t)"
    unfolding retired_def by (rule deleting_table_ok [OF assms(1)])
  show ?thesis unfolding swapped_def
  proof (rule photo_table_ok_update [OF ok])
    fix p assume p: "p \<in> set (retired u clk t)" "processing_of i u p" "photo_row_ok p"
    then have "candidate i u p"
      using processing_in_retired candidate_is_the_processing_one [OF assms] by blast
    with p(3) show "photo_row_ok (set_status Ph_ready clk p)"
      by (auto simp: photo_row_ok_def candidate_def split: option.splits)
  next
    show "unique_where in_progress up_user_id
        (sql_update (processing_of i u) (set_status Ph_ready clk) (retired u clk t))"
      by (rule unique_where_sql_update_shrink [OF photo_table_okD(3) [OF ok]])
        (simp add: in_progress_def)
  next
    show "unique_where is_ready up_user_id
        (sql_update (processing_of i u) (set_status Ph_ready clk) (retired u clk t))"
      by (rule unique_where_enter [OF photo_table_okD(4) [OF ok] photo_table_okD(2) [OF ok],
            where u = u and x = i])
        (simp_all add: processing_of_def ready_not_in_retired)
  qed simp_all
qed

lemma count_processing:
  assumes "photo_table_ok t" "sql_exists (candidate i u) t"
  shows "sql_count (processing_of i u) (retired u clk t) = 1"
proof -
  have "photo_table_ok (retired u clk t)"
    unfolding retired_def by (rule deleting_table_ok [OF assms(1)])
  moreover have "sql_exists (processing_of i u) (retired u clk t)"
    using assms(2) processing_in_retired [of _ u clk t i] by (auto simp: sql_exists_iff candidate_def)
  ultimately show ?thesis
    using sql_count_1_iff_exists [where k = up_id and x = i and p = "processing_of i u"]
    by (auto simp: processing_of_def dest: photo_table_okD(2))
qed

lemma update_to_ready:
  assumes "photo_table_ok (user_photo d)" "\<not> account_deleted u d"
    and "sql_exists (candidate i u) (user_photo d)"
    and "user_photo d1 = retired u clk (user_photo d)" "user_account d1 = user_account d"
  shows "update_photos (processing_of i u) (set_status Ph_ready clk) d1 =
    Inr (d1\<lparr>user_photo := swapped i u clk (user_photo d)\<rparr>)"
proof -
  have "\<not> sql_exists (\<lambda>r. processing_of i u r \<and> up_status (set_status Ph_ready clk r) \<noteq> Ph_deleting \<and>
      account_deleted (up_user_id (set_status Ph_ready clk r)) d1) (user_photo d1)"
    using assms(2,5) by (auto simp: sql_exists_iff processing_of_def account_deleted_def)
  then show ?thesis
    using swapped_ok [OF assms(1,3)] assms(4)
    by (simp add: update_photos_def write_photos_Inr_iff swapped_def)
qed

lemma insert_case_ok:
  assumes "photo_inv d" "\<not> account_deleted u d1" "sql_exists (candidate i u) (user_photo d)"
    and "photo_moderation_case d1 = photo_moderation_case d"
  shows "insert_photo_case (case_row u i m) d1 =
    Inr (d1\<lparr>photo_moderation_case := photo_moderation_case d @ [case_row u i m]\<rparr>)"
proof -
  obtain p where p: "p \<in> set (user_photo d)" "candidate i u p"
    using assms(3) by (auto simp: sql_exists_iff)
  have "mc_photo_id c \<noteq> i" if "c \<in> set (photo_moderation_case d)" for c
    using photo_invD(4) [OF assms(1) that p(1)] p(2)
    by (auto simp: candidate_def processing_of_def in_progress_def)
  then have "\<not> sql_exists (\<lambda>x. mc_photo_id x = i) (photo_moderation_case d)"
    by (auto simp: sql_exists_iff)
  then show ?thesis using assms(2,4) by (simp add: insert_photo_case_def case_row_def)
qed

definition ready_ids :: "uuid \<Rightarrow> db \<Rightarrow> uuid list" where
  "ready_ids u d = map up_id (filter (ready_of u) (user_photo d))"

lemma activate_eq:
  assumes inv: "photo_inv d" and lock: "lock_active_profile u d"
    and cand: "sql_exists (candidate i u) (user_photo d)"
    and fresh: "inj_on fresh (set (ready_ids u d))"
      "fresh ` set (ready_ids u d) \<inter> oe_id ` set (outbox_event d) = {}"
  obtains t where
    "activate i u m fresh now clk d =
      (if sql_count (request_of u i) (photo_upload_request d) = 1
       then Inr (True, d\<lparr>user_photo := swapped i u clk (user_photo d), outbox_event := t,
         photo_moderation_case := photo_moderation_case d @ [case_row u i m],
         photo_upload_request := sql_update (request_of u i)
           (\<lambda>r. r\<lparr>ur_status := Rq_completed, ur_updated_at := clk\<rparr>) (photo_upload_request d)\<rparr>)
       else Inl (Thrown ''Photo idempotency invariant violated''))"
    and "outbox_table_ok t" "set (outbox_event d) \<subseteq> set t"
    and "outbox_key ` set t = outbox_key ` set (outbox_event d) \<union> Pair Photo_delete ` set (ready_ids u d)"
    and "\<And>e. e \<in> set t \<Longrightarrow> e \<notin> set (outbox_event d) \<Longrightarrow>
      oe_status e = Oe_pending \<and> oe_available_at e = now \<and> outbox_key e \<in> Pair Photo_delete ` set (ready_ids u d)"
proof -
  note ok = photo_invD(1) [OF inv]
  have alive: "\<not> account_deleted u d"
    by (rule lock_active_profile_not_deleted [OF photo_invD(3) [OF inv] lock])
  let ?d1 = "d\<lparr>user_photo := retired u clk (user_photo d)\<rparr>"
  have "distinct (ready_ids u d)"
    using photo_table_okD(2) [OF ok] by (simp add: ready_ids_def distinct_map_filter)
  moreover have "outbox_table_ok (outbox_event ?d1)"
    "fresh ` set (ready_ids u d) \<inter> oe_id ` set (outbox_event ?d1) = {}"
    using photo_invD(2) [OF inv] fresh(2) by simp_all
  ultimately obtain t where
    t: "enqueue_deletions fresh now (ready_ids u d) ?d1 = Inr (?d1\<lparr>outbox_event := t\<rparr>)"
    and t_ok: "outbox_table_ok t" "set (outbox_event ?d1) \<subseteq> set t"
    and keys: "outbox_key ` set t = outbox_key ` set (outbox_event ?d1) \<union> Pair Photo_delete ` set (ready_ids u d)"
    and new: "\<And>e. e \<in> set t \<Longrightarrow> e \<notin> set (outbox_event ?d1) \<Longrightarrow>
      oe_status e = Oe_pending \<and> oe_available_at e = now \<and> outbox_key e \<in> Pair Photo_delete ` set (ready_ids u d)"
    using enqueue_deletions_ok [OF _ fresh(1)] by blast
  let ?d2 = "?d1\<lparr>outbox_event := t\<rparr>"
  have ready: "update_photos (processing_of i u) (set_status Ph_ready clk) ?d2 =
      Inr (?d2\<lparr>user_photo := swapped i u clk (user_photo d)\<rparr>)"
    by (rule update_to_ready [OF ok alive cand]) simp_all
  let ?d3 = "d\<lparr>outbox_event := t, user_photo := swapped i u clk (user_photo d)\<rparr>"
  have case_added: "insert_photo_case (case_row u i m) ?d3 =
      Inr (?d3\<lparr>photo_moderation_case := photo_moderation_case d @ [case_row u i m]\<rparr>)"
    by (rule insert_case_ok [OF inv _ cand]) (use alive in \<open>simp_all add: account_deleted_def\<close>)
  have first: "update_photos (ready_of u) (set_status Ph_deleting clk) d = Inr ?d1"
    by (simp add: update_to_deleting [OF ok] retired_def)
  have cnt: "sql_count (processing_of i u) (retired u clk (user_photo d)) = Suc 0"
    using count_processing [OF ok cand] by simp
  have "activate i u m fresh now clk d =
      (if sql_count (request_of u i) (photo_upload_request d) = 1
       then Inr (True, ?d3\<lparr>photo_moderation_case := photo_moderation_case d @ [case_row u i m],
         photo_upload_request := sql_update (request_of u i)
           (\<lambda>r. r\<lparr>ur_status := Rq_completed, ur_updated_at := clk\<rparr>) (photo_upload_request d)\<rparr>)
       else Inl (Thrown ''Photo idempotency invariant violated''))"
    unfolding activate_def Let_def ready_ids_def [symmetric] candidate_def [symmetric]
    using lock cand by (simp add: first t ready case_added cnt)
  then show ?thesis
    using that [of t] t_ok keys new by simp
qed

text \<open>The activation row by row.\<close>

definition swap_row :: "uuid \<Rightarrow> uuid \<Rightarrow> pg_time \<Rightarrow> photo_row \<Rightarrow> photo_row" where
  "swap_row i u clk p =
     (if processing_of i u p then set_status Ph_ready clk p
      else if ready_of u p then set_status Ph_deleting clk p else p)"

lemma swapped_eq: "swapped i u clk t = sql_update (\<lambda>_. True) (swap_row i u clk) t"
proof (induction t)
  case (Cons p t)
  then show ?case
    by (auto simp: swapped_def retired_def swap_row_def processing_of_def ready_of_def)
qed (simp add: swapped_def retired_def)

lemma swap_row_simps [simp]:
  "up_id (swap_row i u clk p) = up_id p" "up_user_id (swap_row i u clk p) = up_user_id p"
  by (simp_all add: swap_row_def)

lemma swap_row_status:
  "up_status (swap_row i u clk p) = (if processing_of i u p then Ph_ready
     else if ready_of u p then Ph_deleting else up_status p)"
  by (simp add: swap_row_def)

lemma ready_swap_row: "ready_of u (swap_row i u clk p) \<longleftrightarrow> processing_of i u p"
  by (auto simp: ready_of_def swap_row_status processing_of_def)

definition photo_status_of :: "db \<Rightarrow> uuid \<Rightarrow> photo_status option" where
  "photo_status_of d i = map_option up_status (sql_first (\<lambda>p. up_id p = i) (user_photo d))"

lemma photo_status_ofI:
  "photo_table_ok (user_photo d) \<Longrightarrow> p \<in> set (user_photo d) \<Longrightarrow>
     photo_status_of d (up_id p) = Some (up_status p)"
  by (simp add: photo_status_of_def sql_first_unique [OF photo_table_okD(2)])

lemma ready_ids_swapped:
  assumes "photo_table_ok t" "sql_exists (candidate i u) t" "user_photo d' = swapped i u clk t"
  shows "ready_ids u d' = [i]"
proof -
  have "filter (ready_of u) (swapped i u clk t) = map (swap_row i u clk) (filter (processing_of i u) t)"
    by (induction t) (simp_all add: swapped_eq ready_swap_row)
  then have eq: "ready_ids u d' = map up_id (filter (processing_of i u) t)"
    using assms(3) by (simp add: ready_ids_def)
  have "sql_exists (processing_of i u) t"
    using assms(2) by (auto simp: sql_exists_iff candidate_def)
  then have "sql_count (processing_of i u) t = 1"
    using sql_count_1_iff_exists [where k = up_id and x = i and p = "processing_of i u"]
      photo_table_okD(2) [OF assms(1)] by (auto simp: processing_of_def)
  then obtain p where p: "filter (processing_of i u) t = [p]"
    by (auto simp: sql_count_def length_Suc_conv)
  then have "p \<in> set (filter (processing_of i u) t)" by simp
  then have "processing_of i u p" by simp
  with p eq show ?thesis by (simp add: processing_of_def)
qed

lemma swapped_inv:
  assumes "photo_inv d" "sql_exists (candidate i u) (user_photo d)"
    and "user_photo d' = swapped i u clk (user_photo d)" "user_account d' = user_account d"
    and "photo_moderation_case d' = photo_moderation_case d @ [c]" "mc_photo_id c = i"
    and "outbox_table_ok (outbox_event d')"
    and "\<And>e. e \<in> set (outbox_event d') \<Longrightarrow> e \<notin> set (outbox_event d) \<Longrightarrow>
      outbox_key e \<in> Pair Photo_delete ` set (ready_ids u d)"
  shows "photo_inv d'"
proof -
  note ok = photo_invD(1) [OF assms(1)]
  have row: "\<exists>p \<in> set (user_photo d). p' = swap_row i u clk p" if "p' \<in> set (user_photo d')" for p'
    using that by (auto simp: assms(3) swapped_eq set_sql_update)
  obtain q where q: "q \<in> set (user_photo d)" "candidate i u q"
    using assms(2) by (auto simp: sql_exists_iff)
  have cases: "\<not> in_progress p'"
    if a: "x \<in> set (photo_moderation_case d')" "p' \<in> set (user_photo d')" "up_id p' = mc_photo_id x" for x p'
  proof -
    obtain p where p: "p \<in> set (user_photo d)" "p' = swap_row i u clk p" using row [OF a(2)] by blast
    show ?thesis
    proof (cases "x \<in> set (photo_moderation_case d)")
      case True
      then have "\<not> in_progress p" using photo_invD(4) [OF assms(1) _ p(1)] a(3) p(2) by simp
      then show ?thesis by (auto simp: p(2) in_progress_def swap_row_status)
    next
      case False
      then have "up_id p = i" using a assms(5,6) p(2) by simp
      then have "p = q" using photo_idD [OF ok p(1) q(1)] q(2) by (simp add: candidate_def processing_of_def)
      with q(2) show ?thesis by (simp add: p(2) in_progress_def swap_row_status candidate_def)
    qed
  qed
  have events: "up_status p' = Ph_deleting"
    if a: "e \<in> set (outbox_event d')" "p' \<in> set (user_photo d')" "outbox_key e = (Photo_delete, up_id p')" for e p'
  proof -
    obtain p where p: "p \<in> set (user_photo d)" "p' = swap_row i u clk p" using row [OF a(2)] by blast
    show ?thesis
    proof (cases "e \<in> set (outbox_event d)")
      case True
      then have "up_status p = Ph_deleting" using photo_invD(5) [OF assms(1) _ p(1)] a(3) p(2) by simp
      then show ?thesis by (simp add: p(2) swap_row_status processing_of_def)
    next
      case False
      then have "up_id p \<in> set (ready_ids u d)" using assms(8) [OF a(1)] a(3) p(2) by auto
      then obtain r where "r \<in> set (user_photo d)" "ready_of u r" "up_id p = up_id r"
        by (auto simp: ready_ids_def)
      with photo_idD [OF ok p(1)] have "ready_of u p" by blast
      then show ?thesis by (simp add: p(2) swap_row_status processing_of_def ready_of_def)
    qed
  qed
  show ?thesis
    unfolding photo_inv_def
    using swapped_ok [OF ok assms(2)] assms(3,4,7) photo_invD(3) [OF assms(1)] cases events by simp
qed


text \<open>A user with a photo and a processed replacement.\<close>

definition sample_account :: "uuid \<Rightarrow> account_row" where
  "sample_account u = \<lparr> ua_id = u, ua_role = User, ua_phone_hash = u, ua_phone_encrypted = [], ua_banned = False,
     ua_deleted_at = None \<rparr>"

definition sample_metadata :: photo_metadata where
  "sample_metadata = \<lparr> pm_mime_type = ''image/webp'', pm_size_bytes = 1000, pm_width = 64,
     pm_height = 64, pm_sha256 = replicate 32 CHR ''x'' \<rparr>"

definition sample_photo :: "uuid \<Rightarrow> photo_status \<Rightarrow> photo_row" where
  "sample_photo i s = \<lparr> up_id = i, up_user_id = ''u1'', up_object_key = photo_object_key ''u1'' i,
     up_status = s, up_metadata = Some sample_metadata, up_updated_at = 0 \<rparr>"

definition sample_upload :: processing_photo where
  "sample_upload = \<lparr> pp_id = ''p1'', pp_user_id = ''u1'', pp_object_key = photo_object_key ''u1'' ''p1'',
     pp_idempotency_key = ''k1'', pp_request_sha256 = replicate 32 CHR ''h'', pp_created_at = 0,
     pp_expires_at = 100 \<rparr>"

definition sample_profile :: "uuid \<Rightarrow> profile_row" where
  "sample_profile u = \<lparr> pr_user_id = u, pr_firstname = ''Ada'', pr_birthdate = (1990, 5, 17),
     pr_sex = None, pr_bio = None \<rparr>"

definition swap_db :: db where
  "swap_db = empty_db\<lparr>user_account := [sample_account ''u1''], user_profile := [sample_profile ''u1''],
     user_photo := [sample_photo ''p0'' Ph_ready, sample_photo ''p1'' Ph_processing],
     photo_upload_request := [request_row sample_upload]\<rparr>"

lemmas swap_db_defs = swap_db_def sample_profile_def sample_account_def sample_photo_def sample_upload_def
  sample_metadata_def empty_db_def request_row_def

lemma swap_db_inv: "photo_inv swap_db"
  by (simp add: photo_inv_def swap_db_defs photo_table_ok_def photo_row_ok_def photo_metadata_ok_def
      photo_unique_ok_def unique_where_def in_progress_def is_ready_def photo_object_key_def
      outbox_table_ok_def)


section \<open>The life of a photo\<close>

text \<open>
  The committed transactions on photos, in any interleaving. A new upload draws a new id;
  \<open>elsewhere\<close> is any transaction that writes no photo, no case of a photo and no deletion
  event of its own, and that keeps account ids unique.
\<close>

definition fresh_photo :: "uuid \<Rightarrow> db \<Rightarrow> bool" where
  "fresh_photo i d \<longleftrightarrow> (Photo_delete, i) \<notin> outbox_key ` set (outbox_event d) \<and>
     i \<notin> mc_photo_id ` set (photo_moderation_case d)"

definition fresh_events :: "(uuid \<Rightarrow> uuid) \<Rightarrow> uuid \<Rightarrow> db \<Rightarrow> bool" where
  "fresh_events fresh u d \<longleftrightarrow> inj_on fresh (set (ready_ids u d)) \<and>
     fresh ` set (ready_ids u d) \<inter> oe_id ` set (outbox_event d) = {}"

inductive photo_step :: "db \<Rightarrow> db \<Rightarrow> bool" where
  creates: "fresh_photo (pp_id ph) d \<Longrightarrow> create_processing ph now d = Inr (r, d') \<Longrightarrow> photo_step d d'"
| records: "record_processed i u m clk d = Inr (b, d') \<Longrightarrow> photo_step d d'"
| activates: "fresh_events fresh u d \<Longrightarrow> activate i u m fresh now clk d = Inr (b, d') \<Longrightarrow> photo_step d d'"
| retires: "begin_delete u fresh now clk d = Inr (b, d') \<Longrightarrow> photo_step d d'"
| erases: "begin_account_deletion u n clk d = Inr (ps, d') \<Longrightarrow> photo_step d d'"
| removes: "photo_step d (complete_deletion i clk d)"
| discards: "photo_step d (discard_processing i u d)"
| forgets: "purge_expired_upload_requests before n d = (k, d') \<Longrightarrow> photo_step d d'"
| cleans: "claim_cleanup_batch js stale retry n locked d = Inr (ps, d') \<Longrightarrow> photo_step d d'"
| elsewhere: "user_photo d' = user_photo d \<Longrightarrow>
    photo_moderation_case d' = photo_moderation_case d \<Longrightarrow>
    distinct (map ua_id (user_account d')) \<Longrightarrow> outbox_table_ok (outbox_event d') \<Longrightarrow>
    (\<And>e. e \<in> set (outbox_event d') \<Longrightarrow> oe_event_type e = Photo_delete \<Longrightarrow>
       outbox_key e \<in> outbox_key ` set (outbox_event d)) \<Longrightarrow> photo_step d d'"

text \<open>The edges; a photo that has no row is \<open>None\<close>.\<close>

fun photo_edge :: "photo_status option \<Rightarrow> photo_status option \<Rightarrow> bool" where
  "photo_edge None (Some Ph_processing) = True"
| "photo_edge (Some Ph_processing) (Some Ph_ready) = True"
| "photo_edge (Some Ph_pending) (Some Ph_deleting) = True"
| "photo_edge (Some Ph_processing) (Some Ph_deleting) = True"
| "photo_edge (Some Ph_ready) (Some Ph_deleting) = True"
| "photo_edge (Some Ph_pending) None = True"
| "photo_edge (Some Ph_processing) None = True"
| "photo_edge (Some Ph_deleting) None = True"
| "photo_edge _ _ = False"

definition photo_moves :: "db \<Rightarrow> db \<Rightarrow> bool" where
  "photo_moves d d' \<longleftrightarrow> (\<forall>i. photo_status_of d' i = photo_status_of d i \<or>
     photo_edge (photo_status_of d i) (photo_status_of d' i))"

lemma photo_moves_same: "user_photo d' = user_photo d \<Longrightarrow> photo_moves d d'"
  by (simp add: photo_moves_def photo_status_of_def)

lemma photo_moves_update:
  assumes "user_photo d' = sql_update q f (user_photo d)" "\<And>p. up_id (f p) = up_id p"
    and "\<And>p. p \<in> set (user_photo d) \<Longrightarrow> q p \<Longrightarrow>
      up_status (f p) = up_status p \<or> photo_edge (Some (up_status p)) (Some (up_status (f p)))"
  shows "photo_moves d d'"
  unfolding photo_moves_def
proof
  fix i
  show "photo_status_of d' i = photo_status_of d i \<or>
      photo_edge (photo_status_of d i) (photo_status_of d' i)"
  proof (cases "sql_first (\<lambda>p. up_id p = i) (user_photo d)")
    case None
    then show ?thesis
      by (simp add: photo_status_of_def assms(1) sql_first_update_key [where k = up_id and f = f, OF assms(2)])
  next
    case (Some p)
    then have "p \<in> set (user_photo d)" by (auto dest: sql_first_SomeD)
    with Some assms(3) [of p] show ?thesis
      by (auto simp: photo_status_of_def assms(1) sql_first_update_key [where k = up_id and f = f, OF assms(2)])
  qed
qed

lemma to_deleting_edge: "Ph_deleting = s \<or> photo_edge (Some s) (Some Ph_deleting)"
  by (cases s) auto

lemma photo_moves_to_deleting:
  "user_photo d' = sql_update q (set_status Ph_deleting clk) (user_photo d) \<Longrightarrow> photo_moves d d'"
  by (erule photo_moves_update) (simp_all add: to_deleting_edge)

lemma photo_moves_delete:
  assumes "photo_table_ok (user_photo d)" "user_photo d' = sql_delete q (user_photo d)"
    and "\<And>p. p \<in> set (user_photo d) \<Longrightarrow> q p \<Longrightarrow> up_status p \<noteq> Ph_ready"
  shows "photo_moves d d'"
  unfolding photo_moves_def
proof
  fix i
  show "photo_status_of d' i = photo_status_of d i \<or>
      photo_edge (photo_status_of d i) (photo_status_of d' i)"
  proof (cases "sql_first (\<lambda>p. up_id p = i) (user_photo d)")
    case None
    then show ?thesis
      by (simp add: photo_status_of_def assms(2) sql_first_delete_key [OF photo_table_okD(2) [OF assms(1)]])
  next
    case (Some p)
    then have "p \<in> set (user_photo d)" by (auto dest: sql_first_SomeD)
    then have "q p \<Longrightarrow> photo_edge (Some (up_status p)) None"
      using assms(3) [of p] by (cases "up_status p") auto
    with Some show ?thesis
      by (auto simp: photo_status_of_def assms(2) sql_first_delete_key [OF photo_table_okD(2) [OF assms(1)]])
  qed
qed

subsection \<open>Each operation keeps the invariant\<close>

lemma inv_to_deleting:
  assumes "photo_inv d" "user_photo d' = sql_update q (set_status Ph_deleting clk) (user_photo d)"
    and "user_account d' = user_account d" "photo_moderation_case d' = photo_moderation_case d"
    and "outbox_table_ok (outbox_event d')"
    and "\<And>e. e \<in> set (outbox_event d') \<Longrightarrow> oe_event_type e = Photo_delete \<Longrightarrow>
      outbox_key e \<in> outbox_key ` set (outbox_event d) \<or>
      (\<exists>p \<in> set (user_photo d). q p \<and> outbox_key e = (Photo_delete, up_id p))"
  shows "photo_inv d'"
proof -
  note ok = photo_invD(1) [OF assms(1)]
  have row: "\<exists>p \<in> set (user_photo d). p' = (if q p then set_status Ph_deleting clk p else p)"
    if "p' \<in> set (user_photo d')" for p'
    using that by (auto simp: assms(2) set_sql_update)
  have cases: "\<not> in_progress p'"
    if a: "c \<in> set (photo_moderation_case d)" "p' \<in> set (user_photo d')" "up_id p' = mc_photo_id c" for c p'
  proof -
    obtain p where p: "p \<in> set (user_photo d)" "p' = (if q p then set_status Ph_deleting clk p else p)"
      using row [OF a(2)] by blast
    then show ?thesis
      using photo_invD(4) [OF assms(1) a(1) p(1)] a(3) by (cases "q p") (auto simp: in_progress_def)
  qed
  have events: "up_status p' = Ph_deleting"
    if a: "e \<in> set (outbox_event d')" "p' \<in> set (user_photo d')" "outbox_key e = (Photo_delete, up_id p')" for e p'
  proof -
    obtain p where p: "p \<in> set (user_photo d)" "p' = (if q p then set_status Ph_deleting clk p else p)"
      using row [OF a(2)] by blast
    have key: "outbox_key e = (Photo_delete, up_id p)" using a(3) p(2) by (simp split: if_splits)
    have "oe_event_type e = Photo_delete" using a(3) by (simp add: outbox_key_def)
    from assms(6) [OF a(1) this] show ?thesis
    proof
      assume "outbox_key e \<in> outbox_key ` set (outbox_event d)"
      then obtain x where "x \<in> set (outbox_event d)" "outbox_key x = (Photo_delete, up_id p)"
        using key by auto
      then have "up_status p = Ph_deleting" using photo_invD(5) [OF assms(1) _ p(1)] by blast
      then show ?thesis by (simp add: p(2))
    next
      assume "\<exists>r \<in> set (user_photo d). q r \<and> outbox_key e = (Photo_delete, up_id r)"
      then obtain r where "r \<in> set (user_photo d)" "q r" "up_id r = up_id p" using key by auto
      then have "q p" using photo_idD [OF ok p(1)] by metis
      then show ?thesis by (simp add: p(2))
    qed
  qed
  show ?thesis
    unfolding photo_inv_def
    using deleting_table_ok [OF ok, of q clk] photo_invD(3) [OF assms(1)] cases events assms(2-5) by simp
qed

lemma inv_smaller:
  assumes "photo_inv d" "photo_table_ok (user_photo d')" "set (user_photo d') \<subseteq> set (user_photo d)"
    and "set (photo_moderation_case d') \<subseteq> set (photo_moderation_case d)"
    and "distinct (map ua_id (user_account d'))" "outbox_table_ok (outbox_event d')"
    and "\<And>e. e \<in> set (outbox_event d') \<Longrightarrow> oe_event_type e = Photo_delete \<Longrightarrow>
       outbox_key e \<in> outbox_key ` set (outbox_event d)"
  shows "photo_inv d'"
proof -
  have "up_status p = Ph_deleting"
    if "e \<in> set (outbox_event d')" "p \<in> set (user_photo d')" "outbox_key e = (Photo_delete, up_id p)" for e p
  proof -
    have "oe_event_type e = Photo_delete" using that(3) by (simp add: outbox_key_def)
    from assms(7) [OF that(1) this] show ?thesis
      using photo_invD(5) [OF assms(1)] assms(3) that(2,3) by auto
  qed
  then show ?thesis
    unfolding photo_inv_def using assms(2,5,6) photo_invD(4) [OF assms(1)] assms(3,4) by blast
qed

lemma inv_delete_photos:
  assumes "photo_inv d" shows "photo_inv (delete_photos q d)"
  by (rule inv_smaller [OF assms])
    (use assms in \<open>auto simp: delete_photos_def Let_def photo_inv_def photo_table_ok_delete\<close>)

lemma inv_requests: "photo_inv d \<Longrightarrow> photo_inv (d\<lparr>photo_upload_request := t\<rparr>)"
  by (simp add: photo_inv_def)

lemma user_photo_delete_photos [simp]: "user_photo (delete_photos q d) = sql_delete q (user_photo d)"
  by (simp add: delete_photos_def Let_def)

lemma enqueue_result:
  assumes "enqueue n ev now d = Inr (b, d')"
  shows "d' = d\<lparr>outbox_event := outbox_event d'\<rparr>" "outbox_table_ok (outbox_event d) \<Longrightarrow> outbox_table_ok (outbox_event d')"
    "\<And>e. e \<in> set (outbox_event d') \<Longrightarrow>
      e \<in> set (outbox_event d) \<or> outbox_key e = (ne_event_type ev, ne_aggregate_id ev)"
proof -
  have "d' = d\<lparr>outbox_event := outbox_event d\<rparr> \<or> outbox_table_ok (outbox_event d @ [new_outbox_row n ev now]) \<and>
      d' = d\<lparr>outbox_event := outbox_event d @ [new_outbox_row n ev now]\<rparr>"
    using assms by (auto simp: enqueue_def and_then_Inr_iff write_outbox_Inr_iff split: if_splits)
  then show "d' = d\<lparr>outbox_event := outbox_event d'\<rparr>"
    "outbox_table_ok (outbox_event d) \<Longrightarrow> outbox_table_ok (outbox_event d')"
    "\<And>e. e \<in> set (outbox_event d') \<Longrightarrow>
      e \<in> set (outbox_event d) \<or> outbox_key e = (ne_event_type ev, ne_aggregate_id ev)"
    by (auto simp: new_outbox_row_def outbox_key_def)
qed

lemma begin_delete_cases:
  assumes "photo_inv d" "begin_delete u fresh now clk d = Inr (b, d')"
  shows "d' = d \<or> user_photo d' = sql_update (ready_of u) (set_status Ph_deleting clk) (user_photo d) \<and> photo_inv d'"
proof (cases "lock_active_profile u d")
  case False
  then show ?thesis using assms(2) by (simp add: begin_delete_def)
next
  case True
  let ?d1 = "d\<lparr>user_photo := sql_update (ready_of u) (set_status Ph_deleting clk) (user_photo d)\<rparr>"
  note upd = update_to_deleting [OF photo_invD(1) [OF assms(1)], of "ready_of u" clk]
  show ?thesis
  proof (cases "sql_first (ready_of u) (user_photo d)")
    case None
    then have d': "d' = ?d1" using assms(2) True by (simp add: begin_delete_def upd)
    have "photo_inv ?d1"
      by (rule inv_to_deleting [OF assms(1)]) (use photo_invD(2) [OF assms(1)] in auto)
    with d' show ?thesis by simp
  next
    case (Some p)
    then obtain b' where e: "enqueue (fresh (up_id p)) (photo_delete_event (up_id p)) now ?d1 = Inr (b', d')"
      using assms(2) True by (auto simp: begin_delete_def upd and_then_Inr_iff)
    obtain t where t: "d' = ?d1\<lparr>outbox_event := t\<rparr>" using enqueue_result(1) [OF e] by metis
    have p: "p \<in> set (user_photo d)" "ready_of u p" using sql_first_SomeD [OF Some] by auto
    have ok: "outbox_table_ok t"
      using enqueue_result(2) [OF e] photo_invD(2) [OF assms(1)] by (simp add: t)
    have "outbox_key x \<in> outbox_key ` set (outbox_event d) \<or>
        (\<exists>p \<in> set (user_photo d). ready_of u p \<and> outbox_key x = (Photo_delete, up_id p))"
      if "x \<in> set t" for x
      using enqueue_result(3) [OF e, of x] that p by (auto simp: t photo_delete_event_def)
    then have "photo_inv d'"
      by (intro inv_to_deleting [OF assms(1), where q = "ready_of u" and clk = clk])
        (use ok in \<open>simp_all add: t\<close>)
    then show ?thesis by (simp add: t)
  qed
qed

lemma inv_record:
  assumes "photo_inv d" "record_processed i u m clk d = Inr (b, d')"
  shows "photo_inv d'" "photo_moves d d'"
proof -
  let ?f = "\<lambda>p. p\<lparr>up_metadata := Some m, up_updated_at := clk\<rparr>"
  have upd: "update_photos (processing_of i u) ?f d = Inr d'"
    using assms(2) by (auto simp: record_processed_def and_then_Inr_iff)
  then have t: "photo_table_ok (sql_update (processing_of i u) ?f (user_photo d))"
    and d': "d' = d\<lparr>user_photo := sql_update (processing_of i u) ?f (user_photo d)\<rparr>"
    by (auto simp: update_photos_def write_photos_Inr_iff split: if_splits)
  have row: "\<exists>p \<in> set (user_photo d). up_id p = up_id p' \<and> up_status p = up_status p'"
    if a: "p' \<in> set (user_photo d')" for p'
    using a by (auto simp: d' set_sql_update split: if_splits)
  have "\<not> in_progress p'" if a: "c \<in> set (photo_moderation_case d)" "p' \<in> set (user_photo d')"
    "up_id p' = mc_photo_id c" for c p'
    using row [OF a(2)] photo_invD(4) [OF assms(1) a(1)] a(3) by (auto simp: in_progress_def)
  moreover have "up_status p' = Ph_deleting" if a: "e \<in> set (outbox_event d)"
    "p' \<in> set (user_photo d')" "outbox_key e = (Photo_delete, up_id p')" for e p'
    using row [OF a(2)] photo_invD(5) [OF assms(1) a(1)] a(3) by auto
  ultimately show "photo_inv d'"
    using t photo_invD(2,3) [OF assms(1)] by (auto simp: photo_inv_def d')
  show "photo_moves d d'"
    by (rule photo_moves_update [where q = "processing_of i u" and f = ?f]) (simp_all add: d')
qed

lemma create_processing_cases:
  assumes "create_processing ph now d = Inr (r, d')"
  obtains t where "d' = d\<lparr>photo_upload_request := t\<rparr>"
  | t where "d' = d\<lparr>photo_upload_request := t, user_photo := user_photo d @ [processing_row ph now]\<rparr>"
    "photo_table_ok (user_photo d @ [processing_row ph now])" "r = Created"
proof -
  let ?t = "sql_delete (expired_request ph) (photo_upload_request d)"
  let ?d1 = "d\<lparr>photo_upload_request := ?t\<rparr>"
  define d1 where "d1 = ?d1"
  have "d' = d \<or> d' = d1 \<or> (\<exists>d2. insert_photo (processing_row ph now) d1 = Inr d2 \<and>
      insert_request (request_row ph) d2 = Inr d' \<and> r = Created)"
    using assms unfolding create_processing_def Let_def d1_def [symmetric]
    by (auto simp only: and_then_Inr_iff sum.inject prod.inject split: if_splits option.splits)
  then consider "d' = d" | "d' = ?d1"
    | d2 where "insert_photo (processing_row ph now) ?d1 = Inr d2"
      "insert_request (request_row ph) d2 = Inr d'" "r = Created"
    unfolding d1_def by blast
  then show ?thesis
  proof cases
    case 1
    show ?thesis by (rule that(1) [of "photo_upload_request d"]) (simp add: 1)
  next
    case 2
    then show ?thesis by (rule that(1))
  next
    case 3
    then have "photo_table_ok (user_photo d @ [processing_row ph now])"
      and d2: "d2 = ?d1\<lparr>user_photo := user_photo d @ [processing_row ph now]\<rparr>"
      by (auto simp: insert_photo_def write_photos_Inr_iff split: if_splits)
    moreover have "d' = d2\<lparr>photo_upload_request := photo_upload_request d2 @ [request_row ph]\<rparr>"
      using 3(2) by (auto simp: insert_request_def Let_def split: if_splits)
    ultimately show ?thesis using 3(3) by (intro that(2) [of "?t @ [request_row ph]"]) simp_all
  qed
qed

lemma inv_create:
  assumes "photo_inv d" "fresh_photo (pp_id ph) d" "create_processing ph now d = Inr (r, d')"
  shows "photo_inv d' \<and> photo_moves d d'"
  using assms(3)
proof (cases rule: create_processing_cases)
  case (1 t)
  then show ?thesis using inv_requests [OF assms(1)] by (simp add: photo_moves_same)
next
  case (2 t)
  let ?p = "processing_row ph now"
  have p: "up_id ?p = pp_id ph" "up_status ?p = Ph_processing" by (simp_all add: processing_row_def)
  have new: "pp_id ph \<notin> up_id ` set (user_photo d)"
    using photo_table_okD(2) [OF 2(2)] p(1) by simp
  have "photo_status_of d' i = photo_status_of d i \<or> photo_edge (photo_status_of d i) (photo_status_of d' i)" for i
  proof (cases "i = pp_id ph")
    case True
    then have "\<forall>p \<in> set (user_photo d). up_id p \<noteq> i" using new by force
    then have "photo_status_of d i = None"
      by (simp add: photo_status_of_def sql_first_None_iff)
    moreover from this have "photo_status_of d' i = Some Ph_processing"
      using True p by (simp add: photo_status_of_def 2(1) sql_first_append split: option.splits)
    ultimately show ?thesis by simp
  next
    case False
    then show ?thesis using p(1) by (simp add: photo_status_of_def 2(1) sql_first_append split: option.split)
  qed
  moreover have "photo_inv d'"
    using assms(1,2) 2(1,2) p by (auto simp: photo_inv_def fresh_photo_def image_iff)
  ultimately show ?thesis by (simp add: photo_moves_def)
qed

lemma inv_bulk_deleting:
  assumes "photo_inv d" "update_photos q (set_status Ph_deleting clk) d = Inr d'"
  shows "photo_inv d' \<and> photo_moves d d'"
proof -
  have d': "d' = d\<lparr>user_photo := sql_update q (set_status Ph_deleting clk) (user_photo d)\<rparr>"
    using assms(2) by (simp add: update_to_deleting [OF photo_invD(1) [OF assms(1)]])
  have "photo_inv d'"
    by (rule inv_to_deleting [OF assms(1), where q = q and clk = clk])
      (use photo_invD(2) [OF assms(1)] in \<open>auto simp: d'\<close>)
  then show ?thesis by (simp add: photo_moves_to_deleting d')
qed

lemma inv_activate:
  assumes "photo_inv d" "fresh_events fresh u d" "activate i u m fresh now clk d = Inr (b, d')"
  shows "photo_inv d' \<and> photo_moves d d'"
proof (cases "lock_active_profile u d \<and> sql_exists (candidate i u) (user_photo d)")
  case False
  then have "activate i u m fresh now clk d = Inr (False, d)"
    unfolding activate_def candidate_def [symmetric] by auto
  then show ?thesis using assms(1,3) by (simp add: photo_moves_same)
next
  case True
  then have lock: "lock_active_profile u d" and cand: "sql_exists (candidate i u) (user_photo d)" by auto
  obtain t where d': "d' = d\<lparr>user_photo := swapped i u clk (user_photo d), outbox_event := t,
         photo_moderation_case := photo_moderation_case d @ [case_row u i m],
         photo_upload_request := sql_update (request_of u i)
           (\<lambda>r. r\<lparr>ur_status := Rq_completed, ur_updated_at := clk\<rparr>) (photo_upload_request d)\<rparr>"
    and t: "outbox_table_ok t"
      "\<And>e. e \<in> set t \<Longrightarrow> e \<notin> set (outbox_event d) \<Longrightarrow>
        outbox_key e \<in> Pair Photo_delete ` set (ready_ids u d)"
    by (rule activate_eq [OF assms(1) lock cand, of fresh m now clk])
      (use assms(2,3) in \<open>auto simp: fresh_events_def split: if_splits\<close>)
  have "photo_inv d'"
    by (rule swapped_inv [OF assms(1) cand, where c = "case_row u i m"])
      (use t in \<open>simp_all add: d' case_row_def\<close>)
  moreover have "photo_moves d d'"
    by (rule photo_moves_update [where q = "\<lambda>_. True" and f = "swap_row i u clk"])
      (auto simp: d' swapped_eq swap_row_status processing_of_def ready_of_def)
  ultimately show ?thesis by simp
qed

lemma inv_photo_step:
  assumes "photo_inv d" "photo_step d d'"
  shows "photo_inv d' \<and> photo_moves d d'"
  using assms(2)
proof cases
  case creates then show ?thesis using inv_create [OF assms(1)] by blast
next
  case records then show ?thesis using inv_record [OF assms(1)] by blast
next
  case activates then show ?thesis using inv_activate [OF assms(1)] by blast
next
  case retires
  from begin_delete_cases [OF assms(1) this] show ?thesis
    using assms(1) by (auto simp: photo_moves_same intro: photo_moves_to_deleting)
next
  case erases
  then show ?thesis
    by (auto simp: begin_account_deletion_def Let_def and_then_Inr_iff
        intro!: inv_bulk_deleting [OF assms(1), THEN conjunct1] inv_bulk_deleting [OF assms(1), THEN conjunct2])
next
  case (removes i clk)
  show ?thesis unfolding removes complete_deletion_def
    by (intro conjI inv_delete_photos inv_requests assms(1)
          photo_moves_delete [where q = "\<lambda>p. up_id p = i \<and> up_status p = Ph_deleting"])
      (simp_all add: photo_invD(1) [OF assms(1)])
next
  case (discards i u)
  show ?thesis unfolding discards discard_processing_def
    by (intro conjI inv_delete_photos inv_requests assms(1)
          photo_moves_delete [where q = "\<lambda>p. up_id p = i \<and> up_user_id p = u \<and> in_progress p"])
      (auto simp: photo_invD(1) [OF assms(1)] in_progress_def)
next
  case forgets
  then show ?thesis
    using inv_requests [OF assms(1)]
    by (auto simp: purge_expired_upload_requests_def Let_def photo_moves_same)
next
  case cleans
  then show ?thesis
    by (auto simp: claim_cleanup_batch_def Let_def and_then_Inr_iff
        intro!: inv_bulk_deleting [OF assms(1), THEN conjunct1] inv_bulk_deleting [OF assms(1), THEN conjunct2])
next
  case elsewhere
  then show ?thesis
    using photo_invD(1) [OF assms(1)]
    by (auto simp: photo_moves_same intro!: inv_smaller [OF assms(1)])
qed

text \<open>C6. The life of a photo. Whatever transactions run, in whatever interleaving, every photo
  moves along the edges of the machine: it becomes ready only out of processing, it never
  becomes ready again once it is being deleted, and a ready photo never loses its row. No user
  ever has two ready photos or two uploads in progress, and no deletion event names a photo that
  is not being deleted, so the worker never removes the object of a live photo.\<close>

theorem photo_life:
  assumes "photo_inv d0" "photo_step\<^sup>*\<^sup>* d0 d" "photo_step d d'"
  shows "(photo_status_of d' i = photo_status_of d i \<or>
      photo_edge (photo_status_of d i) (photo_status_of d' i)) \<and>
    (\<forall>p \<in> set (user_photo d). \<forall>q \<in> set (user_photo d). up_user_id p = up_user_id q \<and>
      (is_ready p \<and> is_ready q \<or> in_progress p \<and> in_progress q) \<longrightarrow> p = q) \<and>
    (\<forall>e \<in> set (outbox_event d). \<forall>p \<in> set (user_photo d).
      oe_event_type e = Photo_delete \<and> oe_aggregate_id e = up_id p \<longrightarrow> up_status p = Ph_deleting)"
proof -
  from assms(2,1) have inv: "photo_inv d"
    by (induction rule: rtranclp_induct) (use inv_photo_step in blast)+
  have "photo_moves d d'" using inv_photo_step [OF inv assms(3)] by blast
  moreover have "p = q" if "p \<in> set (user_photo d)" "q \<in> set (user_photo d)"
    "up_user_id p = up_user_id q" "is_ready p \<and> is_ready q \<or> in_progress p \<and> in_progress q" for p q
    using that unique_whereD [OF photo_table_okD(3) [OF photo_invD(1) [OF inv]]]
      unique_whereD [OF photo_table_okD(4) [OF photo_invD(1) [OF inv]]] by blast
  ultimately show ?thesis
    using photo_invD(5) [OF inv] by (auto simp: photo_moves_def outbox_key_def)
qed

theorem photo_life_witness:
  "photo_step swap_db (discard_processing ''p1'' ''u1'' swap_db) \<and>
   photo_status_of swap_db ''p1'' = Some Ph_processing \<and>
   (photo_status_of (discard_processing ''p1'' ''u1'' swap_db) ''p1'' = photo_status_of swap_db ''p1'' \<or>
    photo_edge (photo_status_of swap_db ''p1'') (photo_status_of (discard_processing ''p1'' ''u1'' swap_db) ''p1''))"
proof (intro conjI)
  show "photo_step swap_db (discard_processing ''p1'' ''u1'' swap_db)" by (rule photo_step.discards)
  from photo_life [OF swap_db_inv rtranclp.rtrancl_refl this, of "''p1''"]
  show "photo_status_of (discard_processing ''p1'' ''u1'' swap_db) ''p1'' = photo_status_of swap_db ''p1'' \<or>
    photo_edge (photo_status_of swap_db ''p1'') (photo_status_of (discard_processing ''p1'' ''u1'' swap_db) ''p1'')"
    by (rule conjunct1)
  show "photo_status_of swap_db ''p1'' = Some Ph_processing"
    by (simp add: photo_status_of_def swap_db_defs)
qed

section \<open>Replays\<close>

lemma keyed_request_key: "keyed u k r \<longleftrightarrow> request_key r = (u, k)"
  by (auto simp: keyed_def request_key_def)

lemma create_created:
  assumes "create_processing ph now d = Inr (Created, d')"
  obtains t where
    "d' = d\<lparr>photo_upload_request := t @ [request_row ph], user_photo := user_photo d @ [processing_row ph now]\<rparr>"
    "\<forall>r \<in> set t. \<not> keyed (pp_user_id ph) (pp_idempotency_key ph) r"
    "pp_id ph \<notin> up_id ` set (user_photo d)" "lock_active_profile (pp_user_id ph) d"
proof -
  let ?t = "sql_delete (expired_request ph) (photo_upload_request d)"
  let ?d1 = "d\<lparr>photo_upload_request := ?t\<rparr>"
  have no_result: "creation_result_for_existing_request q ph \<noteq> Some Created" for q
    by (auto simp: creation_result_for_existing_request_def split: option.splits)
  have lock: "lock_active_profile (pp_user_id ph) d"
    using assms by (simp add: create_processing_def split: if_splits)
  obtain d2 where ins: "insert_photo (processing_row ph now) ?d1 = Inr d2"
      "insert_request (request_row ph) d2 = Inr d'"
    using assms lock no_result
    by (auto simp: create_processing_def Let_def and_then_Inr_iff split: if_splits option.splits)
  from ins(1) have t: "photo_table_ok (user_photo d @ [processing_row ph now])"
    and d2: "d2 = ?d1\<lparr>user_photo := user_photo d @ [processing_row ph now]\<rparr>"
    by (auto simp: insert_photo_def write_photos_Inr_iff split: if_splits)
  from ins(2) have d': "d' = d2\<lparr>photo_upload_request := ?t @ [request_row ph]\<rparr>"
    and dist: "distinct (map request_key (?t @ [request_row ph]))"
    by (auto simp: insert_request_def Let_def d2 split: if_splits)
  show ?thesis
  proof (rule that [OF _ _ _ lock])
    show "d' = d\<lparr>photo_upload_request := ?t @ [request_row ph], user_photo := user_photo d @ [processing_row ph now]\<rparr>"
      by (simp add: d' d2)
    have "request_key (request_row ph) \<notin> request_key ` set ?t" using dist by simp
    then show "\<forall>r \<in> set ?t. \<not> keyed (pp_user_id ph) (pp_idempotency_key ph) r"
      by (force simp: keyed_request_key request_key_def request_row_def)
    show "pp_id ph \<notin> up_id ` set (user_photo d)"
      using photo_table_okD(2) [OF t] by (simp add: processing_row_def)
  qed
qed

definition replay_of :: "processing_photo \<Rightarrow> automated_moderation \<Rightarrow> photo_creation" where
  "replay_of ph m = Replay_photo \<lparr> po_id = pp_id ph, po_user_id = pp_user_id ph,
     po_object_key = pp_object_key ph, po_status = Ph_ready, po_moderation_status = Some (am_status m),
     po_moderation_reasons = Some (am_reasons m) \<rparr>"

text \<open>What the first request of a table means for a second upload under its key.\<close>

lemma second_upload:
  assumes "lock_active_profile (pp_user_id ph2) d"
    and "sql_first (keyed (pp_user_id ph2) (pp_idempotency_key ph2)) (photo_upload_request d) = Some r"
    and "\<And>s. s \<in> set (photo_upload_request d) \<Longrightarrow> \<not> expired_request ph2 s"
    and "creation_result_for_existing_request
      (find_request (pp_user_id ph2) (pp_idempotency_key ph2) d) ph2 = Some res"
  shows "create_processing ph2 now d = Inr (res, d)"
proof -
  have "sql_delete (expired_request ph2) (photo_upload_request d) = photo_upload_request d"
    using assms(3) by (simp add: sql_delete_def filter_id_conv)
  then show ?thesis using assms(1,4) by (simp add: create_processing_def)
qed

text \<open>C8. An upload is idempotent. After an upload was created, another one under the same key
  before it expires is refused: as in progress if it is the same photo, as a conflict if it is
  another. Once the first upload is activated, the same photo under the same key replays the
  result of the first (its photo, object key and moderation decision), another photo is still a
  conflict, and neither changes the database.\<close>

theorem upload_replays:
  assumes "photo_inv d" "fresh_photo (pp_id ph) d"
    and "create_processing ph now d = Inr (Created, d1)"
    and "record_processed (pp_id ph) (pp_user_id ph) md clk d1 = Inr (True, d2)"
    and "activate (pp_id ph) (pp_user_id ph) m fresh now2 clk2 d2 = Inr (True, d3)"
    and "fresh_events fresh (pp_user_id ph) d2"
    and "pp_user_id ph2 = pp_user_id ph" "pp_idempotency_key ph2 = pp_idempotency_key ph"
    and "pp_created_at ph2 < pp_expires_at ph"
  shows "create_processing ph2 now3 d1 = Inr (if pp_request_sha256 ph2 = pp_request_sha256 ph
      then Update_in_progress else Idempotency_conflict, d1) \<and>
    create_processing ph2 now3 d3 = Inr (if pp_request_sha256 ph2 = pp_request_sha256 ph
      then replay_of ph m else Idempotency_conflict, d3)"
proof -
  let ?u = "pp_user_id ph" and ?k = "pp_idempotency_key ph" and ?i = "pp_id ph"
  obtain t where d1: "d1 = d\<lparr>photo_upload_request := t @ [request_row ph], user_photo := user_photo d @ [processing_row ph now]\<rparr>"
    and none: "\<forall>r \<in> set t. \<not> keyed ?u ?k r" and new: "?i \<notin> up_id ` set (user_photo d)"
    and lock: "lock_active_profile ?u d"
    by (rule create_created [OF assms(3)])
  have inv1: "photo_inv d1" using inv_create [OF assms(1-3)] by blast
  have inv2: "photo_inv d2" by (rule inv_record(1) [OF inv1 assms(4)])
  let ?g = "\<lambda>p. p\<lparr>up_metadata := Some md, up_updated_at := clk\<rparr>"
  have d2: "d2 = d1\<lparr>user_photo := sql_update (processing_of ?i ?u) ?g (user_photo d1)\<rparr>"
    using assms(4) by (auto simp: record_processed_def and_then_Inr_iff update_photos_def
        write_photos_Inr_iff split: if_splits)
  have good: "lock_active_profile ?u d2 \<and> sql_exists (candidate ?i ?u) (user_photo d2)"
  proof (rule ccontr)
    assume "\<not> ?thesis"
    then have "activate ?i ?u m fresh now2 clk2 d2 = Inr (False, d2)"
      unfolding activate_def candidate_def [symmetric] by auto
    with assms(5) show False by simp
  qed
  then have l2: "lock_active_profile ?u d2" and cand: "sql_exists (candidate ?i ?u) (user_photo d2)" by auto
  let ?done = "\<lambda>r. r\<lparr>ur_status := Rq_completed, ur_updated_at := clk2\<rparr>"
  obtain o' where d3: "d3 = d2\<lparr>user_photo := swapped ?i ?u clk2 (user_photo d2), outbox_event := o',
         photo_moderation_case := photo_moderation_case d2 @ [case_row ?u ?i m],
         photo_upload_request := sql_update (request_of ?u ?i) ?done (photo_upload_request d2)\<rparr>"
    by (rule activate_eq [OF inv2 l2 cand, of fresh m now2 clk2])
      (use assms(5,6) in \<open>auto simp: fresh_events_def split: if_splits\<close>)
  have none_photo: "sql_first (\<lambda>p. up_id p = ?i) (user_photo d) = None"
    using new by (force simp: sql_first_None_iff)
  have upd_g: "up_id (?g p) = up_id p" for p by simp
  have photo1: "sql_first (\<lambda>p. up_id p = ?i) (user_photo d1) = Some (processing_row ph now)"
    using none_photo by (simp add: d1 sql_first_append processing_row_def)
  have photo2: "sql_first (\<lambda>p. up_id p = ?i) (user_photo d2) = Some (?g (processing_row ph now))"
    by (simp add: d2 sql_first_update_key [where k = up_id and f = ?g, OF upd_g] photo1)
      (simp add: processing_of_def processing_row_def)
  have photo3: "sql_first (\<lambda>p. up_id p = ?i) (user_photo d3)
      = Some (set_status Ph_ready clk2 (?g (processing_row ph now)))"
    by (simp add: d3 swapped_eq sql_first_update_key [where k = up_id and f = "swap_row ?i ?u clk2"] photo2)
      (simp add: swap_row_def processing_of_def processing_row_def)
  have "sql_first (keyed ?u ?k) t = None" using none by (simp add: sql_first_None_iff)
  then have req1: "sql_first (keyed ?u ?k) (photo_upload_request d1) = Some (request_row ph)"
    by (simp add: d1 sql_first_append keyed_def request_row_def)
  have kk: "keyed ?u ?k = (\<lambda>r. request_key r = (?u, ?k))" by (simp add: fun_eq_iff keyed_request_key)
  have reqs3: "photo_upload_request d3 = sql_update (request_of ?u ?i) ?done (photo_upload_request d1)"
    by (simp add: d3 d2)
  have "sql_first (keyed ?u ?k) (photo_upload_request d3) = map_option
      (\<lambda>r. if request_of ?u ?i r then ?done r else r) (sql_first (keyed ?u ?k) (photo_upload_request d1))"
    unfolding kk reqs3 by (rule sql_first_update_key) (simp add: request_key_def)
  then have req3: "sql_first (keyed ?u ?k) (photo_upload_request d3) = Some (?done (request_row ph))"
    by (simp add: req1 request_of_def request_row_def)
  have live1: "\<not> expired_request ph2 s" if "s \<in> set (photo_upload_request d1)" for s
    using that none assms(7-9) by (auto simp: d1 expired_request_def keyed_def request_row_def)
  have live3: "\<not> expired_request ph2 s" if "s \<in> set (photo_upload_request d3)" for s
  proof -
    obtain r where "r \<in> set (photo_upload_request d1)" "s = (if request_of ?u ?i r then ?done r else r)"
      using \<open>s \<in> set (photo_upload_request d3)\<close> by (auto simp: reqs3 set_sql_update)
    with live1 [of r] show ?thesis by (auto simp: expired_request_def split: if_splits)
  qed
  have lock1: "lock_active_profile ?u d1" and lock3: "lock_active_profile ?u d3"
    using lock by (simp_all add: lock_active_profile_def d1 d2 d3)
  have "mc_photo_id c \<noteq> ?i" if "c \<in> set (photo_moderation_case d)" for c
    using assms(2) that by (force simp: fresh_photo_def)
  then have "sql_first (\<lambda>c. mc_photo_id c = ?i) (photo_moderation_case d) = None"
    by (simp add: sql_first_None_iff)
  then have case3: "sql_first (\<lambda>c. mc_photo_id c = ?i) (photo_moderation_case d3) = Some (case_row ?u ?i m)"
    by (simp add: d3 d2 d1 sql_first_append case_row_def)
  have find1: "map_option uq_request_sha256 (find_request ?u ?k d1) = Some (pp_request_sha256 ph)"
    "map_option uq_request_status (find_request ?u ?k d1) = Some Rq_processing"
    using req1 by (simp_all add: find_request_def request_row_def Let_def)
  have find3: "find_request ?u ?k d3 = Some \<lparr> uq_request_sha256 = pp_request_sha256 ph,
      uq_request_status = Rq_completed, uq_photo_id = Some ?i, uq_user_id = Some ?u,
      uq_object_key = Some (pp_object_key ph), uq_photo_status = Some Ph_ready,
      uq_moderation_status = Some (am_status m), uq_moderation_reasons = Some (am_reasons m) \<rparr>"
    using req3 photo3 case3
    by (simp add: find_request_def request_row_def Let_def
        processing_row_def set_status_def case_row_def)
  show ?thesis
  proof
    show "create_processing ph2 now3 d1 = Inr (if pp_request_sha256 ph2 = pp_request_sha256 ph
      then Update_in_progress else Idempotency_conflict, d1)"
      by (rule second_upload [OF _ _ live1])
        (use lock1 req1 find1 assms(7,8) in \<open>auto simp: creation_result_for_existing_request_def\<close>)
    show "create_processing ph2 now3 d3 = Inr (if pp_request_sha256 ph2 = pp_request_sha256 ph
      then replay_of ph m else Idempotency_conflict, d3)"
      by (rule second_upload [OF _ _ live3])
        (use lock3 req3 find3 assms(7,8) in
          \<open>simp_all add: creation_result_for_existing_request_def replay_of_def\<close>)
  qed
qed

definition start_db :: db where
  "start_db = empty_db\<lparr>user_account := [sample_account ''u1''], user_profile := [sample_profile ''u1'']\<rparr>"

lemmas photo_constraint_defs = write_photos_def photo_row_ok_def photo_metadata_ok_def
  photo_unique_ok_def unique_where_def in_progress_def is_ready_def account_deleted_def

lemma start_created:
  "create_processing sample_upload 1 start_db = Inr (Created, start_db
     \<lparr>photo_upload_request := [request_row sample_upload], user_photo := [processing_row sample_upload 1]\<rparr>)"
  by (simp add: create_processing_def start_db_def swap_db_defs lock_active_profile_def live_account_def
      find_request_def keyed_def creation_result_for_existing_request_def insert_photo_def processing_row_def
      photo_constraint_defs insert_request_def request_key_def pg_of_js_def Let_def photo_object_key_def)

definition created_db :: db where
  "created_db = start_db\<lparr>photo_upload_request := [request_row sample_upload],
     user_photo := [processing_row sample_upload 1]\<rparr>"

definition processed_db :: db where
  "processed_db = created_db\<lparr>user_photo :=
     [(processing_row sample_upload 1)\<lparr>up_metadata := Some sample_metadata, up_updated_at := 2\<rparr>]\<rparr>"

lemma start_processed:
  "record_processed ''p1'' ''u1'' sample_metadata 2 created_db = Inr (True, processed_db)"
  by (simp add: record_processed_def update_photos_def created_db_def processed_db_def start_db_def
      swap_db_defs processing_of_def processing_row_def photo_constraint_defs photo_object_key_def)

lemma start_activated:
  "\<exists>d. activate ''p1'' ''u1'' manual_photo_moderation ((#) CHR ''e'') 3 4 processed_db = Inr (True, d)"
  by (simp add: activate_def Let_def processed_db_def created_db_def start_db_def swap_db_defs
      lock_active_profile_def live_account_def processing_of_def processing_row_def ready_of_def
      update_photos_def photo_constraint_defs photo_object_key_def set_status_def insert_photo_case_def
      request_of_def)

theorem upload_replays_witness:
  "\<exists>d. create_processing (sample_upload\<lparr>pp_id := ''p9'', pp_created_at := 50\<rparr>) 60 d =
     Inr (replay_of sample_upload manual_photo_moderation, d)"
proof -
  let ?ph2 = "sample_upload\<lparr>pp_id := ''p9'', pp_created_at := 50\<rparr>"
  obtain d where act: "activate ''p1'' ''u1'' manual_photo_moderation ((#) CHR ''e'') 3 4 processed_db = Inr (True, d)"
    using start_activated by blast
  have ids: "pp_id sample_upload = ''p1''" "pp_user_id sample_upload = ''u1''"
    by (simp_all add: sample_upload_def)
  have inv: "photo_inv start_db"
    by (simp add: photo_inv_def start_db_def swap_db_defs photo_table_ok_def photo_unique_ok_def
        outbox_table_ok_def)
  have fresh: "fresh_photo ''p1'' start_db" "fresh_events ((#) CHR ''e'') ''u1'' processed_db"
    by (simp_all add: fresh_photo_def fresh_events_def start_db_def swap_db_defs processed_db_def
        created_db_def)
  have "create_processing ?ph2 60 d = Inr (if pp_request_sha256 ?ph2 = pp_request_sha256 sample_upload
      then replay_of sample_upload manual_photo_moderation else Idempotency_conflict, d)"
    by (rule upload_replays [where ph = sample_upload, unfolded ids, THEN conjunct2, OF inv fresh(1) start_created [folded created_db_def] start_processed act fresh(2)])
      (simp_all add: sample_upload_def)
  then show ?thesis by (simp add: sample_upload_def) blast
qed

end
