(* ===== verification/Common.thy ===== *)
theory Common
  imports Prelude
begin

text \<open>
  The helpers every service uses (\<open>src/common\<close>): letter case and trimming, the
  idempotency key of a request, printable text, and the exception filter that turns what a
  service throws into a response. Strings hold the characters up to U+00FF; the helper for
  printable text works on code points, because there lengths in UTF-16 units matter.
\<close>

section \<open>Strings\<close>

text \<open>\<open>toLowerCase\<close>: the letters A to Z and the accented capitals of Latin-1.\<close>

definition lower_char :: "char \<Rightarrow> char" where
  "lower_char c =
     (let n = of_char c :: nat in
      if 65 \<le> n \<and> n \<le> 90 \<or> 192 \<le> n \<and> n \<le> 222 \<and> n \<noteq> 215 then char_of (n + 32) else c)"

definition to_lower :: "string \<Rightarrow> string" where
  "to_lower s = map lower_char s"

text \<open>White space and line ends of \<open>trim\<close>.\<close>

definition js_space :: "char \<Rightarrow> bool" where
  "js_space c = (of_char c \<in> {9, 10, 11, 12, 13, 32, 160 :: nat})"

definition js_trim :: "string \<Rightarrow> string" where
  "js_trim s = rev (dropWhile js_space (rev (dropWhile js_space s)))"

text \<open>PostgreSQL reads a UUID in either case, and returns it in lower case.\<close>

definition pg_uuid :: "string \<Rightarrow> uuid" where
  "pg_uuid s = to_lower s"

section \<open>Idempotency keys\<close>

definition hex_lower :: "char \<Rightarrow> bool" where
  "hex_lower c = (c \<in> set ''0123456789abcdef'')"

text \<open>\<open>^[0-9a-f]{8}-[0-9a-f]{4}-4[0-9a-f]{3}-[89ab][0-9a-f]{3}-[0-9a-f]{12}$\<close>\<close>

definition uuid_v4 :: "string \<Rightarrow> bool" where
  "uuid_v4 k \<longleftrightarrow> length k = 36 \<and>
     list_all (\<lambda>i. if i \<in> {8, 13, 18, 23} then k ! i = CHR ''-''
       else if i = 14 then k ! i = CHR ''4''
       else if i = 19 then k ! i \<in> set ''89ab''
       else hex_lower (k ! i)) [0..<36]"

definition normalize_idempotency_key :: "string option \<Rightarrow> api_error + uuid" where
  "normalize_idempotency_key input =
     (let key = (case input of None \<Rightarrow> [] | Some s \<Rightarrow> to_lower (js_trim s)) in
      if uuid_v4 key then Inr key else Inl (api_error 400 ''invalid_idempotency_key''))"

section \<open>Printable text\<close>

text \<open>A text is its code points. \<open>length\<close> of JavaScript counts UTF-16 units, PostgreSQL counts
  code points, \<open>Buffer.byteLength\<close> counts UTF-8 bytes. NFKC and the trimming of the full
  Unicode white space are a parameter.\<close>

type_synonym code_points = "nat list"

definition utf16_length :: "code_points \<Rightarrow> nat" where
  "utf16_length t = (\<Sum>c\<leftarrow>t. if c < 0x10000 then 1 else 2)"

definition utf8_length :: "code_points \<Rightarrow> nat" where
  "utf8_length t = (\<Sum>c\<leftarrow>t. if c < 0x80 then 1 else if c < 0x800 then 2 else if c < 0x10000 then 3 else 4)"

definition control_character :: "nat \<Rightarrow> bool" where
  "control_character c = (c \<le> 31 \<or> c = 127)"

definition normalize_printable_text ::
  "(code_points \<Rightarrow> code_points) \<Rightarrow> nat \<Rightarrow> nat \<Rightarrow> nat option \<Rightarrow> code_points \<Rightarrow> code_points option" where
  "normalize_printable_text nfkc_trim min_length max_length max_bytes value =
     (let t = nfkc_trim value in
      if utf16_length t < min_length \<or> max_length < utf16_length t \<or>
         (case max_bytes of None \<Rightarrow> False | Some b \<Rightarrow> b < utf8_length t) \<or>
         list_ex control_character t
      then None else Some t)"

section \<open>Responses to failures\<close>

text \<open>
  What \<open>ApiExceptionFilter\<close> sends: status, stable code, Retry-After. The live-account trigger
  is answered first, then the service's own errors, then the framework's, and anything else
  is an internal error.
\<close>

datatype thrown = Failure failure | Http_exception nat

definition respond :: "thrown \<Rightarrow> nat \<times> string \<times> nat option" where
  "respond t = (case t of
     Failure (Unhandled Live_account_trigger) \<Rightarrow> (409, ''account_unavailable'', None)
   | Failure (Api e) \<Rightarrow> (err_status e, err_code e, if err_retry e = Some 0 then None else err_retry e)
   | Http_exception st \<Rightarrow> (st, if st = 400 \<or> st = 413 \<or> st = 415 then ''invalid_request_body''
       else if st = 404 then ''route_not_found'' else ''request_failed'', None)
   | Failure (Unhandled _) \<Rightarrow> (500, ''internal_error'', None))"

section \<open>JSON values\<close>

text \<open>What \<open>JSON.parse\<close> returns; a number that is not finite is \<open>None\<close>.\<close>

datatype json = Json_null | Json_bool bool | Json_number "real option" | Json_string string
  | Json_array "json list" | Json_object "(string \<times> json) list"

fun json_field :: "string \<Rightarrow> json \<Rightarrow> json option" where
  "json_field name (Json_object fs) = map_of fs name"
| "json_field name _ = None"

section \<open>Lemmas\<close>

lemma lower_char_fixed:
  "of_char c < (65 :: nat) \<or> 90 < (of_char c :: nat) \<and> (of_char c :: nat) < 192 \<Longrightarrow> lower_char c = c"
  by (auto simp: lower_char_def Let_def)

lemma uuid_v4_chars:
  assumes "uuid_v4 k" "c \<in> set k"
  shows "c \<in> set ''0123456789abcdef-''"
proof -
  obtain i where i: "i < length k" "c = k ! i" using assms(2) by (auto simp: in_set_conv_nth)
  have len: "length k = 36" using assms(1) by (simp only: uuid_v4_def)
  have "\<forall>i \<in> {0..<36}. if i \<in> {8, 13, 18, 23} then k ! i = CHR ''-''
       else if i = 14 then k ! i = CHR ''4''
       else if i = 19 then k ! i \<in> set ''89ab''
       else hex_lower (k ! i)"
    using assms(1) unfolding uuid_v4_def list_all_iff set_upt by (rule conjunct2)
  moreover have "i \<in> {0..<36}" using i(1) len by (simp only: atLeastLessThan_iff) simp
  ultimately have "if i \<in> {8, 13, 18, 23} then c = CHR ''-''
       else if i = 14 then c = CHR ''4'' else if i = 19 then c \<in> set ''89ab'' else hex_lower c"
    unfolding i(2) by (rule bspec)
  then have "c = CHR ''-'' \<or> c = CHR ''4'' \<or> c \<in> set ''89ab'' \<or> hex_lower c"
    by (simp only: split: if_splits) blast+
  then show ?thesis
    unfolding hex_lower_def by auto
qed

lemma uuid_char_codes:
  "list_all (\<lambda>c. lower_char c = c \<and> \<not> js_space c) ''0123456789abcdef-''"
  by code_simp

lemma uuid_v4_fixed: "uuid_v4 k \<Longrightarrow> to_lower (js_trim k) = k"
proof -
  assume k: "uuid_v4 k"
  have "\<forall>c \<in> set k. lower_char c = c \<and> \<not> js_space c"
    using uuid_v4_chars [OF k] uuid_char_codes unfolding list_all_iff by blast
  then have "map lower_char k = k" "filter js_space k = []" by (simp_all add: map_idI filter_empty_conv)
  moreover have "dropWhile js_space xs = xs" if "filter js_space xs = []" for xs
    using that by (cases xs) (auto split: if_splits)
  moreover have "filter js_space (rev k) = []" if "filter js_space k = []"
    using that by (simp add: rev_filter [symmetric])
  ultimately show "to_lower (js_trim k) = k" by (simp add: js_trim_def to_lower_def)
qed

text \<open>A normalised key is canonical: it is accepted again, unchanged.\<close>

lemma normalize_idempotency_key_stable:
  "normalize_idempotency_key input = Inr k \<Longrightarrow> normalize_idempotency_key (Some k) = Inr k"
  by (auto simp: normalize_idempotency_key_def Let_def uuid_v4_fixed split: if_splits)

text \<open>The bound of the service and the bound of the column agree on texts of the basic plane.\<close>

lemma utf16_length_basic: "\<forall>c \<in> set t. c < 0x10000 \<Longrightarrow> utf16_length t = length t"
  by (induction t) (auto simp: utf16_length_def)

end
