(* ===== verification/Photo_Processor.thy ===== *)
theory Photo_Processor
  imports Schema Common "HOL-Library.Word"
begin

unbundle bit_operations_syntax

text \<open>
  Checking and re-encoding an uploaded picture: \<open>src/photos/photo-processor.service.ts\<close>. The
  checks on name, media type and leading bytes are translated as they are. The image libraries
  (sharp, heic-decode) and SHA-256 are parameters, the fields of \<open>codec\<close>; a call that throws is
  \<open>None\<close>; the metadata of a HEIF file are read without the pixel limit, so they are a
  parameter of their own. What the code relies on is \<open>codec_ok\<close>: a resized picture fits in the edge asked for
  and is not empty, and a digest has 32 bytes.
\<close>

type_synonym bytes = "8 word list"

datatype photo_format = Jpeg | Png | Heif | Webp

datatype photo_error = Invalid_photo string | Photo_too_large | Other_error

record uploaded_photo =
  fu_filename :: string
  fu_mimetype :: string
  fu_body :: bytes

record processed_photo =
  pr_body :: bytes
  pr_mime_type :: string
  pr_size_bytes :: nat
  pr_width :: nat
  pr_height :: nat
  pr_sha256 :: string

abbreviation default_invalid :: photo_error where
  "default_invalid \<equiv> Invalid_photo ''The uploaded photo is invalid.''"

section \<open>Names and media types\<close>

text \<open>\<open>path.extname\<close> of Node: from the last dot of the last component, unless that dot starts it.\<close>

definition extname :: "string \<Rightarrow> string" where
  "extname path =
     (let last_part = takeWhile (\<lambda>c. c \<noteq> CHR ''/'') (dropWhile (\<lambda>c. c = CHR ''/'') (rev path));
          ext = takeWhile (\<lambda>c. c \<noteq> CHR ''.'') last_part;
          before = drop (length ext + 1) last_part
      in if CHR ''.'' \<notin> set last_part \<or> before = [] \<or> last_part = ''..'' then []
         else CHR ''.'' # rev ext)"

definition format_by_extension :: "string \<Rightarrow> photo_format option" where
  "format_by_extension e =
     (if e = ''.jpg'' \<or> e = ''.jpeg'' then Some Jpeg
      else if e = ''.png'' then Some Png
      else if e = ''.heic'' \<or> e = ''.heif'' then Some Heif
      else if e = ''.webp'' then Some Webp else None)"

fun mime_types :: "photo_format \<Rightarrow> string list" where
  "mime_types Jpeg = [''image/jpeg'', ''image/jpg'', ''application/octet-stream'']"
| "mime_types Png = [''image/png'', ''application/octet-stream'']"
| "mime_types Heif = [''image/heic'', ''image/heif'', ''application/octet-stream'']"
| "mime_types Webp = [''image/webp'', ''application/octet-stream'']"

section \<open>Leading bytes\<close>

text \<open>\<open>Buffer.toString('ascii')\<close> drops the high bit of every byte.\<close>

definition ascii_text :: "bytes \<Rightarrow> string" where
  "ascii_text b = map (\<lambda>x. char_of (unat (x AND 0x7F))) b"

definition slice :: "nat \<Rightarrow> nat \<Rightarrow> 'a list \<Rightarrow> 'a list" where
  "slice i j b = take (j - i) (drop i b)"

definition read_uint32_be :: "bytes \<Rightarrow> nat" where
  "read_uint32_be b = unat (b ! 0) * 2 ^ 24 + unat (b ! 1) * 2 ^ 16 + unat (b ! 2) * 2 ^ 8 + unat (b ! 3)"

definition heif_brand_codes :: "string list" where
  "heif_brand_codes = [''heic'', ''heix'', ''hevc'', ''hevx'', ''heim'', ''heis'', ''hevm'', ''hevs'']"

function brands_from :: "bytes \<Rightarrow> nat \<Rightarrow> nat \<Rightarrow> string list" where
  "brands_from b box_size offset =
     (if offset + 4 \<le> box_size
      then ascii_text (slice offset (offset + 4) b) # brands_from b box_size (offset + 4) else [])"
  by pat_completeness auto

termination brands_from by (relation "measure (\<lambda>(b, box_size, offset). box_size - offset)") auto

declare brands_from.simps [simp del]

definition is_heif :: "bytes \<Rightarrow> bool" where
  "is_heif b =
     (if length b < 16 \<or> ascii_text (slice 4 8 b) \<noteq> ''ftyp'' then False
      else let box_size = read_uint32_be b in
        if box_size < 16 \<or> length b < box_size then False
        else list_ex (\<lambda>brand. brand \<in> set heif_brand_codes) (brands_from b box_size 8))"

definition detect_format :: "bytes \<Rightarrow> photo_format option" where
  "detect_format b =
     (if 3 \<le> length b \<and> b ! 0 = 0xFF \<and> b ! 1 = 0xD8 \<and> b ! 2 = 0xFF then Some Jpeg
      else if 8 \<le> length b \<and> slice 0 8 b = [0x89, 0x50, 0x4E, 0x47, 0x0D, 0x0A, 0x1A, 0x0A] then Some Png
      else if 12 \<le> length b \<and> ascii_text (slice 0 4 b) = ''RIFF'' \<and> ascii_text (slice 8 12 b) = ''WEBP''
      then Some Webp
      else if is_heif b then Some Heif else None)"

section \<open>Re-encoding\<close>

record image_info =
  im_format :: string
  im_width :: "nat option"
  im_height :: "nat option"
  im_pages :: "nat option"

record decoded_heif =
  dh_width :: nat
  dh_height :: nat
  dh_data :: bytes

datatype image_source = Upright bytes | Raw_pixels nat nat bytes

record encoded_webp =
  ew_format :: string
  ew_data :: bytes
  ew_width :: nat
  ew_height :: nat

record codec =
  read_metadata :: "bytes \<Rightarrow> image_info option"
  read_heif_metadata :: "bytes \<Rightarrow> image_info option"
  decode_heif :: "bytes \<Rightarrow> decoded_heif option"
  resize_webp :: "image_source \<Rightarrow> nat \<Rightarrow> nat \<Rightarrow> encoded_webp option"
  sha256 :: "bytes \<Rightarrow> string"

definition max_photo_bytes :: nat where "max_photo_bytes = 500000"
definition max_photo_pixels :: nat where "max_photo_pixels = 40000000"

definition encode_attempts :: "(nat \<times> nat) list" where
  "encode_attempts = [(2048, 82), (1800, 74), (1600, 68), (1400, 62), (1200, 56), (1024, 50)]"

fun try_encode :: "(nat \<Rightarrow> nat \<Rightarrow> encoded_webp option) \<Rightarrow> (nat \<times> nat) list \<Rightarrow> photo_error + encoded_webp" where
  "try_encode resize [] = Inl Photo_too_large"
| "try_encode resize ((edge, quality) # rest) =
     (case resize edge quality of
        None \<Rightarrow> Inl Other_error
      | Some r \<Rightarrow>
          if ew_format r \<noteq> ''webp'' then Inl default_invalid
          else if length (ew_data r) \<le> max_photo_bytes then Inr r
          else try_encode resize rest)"

definition encode_webp :: "codec \<Rightarrow> image_source \<Rightarrow> photo_error + encoded_webp" where
  "encode_webp c src = try_encode (resize_webp c src) encode_attempts"

text \<open>\<open>!metadata.width\<close> is true of a missing width and of zero.\<close>

fun present :: "nat option \<Rightarrow> bool" where
  "present None = False"
| "present (Some n) = (n \<noteq> 0)"

definition pixels :: "image_info \<Rightarrow> nat" where
  "pixels m = the (im_width m) * the (im_height m)"

definition single_page :: "image_info \<Rightarrow> bool" where
  "single_page m = ((case im_pages m of None \<Rightarrow> 1 | Some n \<Rightarrow> n) = 1)"

fun sharp_name :: "photo_format \<Rightarrow> string" where
  "sharp_name Jpeg = ''jpeg''" | "sharp_name Png = ''png''"
| "sharp_name Heif = ''heif''" | "sharp_name Webp = ''webp''"

definition convert_sharp :: "codec \<Rightarrow> bytes \<Rightarrow> photo_format \<Rightarrow> photo_error + encoded_webp" where
  "convert_sharp c b f =
     (case read_metadata c b of
        None \<Rightarrow> Inl Other_error
      | Some m \<Rightarrow>
          if im_format m \<noteq> sharp_name f \<or> \<not> present (im_width m) \<or> \<not> present (im_height m) \<or>
             max_photo_pixels < pixels m \<or> \<not> single_page m
          then Inl default_invalid else encode_webp c (Upright b))"

definition convert_heif :: "codec \<Rightarrow> bytes \<Rightarrow> photo_error + encoded_webp" where
  "convert_heif c b =
     (case read_heif_metadata c b of
        None \<Rightarrow> Inl Other_error
      | Some m \<Rightarrow>
          if im_format m \<noteq> ''heif'' \<or> \<not> present (im_width m) \<or> \<not> present (im_height m) \<or> \<not> single_page m
          then Inl default_invalid
          else if max_photo_pixels < pixels m then Inl Photo_too_large
          else (case decode_heif c b of
              None \<Rightarrow> Inl Other_error
            | Some r \<Rightarrow>
                if dh_width r = 0 \<or> dh_height r = 0 \<or> max_photo_pixels < dh_width r * dh_height r \<or>
                   length (dh_data r) \<noteq> dh_width r * dh_height r * 4
                then Inl default_invalid
                else encode_webp c (Raw_pixels (dh_width r) (dh_height r) (dh_data r))))"

definition processed_of :: "codec \<Rightarrow> encoded_webp \<Rightarrow> processed_photo" where
  "processed_of c r =
     \<lparr> pr_body = ew_data r, pr_mime_type = ''image/webp'', pr_size_bytes = length (ew_data r),
       pr_width = ew_width r, pr_height = ew_height r, pr_sha256 = sha256 c (ew_data r) \<rparr>"

definition to_webp :: "codec \<Rightarrow> uploaded_photo \<Rightarrow> photo_error + processed_photo" where
  "to_webp c up =
     (if fu_body up = [] then Inl default_invalid
      else if max_photo_bytes < length (fu_body up) then Inl Photo_too_large
      else case format_by_extension (to_lower (extname (fu_filename up))) of
        None \<Rightarrow> Inl (Invalid_photo ''The photo file extension is not supported.'')
      | Some f \<Rightarrow>
          if to_lower (fu_mimetype up) \<notin> set (mime_types f)
          then Inl (Invalid_photo ''The photo media type does not match its extension.'')
          else if detect_format (fu_body up) \<noteq> Some f
          then Inl (Invalid_photo ''The photo contents do not match its extension.'')
          else (case (if f = Heif then convert_heif c (fu_body up) else convert_sharp c (fu_body up) f) of
              Inr r \<Rightarrow> Inr (processed_of c r)
            | Inl Other_error \<Rightarrow> Inl (Invalid_photo ''The photo could not be decoded.'')
            | Inl e \<Rightarrow> Inl e))"

section \<open>Lemmas\<close>

definition codec_ok :: "codec \<Rightarrow> bool" where
  "codec_ok c \<longleftrightarrow> (\<forall>b. length (sha256 c b) = 32) \<and>
     (\<forall>src edge q r. resize_webp c src edge q = Some r \<longrightarrow>
        ew_data r \<noteq> [] \<and> 1 \<le> ew_width r \<and> ew_width r \<le> edge \<and> 1 \<le> ew_height r \<and> ew_height r \<le> edge)"

lemma try_encode_InrD:
  "try_encode resize as = Inr r \<Longrightarrow> length (ew_data r) \<le> max_photo_bytes \<and>
     (\<exists>(edge, q) \<in> set as. resize edge q = Some r)"
  by (induction resize as rule: try_encode.induct) (auto split: option.splits if_splits)

lemma encode_webp_InrD:
  assumes "codec_ok c" "encode_webp c src = Inr r"
  shows "length (ew_data r) \<le> max_photo_bytes" "ew_data r \<noteq> []"
    "1 \<le> ew_width r" "ew_width r \<le> 2048" "1 \<le> ew_height r" "ew_height r \<le> 2048"
proof -
  obtain edge q where r: "resize_webp c src edge q = Some r" "(edge, q) \<in> set encode_attempts"
    and len: "length (ew_data r) \<le> max_photo_bytes"
    using try_encode_InrD [OF assms(2) [unfolded encode_webp_def]] by auto
  have "edge \<le> 2048" using r(2) by (auto simp: encode_attempts_def)
  moreover have "ew_data r \<noteq> [] \<and> 1 \<le> ew_width r \<and> ew_width r \<le> edge \<and> 1 \<le> ew_height r \<and> ew_height r \<le> edge"
    using assms(1) r(1) unfolding codec_ok_def by blast
  ultimately show "length (ew_data r) \<le> max_photo_bytes" "ew_data r \<noteq> []"
    "1 \<le> ew_width r" "ew_width r \<le> 2048" "1 \<le> ew_height r" "ew_height r \<le> 2048"
    using len by auto
qed

lemma to_webp_InrD:
  assumes "to_webp c up = Inr p"
  obtains f src r where "format_by_extension (to_lower (extname (fu_filename up))) = Some f"
    "to_lower (fu_mimetype up) \<in> set (mime_types f)" "detect_format (fu_body up) = Some f"
    "fu_body up \<noteq> []" "length (fu_body up) \<le> max_photo_bytes"
    "encode_webp c src = Inr r" "p = processed_of c r"
proof -
  obtain f where f: "format_by_extension (to_lower (extname (fu_filename up))) = Some f"
    "to_lower (fu_mimetype up) \<in> set (mime_types f)" "detect_format (fu_body up) = Some f"
    "fu_body up \<noteq> []" "length (fu_body up) \<le> max_photo_bytes"
    using assms by (auto simp: to_webp_def split: option.splits if_splits)
  obtain r where r: "(if f = Heif then convert_heif c (fu_body up) else convert_sharp c (fu_body up) f) = Inr r"
    "p = processed_of c r"
    using assms f by (auto simp: to_webp_def split: sum.splits photo_error.splits)
  then obtain src where "encode_webp c src = Inr r"
    by (auto simp: convert_heif_def convert_sharp_def split: if_splits option.splits)
  with f r(2) show ?thesis using that by blast
qed

text \<open>The brands of the box: the loop reads the words at 8, 12, .. that lie inside the box.\<close>

lemma image_Suc_split:
  assumes "P (0 :: nat)"
  shows "{f k | k. P k} = insert (f 0) {f (Suc k) | k. P (Suc k)}" (is "?L = ?R")
proof
  show "?L \<subseteq> ?R"
  proof
    fix x assume "x \<in> ?L"
    then obtain k where "P k" "x = f k" by auto
    then show "x \<in> ?R" by (cases k) auto
  qed
  show "?R \<subseteq> ?L" using assms by auto
qed

lemma set_brands_from:
  "set (brands_from b box_size offset) =
     {ascii_text (slice (offset + 4 * k) (offset + 4 * k + 4) b) | k. offset + 4 * k + 4 \<le> box_size}"
proof (induction b box_size offset rule: brands_from.induct)
  case (1 b box_size offset)
  let ?f = "\<lambda>k. ascii_text (slice (offset + 4 * k) (offset + 4 * k + 4) b)"
  show ?case
  proof (cases "offset + 4 \<le> box_size")
    case True
    have "{?f k | k. offset + 4 * k + 4 \<le> box_size} =
        insert (?f 0) {?f (Suc k) | k. offset + 4 * Suc k + 4 \<le> box_size}"
      by (rule image_Suc_split) (use True in simp)
    moreover have "{?f (Suc k) | k. offset + 4 * Suc k + 4 \<le> box_size} =
        set (brands_from b box_size (offset + 4))"
      using 1 [OF True] by (simp add: algebra_simps)
    ultimately show ?thesis using True by (subst brands_from.simps) simp
  next
    case False
    then show ?thesis by (subst brands_from.simps) auto
  qed
qed

lemma is_heif_iff:
  "is_heif b \<longleftrightarrow> 16 \<le> length b \<and> ascii_text (slice 4 8 b) = ''ftyp'' \<and>
     16 \<le> read_uint32_be b \<and> read_uint32_be b \<le> length b \<and>
     (\<exists>k. 12 + 4 * k \<le> read_uint32_be b \<and>
       ascii_text (slice (8 + 4 * k) (12 + 4 * k) b) \<in> set heif_brand_codes)"
proof -
  have "list_ex (\<lambda>brand. brand \<in> set heif_brand_codes) (brands_from b n 8) \<longleftrightarrow>
      (\<exists>k. 12 + 4 * k \<le> n \<and> ascii_text (slice (8 + 4 * k) (12 + 4 * k) b) \<in> set heif_brand_codes)" for n
    by (auto simp: list_ex_iff set_brands_from algebra_simps)
  then show ?thesis by (auto simp: is_heif_def Let_def)
qed

section \<open>Properties\<close>

definition metadata_of :: "processed_photo \<Rightarrow> photo_metadata" where
  "metadata_of p = \<lparr> pm_mime_type = pr_mime_type p, pm_size_bytes = pr_size_bytes p,
     pm_width = pr_width p, pm_height = pr_height p, pm_sha256 = pr_sha256 p \<rparr>"

text \<open>Whatever the image libraries return within their contract, an accepted picture has a
  supported extension, a media type declared for it, contents of that very format, and at most
  500,000 bytes; and what is stored of it passes every constraint of the photo table.\<close>

theorem accepted_photo_storable:
  assumes "codec_ok c" "to_webp c up = Inr p"
  shows "photo_metadata_ok (metadata_of p) \<and>
    (\<exists>f. format_by_extension (to_lower (extname (fu_filename up))) = Some f \<and>
       to_lower (fu_mimetype up) \<in> set (mime_types f) \<and> detect_format (fu_body up) = Some f) \<and>
    1 \<le> length (fu_body up) \<and> length (fu_body up) \<le> 500000 \<and> length (pr_body p) \<le> 500000"
proof -
  obtain f src r where f: "format_by_extension (to_lower (extname (fu_filename up))) = Some f"
    "to_lower (fu_mimetype up) \<in> set (mime_types f)" "detect_format (fu_body up) = Some f"
    and len: "fu_body up \<noteq> []" "length (fu_body up) \<le> max_photo_bytes"
    and r: "encode_webp c src = Inr r" "p = processed_of c r"
    by (rule to_webp_InrD [OF assms(2)])
  have "length (sha256 c (ew_data r)) = 32" using assms(1) by (simp add: codec_ok_def)
  with encode_webp_InrD [OF assms(1) r(1)] have "photo_metadata_ok (metadata_of p)"
    by (simp add: photo_metadata_ok_def metadata_of_def r(2) processed_of_def max_photo_bytes_def
        Suc_le_eq)
  moreover have "1 \<le> length (fu_body up)" using len(1) by (simp add: Suc_le_eq)
  moreover have "length (pr_body p) \<le> 500000"
    using encode_webp_InrD(1) [OF assms(1) r(1)] by (simp add: r(2) processed_of_def max_photo_bytes_def)
  ultimately show ?thesis using f len by (auto simp: max_photo_bytes_def)
qed

text \<open>A tiny codec: every picture is a 4 by 4 square, and the encoder returns one byte.\<close>

definition tiny_codec :: codec where
  "tiny_codec = \<lparr> read_metadata = (\<lambda>b. Some \<lparr> im_format = ''jpeg'', im_width = Some 4,
       im_height = Some 4, im_pages = None \<rparr>), read_heif_metadata = (\<lambda>b. None), decode_heif = (\<lambda>b. None),
     resize_webp = (\<lambda>src edge q. if edge = 0 then None else Some \<lparr> ew_format = ''webp'',
       ew_data = [1], ew_width = 1, ew_height = 1 \<rparr>), sha256 = (\<lambda>b. replicate 32 CHR ''s'') \<rparr>"

definition tiny_upload :: uploaded_photo where
  "tiny_upload = \<lparr> fu_filename = ''me.JPG'', fu_mimetype = ''image/jpeg'',
     fu_body = [0xFF, 0xD8, 0xFF, 0xE0] \<rparr>"

lemma tiny_codec_ok: "codec_ok tiny_codec"
  by (simp add: codec_ok_def tiny_codec_def)

lemma tiny_upload_accepted: "\<exists>p. to_webp tiny_codec tiny_upload = Inr p"
proof -
  have "to_lower (extname ''me.JPG'') = ''.jpg''" by code_simp
  then show ?thesis
    by (simp add: to_webp_def tiny_upload_def tiny_codec_def max_photo_bytes_def
        format_by_extension_def to_lower_def lower_char_def detect_format_def convert_sharp_def
        single_page_def max_photo_pixels_def pixels_def encode_webp_def encode_attempts_def)
qed

theorem accepted_photo_storable_witness:
  "\<exists>p. to_webp tiny_codec tiny_upload = Inr p \<and> photo_metadata_ok (metadata_of p)"
proof -
  obtain p where p: "to_webp tiny_codec tiny_upload = Inr p" using tiny_upload_accepted by blast
  from accepted_photo_storable [OF tiny_codec_ok p] p show ?thesis by blast
qed

text \<open>What each format's leading bytes are, said independently of the order of the tests.\<close>

fun signature :: "photo_format \<Rightarrow> bytes \<Rightarrow> bool" where
  "signature Jpeg b = (take 3 b = [0xFF, 0xD8, 0xFF])"
| "signature Png b = (take 8 b = [0x89, 0x50, 0x4E, 0x47, 0x0D, 0x0A, 0x1A, 0x0A])"
| "signature Webp b = (12 \<le> length b \<and> ascii_text (take 4 b) = ''RIFF'' \<and>
     ascii_text (take 4 (drop 8 b)) = ''WEBP'')"
| "signature Heif b = (16 \<le> length b \<and> ascii_text (take 4 (drop 4 b)) = ''ftyp'' \<and>
     16 \<le> read_uint32_be b \<and> read_uint32_be b \<le> length b \<and>
     (\<exists>k. 12 + 4 * k \<le> read_uint32_be b \<and>
       ascii_text (take 4 (drop (8 + 4 * k) b)) \<in> set heif_brand_codes))"

lemma take3_iff: "take 3 b = [x, y, z] \<longleftrightarrow> 3 \<le> length b \<and> b ! 0 = x \<and> b ! 1 = y \<and> b ! 2 = z"
  by (cases b rule: list.exhaust; cases "tl b"; cases "tl (tl b)") (auto simp: numeral_3_eq_3)

lemma signature_heif: "signature Heif b \<longleftrightarrow> is_heif b"
  by (simp add: is_heif_iff slice_def algebra_simps)

lemma heif_first_byte:
  assumes "signature Heif b" "length b \<le> 500000"
  shows "b ! 0 = 0"
proof -
  have "unat (b ! 0) * 2 ^ 24 \<le> 500000"
    using assms by (simp add: read_uint32_be_def)
  then have "unat (b ! 0) = 0" by (cases "unat (b ! 0)") simp_all
  then show ?thesis by (simp add: unat_eq_0)
qed

lemma png_first_byte: "signature Png b \<Longrightarrow> b ! 0 = 0x89"
  by (cases b) auto

lemma webp_first_byte: "signature Webp b \<Longrightarrow> char_of (unat ((b ! 0) AND 0x7F)) = CHR ''R''"
  by (cases b) (auto simp: ascii_text_def)

lemma jpeg_first_byte: "signature Jpeg b \<Longrightarrow> b ! 0 = 0xFF"
  by (simp add: take3_iff)

lemma not_R:
  "char_of (0 :: nat) \<noteq> CHR ''R''" "char_of (9 :: nat) \<noteq> CHR ''R''" "char_of (127 :: nat) \<noteq> CHR ''R''"
  by code_simp+

lemma signature_exclusive:
  assumes "length b \<le> 500000" "signature f b" "signature g b"
  shows "f = g"
proof -
  have other: "signature f b \<Longrightarrow> f \<noteq> Heif \<Longrightarrow> b ! 0 \<noteq> 0" for f
    using png_first_byte [of b] webp_first_byte [of b] jpeg_first_byte [of b] not_R
    by (cases f) (auto simp del: signature.simps)
  have "signature Webp b \<Longrightarrow> \<not> signature Png b \<and> \<not> signature Jpeg b"
    using png_first_byte [of b] webp_first_byte [of b] jpeg_first_byte [of b] not_R
    by (auto simp del: signature.simps)
  moreover have "signature Png b \<Longrightarrow> \<not> signature Jpeg b"
    using png_first_byte [of b] jpeg_first_byte [of b] by (auto simp del: signature.simps)
  ultimately show ?thesis
    using assms(2,3) other [of f] other [of g] heif_first_byte [OF _ assms(1)]
    by (cases f; cases g) (auto simp del: signature.simps)
qed

text \<open>For any upload the service lets in (at most 500,000 bytes), the format found is the one
  whose leading bytes the file has: no file has the leading bytes of two formats, so the order of
  the tests does not matter, and the HEIF test reads exactly the brands inside the first box.\<close>

theorem format_detection_exact:
  assumes "length b \<le> 500000"
  shows "detect_format b = Some f \<longleftrightarrow> signature f b"
proof -
  have png: "8 \<le> length b \<and> slice 0 8 b = [0x89, 0x50, 0x4E, 0x47, 0x0D, 0x0A, 0x1A, 0x0A] \<longleftrightarrow> signature Png b"
    by (auto simp: slice_def dest: arg_cong [where f = length])
  have webp: "12 \<le> length b \<and> ascii_text (slice 0 4 b) = ''RIFF'' \<and> ascii_text (slice 8 12 b) = ''WEBP''
      \<longleftrightarrow> signature Webp b"
    by (simp add: slice_def)
  have jpeg: "3 \<le> length b \<and> b ! 0 = 0xFF \<and> b ! 1 = 0xD8 \<and> b ! 2 = 0xFF \<longleftrightarrow> signature Jpeg b"
    by (simp add: take3_iff)
  have "detect_format b = (if signature Jpeg b then Some Jpeg else if signature Png b then Some Png
      else if signature Webp b then Some Webp else if signature Heif b then Some Heif else None)"
    unfolding detect_format_def jpeg png webp signature_heif ..
  then show ?thesis
    using signature_exclusive [OF assms, of f] by (cases f) (auto simp del: signature.simps)
qed

definition heic_header :: bytes where
  "heic_header = [0, 0, 0, 16, 0x66, 0x74, 0x79, 0x70, 0x68, 0x65, 0x69, 0x63, 0, 0, 0, 0]"

lemma char_codes:
  "char_of (102 :: nat) = CHR ''f''" "char_of (116 :: nat) = CHR ''t''" "char_of (121 :: nat) = CHR ''y''"
  "char_of (112 :: nat) = CHR ''p''" "char_of (104 :: nat) = CHR ''h''" "char_of (101 :: nat) = CHR ''e''"
  "char_of (105 :: nat) = CHR ''i''" "char_of (99 :: nat) = CHR ''c''"
  by code_simp+

lemma heic_header_signature: "signature Heif heic_header"
proof -
  have size: "read_uint32_be heic_header = 16" by (simp add: read_uint32_be_def heic_header_def)
  have "ascii_text (take 4 (drop (8 + 4 * 0) heic_header)) = ''heic''"
    by (simp add: ascii_text_def heic_header_def char_codes)
  then have "12 + 4 * 0 \<le> read_uint32_be heic_header \<and>
      ascii_text (take 4 (drop (8 + 4 * 0) heic_header)) \<in> set heif_brand_codes"
    by (simp add: size heif_brand_codes_def)
  then have brand: "\<exists>k. 12 + 4 * k \<le> read_uint32_be heic_header \<and>
      ascii_text (take 4 (drop (8 + 4 * k) heic_header)) \<in> set heif_brand_codes" ..
  have "ascii_text (take 4 (drop 4 heic_header)) = ''ftyp''"
    by (simp add: ascii_text_def heic_header_def char_codes)
  moreover have "length heic_header = 16" by (simp add: heic_header_def)
  ultimately show ?thesis using brand size by simp
qed

theorem format_detection_exact_witness: "detect_format heic_header = Some Heif"
proof -
  have "length heic_header \<le> 500000" by (simp add: heic_header_def)
  from format_detection_exact [OF this] heic_header_signature show ?thesis by blast
qed

end
