(* ===== verification/Photo_Service.thy ===== *)
theory Photo_Service
  imports Photo_Lifecycle Photo_Processor Common
begin

text \<open>
  The services around the photo repository: the automated analysis
  (\<open>src/moderation/photo-moderation.service.ts\<close>), upload, deletion and account erasure
  (\<open>src/photos/photos.service.ts\<close>), the hourly maintenance
  (\<open>src/photos/photos-maintenance.service.ts\<close>) and the account guard they run under
  (\<open>src/database/account-activity.service.ts\<close>). The object store is the list of its keys; whether
  a call to it succeeds is an argument. The state of a service call is a \<open>world\<close>: the database
  and the store; it survives an error, because every transaction before the error was committed.
\<close>

section \<open>Automated analysis\<close>

text \<open>A JSON number too large for a double is infinite, here \<open>None\<close>.\<close>

fun finite_number :: "json option \<Rightarrow> real option" where
  "finite_number (Some (Json_number x)) = x"
| "finite_number _ = None"

definition whole :: "real \<Rightarrow> bool" where
  "whole x = (x = of_int \<lfloor>x\<rfloor>)"

definition parse_analysis :: "json \<Rightarrow> (int \<times> real \<times> real) option" where
  "parse_analysis v =
     (case (finite_number (json_field ''face_count'' v), finite_number (json_field ''sharpness_score'' v),
            finite_number (json_field ''nsfw_score'' v)) of
        (Some n, Some s, Some q) \<Rightarrow>
          if \<not> whole n \<or> n < 0 \<or> 100 < n \<or> s < 0 \<or> q < 0 \<or> 1 < q then None else Some (\<lfloor>n\<rfloor>, s, q)
      | _ \<Rightarrow> None)"

record moderation_config =
  mo_disabled :: bool
  mo_min_sharpness :: real
  mo_nsfw_threshold :: real

text \<open>The answer of the analysis service: status and body, \<open>None\<close> when the call throws.\<close>

definition analyze :: "moderation_config \<Rightarrow> (nat \<times> json) option \<Rightarrow> automated_moderation" where
  "analyze cfg response =
     (if mo_disabled cfg then manual_photo_moderation
      else case response of
        None \<Rightarrow> manual_photo_moderation
      | Some (status, body) \<Rightarrow>
          if status < 200 \<or> 299 < status then manual_photo_moderation
          else case parse_analysis body of
            None \<Rightarrow> manual_photo_moderation
          | Some (faces, sharpness, nsfw) \<Rightarrow>
              let reasons = (if faces = 0 then [''face_not_detected''] else []) @
                (if 1 < faces then [''multiple_faces''] else []) @
                (if sharpness < mo_min_sharpness cfg then [''blurry''] else []) @
                (if mo_nsfw_threshold cfg \<le> nsfw then [''explicit_image''] else [])
              in \<lparr> am_status = (if reasons = [] then Mod_approved else Mod_pending),
                   am_reasons = reasons, am_policy_version = ''local_vision_v1'',
                   am_face_count = Some faces, am_sharpness_score = Some sharpness,
                   am_nsfw_score = Some nsfw \<rparr>)"

section \<open>The account guard\<close>

record world =
  wd_db :: db
  wd_objects :: "string list"

text \<open>
  \<open>AccountActivityService.run\<close> for one account: a shared advisory lock, an account that is
  neither deleted nor banned, then the work, then the lock connection must still be alive.
\<close>

definition activity_run ::
  "bool \<Rightarrow> bool \<Rightarrow> uuid \<Rightarrow> (world \<Rightarrow> (failure + 'a) \<times> world) \<Rightarrow> world \<Rightarrow> (failure + 'a) \<times> world" where
  "activity_run acquired held_at_end u work w =
     (if \<not> acquired then (Inl (Api (api_error 409 ''account_unavailable'')), w)
      else if \<not> sql_exists (\<lambda>a. ua_id a = u \<and> active_account a) (user_account (wd_db w))
      then (Inl (Api (api_error 409 ''account_unavailable'')), w)
      else case work w of
        (Inl e, w') \<Rightarrow> (Inl e, w')
      | (Inr v, w') \<Rightarrow>
          if held_at_end then (Inr v, w')
          else (Inl (Api (api_error 503 ''account_activity_unavailable'')), w'))"

section \<open>Upload\<close>

record uploaded_photo_result =
  ur_photo_url :: string
  ur_moderation_status :: moderation_status
  ur_moderation_reasons :: "string list"

text \<open>The digest of the request: name, media type and body, each preceded by its length.\<close>

definition utf8_bytes :: "string \<Rightarrow> bytes" where
  "utf8_bytes s = concat (map (\<lambda>c. let n = of_char c :: nat in
     if n < 128 then [of_nat n] else [of_nat (192 + n div 64), of_nat (128 + n mod 64)]) s)"

definition length_prefixed :: "bytes \<Rightarrow> bytes" where
  "length_prefixed b = (let n = length b in
     [of_nat (n div 2 ^ 24), of_nat (n div 2 ^ 16), of_nat (n div 2 ^ 8), of_nat n] @ b)"

definition upload_request_hash :: "codec \<Rightarrow> uploaded_photo \<Rightarrow> string" where
  "upload_request_hash c up = sha256 c (length_prefixed (utf8_bytes (fu_filename up)) @
     length_prefixed (utf8_bytes (to_lower (js_trim (fu_mimetype up)))) @ length_prefixed (fu_body up))"

text \<open>What the call meets: the id drawn, the clocks, the libraries and services it calls.\<close>

record upload_env =
  ue_photo_id :: uuid
  ue_created_at :: js_time
  ue_now_create :: pg_time
  ue_clock_record :: pg_time
  ue_now_activate :: pg_time
  ue_clock_activate :: pg_time
  ue_fresh :: "uuid \<Rightarrow> uuid"
  ue_codec :: codec
  ue_moderation :: "(moderation_config \<times> (nat \<times> json) option) option"
  ue_held :: bool
  ue_put_ok :: bool
  ue_sign :: "string \<Rightarrow> string option"

definition upload_ttl_millis :: int where "upload_ttl_millis = 86400000"

definition processing_photo_of :: "upload_env \<Rightarrow> uuid \<Rightarrow> uploaded_photo \<Rightarrow> uuid \<Rightarrow> processing_photo" where
  "processing_photo_of env u up key =
     \<lparr> pp_id = ue_photo_id env, pp_user_id = u, pp_object_key = photo_object_key u (ue_photo_id env),
       pp_idempotency_key = key, pp_request_sha256 = upload_request_hash (ue_codec env) up,
       pp_created_at = ue_created_at env, pp_expires_at = ue_created_at env + upload_ttl_millis \<rparr>"

definition sign_photo :: "upload_env \<Rightarrow> string \<Rightarrow> failure + string" where
  "sign_photo env key =
     (case ue_sign env key of
        None \<Rightarrow> Inl (Api (api_error 503 ''photo_storage_unavailable''))
      | Some url \<Rightarrow> Inr url)"

definition moderation_of :: "upload_env \<Rightarrow> automated_moderation" where
  "moderation_of env =
     (case ue_moderation env of None \<Rightarrow> manual_photo_moderation | Some (cfg, r) \<Rightarrow> analyze cfg r)"

definition set_db :: "world \<Rightarrow> db \<Rightarrow> world" where
  "set_db w d = w\<lparr>wd_db := d\<rparr>"

text \<open>The part after the picture was processed.\<close>

definition store_and_activate ::
  "upload_env \<Rightarrow> uuid \<Rightarrow> processed_photo \<Rightarrow> world \<Rightarrow> (failure + uploaded_photo_result) \<times> world" where
  "store_and_activate env u p w =
     (let i = ue_photo_id env; m = moderation_of env; key = photo_object_key u i in
      case record_processed i u (metadata_of p) (ue_clock_record env) (wd_db w) of
        Inl e \<Rightarrow> (Inl (Unhandled e), w)
      | Inr (False, d) \<Rightarrow>
          (Inl (Api (api_error 409 ''photo_update_conflict'')), set_db w (discard_processing i u d))
      | Inr (True, d) \<Rightarrow>
          if \<not> ue_held env \<or> \<not> ue_put_ok env
          then (Inl (Api (api_error 503 ''photo_storage_unavailable'')), set_db w d)
          else let w1 = (set_db w d)\<lparr>wd_objects := key # wd_objects w\<rparr> in
            case activate i u m (ue_fresh env) (ue_now_activate env) (ue_clock_activate env) d of
              Inl e \<Rightarrow> (Inl (Unhandled e), w1)
            | Inr (False, d') \<Rightarrow> (Inl (Api (api_error 409 ''photo_update_conflict'')), set_db w1 d')
            | Inr (True, d') \<Rightarrow>
                (case sign_photo env key of
                   Inl e \<Rightarrow> (Inl e, set_db w1 d')
                 | Inr url \<Rightarrow> (Inr \<lparr> ur_photo_url = url, ur_moderation_status = am_status m,
                     ur_moderation_reasons = am_reasons m \<rparr>, set_db w1 d')))"

definition process_and_store ::
  "upload_env \<Rightarrow> uuid \<Rightarrow> uploaded_photo \<Rightarrow> world \<Rightarrow> (failure + uploaded_photo_result) \<times> world" where
  "process_and_store env u up w =
     (case to_webp (ue_codec env) up of
        Inl e \<Rightarrow>
          (Inl (case e of
             Photo_too_large \<Rightarrow> Api (api_error 413 ''photo_too_large'')
           | Invalid_photo _ \<Rightarrow> Api (api_error 400 ''invalid_photo'')
           | Other_error \<Rightarrow> Unhandled (Thrown ''photo processing'')),
           set_db w (discard_processing (ue_photo_id env) u (wd_db w)))
      | Inr p \<Rightarrow> store_and_activate env u p w)"

definition upload_while_active ::
  "upload_env \<Rightarrow> uuid \<Rightarrow> uploaded_photo \<Rightarrow> string option \<Rightarrow> world
    \<Rightarrow> (failure + uploaded_photo_result) \<times> world" where
  "upload_while_active env u up key_input w =
     (case normalize_idempotency_key key_input of
        Inl e \<Rightarrow> (Inl (Api e), w)
      | Inr key \<Rightarrow>
          (case create_processing (processing_photo_of env u up key) (ue_now_create env) (wd_db w) of
             Inl e \<Rightarrow> (Inl (Unhandled e), w)
           | Inr (Profile_not_found, d) \<Rightarrow> (Inl (Api (api_error 404 ''profile_not_found'')), set_db w d)
           | Inr (Update_in_progress, d) \<Rightarrow> (Inl (Api (api_error 409 ''photo_update_in_progress'')), set_db w d)
           | Inr (Idempotency_conflict, d) \<Rightarrow> (Inl (Api (api_error 409 ''idempotency_key_conflict'')), set_db w d)
           | Inr (Idempotency_consumed, d) \<Rightarrow> (Inl (Api (api_error 409 ''idempotency_key_consumed'')), set_db w d)
           | Inr (Replay_photo p, d) \<Rightarrow>
               (case sign_photo env (po_object_key p) of
                  Inl e \<Rightarrow> (Inl e, set_db w d)
                | Inr url \<Rightarrow> (Inr \<lparr> ur_photo_url = url,
                    ur_moderation_status = (case po_moderation_status p of None \<Rightarrow> Mod_pending | Some s \<Rightarrow> s),
                    ur_moderation_reasons = (case po_moderation_reasons p of
                      None \<Rightarrow> [''analysis_unavailable''] | Some rs \<Rightarrow> rs) \<rparr>, set_db w d))
           | Inr (Created, d) \<Rightarrow> process_and_store env u up (set_db w d)))"

definition upload ::
  "bool \<Rightarrow> bool \<Rightarrow> upload_env \<Rightarrow> uuid \<Rightarrow> uploaded_photo \<Rightarrow> string option \<Rightarrow> world
    \<Rightarrow> (failure + uploaded_photo_result) \<times> world" where
  "upload acquired held_at_end env u up key_input =
     activity_run acquired held_at_end u (upload_while_active env u up key_input)"

section \<open>Deletion\<close>

definition delete_photo ::
  "uuid \<Rightarrow> (uuid \<Rightarrow> uuid) \<Rightarrow> pg_time \<Rightarrow> pg_time \<Rightarrow> world \<Rightarrow> (failure + unit) \<times> world" where
  "delete_photo u fresh now clk w =
     (case begin_delete u fresh now clk (wd_db w) of
        Inl e \<Rightarrow> (Inl (Unhandled e), w)
      | Inr (False, d) \<Rightarrow> (Inl (Api (api_error 404 ''profile_not_found'')), set_db w d)
      | Inr (True, d) \<Rightarrow> (Inr (), set_db w d))"

text \<open>The object first, then the row: a failure in between leaves the row to be retried.\<close>

definition remove_photo :: "(string \<Rightarrow> bool) \<Rightarrow> pg_time \<Rightarrow> photo_object \<Rightarrow> world \<Rightarrow> bool \<times> world" where
  "remove_photo delete_ok clk p w =
     (if delete_ok (po_object_key p)
      then (True, \<lparr> wd_db = complete_deletion (po_id p) clk (wd_db w),
                    wd_objects = filter (\<lambda>k. k \<noteq> po_object_key p) (wd_objects w) \<rparr>)
      else (False, w))"

text \<open>How many were removed, how many failed.\<close>

fun remove_photos ::
  "(string \<Rightarrow> bool) \<Rightarrow> pg_time \<Rightarrow> photo_object list \<Rightarrow> world \<Rightarrow> nat \<times> nat \<times> world" where
  "remove_photos delete_ok clk [] w = (0, 0, w)"
| "remove_photos delete_ok clk (p # ps) w =
     (let (ok, w1) = remove_photo delete_ok clk p w;
          (cleaned, failed, w2) = remove_photos delete_ok clk ps w1
      in if ok then (cleaned + 1, failed, w2) else (cleaned, failed + 1, w2))"

definition account_batch_size :: nat where "account_batch_size = 50"

definition delete_for_account ::
  "(string \<Rightarrow> bool) \<Rightarrow> pg_time \<Rightarrow> uuid \<Rightarrow> world \<Rightarrow> (failure + bool) \<times> world" where
  "delete_for_account delete_ok clk u w =
     (case begin_account_deletion u account_batch_size clk (wd_db w) of
        Inl e \<Rightarrow> (Inl (Unhandled e), w)
      | Inr (photos, d) \<Rightarrow>
          let (cleaned, failed, w') = remove_photos delete_ok clk photos (set_db w d) in
          if 0 < failed then (Inl (Api (api_error 503 ''data_erasure_unavailable'')), w')
          else (Inr (length photos < account_batch_size), w'))"

text \<open>The handler of a \<open>photo.delete\<close> event (\<open>deletePhoto\<close> of the dispatcher): false when the
  store refuses.\<close>

definition delete_photo_event :: "(string \<Rightarrow> bool) \<Rightarrow> pg_time \<Rightarrow> uuid \<Rightarrow> world \<Rightarrow> bool \<times> world" where
  "delete_photo_event delete_ok clk i w =
     (case find_deleting i (wd_db w) of
        None \<Rightarrow> (True, w)
      | Some p \<Rightarrow> remove_photo delete_ok clk p w)"

section \<open>Maintenance\<close>

definition photo_batch_size :: nat where "photo_batch_size = 100"
definition photo_max_batches :: nat where "photo_max_batches = 100"
definition stale_after_millis :: int where "stale_after_millis = 1800000"
definition deletion_retry_after :: int where "deletion_retry_after = 300000"

record photo_totals =
  pt_cleaned :: nat
  pt_failed :: nat
  pt_expired :: nat

text \<open>What batch number n meets: the clock, the rows other transactions hold, the store.\<close>

record maintenance_env =
  me_now :: "nat \<Rightarrow> js_time"
  me_clock :: "nat \<Rightarrow> pg_time"
  me_locked :: "nat \<Rightarrow> uuid \<Rightarrow> bool"
  me_delete_ok :: "nat \<Rightarrow> string \<Rightarrow> bool"

definition maintenance_batch ::
  "maintenance_env \<Rightarrow> nat \<Rightarrow> world \<Rightarrow> sql_error + nat \<times> nat \<times> nat \<times> nat \<times> world" where
  "maintenance_batch env n w =
     (let now = me_now env n;
          (expired, d1) = purge_expired_upload_requests now photo_batch_size (wd_db w)
      in and_then (claim_cleanup_batch now (now - stale_after_millis) (now - deletion_retry_after)
             photo_batch_size (me_locked env n) d1) (\<lambda>(photos, d2).
         let (cleaned, failed, w') = remove_photos (me_delete_ok env n) (me_clock env n) photos (set_db w d2)
         in Inr (expired, length photos, cleaned, failed, w')))"

text \<open>\<open>left\<close> batches are left, \<open>n\<close> were run; the result says whether work remains.\<close>

fun perform_maintenance ::
  "maintenance_env \<Rightarrow> nat \<Rightarrow> nat \<Rightarrow> photo_totals \<Rightarrow> world \<Rightarrow> sql_error + photo_totals \<times> nat \<times> bool \<times> world" where
  "perform_maintenance env n 0 totals w = Inr (totals, n, True, w)"
| "perform_maintenance env n (Suc left) totals w =
     and_then (maintenance_batch env n w) (\<lambda>(expired, claimed, cleaned, failed, w').
       let totals' = \<lparr> pt_cleaned = pt_cleaned totals + cleaned, pt_failed = pt_failed totals + failed,
             pt_expired = pt_expired totals + expired \<rparr>
       in if claimed < photo_batch_size \<and> expired < photo_batch_size
          then Inr (totals', n + 1, False, w')
          else perform_maintenance env (n + 1) left totals' w')"

definition photo_maintenance_run ::
  "maintenance_env \<Rightarrow> world \<Rightarrow> sql_error + photo_totals \<times> nat \<times> bool \<times> world" where
  "photo_maintenance_run env w =
     perform_maintenance env 0 photo_max_batches \<lparr> pt_cleaned = 0, pt_failed = 0, pt_expired = 0 \<rparr> w"

end
