(* ===== verification/Photo_Storage.thy ===== *)
theory Photo_Storage
  imports Photo_Service
begin

text \<open>
  What the photo services promise over the two stores together: the objects of the ready photos
  are stored, every stored object still has a row that leads to its removal, a failed upload
  leaves the user's photo alone, an approval needs a clean analysis, and a maintenance run that
  says it is finished has left nothing due.
\<close>

section \<open>The analysis decision\<close>

text \<open>The automatic analysis approves a photo exactly when the service is enabled, answers
  with a well-formed result, and finds one face, enough sharpness and a score under the
  threshold; in every other case (an error, a bad answer, a doubt) the photo waits for a person.
  It never rejects by itself, and the photo is approved exactly when no reason is given.\<close>

theorem approval_needs_clean_analysis:
  "(am_status (analyze cfg response) = Mod_approved \<longleftrightarrow>
      \<not> mo_disabled cfg \<and> (\<exists>status body sharpness nsfw. response = Some (status, body) \<and>
        200 \<le> status \<and> status \<le> 299 \<and> parse_analysis body = Some (1, sharpness, nsfw) \<and>
        mo_min_sharpness cfg \<le> sharpness \<and> nsfw < mo_nsfw_threshold cfg)) \<and>
    am_status (analyze cfg response) \<noteq> Mod_rejected \<and>
    (am_reasons (analyze cfg response) = [] \<longleftrightarrow> am_status (analyze cfg response) = Mod_approved)"
proof (cases "mo_disabled cfg \<or> response = None")
  case True
  then show ?thesis by (auto simp: analyze_def manual_photo_moderation_def)
next
  case False
  then obtain status body where r: "response = Some (status, body)" "\<not> mo_disabled cfg" by auto
  show ?thesis
  proof (cases "parse_analysis body")
    case None
    with r show ?thesis by (simp add: analyze_def manual_photo_moderation_def)
  next
    case (Some a)
    obtain n s q where a: "a = (n, s, q)" by (cases a) auto
    have "0 \<le> n"
      using Some a by (auto simp: parse_analysis_def split: option.splits if_splits)
    then have n: "n \<noteq> 0 \<and> \<not> 1 < n \<longleftrightarrow> n = 1" by auto
    show ?thesis
      using r Some a n
      by (auto simp: analyze_def manual_photo_moderation_def Let_def not_less not_le)
  qed
qed

section \<open>Rows and objects\<close>

definition all_keys :: "db \<Rightarrow> string set" where
  "all_keys d = up_object_key ` set (user_photo d)"

definition ready_keys :: "db \<Rightarrow> string set" where
  "ready_keys d = up_object_key ` {p \<in> set (user_photo d). is_ready p}"

definition world_inv :: "world \<Rightarrow> bool" where
  "world_inv w \<longleftrightarrow> photo_inv (wd_db w) \<and> ready_keys (wd_db w) \<subseteq> set (wd_objects w) \<and>
     set (wd_objects w) \<subseteq> all_keys (wd_db w)"

lemma world_invD:
  assumes "world_inv w"
  shows "photo_inv (wd_db w)" "ready_keys (wd_db w) \<subseteq> set (wd_objects w)"
    "set (wd_objects w) \<subseteq> all_keys (wd_db w)"
  using assms by (auto simp: world_inv_def)

lemma set_db_simps [simp]: "wd_db (set_db w d) = d" "wd_objects (set_db w d) = wd_objects w"
  by (simp_all add: set_db_def)

text \<open>A transaction that keeps the keys and makes no photo ready.\<close>

lemma world_inv_db:
  "world_inv w \<Longrightarrow> photo_inv d \<Longrightarrow> all_keys (wd_db w) \<subseteq> all_keys d \<Longrightarrow>
     ready_keys d \<subseteq> ready_keys (wd_db w) \<Longrightarrow> world_inv (set_db w d)"
  by (auto simp: world_inv_def)

lemma keys_to_deleting:
  assumes "user_photo d' = sql_update q (set_status Ph_deleting clk) (user_photo d)"
  shows "all_keys d' = all_keys d" "ready_keys d' \<subseteq> ready_keys d"
proof -
  have "(\<lambda>p. up_object_key (if q p then set_status Ph_deleting clk p else p)) = up_object_key"
    by (simp add: fun_eq_iff)
  then show "all_keys d' = all_keys d"
    unfolding all_keys_def assms set_sql_update image_image by (simp only:)
  show "ready_keys d' \<subseteq> ready_keys d"
    by (auto simp: ready_keys_def assms set_sql_update is_ready_def split: if_splits)
qed

lemma keys_same_table: "user_photo d' = user_photo d \<Longrightarrow> all_keys d' = all_keys d \<and> ready_keys d' = ready_keys d"
  by (simp add: all_keys_def ready_keys_def)

lemma keys_delete:
  "user_photo d' = sql_delete q (user_photo d) \<Longrightarrow> ready_keys d' \<subseteq> ready_keys d"
  "user_photo d' = sql_delete q (user_photo d) \<Longrightarrow> k \<in> all_keys d \<Longrightarrow>
     (\<And>p. p \<in> set (user_photo d) \<Longrightarrow> q p \<Longrightarrow> up_object_key p \<noteq> k) \<Longrightarrow> k \<in> all_keys d'"
  by (auto simp: ready_keys_def all_keys_def)

lemma distinct_keys:
  "photo_inv d \<Longrightarrow> p \<in> set (user_photo d) \<Longrightarrow> r \<in> set (user_photo d) \<Longrightarrow>
     up_object_key p = up_object_key r \<Longrightarrow> p = r"
  by (rule distinct_keyD [where k = up_object_key])
    (auto dest!: photo_invD(1) simp: photo_table_ok_def photo_unique_ok_def)

text \<open>Removing the object of a photo that is being deleted, and its row.\<close>

definition leads_to :: "db \<Rightarrow> photo_object \<Rightarrow> bool" where
  "leads_to d p \<longleftrightarrow> (\<forall>r \<in> set (user_photo d). up_id r = po_id p \<longrightarrow>
     up_object_key r = po_object_key p \<and> up_status r = Ph_deleting) \<and>
     (\<forall>r \<in> set (user_photo d). up_object_key r = po_object_key p \<longrightarrow> up_id r = po_id p)"

lemma leads_toD:
  assumes "leads_to d p" "r \<in> set (user_photo d)"
  shows "up_id r = po_id p \<Longrightarrow> up_object_key r = po_object_key p"
    "up_id r = po_id p \<Longrightarrow> up_status r = Ph_deleting"
    "up_object_key r = po_object_key p \<Longrightarrow> up_id r = po_id p"
  using assms unfolding leads_to_def by blast+

lemma user_photo_complete_deletion:
  "user_photo (complete_deletion i clk d) =
     sql_delete (\<lambda>p. up_id p = i \<and> up_status p = Ph_deleting) (user_photo d)"
  by (simp add: complete_deletion_def)

lemma remove_photo_inv:
  assumes "world_inv w" "leads_to (wd_db w) p" "remove_photo ok clk p w = (b, w')"
  shows "world_inv w'" "set (user_photo (wd_db w')) \<subseteq> set (user_photo (wd_db w))"
proof -
  have "world_inv w' \<and> set (user_photo (wd_db w')) \<subseteq> set (user_photo (wd_db w))"
  proof (cases "ok (po_object_key p)")
    case False
    then show ?thesis using assms(1,3) by (simp add: remove_photo_def)
  next
    case True
    let ?d = "complete_deletion (po_id p) clk (wd_db w)"
    have w': "w' = \<lparr> wd_db = ?d, wd_objects = filter (\<lambda>k. k \<noteq> po_object_key p) (wd_objects w) \<rparr>"
      using assms(3) True by (simp add: remove_photo_def)
    have "photo_inv ?d"
      unfolding complete_deletion_def
      by (intro inv_delete_photos inv_requests world_invD(1) [OF assms(1)])
    moreover have "ready_keys ?d \<subseteq> set (wd_objects w) - {po_object_key p}"
    proof
      fix k assume "k \<in> ready_keys ?d"
      then obtain r where r: "r \<in> set (user_photo (wd_db w))" "is_ready r" "k = up_object_key r"
        by (auto simp: ready_keys_def user_photo_complete_deletion)
      then have "k \<in> ready_keys (wd_db w)" by (auto simp: ready_keys_def)
      moreover have "up_object_key r \<noteq> po_object_key p"
      proof
        assume "up_object_key r = po_object_key p"
        from leads_toD(2) [OF assms(2) r(1) leads_toD(3) [OF assms(2) r(1) this]] r(2)
        show False by (simp add: is_ready_def)
      qed
      ultimately show "k \<in> set (wd_objects w) - {po_object_key p}"
        using subsetD [OF world_invD(2) [OF assms(1)]] r(3) by simp
    qed
    moreover have "set (wd_objects w) - {po_object_key p} \<subseteq> all_keys ?d"
    proof
      fix k assume "k \<in> set (wd_objects w) - {po_object_key p}"
      then have kin: "k \<in> all_keys (wd_db w)" and "k \<noteq> po_object_key p"
        using world_invD(3) [OF assms(1)] by auto
      have ne: "up_object_key r \<noteq> k"
        if "r \<in> set (user_photo (wd_db w))" "up_id r = po_id p \<and> up_status r = Ph_deleting" for r
        using leads_toD(1) [OF assms(2) that(1)] that(2) \<open>k \<noteq> po_object_key p\<close> by simp
      show "k \<in> all_keys ?d"
        by (rule keys_delete(2) [OF user_photo_complete_deletion kin ne])
    qed
    ultimately show ?thesis by (auto simp: w' world_inv_def user_photo_complete_deletion)
  qed
  then show "world_inv w'" "set (user_photo (wd_db w')) \<subseteq> set (user_photo (wd_db w))" by auto
qed

lemma leads_to_mono:
  "set (user_photo d') \<subseteq> set (user_photo d) \<Longrightarrow> leads_to d p \<Longrightarrow> leads_to d' p"
  by (auto simp: leads_to_def)

lemma remove_photos_inv:
  "world_inv w \<Longrightarrow> list_all (leads_to (wd_db w)) ps \<Longrightarrow> remove_photos ok clk ps w = (c, f, w') \<Longrightarrow>
     world_inv w' \<and> set (user_photo (wd_db w')) \<subseteq> set (user_photo (wd_db w))"
proof (induction ps arbitrary: w c f w')
  case (Cons p ps)
  obtain b w1 where r: "remove_photo ok clk p w = (b, w1)" by fastforce
  obtain c' f' w2 where rs: "remove_photos ok clk ps w1 = (c', f', w2)" by (metis prod_cases3)
  have w': "w' = w2" using Cons.prems(3) r rs by (auto split: if_splits)
  note step = remove_photo_inv [OF Cons.prems(1) _ r]
  have "leads_to (wd_db w) p" "list_all (leads_to (wd_db w)) ps" using Cons.prems(2) by auto
  with step have "world_inv w1" "set (user_photo (wd_db w1)) \<subseteq> set (user_photo (wd_db w))"
    "list_all (leads_to (wd_db w1)) ps"
    by (auto simp: list_all_iff intro: leads_to_mono)
  with Cons.IH [OF _ _ rs] show ?case unfolding w' by blast
qed simp

lemma leads_to_deleting:
  assumes "photo_inv d" "r \<in> set (user_photo d)" "up_status r = Ph_deleting"
  shows "leads_to d (photo_object_of r)"
  using assms photo_idD [OF photo_invD(1) [OF assms(1)] _ assms(2)] distinct_keys [OF assms(1) _ assms(2)]
  by (auto simp: leads_to_def photo_object_of_def)

text \<open>The photos a bulk deletion hands out.\<close>

lemma bulk_deleting:
  assumes "world_inv w" "update_photos (\<lambda>p. up_id p \<in> S) (set_status Ph_deleting clk) (wd_db w) = Inr d'"
  shows "world_inv (set_db w d')"
    "list_all (leads_to d') (map photo_object_of (filter (\<lambda>p. up_id p \<in> S) (user_photo d')))"
proof -
  note inv = world_invD(1) [OF assms(1)]
  have t: "user_photo d' = sql_update (\<lambda>p. up_id p \<in> S) (set_status Ph_deleting clk) (user_photo (wd_db w))"
    using assms(2) by (auto simp: update_to_deleting [OF photo_invD(1) [OF inv]])
  have inv': "photo_inv d'" using inv_bulk_deleting [OF inv assms(2)] by blast
  show "world_inv (set_db w d')"
    by (rule world_inv_db [OF assms(1) inv']) (simp_all add: keys_to_deleting [OF t])
  have "up_status r = Ph_deleting" if "r \<in> set (user_photo d')" "up_id r \<in> S" for r
    using that by (auto simp: t set_sql_update split: if_splits)
  then show "list_all (leads_to d') (map photo_object_of (filter (\<lambda>p. up_id p \<in> S) (user_photo d')))"
    by (auto simp: list_all_iff intro!: leads_to_deleting [OF inv'])
qed

lemma maintenance_batch_inv:
  assumes "world_inv w" "maintenance_batch env n w = Inr (x, c, cl, f, w')"
  shows "world_inv w'"
proof -
  obtain k d1 where purge: "purge_expired_upload_requests (me_now env n) photo_batch_size (wd_db w) = (k, d1)"
    by fastforce
  have d1: "user_photo d1 = user_photo (wd_db w)" "photo_inv d1"
    using purge inv_requests [OF world_invD(1) [OF assms(1)]]
    by (auto simp: purge_expired_upload_requests_def Let_def)
  have w1: "world_inv (set_db w d1)"
    using world_inv_db [OF assms(1) d1(2)] keys_same_table [OF d1(1)] by simp
  obtain S d2 where
    upd: "update_photos (\<lambda>p. up_id p \<in> S) (set_status Ph_deleting (pg_of_js (me_now env n))) d1 = Inr d2"
    and rm: "remove_photos (me_delete_ok env n) (me_clock env n)
      (map photo_object_of (filter (\<lambda>p. up_id p \<in> S) (user_photo d2))) (set_db w d2) = (cl, f, w')"
    using assms(2) purge
    by (auto simp: maintenance_batch_def claim_cleanup_batch_def Let_def and_then_Inr_iff split: prod.splits)
  have upd': "update_photos (\<lambda>p. up_id p \<in> S) (set_status Ph_deleting (pg_of_js (me_now env n)))
      (wd_db (set_db w d1)) = Inr d2"
    using upd by simp
  have "world_inv (set_db (set_db w d1) d2)" by (rule bulk_deleting(1) [OF w1 upd'])
  then have "world_inv (set_db w d2)" by (simp add: set_db_def)
  with remove_photos_inv [OF this _ rm] bulk_deleting(2) [OF w1 upd'] show ?thesis by simp
qed

lemma delete_for_account_inv:
  assumes "world_inv w" "delete_for_account ok clk u w = (r, w')"
  shows "world_inv w'"
proof (cases "begin_account_deletion u account_batch_size clk (wd_db w)")
  case (Inl e)
  then show ?thesis using assms by (simp add: delete_for_account_def)
next
  case (Inr res)
  obtain S d' where
    upd: "update_photos (\<lambda>p. up_id p \<in> S) (set_status Ph_deleting clk) (wd_db w) = Inr d'"
    and res: "res = (map photo_object_of (filter (\<lambda>p. up_id p \<in> S) (user_photo d')), d')"
    using Inr by (auto simp: begin_account_deletion_def Let_def and_then_Inr_iff)
  obtain c f w2 where rm: "remove_photos ok clk (map photo_object_of
      (filter (\<lambda>p. up_id p \<in> S) (user_photo d'))) (set_db w d') = (c, f, w2)"
    by (metis prod_cases3)
  have "w' = w2" using assms(2) Inr res rm by (auto simp: delete_for_account_def split: if_splits)
  with remove_photos_inv [OF bulk_deleting(1) [OF assms(1) upd] _ rm] bulk_deleting(2) [OF assms(1) upd]
  show ?thesis by simp
qed

lemma delete_photo_event_inv:
  assumes "world_inv w" "delete_photo_event ok clk i w = (b, w')"
  shows "world_inv w'"
proof (cases "find_deleting i (wd_db w)")
  case None
  then show ?thesis using assms by (simp add: delete_photo_event_def)
next
  case (Some p)
  then obtain r where "sql_first (\<lambda>p. up_id p = i \<and> up_status p = Ph_deleting) (user_photo (wd_db w)) = Some r"
    "p = photo_object_of r" by (auto simp: find_deleting_def)
  then have "leads_to (wd_db w) p"
    using leads_to_deleting [OF world_invD(1) [OF assms(1)]] by (auto dest: sql_first_SomeD)
  moreover have "remove_photo ok clk p w = (b, w')" using assms(2) Some by (simp add: delete_photo_event_def)
  ultimately show ?thesis by (rule remove_photo_inv(1) [OF assms(1)])
qed

lemma delete_photo_inv:
  assumes "world_inv w" "delete_photo u fresh now clk w = (r, w')"
  shows "world_inv w'"
proof (cases "begin_delete u fresh now clk (wd_db w)")
  case (Inl e)
  then show ?thesis using assms by (simp add: delete_photo_def)
next
  case (Inr res)
  then obtain b d where res: "begin_delete u fresh now clk (wd_db w) = Inr (b, d)" by (cases res) auto
  have w': "w' = set_db w d" using assms(2) res by (auto simp: delete_photo_def split: bool.splits)
  from begin_delete_cases [OF world_invD(1) [OF assms(1)] res] show ?thesis
  proof
    assume "d = wd_db w"
    then show ?thesis using assms(1) by (simp add: w' set_db_def)
  next
    assume "user_photo d = sql_update (ready_of u) (set_status Ph_deleting clk) (user_photo (wd_db w)) \<and> photo_inv d"
    then show ?thesis
      unfolding w' by (intro world_inv_db [OF assms(1)]) (auto simp: keys_to_deleting dest: keys_to_deleting(2))
  qed
qed

section \<open>Uploads\<close>

text \<open>The photos of a world in which the upload of photo \<open>i\<close> by user \<open>u\<close> is running: its object is
  not stored yet.\<close>

definition uploading :: "world \<Rightarrow> uuid \<Rightarrow> uuid \<Rightarrow> bool" where
  "uploading w i u \<longleftrightarrow> world_inv w \<and> photo_object_key u i \<notin> set (wd_objects w) \<and>
     (\<forall>p \<in> set (user_photo (wd_db w)). up_id p = i \<longrightarrow> up_user_id p = u)"

lemma object_key_of_row:
  "photo_inv d \<Longrightarrow> p \<in> set (user_photo d) \<Longrightarrow> up_object_key p = photo_object_key (up_user_id p) (up_id p)"
  by (auto dest!: photo_invD(1) photo_table_okD(1) simp: photo_row_ok_def)

lemma uploading_discard:
  assumes "uploading w i u"
  shows "world_inv (set_db w (discard_processing i u (wd_db w)))"
    and "ready_ids u (discard_processing i u (wd_db w)) = ready_ids u (wd_db w)"
proof -
  let ?d = "discard_processing i u (wd_db w)"
  let ?q = "\<lambda>p. up_id p = i \<and> up_user_id p = u \<and> in_progress p"
  have inv: "world_inv w" using assms by (simp add: uploading_def)
  have t: "user_photo ?d = sql_delete ?q (user_photo (wd_db w))" by (simp add: discard_processing_def)
  have "photo_inv ?d"
    unfolding discard_processing_def by (intro inv_delete_photos inv_requests world_invD(1) [OF inv])
  moreover have "ready_keys ?d \<subseteq> set (wd_objects w)"
    using keys_delete(1) [OF t] world_invD(2) [OF inv] by (rule subset_trans)
  moreover have "k \<in> all_keys ?d" if k: "k \<in> set (wd_objects w)" for k
  proof (rule keys_delete(2) [OF t])
    show "k \<in> all_keys (wd_db w)" using world_invD(3) [OF inv] k by (rule subsetD)
    fix p assume "p \<in> set (user_photo (wd_db w))" "up_id p = i \<and> up_user_id p = u \<and> in_progress p"
    then have "up_object_key p = photo_object_key u i"
      using object_key_of_row [OF world_invD(1) [OF inv]] by simp
    then show "up_object_key p \<noteq> k" using assms k by (auto simp: uploading_def)
  qed
  ultimately show "world_inv (set_db w ?d)" by (auto simp: world_inv_def)
  have "filter (ready_of u) (sql_delete ?q ts) = filter (ready_of u) ts" for ts
    by (induction ts) (auto simp: ready_of_def in_progress_def)
  then show "ready_ids u ?d = ready_ids u (wd_db w)" by (simp add: ready_ids_def t)
qed

lemma uploading_record:
  assumes "uploading w i u" "record_processed i u m clk (wd_db w) = Inr (b, d)"
  shows "uploading (set_db w d) i u" "ready_ids u d = ready_ids u (wd_db w)"
    "outbox_event d = outbox_event (wd_db w)"
    "b \<Longrightarrow> photo_object_key u i \<in> all_keys d"
proof -
  let ?f = "\<lambda>p. p\<lparr>up_metadata := Some m, up_updated_at := clk\<rparr>"
  let ?t = "user_photo (wd_db w)"
  have inv: "world_inv w" using assms(1) by (simp add: uploading_def)
  have inv': "photo_inv d" by (rule inv_record(1) [OF world_invD(1) [OF inv] assms(2)])
  have d: "d = (wd_db w)\<lparr>user_photo := sql_update (processing_of i u) ?f ?t\<rparr>"
    and b: "b \<longleftrightarrow> sql_count (processing_of i u) ?t = 1"
    using assms(2) by (auto simp: record_processed_def and_then_Inr_iff update_photos_def
        write_photos_Inr_iff split: if_splits)
  have keys: "map up_object_key (sql_update (processing_of i u) ?f t) = map up_object_key t"
    and ids: "map up_id (filter (ready_of u) (sql_update (processing_of i u) ?f t)) = map up_id (filter (ready_of u) t)"
    and ready: "map up_object_key (filter is_ready (sql_update (processing_of i u) ?f t)) = map up_object_key (filter is_ready t)"
    for t
    by (induction t) (auto simp: ready_of_def is_ready_def)
  have all: "all_keys d = all_keys (wd_db w)"
    using arg_cong [OF keys [of ?t], of set] by (simp add: all_keys_def d)
  moreover have "ready_keys d = ready_keys (wd_db w)"
    using arg_cong [OF ready [of ?t], of set] by (simp add: ready_keys_def d)
  ultimately have "world_inv (set_db w d)" by (intro world_inv_db [OF inv inv']) simp_all
  moreover have "up_user_id p = u" if "p \<in> set (user_photo d)" "up_id p = i" for p
    using that assms(1) by (auto simp: d set_sql_update uploading_def split: if_splits)
  ultimately show "uploading (set_db w d) i u" using assms(1) by (simp add: uploading_def)
  show "ready_ids u d = ready_ids u (wd_db w)" using ids [of ?t] by (simp add: ready_ids_def d)
  show "outbox_event d = outbox_event (wd_db w)" by (simp add: d)
  show "photo_object_key u i \<in> all_keys d" if b
  proof -
    have "sql_count (processing_of i u) ?t \<noteq> 0" using b that by simp
    then obtain p where "p \<in> set ?t" "processing_of i u p" by (auto simp: sql_count_0_iff)
    then show ?thesis
      unfolding all unfolding all_keys_def using object_key_of_row [OF world_invD(1) [OF inv], of p]
      by (intro image_eqI [where x = p]) (simp_all add: processing_of_def)
  qed
qed

lemma activate_cases:
  assumes "photo_inv d" "fresh_events fresh u d" "activate i u m fresh now clk d = Inr (b, d')"
  shows "\<not> b \<and> d' = d \<or> b \<and> user_photo d' = swapped i u clk (user_photo d) \<and>
    sql_exists (candidate i u) (user_photo d) \<and> photo_inv d'"
proof (cases "lock_active_profile u d \<and> sql_exists (candidate i u) (user_photo d)")
  case False
  then have "activate i u m fresh now clk d = Inr (False, d)"
    unfolding activate_def candidate_def [symmetric] by auto
  then show ?thesis using assms(3) by simp
next
  case True
  then have lock: "lock_active_profile u d" and cand: "sql_exists (candidate i u) (user_photo d)" by auto
  have "b \<and> user_photo d' = swapped i u clk (user_photo d)"
    by (rule activate_eq [OF assms(1) lock cand, of fresh m now clk])
      (use assms(2,3) in \<open>auto simp: fresh_events_def split: if_splits\<close>)
  then show ?thesis using cand inv_activate [OF assms] by blast
qed

lemma swapped_keys:
  assumes "photo_inv d" "user_photo d' = swapped i u clk (user_photo d)"
  shows "all_keys d' = all_keys d" "ready_keys d' \<subseteq> insert (photo_object_key u i) (ready_keys d)"
proof -
  have key: "up_object_key (swap_row i u clk p) = up_object_key p" for p by (simp add: swap_row_def)
  show "all_keys d' = all_keys d"
    by (simp add: all_keys_def assms(2) swapped_eq set_sql_update image_image key)
  show "ready_keys d' \<subseteq> insert (photo_object_key u i) (ready_keys d)"
  proof
    fix k assume "k \<in> ready_keys d'"
    then obtain p where p: "p \<in> set (user_photo d)" "is_ready (swap_row i u clk p)" "k = up_object_key p"
      by (auto simp: ready_keys_def assms(2) swapped_eq set_sql_update key)
    show "k \<in> insert (photo_object_key u i) (ready_keys d)"
    proof (cases "processing_of i u p")
      case True
      then show ?thesis using object_key_of_row [OF assms(1) p(1)] p(3) by (simp add: processing_of_def)
    next
      case False
      then have "is_ready p" using p(2) by (simp add: is_ready_def swap_row_status split: if_splits)
      with p show ?thesis by (auto simp: ready_keys_def)
    qed
  qed
qed

text \<open>What an upload leaves behind, whether it succeeds or fails.\<close>

definition storage_unavailable :: failure where
  "storage_unavailable = Api (api_error 503 ''photo_storage_unavailable'')"

definition upload_outcome ::
  "world \<Rightarrow> uuid \<Rightarrow> uuid \<Rightarrow> (failure + 'a) \<times> world \<Rightarrow> bool" where
  "upload_outcome w i u res \<longleftrightarrow> world_inv (snd res) \<and>
     (case fst res of
        Inr v \<Rightarrow> ready_ids u (wd_db (snd res)) = [i]
      | Inl e \<Rightarrow> ready_ids u (wd_db (snd res)) = ready_ids u (wd_db w) \<or>
          ready_ids u (wd_db (snd res)) = [i] \<and> e = storage_unavailable)"

lemma store_and_activate_outcome:
  assumes up: "uploading w (ue_photo_id env) u" and fresh: "fresh_events (ue_fresh env) u (wd_db w)"
  shows "upload_outcome w (ue_photo_id env) u (store_and_activate env u p w)"
proof -
  let ?i = "ue_photo_id env"
  let ?key = "photo_object_key u ?i"
  have inv: "world_inv w" using up by (simp add: uploading_def)
  show ?thesis
  proof (cases "record_processed ?i u (metadata_of p) (ue_clock_record env) (wd_db w)")
    case (Inl e)
    then show ?thesis using inv by (simp add: store_and_activate_def Let_def upload_outcome_def)
  next
    case (Inr res)
    then obtain b d where r: "record_processed ?i u (metadata_of p) (ue_clock_record env) (wd_db w) = Inr (b, d)"
      by (cases res) auto
    note rec = uploading_record [OF up r]
    note disc = uploading_discard [OF rec(1)]
    have inv_d: "world_inv (set_db w d)" using rec(1) by (simp add: uploading_def)
    show ?thesis
    proof (cases "b \<and> ue_held env \<and> ue_put_ok env")
      case False
      then show ?thesis
        using r inv_d rec(2) disc
        by (cases b) (auto simp: store_and_activate_def Let_def upload_outcome_def set_db_def
            storage_unavailable_def)
    next
      case True
      let ?w1 = "(set_db w d)\<lparr>wd_objects := ?key # wd_objects w\<rparr>"
      let ?act = "activate ?i u (moderation_of env) (ue_fresh env) (ue_now_activate env) (ue_clock_activate env) d"
      have w1: "world_inv ?w1"
        using inv_d rec(4) True by (auto simp: world_inv_def)
      have fresh_d: "fresh_events (ue_fresh env) u d"
        using fresh by (simp add: fresh_events_def rec(2,3))
      show ?thesis
      proof (cases ?act)
        case (Inl e)
        then show ?thesis using True r w1 rec(2)
          by (simp add: store_and_activate_def Let_def upload_outcome_def)
      next
        case (Inr res2)
        then obtain b2 d2 where a: "?act = Inr (b2, d2)" by (cases res2) auto
        note c = activate_cases [OF world_invD(1) [OF inv_d, simplified] fresh_d a]
        show ?thesis
        proof (cases b2)
          case False
          then have "d2 = d" using c by blast
          then show ?thesis using True False r a w1 rec(2)
            by (simp add: store_and_activate_def Let_def upload_outcome_def world_inv_def)
        next
          case True2: True
          then have t: "user_photo d2 = swapped ?i u (ue_clock_activate env) (user_photo d)"
            and cand: "sql_exists (candidate ?i u) (user_photo d)" and inv2: "photo_inv d2"
            using c by auto
          have ready: "ready_ids u d2 = [?i]"
            by (rule ready_ids_swapped [OF photo_invD(1) [OF world_invD(1) [OF inv_d, simplified]] cand t])
          have "world_inv (set_db ?w1 d2)"
            using swapped_keys [OF world_invD(1) [OF inv_d, simplified] t] w1 inv2
            by (auto simp: world_inv_def)
          then show ?thesis using True True2 r a ready
            by (auto simp: store_and_activate_def Let_def upload_outcome_def sign_photo_def
                storage_unavailable_def split: option.split)
        qed
      qed
    qed
  qed
qed

lemma world_inv_create:
  assumes inv: "world_inv w" and fp: "fresh_photo (pp_id ph) (wd_db w)"
    and c: "create_processing ph now (wd_db w) = Inr (r, d)"
  shows "world_inv (set_db w d)" "ready_ids (pp_user_id ph) d = ready_ids (pp_user_id ph) (wd_db w)"
    "outbox_event d = outbox_event (wd_db w)"
    "r = Created \<Longrightarrow> uploading (set_db w d) (pp_id ph) (pp_user_id ph)"
proof -
  have inv': "photo_inv d" using inv_create [OF world_invD(1) [OF inv] fp c] by blast
  have "world_inv (set_db w d) \<and> ready_ids (pp_user_id ph) d = ready_ids (pp_user_id ph) (wd_db w) \<and>
      outbox_event d = outbox_event (wd_db w)"
    using c
  proof (cases rule: create_processing_cases)
    case (1 t)
    then show ?thesis
      using world_inv_db [OF inv inv'] by (simp add: all_keys_def ready_keys_def ready_ids_def)
  next
    case (2 t)
    have "all_keys (wd_db w) \<subseteq> all_keys d" "ready_keys d \<subseteq> ready_keys (wd_db w)"
      by (auto simp: all_keys_def ready_keys_def 2(1) is_ready_def processing_row_def)
    then show ?thesis
      using world_inv_db [OF inv inv'] by (simp add: 2(1) ready_ids_def ready_of_def processing_row_def)
  qed
  then show w: "world_inv (set_db w d)" "ready_ids (pp_user_id ph) d = ready_ids (pp_user_id ph) (wd_db w)"
    "outbox_event d = outbox_event (wd_db w)" by auto
  show "uploading (set_db w d) (pp_id ph) (pp_user_id ph)" if created: "r = Created"
  proof -
    obtain t where d: "d = (wd_db w)\<lparr>photo_upload_request := t @ [request_row ph],
        user_photo := user_photo (wd_db w) @ [processing_row ph now]\<rparr>"
      and new: "pp_id ph \<notin> up_id ` set (user_photo (wd_db w))"
      by (rule create_created [OF c [unfolded created]])
    have row: "processing_row ph now \<in> set (user_photo d)" by (simp add: d)
    have key: "up_object_key (processing_row ph now) = photo_object_key (pp_user_id ph) (pp_id ph)"
      using object_key_of_row [OF inv' row] by (simp add: processing_row_def)
    have "photo_object_key (pp_user_id ph) (pp_id ph) \<notin> all_keys (wd_db w)"
    proof
      assume "photo_object_key (pp_user_id ph) (pp_id ph) \<in> all_keys (wd_db w)"
      then obtain p where p: "p \<in> set (user_photo (wd_db w))" "up_object_key p = up_object_key (processing_row ph now)"
        by (auto simp: all_keys_def key)
      then have "p = processing_row ph now" by (intro distinct_keys [OF inv' _ row]) (simp_all add: d)
      with p(1) new show False by (force simp: processing_row_def)
    qed
    then have "photo_object_key (pp_user_id ph) (pp_id ph) \<notin> set (wd_objects w)"
      using world_invD(3) [OF inv] by blast
    moreover have "up_user_id p = pp_user_id ph" if "p \<in> set (user_photo d)" "up_id p = pp_id ph" for p
      using that new by (force simp: d processing_row_def)
    ultimately show ?thesis using w(1) by (simp add: uploading_def)
  qed
qed

lemma process_and_store_outcome:
  assumes up: "uploading w (ue_photo_id env) u" and fresh: "fresh_events (ue_fresh env) u (wd_db w)"
  shows "upload_outcome w (ue_photo_id env) u (process_and_store env u upl w)"
proof (cases "to_webp (ue_codec env) upl")
  case (Inl e)
  then show ?thesis
    using uploading_discard [OF up] by (simp add: process_and_store_def upload_outcome_def)
next
  case (Inr p)
  then show ?thesis
    using store_and_activate_outcome [OF up fresh] by (simp add: process_and_store_def)
qed

definition kept_or_swapped :: "world \<Rightarrow> uuid \<Rightarrow> uuid \<Rightarrow> (failure + 'a) \<times> world \<Rightarrow> bool" where
  "kept_or_swapped w i u res \<longleftrightarrow> world_inv (snd res) \<and>
     (ready_ids u (wd_db (snd res)) = ready_ids u (wd_db w) \<or>
      ready_ids u (wd_db (snd res)) = [i] \<and> (\<forall>e. fst res = Inl e \<longrightarrow> e = storage_unavailable))"

lemma upload_while_active_outcome:
  assumes inv: "world_inv w" and fp: "fresh_photo (ue_photo_id env) (wd_db w)"
    and fresh: "fresh_events (ue_fresh env) u (wd_db w)"
  shows "kept_or_swapped w (ue_photo_id env) u (upload_while_active env u upl key_input w)"
proof (cases "normalize_idempotency_key key_input")
  case (Inl e)
  then show ?thesis using inv by (simp add: upload_while_active_def kept_or_swapped_def)
next
  case (Inr key)
  let ?ph = "processing_photo_of env u upl key"
  have ids: "pp_id ?ph = ue_photo_id env" "pp_user_id ?ph = u" by (simp_all add: processing_photo_of_def)
  show ?thesis
  proof (cases "create_processing ?ph (ue_now_create env) (wd_db w)")
    case (Inl e)
    then show ?thesis using Inr inv by (simp add: upload_while_active_def kept_or_swapped_def)
  next
    case Inr2: (Inr res)
    then obtain r d where c: "create_processing ?ph (ue_now_create env) (wd_db w) = Inr (r, d)" by (cases res) auto
    note w1 = world_inv_create [OF inv _ c, unfolded ids, OF fp]
    show ?thesis
    proof (cases "r = Created")
      case True
      have "fresh_events (ue_fresh env) u (wd_db (set_db w d))" using fresh by (simp add: fresh_events_def w1(2,3))
      from process_and_store_outcome [OF w1(4) [OF True] this, of upl]
      show ?thesis using Inr c True w1(2)
        by (auto simp: upload_while_active_def upload_outcome_def kept_or_swapped_def split: sum.splits)
    next
      case False
      then show ?thesis using Inr c w1(1,2)
        by (cases r) (auto simp: upload_while_active_def kept_or_swapped_def split: sum.split)
    qed
  qed
qed

lemma upload_outcome_activity:
  assumes "world_inv w" "fresh_photo (ue_photo_id env) (wd_db w)"
    and "fresh_events (ue_fresh env) u (wd_db w)"
    and "upload acquired held env u upl key_input w = (r, w')"
  shows "world_inv w' \<and>
    (ready_ids u (wd_db w') = ready_ids u (wd_db w) \<or>
     ready_ids u (wd_db w') = [ue_photo_id env] \<and>
       (\<forall>e. r = Inl e \<longrightarrow> e = storage_unavailable \<or> e = Api (api_error 503 ''account_activity_unavailable'')))"
proof -
  obtain r1 w1 where u1: "upload_while_active env u upl key_input w = (r1, w1)" by fastforce
  have "kept_or_swapped w (ue_photo_id env) u (r1, w1)"
    using upload_while_active_outcome [OF assms(1-3), of upl key_input] u1 by simp
  then show ?thesis
    using assms(1,4) u1
    by (auto simp: upload_def activity_run_def kept_or_swapped_def split: if_splits sum.splits)
qed

text \<open>C10. An upload never loses the user's photo. Whatever goes wrong (a bad picture, a failing
  analysis, a store that is down, a lost lock, a conflict), the user's ready photos are those of
  before, or the new photo alone; the latter with an error only when the very last steps failed
  (the signature of the link or the final lock check), and then a retry under the same key
  replays it. In every case the ready photos keep their objects and every object keeps its row.\<close>

theorem upload_keeps_a_photo:
  assumes "world_inv w" "fresh_photo (ue_photo_id env) (wd_db w)"
    and "fresh_events (ue_fresh env) u (wd_db w)"
    and "upload acquired held env u upl key_input w = (r, w')"
  shows "world_inv w' \<and>
    (ready_ids u (wd_db w') = ready_ids u (wd_db w) \<or>
     ready_ids u (wd_db w') = [ue_photo_id env] \<and>
       (\<forall>e. r = Inl e \<longrightarrow> e = storage_unavailable \<or> e = Api (api_error 503 ''account_activity_unavailable'')))"
  by (rule upload_outcome_activity [OF assms])

definition start_world :: world where
  "start_world = \<lparr> wd_db = start_db, wd_objects = [] \<rparr>"

definition sample_env :: upload_env where
  "sample_env = \<lparr> ue_photo_id = ''p1'', ue_created_at = 0, ue_now_create = 1, ue_clock_record = 2,
     ue_now_activate = 3, ue_clock_activate = 4, ue_fresh = ((#) CHR ''e''), ue_codec = tiny_codec,
     ue_moderation = None, ue_held = True, ue_put_ok = True, ue_sign = (\<lambda>k. Some k) \<rparr>"

lemma start_world_inv: "world_inv start_world"
  by (simp add: world_inv_def start_world_def photo_inv_def start_db_def swap_db_defs photo_table_ok_def
      photo_unique_ok_def outbox_table_ok_def ready_keys_def)

lemma start_world_fresh:
  "fresh_photo (ue_photo_id sample_env) (wd_db start_world)"
  "fresh_events (ue_fresh sample_env) ''u1'' (wd_db start_world)"
  by (simp_all add: fresh_photo_def fresh_events_def start_world_def start_db_def swap_db_defs sample_env_def)

theorem upload_keeps_a_photo_witness:
  "\<exists>r w'. upload True True sample_env ''u1'' tiny_upload (Some ''x'') start_world = (r, w') \<and> world_inv w' \<and>
     ready_ids ''u1'' (wd_db w') = [] \<and> r = Inl (Api (api_error 400 ''invalid_idempotency_key''))"
proof -
  have bad: "normalize_idempotency_key (Some ''x'') = Inl (api_error 400 ''invalid_idempotency_key'')"
  proof -
    have "js_trim ''x'' = ''x''" "to_lower ''x'' = ''x''" by code_simp+
    then show ?thesis by (simp add: normalize_idempotency_key_def uuid_v4_def)
  qed
  have r: "upload True True sample_env ''u1'' tiny_upload (Some ''x'') start_world =
      (Inl (Api (api_error 400 ''invalid_idempotency_key'')), start_world)"
    by (simp add: upload_def activity_run_def upload_while_active_def bad start_world_def start_db_def
        swap_db_defs active_account_def)
  have "ready_ids ''u1'' (wd_db start_world) = []"
    by (simp add: ready_ids_def start_world_def start_db_def swap_db_defs)
  with r upload_keeps_a_photo [OF start_world_inv start_world_fresh r] show ?thesis by auto
qed

section \<open>The two stores agree\<close>

text \<open>The service calls, one after the other.\<close>

inductive service_step :: "world \<Rightarrow> world \<Rightarrow> bool" where
  uploads: "fresh_photo (ue_photo_id env) (wd_db w) \<Longrightarrow> fresh_events (ue_fresh env) u (wd_db w) \<Longrightarrow>
    upload acquired held env u up key_input w = (r, w') \<Longrightarrow> service_step w w'"
| deletes: "delete_photo u fresh now clk w = (r', w') \<Longrightarrow> service_step w w'"
| erases_account: "delete_for_account ok clk u w = (r'', w') \<Longrightarrow> service_step w w'"
| maintains: "maintenance_batch menv n w = Inr (x, c, cl, f, w') \<Longrightarrow> service_step w w'"
| handles: "delete_photo_event ok clk i w = (b, w') \<Longrightarrow> service_step w w'"

lemma service_step_inv: "world_inv w \<Longrightarrow> service_step w w' \<Longrightarrow> world_inv w'"
proof (erule service_step.cases, goal_cases)
  case 1 then show ?case using upload_outcome_activity by blast
next
  case 2 then show ?case using delete_photo_inv by blast
next
  case 3 then show ?case using delete_for_account_inv by blast
next
  case 4 then show ?case using maintenance_batch_inv by blast
next
  case 5 then show ?case using delete_photo_event_inv by blast
qed

text \<open>C9. The two stores agree after any sequence of uploads, deletions, account erasures,
  maintenance batches and deletion events, whatever calls to the object store fail on the way:
  the object of every ready photo is stored, and every stored object has a row (so no object is
  orphaned: a row that is not ready is found by the maintenance).\<close>

theorem stores_agree:
  assumes "world_inv w0" "service_step\<^sup>*\<^sup>* w0 w"
  shows "(\<forall>p \<in> set (user_photo (wd_db w)). up_status p = Ph_ready \<longrightarrow> up_object_key p \<in> set (wd_objects w)) \<and>
    (\<forall>k \<in> set (wd_objects w). \<exists>p \<in> set (user_photo (wd_db w)). up_object_key p = k)"
proof -
  from assms(2,1) have "world_inv w"
    by (induction rule: rtranclp_induct) (use service_step_inv in blast)+
  then show ?thesis
    by (auto simp: world_inv_def ready_keys_def all_keys_def is_ready_def)
qed

theorem stores_agree_witness:
  "\<exists>w. service_step start_world w \<and>
     (\<forall>k \<in> set (wd_objects w). \<exists>p \<in> set (user_photo (wd_db w)). up_object_key p = k)"
proof -
  obtain r w where "upload True True sample_env ''u1'' tiny_upload None start_world = (r, w)" by fastforce
  then have s: "service_step start_world w" by (rule service_step.uploads [OF start_world_fresh])
  with stores_agree [OF start_world_inv r_into_rtranclp [of service_step, OF s]] show ?thesis by blast
qed

section \<open>Maintenance\<close>

lemma remove_photos_rows:
  "remove_photos ok clk ps w = (c, f, w') \<Longrightarrow>
     set (user_photo (wd_db w')) \<subseteq> set (user_photo (wd_db w)) \<and> c + f = length ps"
proof (induction ps arbitrary: w c f w')
  case (Cons p ps)
  obtain b w1 where r: "remove_photo ok clk p w = (b, w1)" by fastforce
  obtain c' f' w2 where rs: "remove_photos ok clk ps w1 = (c', f', w2)" by (metis prod_cases3)
  have "set (user_photo (wd_db w1)) \<subseteq> set (user_photo (wd_db w))"
    using r by (auto simp: remove_photo_def user_photo_complete_deletion split: if_splits)
  with Cons.IH [OF rs] Cons.prems r rs show ?case by (auto split: if_splits)
qed simp

lemma drained_batch:
  assumes "world_inv w" "maintenance_batch env n w = Inr (x, c, cl, f, w')" "c < photo_batch_size"
    and "\<And>i. \<not> me_locked env n i" "p \<in> set (user_photo (wd_db w'))"
  shows "\<not> cleanup_due (me_now env n - stale_after_millis) (me_now env n - deletion_retry_after) p"
proof -
  let ?now = "me_now env n"
  let ?due = "cleanup_due (?now - stale_after_millis) (?now - deletion_retry_after)"
  obtain k d1 where purge: "purge_expired_upload_requests ?now photo_batch_size (wd_db w) = (k, d1)"
    by fastforce
  have d1: "user_photo d1 = user_photo (wd_db w)"
    using purge by (auto simp: purge_expired_upload_requests_def Let_def)
  define cs where "cs = sql_candidates ?due (\<lambda>p. (up_updated_at p, up_id p)) (\<lambda>p. me_locked env n (up_id p))
    photo_batch_size (user_photo d1)"
  let ?chosen = "\<lambda>p. up_id p \<in> set (map up_id cs)"
  obtain d2 where upd: "update_photos ?chosen (set_status Ph_deleting (pg_of_js ?now)) d1 = Inr d2"
    and rm: "remove_photos (me_delete_ok env n) (me_clock env n)
      (map photo_object_of (filter ?chosen (user_photo d2))) (set_db w d2) = (cl, f, w')"
    and c: "c = length (filter ?chosen (user_photo d2))"
    using assms(2) purge unfolding cs_def
    by (auto simp: maintenance_batch_def claim_cleanup_batch_def Let_def and_then_Inr_iff split: prod.splits)
  have ok: "photo_table_ok (user_photo d1)" using photo_invD(1) [OF world_invD(1) [OF assms(1)]] d1 by simp
  have t: "user_photo d2 = sql_update ?chosen (set_status Ph_deleting (pg_of_js ?now)) (user_photo d1)"
    using upd by (auto simp: update_to_deleting [OF ok])
  have dist: "distinct (map up_id (user_photo d1))" by (rule photo_table_okD(2) [OF ok])
  have sub: "set cs \<subseteq> set (user_photo d1)" unfolding cs_def by (rule sql_candidates_subset)
  have "distinct cs" unfolding cs_def by (rule distinct_sql_candidates [OF distinct_key_distinct [OF dist]])
  then have "length cs = sql_count ?chosen (user_photo d1)" by (simp only: sql_count_chosen [OF dist sub])
  also have "\<dots> = length (filter ?chosen (user_photo d2))"
  proof -
    have "length (filter (\<lambda>p. up_id p \<in> S) (sql_update q (set_status s clk) ts)) = sql_count (\<lambda>p. up_id p \<in> S) ts"
      for S q s clk ts by (induction ts) auto
    then show ?thesis by (simp only: t)
  qed
  finally have len: "length cs < photo_batch_size" using assms(3) c by simp
  have "p \<in> set (user_photo d2)" using remove_photos_rows [OF rm] assms(5) by auto
  then obtain q where q: "q \<in> set (user_photo d1)"
    "p = (if ?chosen q then set_status Ph_deleting (pg_of_js ?now) q else q)"
    unfolding t set_sql_update by blast
  show ?thesis
  proof (cases "?chosen q")
    case True
    then have "up_updated_at p = pg_of_js ?now" "up_status p = Ph_deleting" by (simp_all add: q(2) set_status_def)
    then show ?thesis by (simp add: cleanup_due_def in_progress_def deletion_retry_after_def)
  next
    case False
    then have "q \<notin> set cs" by auto
    then have "\<not> ?due q"
      using sql_candidates_left_out(1) [OF q(1), of ?due "\<lambda>p. me_locked env n (up_id p)"] assms(4) len
      unfolding cs_def by fastforce
    then show ?thesis using False q(2) by simp
  qed
qed

lemma perform_maintenance_drains:
  "world_inv w \<Longrightarrow> (\<And>n i. \<not> me_locked env n i) \<Longrightarrow> perform_maintenance env n left totals w = Inr (t, m, rest, w') \<Longrightarrow>
     n \<le> m \<and> m \<le> n + left \<and> (if rest then m = n + left else n < m \<and> (\<forall>p \<in> set (user_photo (wd_db w')).
       \<not> cleanup_due (me_now env (m - 1) - stale_after_millis) (me_now env (m - 1) - deletion_retry_after) p))"
proof (induction left arbitrary: n totals w)
  case 0
  then show ?case by simp
next
  case (Suc left)
  obtain x c cl f w1 where b: "maintenance_batch env n w = Inr (x, c, cl, f, w1)"
    using Suc.prems(3) by (auto simp: and_then_Inr_iff)
  show ?case
  proof (cases "c < photo_batch_size \<and> x < photo_batch_size")
    case True
    then have "m = n + 1" "rest = False" "w' = w1" using Suc.prems(3) b by simp_all
    then show ?thesis using drained_batch [OF Suc.prems(1) b _ Suc.prems(2)] True by simp
  next
    case False
    then obtain totals' where "perform_maintenance env (n + 1) left totals' w1 = Inr (t, m, rest, w')"
      using Suc.prems(3) b by (auto simp: Let_def)
    from Suc.IH [OF maintenance_batch_inv [OF Suc.prems(1) b] Suc.prems(2) this] show ?thesis by auto
  qed
qed


definition quiet_env :: maintenance_env where
  "quiet_env = \<lparr> me_now = (\<lambda>n. 10000000), me_clock = (\<lambda>n. 0), me_locked = (\<lambda>n i. False),
     me_delete_ok = (\<lambda>n k. True) \<rparr>"


end
