(* ===== verification/Outbox_Worker.thy ===== *)
theory Outbox_Worker
  imports Outbox_Lifecycle Photo_Storage
begin

text \<open>
  The worker that drains the outbox: \<open>src/outbox/outbox-worker.service.ts\<close>, with the dispatcher
  \<open>src/outbox/outbox-event.dispatcher.ts\<close>. The handlers of erasures, billing and push
  notifications belong to other components and are parameters; the photo deletion is the one of
  the photo services. The events of a batch are processed one after the other, in order; the code
  runs five at a time, on rows that only the holder of the claim writes.
\<close>

section \<open>Failures and delays\<close>

datatype handler_error = Billing_error string bool | Erasure_error string | Push_error
  | Storage_error | Unexpected_error

definition outbox_failure :: "handler_error \<Rightarrow> string \<times> bool" where
  "outbox_failure e = (case e of
     Billing_error code permanent \<Rightarrow> (code, permanent)
   | Erasure_error code \<Rightarrow> (code, False)
   | Push_error \<Rightarrow> (''push_delivery_unavailable'', False)
   | Storage_error \<Rightarrow> (''object_storage_unavailable'', False)
   | Unexpected_error \<Rightarrow> (''handler_failed'', False))"

definition max_attempts :: nat where "max_attempts = 10"
definition max_retry_delay_millis :: nat where "max_retry_delay_millis = 60000"
definition lock_timeout_millis :: int where "lock_timeout_millis = 300000"
definition outbox_batch_size :: nat where "outbox_batch_size = 50"
definition completed_retention_millis :: int where "completed_retention_millis = 604800000"
definition purge_interval_millis :: int where "purge_interval_millis = 3600000"

definition retry_delay_millis :: "nat \<Rightarrow> nat" where
  "retry_delay_millis attempts = min (1000 * 2 ^ (attempts - 1)) max_retry_delay_millis"

section \<open>Dispatch\<close>

datatype dispatch_result = Dispatch_completed | Dispatch_deferred

record handlers =
  hd_erase :: "uuid \<Rightarrow> uuid \<Rightarrow> world \<Rightarrow> (handler_error + bool) \<times> world"
  hd_billing :: "(outbox_event_type \<Rightarrow> uuid \<Rightarrow> world \<Rightarrow> (handler_error + unit) \<times> world) option"
  hd_push :: "uuid \<Rightarrow> world \<Rightarrow> (handler_error + unit) \<times> world"
  hd_delete_ok :: "string \<Rightarrow> bool"
  hd_clock :: pg_time

definition when_done :: "(handler_error + unit) \<times> world \<Rightarrow> (handler_error + dispatch_result) \<times> world" where
  "when_done r = (case r of (Inl e, w) \<Rightarrow> (Inl e, w) | (Inr (), w) \<Rightarrow> (Inr Dispatch_completed, w))"

definition dispatch ::
  "handlers \<Rightarrow> outbox_row \<Rightarrow> uuid \<Rightarrow> world \<Rightarrow> (handler_error + dispatch_result) \<times> world" where
  "dispatch h e worker w =
     (case oe_event_type e of
        Account_erase \<Rightarrow>
          (case hd_erase h (oe_id e) worker w of
             (Inl err, w') \<Rightarrow> (Inl err, w')
           | (Inr b, w') \<Rightarrow> (Inr (if b then Dispatch_completed else Dispatch_deferred), w'))
      | Notification_push \<Rightarrow> when_done (hd_push h (oe_aggregate_id e) w)
      | Photo_delete \<Rightarrow>
          (case delete_photo_event (hd_delete_ok h) (hd_clock h) (oe_aggregate_id e) w of
             (True, w') \<Rightarrow> (Inr Dispatch_completed, w')
           | (False, w') \<Rightarrow> (Inl Storage_error, w'))
      | _ \<Rightarrow>
          (case hd_billing h of
             None \<Rightarrow> (Inl (Billing_error ''billing_reconciliation_unavailable'' False), w)
           | Some handle \<Rightarrow> when_done (handle (oe_event_type e) (oe_aggregate_id e) w)))"

section \<open>One event\<close>

record worker_result =
  wr_claimed :: nat
  wr_completed :: nat
  wr_deferred :: nat
  wr_retried :: nat
  wr_dead_lettered :: nat
  wr_purged :: nat
  wr_purge_batches :: nat
  wr_work_remaining :: bool

text \<open>The clocks one event meets.\<close>

record event_clocks =
  ec_renew :: pg_time
  ec_completed_at :: js_time
  ec_failed_at :: js_time
  ec_reschedule :: pg_time

text \<open>The catch block: reschedule after a failure. A statement that raises here escapes.\<close>

definition handle_failure ::
  "uuid \<Rightarrow> event_clocks \<Rightarrow> outbox_row \<Rightarrow> handler_error \<Rightarrow> worker_result \<Rightarrow> world
    \<Rightarrow> sql_error + worker_result \<times> world" where
  "handle_failure worker ck e err result w =
     (let (code, permanent) = outbox_failure err in
      and_then (reschedule (oe_id e) worker (ec_failed_at ck + int (retry_delay_millis (oe_attempts e)))
          code (if permanent then 1 else max_attempts) (ec_reschedule ck) (wd_db w)) (\<lambda>(retry, d).
      Inr (case retry of
             Retry_pending \<Rightarrow> result\<lparr>wr_retried := wr_retried result + 1\<rparr>
           | Retry_dead_letter \<Rightarrow> result\<lparr>wr_dead_lettered := wr_dead_lettered result + 1\<rparr>
           | Not_owned \<Rightarrow> result, set_db w d)))"

definition process_event ::
  "handlers \<Rightarrow> uuid \<Rightarrow> event_clocks \<Rightarrow> outbox_row \<Rightarrow> worker_result \<Rightarrow> world
    \<Rightarrow> sql_error + worker_result \<times> world" where
  "process_event h worker ck e result w =
     (case renew_claim (oe_id e) worker (ec_renew ck) (wd_db w) of
        Inl _ \<Rightarrow> handle_failure worker ck e Unexpected_error result w
      | Inr (False, d) \<Rightarrow> Inr (result, set_db w d)
      | Inr (True, d) \<Rightarrow>
          (case dispatch h e worker (set_db w d) of
             (Inl err, w') \<Rightarrow> handle_failure worker ck e err result w'
           | (Inr Dispatch_deferred, w') \<Rightarrow> Inr (result\<lparr>wr_deferred := wr_deferred result + 1\<rparr>, w')
           | (Inr Dispatch_completed, w') \<Rightarrow>
               (case complete (oe_id e) worker (ec_completed_at ck) (wd_db w') of
                  Inl _ \<Rightarrow> handle_failure worker ck e Unexpected_error result w'
                | Inr (True, d') \<Rightarrow> Inr (result\<lparr>wr_completed := wr_completed result + 1\<rparr>, set_db w' d')
                | Inr (False, d') \<Rightarrow> Inr (result, set_db w' d'))))"

section \<open>One run\<close>

fun process_events ::
  "handlers \<Rightarrow> uuid \<Rightarrow> (uuid \<Rightarrow> event_clocks) \<Rightarrow> outbox_row list \<Rightarrow> worker_result \<Rightarrow> world
    \<Rightarrow> sql_error + worker_result \<times> world" where
  "process_events h worker ck [] result w = Inr (result, w)"
| "process_events h worker ck (e # es) result w =
     and_then (process_event h worker (ck (oe_id e)) e result w) (\<lambda>(result', w').
       process_events h worker ck es result' w')"

text \<open>\<open>purgeCompleted\<close>: purged rows, batches run, whether work remains.\<close>

fun purge_batches :: "nat \<Rightarrow> js_time \<Rightarrow> nat \<Rightarrow> nat \<Rightarrow> nat \<Rightarrow> nat \<Rightarrow> db \<Rightarrow> (nat \<times> nat \<times> bool) \<times> db" where
  "purge_batches 0 before batch purged batches last_size d = ((purged, batches, batch \<le> last_size), d)"
| "purge_batches (Suc left) before batch purged batches last_size d =
     (let (n, d') = purge_completed before batch d in
      if n < batch then ((purged + n, batches + 1, False), d')
      else purge_batches left before batch (purged + n) (batches + 1) n d')"

record worker_config =
  wc_purge_batch_size :: nat
  wc_purge_max_batches :: nat

definition purge_due :: "js_time option \<Rightarrow> js_time \<Rightarrow> bool" where
  "purge_due last_purge now = (case last_purge of None \<Rightarrow> True | Some t \<Rightarrow> purge_interval_millis \<le> now - t)"

definition run_once ::
  "worker_config \<Rightarrow> handlers \<Rightarrow> uuid \<Rightarrow> (uuid \<Rightarrow> event_clocks) \<Rightarrow> js_time \<Rightarrow> (uuid \<Rightarrow> bool) \<Rightarrow>
    js_time option \<Rightarrow> world \<Rightarrow> sql_error + worker_result \<times> js_time option \<times> world" where
  "run_once cfg h worker ck now locked last_purge w =
     and_then (claim_batch worker now (now - lock_timeout_millis) outbox_batch_size locked (wd_db w))
       (\<lambda>(events, d).
     let result = \<lparr> wr_claimed = length events, wr_completed = 0, wr_deferred = 0, wr_retried = 0,
           wr_dead_lettered = 0, wr_purged = 0, wr_purge_batches = 0,
           wr_work_remaining = (length events = outbox_batch_size) \<rparr>
     in and_then (process_events h worker ck events result (set_db w d)) (\<lambda>(result', w').
        if purge_due last_purge now then
          let ((purged, batches, remaining), d') = purge_batches (wc_purge_max_batches cfg)
                (now - completed_retention_millis) (wc_purge_batch_size cfg) 0 0 0 (wd_db w')
          in Inr (result'\<lparr>wr_purged := purged, wr_purge_batches := batches,
                 wr_work_remaining := (wr_work_remaining result' \<or> remaining)\<rparr>, Some now, set_db w' d')
        else Inr (result', last_purge, w')))"

section \<open>Lemmas\<close>

lemma retry_delay_bounds: "1000 \<le> retry_delay_millis n" "retry_delay_millis n \<le> 60000"
  by (auto simp: retry_delay_millis_def max_retry_delay_millis_def)

lemma retry_delay_mono: "m \<le> n \<Longrightarrow> retry_delay_millis m \<le> retry_delay_millis n"
  unfolding retry_delay_millis_def
  by (intro min.mono mult_left_mono power_increasing diff_le_mono) auto

lemma dead_letter_or_pending:
  "oe_status (reschedule_row a c m clk e) = (if m \<le> oe_attempts e then Oe_dead_letter else Oe_pending)"
  by (simp add: reschedule_row_def)

definition error_ok :: "handler_error \<Rightarrow> bool" where
  "error_ok e = error_code_ok (fst (outbox_failure e))"

lemma known_errors_ok: "error_ok Push_error" "error_ok Storage_error" "error_ok Unexpected_error"
  by (simp_all add: error_ok_def outbox_failure_def error_code_ok_def)

text \<open>What a failure does to the event it is about, found by its id.\<close>

definition event_of :: "db \<Rightarrow> uuid \<Rightarrow> outbox_row option" where
  "event_of d i = sql_first (\<lambda>e. oe_id e = i) (outbox_event d)"

definition failed_row :: "event_clocks \<Rightarrow> handler_error \<Rightarrow> nat \<Rightarrow> outbox_row \<Rightarrow> outbox_row" where
  "failed_row ck err attempts e =
     reschedule_row (ec_failed_at ck + int (retry_delay_millis attempts)) (fst (outbox_failure err))
       (if snd (outbox_failure err) then 1 else max_attempts) (ec_reschedule ck) e"

lemma event_of_update:
  assumes "\<And>e. oe_id (f e) = oe_id e"
  shows "event_of (d\<lparr>outbox_event := sql_update p f (outbox_event d)\<rparr>) i =
    map_option (\<lambda>e. if p e then f e else e) (event_of d i)"
  by (simp add: event_of_def sql_first_update_key [where k = oe_id and f = f, OF assms])

lemma handle_failure_eq:
  assumes "outbox_table_ok (outbox_event (wd_db w))" "error_ok err"
  obtains result' where
    "handle_failure worker ck e err result w = Inr (result', set_db w ((wd_db w)\<lparr>outbox_event :=
       sql_update (owned (oe_id e) worker) (failed_row ck err (oe_attempts e)) (outbox_event (wd_db w))\<rparr>))"
    "outbox_table_ok (sql_update (owned (oe_id e) worker) (failed_row ck err (oe_attempts e)) (outbox_event (wd_db w)))"
proof -
  obtain code permanent where f: "outbox_failure err = (code, permanent)" by fastforce
  have c: "error_code_ok code" using assms(2) f by (simp add: error_ok_def)
  note r = reschedule_ok [OF assms(1) c, of "oe_id e" worker
      "ec_failed_at ck + int (retry_delay_millis (oe_attempts e))" "if permanent then 1 else max_attempts"
      "ec_reschedule ck"]
  have row: "failed_row ck err (oe_attempts e) = reschedule_row
      (ec_failed_at ck + int (retry_delay_millis (oe_attempts e))) code
      (if permanent then 1 else max_attempts) (ec_reschedule ck)"
    by (simp add: fun_eq_iff failed_row_def f)
  show ?thesis
    by (rule that) (use r in \<open>auto simp: handle_failure_def f row\<close>)
qed

lemma renewed:
  assumes "outbox_table_ok (outbox_event d)" "event_of d i = Some e" "owned i worker e"
  shows "renew_claim i worker clk d = Inr (True, d\<lparr>outbox_event :=
      sql_update (owned i worker) (\<lambda>e. e\<lparr>oe_locked_at := Some clk\<rparr>) (outbox_event d)\<rparr>)"
    and "outbox_table_ok (sql_update (owned i worker) (\<lambda>e. e\<lparr>oe_locked_at := Some clk\<rparr>) (outbox_event d))"
proof -
  have "sql_exists (owned i worker) (outbox_event d)"
    using assms(2,3) by (auto simp: event_of_def sql_exists_iff dest!: sql_first_SomeD)
  then show "renew_claim i worker clk d = Inr (True, d\<lparr>outbox_event :=
      sql_update (owned i worker) (\<lambda>e. e\<lparr>oe_locked_at := Some clk\<rparr>) (outbox_event d)\<rparr>)"
    using renew_claim_ok(1) [OF assms(1), of i worker clk] by simp
  show "outbox_table_ok (sql_update (owned i worker) (\<lambda>e. e\<lparr>oe_locked_at := Some clk\<rparr>) (outbox_event d))"
    by (rule renew_claim_ok(2) [OF assms(1)])
qed

lemma event_of_owned_update:
  assumes "event_of d i = Some e" "owned i worker e" "\<And>e. oe_id (f e) = oe_id e"
  shows "event_of (d\<lparr>outbox_event := sql_update (owned i worker) f (outbox_event d)\<rparr>) i = Some (f e)"
    and "j \<noteq> i \<Longrightarrow> event_of (d\<lparr>outbox_event := sql_update (owned i worker) f (outbox_event d)\<rparr>) j = event_of d j"
proof -
  show "event_of (d\<lparr>outbox_event := sql_update (owned i worker) f (outbox_event d)\<rparr>) i = Some (f e)"
    using assms(1,2) by (simp add: event_of_update [OF assms(3)])
  show "event_of (d\<lparr>outbox_event := sql_update (owned i worker) f (outbox_event d)\<rparr>) j = event_of d j" if "j \<noteq> i"
  proof (cases "event_of d j")
    case (Some x)
    then have "oe_id x = j" by (auto simp: event_of_def dest: sql_first_SomeD)
    with Some that show ?thesis by (simp add: event_of_update [OF assms(3)] owned_def)
  qed (simp add: event_of_update [OF assms(3)])
qed

lemma failed_row_id: "oe_id (failed_row ck err n e) = oe_id e"
  by (simp add: failed_row_def)

lemma event_of_outbox_event: "outbox_event d' = outbox_event d \<Longrightarrow> event_of d' i = event_of d i"
  by (simp add: event_of_def)

definition settled_as ::
  "event_clocks \<Rightarrow> (handler_error + dispatch_result) \<Rightarrow> outbox_row \<Rightarrow> outbox_row \<Rightarrow> bool" where
  "settled_as ck res e e' \<longleftrightarrow> (case res of
     Inr Dispatch_completed \<Rightarrow> oe_status e' = Oe_completed
   | Inr Dispatch_deferred \<Rightarrow> oe_status e' = Oe_processing
   | Inl err \<Rightarrow>
       if snd (outbox_failure err) \<or> 10 \<le> oe_attempts e then oe_status e' = Oe_dead_letter
       else oe_status e' = Oe_pending \<and> oe_available_at e' =
         pg_of_js (ec_failed_at ck + int (min (1000 * 2 ^ (oe_attempts e - 1)) 60000)))"


definition push_down :: handlers where
  "push_down = \<lparr> hd_erase = (\<lambda>i v w. (Inr True, w)), hd_billing = None,
     hd_push = (\<lambda>i w. (Inl Push_error, w)), hd_delete_ok = (\<lambda>k. True), hd_clock = 0 \<rparr>"

definition sample_clocks :: event_clocks where
  "sample_clocks = \<lparr> ec_renew = 20000, ec_completed_at = 20, ec_failed_at = 20, ec_reschedule = 21000 \<rparr>"

definition sample_result :: worker_result where
  "sample_result = \<lparr> wr_claimed = 1, wr_completed = 0, wr_deferred = 0, wr_retried = 0,
     wr_dead_lettered = 0, wr_purged = 0, wr_purge_batches = 0, wr_work_remaining = False \<rparr>"


section \<open>An event that always fails\<close>

text \<open>Rounds of claim and failure, with the time of each claim and the clocks of its failure.\<close>

fun fail_rounds :: "uuid \<Rightarrow> handler_error \<Rightarrow> (js_time \<times> event_clocks) list \<Rightarrow> outbox_row \<Rightarrow> outbox_row" where
  "fail_rounds w err [] e = e"
| "fail_rounds w err ((now, ck) # rs) e =
     fail_rounds w err rs (failed_row ck err (oe_attempts e + 1) (claim_row w now e))"

text \<open>Each round is a legal claim, and the failure comes no earlier than the claim.\<close>

fun rounds_legal :: "uuid \<Rightarrow> handler_error \<Rightarrow> (js_time \<times> event_clocks) list \<Rightarrow> outbox_row \<Rightarrow> bool" where
  "rounds_legal w err [] e = True"
| "rounds_legal w err ((now, ck) # rs) e =
     (claimable now (now - lock_timeout_millis) e \<and> now \<le> ec_failed_at ck \<and>
      rounds_legal w err rs (failed_row ck err (oe_attempts e + 1) (claim_row w now e)))"

lemma fail_rounds_append:
  "fail_rounds w err (rs @ [(now, ck)]) e =
     failed_row ck err (oe_attempts (fail_rounds w err rs e) + 1) (claim_row w now (fail_rounds w err rs e))"
  by (induction w err rs e rule: fail_rounds.induct) simp_all

lemma rounds_legal_append:
  "rounds_legal w err (rs @ [(now, ck)]) e \<longleftrightarrow> rounds_legal w err rs e \<and>
     claimable now (now - lock_timeout_millis) (fail_rounds w err rs e) \<and> now \<le> ec_failed_at ck"
  by (induction w err rs e rule: rounds_legal.induct) simp_all

definition total_delay :: "nat \<Rightarrow> int" where
  "total_delay n = (\<Sum>k\<leftarrow>[1..<Suc n]. int (retry_delay_millis k))"

lemma total_delay_Suc: "total_delay (Suc n) = total_delay n + int (retry_delay_millis (Suc n))"
  by (simp add: total_delay_def)

lemma fail_rounds_state:
  assumes "\<not> snd (outbox_failure err)" "rounds_legal w err rs (new_outbox_row i ev t0)" "length rs < 10"
  shows "oe_attempts (fail_rounds w err rs (new_outbox_row i ev t0)) = length rs \<and>
    oe_status (fail_rounds w err rs (new_outbox_row i ev t0)) = Oe_pending \<and>
    t0 + pg_of_js (total_delay (length rs)) \<le> oe_available_at (fail_rounds w err rs (new_outbox_row i ev t0))"
  using assms(2,3)
proof (induction rs rule: rev_induct)
  case Nil
  then show ?case by (simp add: new_outbox_row_def total_delay_def pg_of_js_def)
next
  case (snoc r rs)
  obtain now ck where r: "r = (now, ck)" by fastforce
  let ?e = "fail_rounds w err rs (new_outbox_row i ev t0)"
  from snoc.prems r have legal: "rounds_legal w err rs (new_outbox_row i ev t0)"
    "claimable now (now - lock_timeout_millis) ?e" "now \<le> ec_failed_at ck"
    by (simp_all add: rounds_legal_append)
  from snoc.IH [OF legal(1)] snoc.prems(2) have IH: "oe_attempts ?e = length rs" "oe_status ?e = Oe_pending"
    "t0 + pg_of_js (total_delay (length rs)) \<le> oe_available_at ?e" by auto
  have "oe_available_at ?e \<le> pg_of_js now" using legal(2) IH(2) by (simp add: claimable_def)
  moreover have "pg_of_js now \<le> pg_of_js (ec_failed_at ck)" using legal(3) by simp
  ultimately have "t0 + pg_of_js (total_delay (length rs)) \<le> pg_of_js (ec_failed_at ck)" using IH(3) by linarith
  then have "t0 + pg_of_js (total_delay (Suc (length rs))) \<le>
      pg_of_js (ec_failed_at ck + int (retry_delay_millis (Suc (length rs))))"
    by (simp add: total_delay_Suc pg_of_js_def algebra_simps)
  then show ?case
    using assms(1) IH(1) snoc.prems(2)
    by (simp add: r fail_rounds_append failed_row_def reschedule_row_def max_attempts_def claim_row_def)
qed

text \<open>C5. An event whose handler fails every time (with no permanent error) is retried nine times
  and is a dead letter after the tenth failure, not before and not later. The delays of the nine
  retries add up: the tenth failure comes at least 243 seconds after the event was queued.\<close>

theorem tenth_failure_dead_letters:
  assumes "\<not> snd (outbox_failure err)" "rounds_legal w err (rs @ [(now, ck)]) (new_outbox_row i ev t0)"
    and "length rs \<le> 9"
  shows "oe_attempts (fail_rounds w err (rs @ [(now, ck)]) (new_outbox_row i ev t0)) = length rs + 1 \<and>
    oe_status (fail_rounds w err (rs @ [(now, ck)]) (new_outbox_row i ev t0)) =
      (if length rs = 9 then Oe_dead_letter else Oe_pending) \<and>
    (length rs = 9 \<longrightarrow> t0 + 243000000 \<le> pg_of_js (ec_failed_at ck))"
proof -
  let ?e = "fail_rounds w err rs (new_outbox_row i ev t0)"
  have legal: "rounds_legal w err rs (new_outbox_row i ev t0)"
    "claimable now (now - lock_timeout_millis) ?e" "now \<le> ec_failed_at ck"
    using assms(2) by (simp_all add: rounds_legal_append)
  have st: "oe_attempts ?e = length rs" "oe_status ?e = Oe_pending"
    "t0 + pg_of_js (total_delay (length rs)) \<le> oe_available_at ?e"
    using fail_rounds_state [OF assms(1) legal(1)] assms(3) by auto
  have "oe_available_at ?e \<le> pg_of_js now" using legal(2) st(2) by (simp add: claimable_def)
  moreover have "pg_of_js now \<le> pg_of_js (ec_failed_at ck)" using legal(3) by simp
  ultimately have "t0 + pg_of_js (total_delay (length rs)) \<le> pg_of_js (ec_failed_at ck)" using st(3) by linarith
  moreover have "total_delay 9 = 243000"
    by (simp add: total_delay_def retry_delay_millis_def max_retry_delay_millis_def upt_rec)
  ultimately show ?thesis
    using assms(1,3) st(1)
    by (auto simp: fail_rounds_append failed_row_def reschedule_row_def max_attempts_def claim_row_def
        pg_of_js_def)
qed

definition hourly_rounds :: "nat \<Rightarrow> (js_time \<times> event_clocks) list" where
  "hourly_rounds n = map (\<lambda>k. (3600000 * int k, sample_clocks\<lparr>ec_failed_at := 3600000 * int k\<rparr>)) [1..<Suc n]"

theorem tenth_failure_dead_letters_witness:
  "oe_status (fail_rounds ''w1'' Push_error (hourly_rounds 10) sample_event) = Oe_dead_letter"
proof -
  let ?ck = "sample_clocks\<lparr>ec_failed_at := 36000000\<rparr>"
  have "[1..<Suc 10] = [1..<Suc 9] @ [10]" by (simp add: upt_rec)
  then have split: "hourly_rounds 10 = hourly_rounds 9 @ [(36000000, ?ck)]"
    unfolding hourly_rounds_def by (simp only: map_append list.map) simp
  have legal: "rounds_legal ''w1'' Push_error (hourly_rounds 10) sample_event"
    by (simp add: hourly_rounds_def sample_event_def new_outbox_row_def claimable_def
        failed_row_def reschedule_row_def claim_row_def outbox_failure_def max_attempts_def pg_of_js_def
        retry_delay_millis_def max_retry_delay_millis_def upt_rec)
  have len: "length (hourly_rounds 9) = 9" by (simp add: hourly_rounds_def)
  have "\<not> snd (outbox_failure Push_error)" by (simp add: outbox_failure_def)
  from tenth_failure_dead_letters [OF this legal [unfolded split sample_event_def]] len
  show ?thesis by (simp add: split sample_event_def)
qed

end
