(* ===== verification/Notifications.thy ===== *)
theory Notifications
  imports Outbox
begin

text \<open>
  Notifications are recorded in the transaction that causes them:
  \<open>src/mobile/notification-outbox.ts\<close> and \<open>notification-billing.ts\<close>. One statement inserts the
  notification, unless its deduplication key is known, and for each device of the user whose
  session is live one push delivery with the outbox event that the worker will claim.
\<close>

datatype notification_intent =
    Intent_new_match uuid
  | Intent_new_message (in_match: uuid) (in_message: uuid) (in_sender: uuid)
  | Intent_payment_failed string
  | Intent_trial_ending (in_subscription: string) (in_trial_ends: js_time)

fun intent_type :: "notification_intent \<Rightarrow> notification_type" where
  "intent_type (Intent_new_match _) = New_match"
| "intent_type (Intent_new_message _ _ _) = New_message"
| "intent_type (Intent_payment_failed _) = Billing_payment_failed"
| "intent_type (Intent_trial_ending _ _) = Subscription_trial_ending"

fun type_text :: "notification_type \<Rightarrow> string" where
  "type_text New_match = ''new_match''"
| "type_text New_message = ''new_message''"
| "type_text Profile_liked = ''profile_liked''"
| "type_text Match_expiring = ''match_expiring''"
| "type_text Billing_payment_failed = ''billing_payment_failed''"
| "type_text Subscription_trial_ending = ''subscription_trial_ending''"

text \<open>The payload is an allowlist: ids only.\<close>

fun intent_payload :: "notification_intent \<Rightarrow> (string \<times> string) list" where
  "intent_payload (Intent_new_message m i s) = [(''match_id'', m), (''message_id'', i), (''sender_id'', s)]"
| "intent_payload (Intent_new_match m) = [(''match_id'', m)]"
| "intent_payload _ = []"

fun intent_reference :: "notification_intent \<Rightarrow> string option" where
  "intent_reference (Intent_payment_failed i) = Some i"
| "intent_reference (Intent_trial_ending s _) = Some s"
| "intent_reference _ = None"

fun intent_trial :: "notification_intent \<Rightarrow> pg_time option" where
  "intent_trial (Intent_trial_ending _ t) = Some (pg_of_js t)"
| "intent_trial _ = None"

text \<open>
  What a call draws from outside: SHA-256 in hexadecimal, the id from \<open>randomUUID\<close>, the ids from
  \<open>uuid_generate_v4\<close> (one per target), \<open>now()\<close> and \<open>clock_timestamp()\<close>.
\<close>

record notify_env =
  nv_sha256_hex :: "string \<Rightarrow> string"
  nv_id :: uuid
  nv_job_id :: "nat \<Rightarrow> uuid"
  nv_now :: pg_time
  nv_clock :: pg_time

text \<open>\<open>JSON.stringify\<close> of an array of three strings that need no escape.\<close>

definition json_triple :: "string \<Rightarrow> string \<Rightarrow> string \<Rightarrow> string" where
  "json_triple a b c = ''[\"'' @ a @ ''\",\"'' @ b @ ''\",\"'' @ c @ ''\"]''"

definition dedup_key :: "notify_env \<Rightarrow> uuid \<Rightarrow> uuid \<Rightarrow> notification_intent \<Rightarrow> string" where
  "dedup_key v u src intent = nv_sha256_hex v (json_triple (type_text (intent_type intent)) src u)"

definition billing_notification_eligible :: "pg_time \<Rightarrow> notification_row \<Rightarrow> db \<Rightarrow> bool" where
  "billing_notification_eligible clk n d \<longleftrightarrow>
     no_type n = Billing_payment_failed \<and>
       sql_exists (\<lambda>i. Some (bi_invoice_id i) = no_billing_reference n \<and> bi_user_id i = Some (no_user_id n) \<and>
         bi_status i = Some Inv_open \<and> 0 < bi_amount_remaining i) (billing_invoice d) \<or>
     no_type n = Subscription_trial_ending \<and>
       sql_exists (\<lambda>s. us_user_id s = no_user_id n \<and> us_provider s = Some ''stripe'' \<and>
         us_provider_subscription_id s \<noteq> None \<and> us_provider_subscription_id s = no_billing_reference n \<and>
         us_status s = Some Trialing \<and> us_trial_ends_at s = no_billing_trial_ends_at n \<and>
         (case us_trial_ends_at s of None \<Rightarrow> False | Some t \<Rightarrow> clk < t)) (user_subscription d)"

definition candidate_notification ::
  "notify_env \<Rightarrow> uuid \<Rightarrow> uuid \<Rightarrow> notification_intent \<Rightarrow> notification_row" where
  "candidate_notification v u src intent =
     \<lparr> no_id = nv_id v, no_user_id = u, no_type = intent_type intent,
       no_payload = intent_payload intent, no_dedup_key = Some (dedup_key v u src intent),
       no_billing_reference = intent_reference intent,
       no_billing_trial_ends_at = intent_trial intent, no_expires_at = nv_now v + 7776000000000 \<rparr>"

text \<open>The columns' patterns: \<open>notification_deduplication_key_check\<close> and
  \<open>chk_notification_billing_context\<close>.\<close>

definition hex64 :: "string \<Rightarrow> bool" where
  "hex64 k \<longleftrightarrow> length k = 64 \<and> list_all (\<lambda>c. c \<in> set ''0123456789abcdef'') k"

definition alnum :: "char \<Rightarrow> bool" where
  "alnum c = (let n = of_char c :: nat in 48 \<le> n \<and> n \<le> 57 \<or> 65 \<le> n \<and> n \<le> 90 \<or> 97 \<le> n \<and> n \<le> 122)"

definition provider_id :: "string \<Rightarrow> string \<Rightarrow> bool" where
  "provider_id prefix s \<longleftrightarrow> take (length prefix) s = prefix \<and> length prefix < length s \<and>
     list_all alnum (drop (length prefix) s)"

definition notification_row_ok :: "notification_row \<Rightarrow> bool" where
  "notification_row_ok n \<longleftrightarrow>
     (case no_dedup_key n of None \<Rightarrow> True | Some k \<Rightarrow> hex64 k) \<and>
     (case (no_billing_reference n, no_billing_trial_ends_at n) of
        (None, None) \<Rightarrow> True
      | (Some r, None) \<Rightarrow> no_type n = Billing_payment_failed \<and> provider_id ''in_'' r
      | (Some r, Some _) \<Rightarrow> no_type n = Subscription_trial_ending \<and> provider_id ''sub_'' r
      | (None, Some _) \<Rightarrow> False)"

text \<open>A device receives the push if it has no session, or a session that is neither revoked nor
  past its end.\<close>

definition push_target :: "pg_time \<Rightarrow> uuid \<Rightarrow> db \<Rightarrow> device_row \<Rightarrow> bool" where
  "push_target clk u d dev \<longleftrightarrow> dt_user_id dev = u \<and>
     (case dt_session_id dev of None \<Rightarrow> True
      | Some s \<Rightarrow> sql_exists (\<lambda>f. rf_id f = s \<and> rf_revoked_at f = None \<and> clk < rf_expires_at f)
          (refresh_token_family d))"

definition push_targets :: "notify_env \<Rightarrow> uuid \<Rightarrow> db \<Rightarrow> (uuid \<times> device_row) list" where
  "push_targets v u d =
     (let devs = filter (push_target (nv_clock v) u d) (device_token d) in
      zip (map (nv_job_id v) [0..<length devs]) devs)"

definition push_job :: "pg_time \<Rightarrow> uuid \<Rightarrow> outbox_row" where
  "push_job now i = new_outbox_row i
     \<lparr> ne_event_type = Notification_push, ne_aggregate_id = i, ne_payload = None \<rparr> now"

definition enqueue_notification ::
  "notify_env \<Rightarrow> uuid \<Rightarrow> uuid \<Rightarrow> notification_intent \<Rightarrow> db \<Rightarrow> sql_error + db" where
  "enqueue_notification v u src intent d =
     (let n = candidate_notification v u src intent in
      if \<not> sql_exists (\<lambda>a. ua_id a = u \<and> active_account a) (user_account d) then Inr d
      else if \<not> (no_type n = New_match \<or> no_type n = New_message \<or>
                 billing_notification_eligible (nv_clock v) n d) then Inr d
      else if \<not> notification_row_ok n then Inl Check_violation
      else if sql_exists (\<lambda>x. no_dedup_key x = no_dedup_key n) (notification d) then Inr d
      else if sql_exists (\<lambda>x. no_id x = no_id n) (notification d) then Inl Unique_violation
      else
        let targets = push_targets v u d in
        and_then (write_outbox (outbox_event d @ map (\<lambda>(i, _). push_job (nv_now v) i) targets) d)
          (\<lambda>d1. Inr (d1\<lparr>notification := notification d @ [n],
             notification_push_delivery := notification_push_delivery d @
               map (\<lambda>(i, dev). \<lparr> pd_id = i, pd_notification_id = no_id n, pd_device_id = dt_id dev,
                 pd_session_id = dt_session_id dev \<rparr>) targets\<rparr>)))"

end
