(* ===== verification/Matches.thy ===== *)
theory Matches
  imports Notifications Common Pagination
begin

text \<open>
  A match between two users and its continuation: \<open>src/matches/match-access.ts\<close> and
  \<open>matches.repository.ts\<close>. A match is \<open>active\<close> for a day, then both users have a day to continue
  it, and it is then \<open>confirmed\<close> or \<open>expired\<close>. Whoever acts on a match first brings its status up
  to date under the row lock, in the transaction of the action. Dates read from PostgreSQL are
  compared in JavaScript, in milliseconds.

  An operation returns the database it leaves, because a failure that is a value commits; only
  a raised error (\<open>Inl\<close>) rolls back.
\<close>

datatype match_failure = Match_not_found | Match_invalid_state | Match_expired

datatype continuation_result =
    Cr_pending | Cr_confirmed | Cr_already_recorded | Cr_not_available_yet
  | Cr_not_found | Cr_invalid_state | Cr_expired | Cr_quota_reached

definition match_purge_ms :: int where
  "match_purge_ms = 30 * 24 * 60 * 60 * 1000"

definition day_ms :: int where
  "day_ms = 24 * 60 * 60 * 1000"

definition participant :: "uuid \<Rightarrow> match_row \<Rightarrow> bool" where
  "participant u m \<longleftrightarrow> mi_user1 m = u \<or> mi_user2 m = u"

definition open_row :: "js_time \<Rightarrow> match_row \<Rightarrow> match_row" where
  "open_row now m = m\<lparr>mi_status := Awaiting_continuation, mi_expires_at := pg_of_js (now + day_ms)\<rparr>"

definition expire_row :: "js_time \<Rightarrow> match_row \<Rightarrow> match_row" where
  "expire_row now m = m\<lparr>mi_status := Expired, mi_purge_after := Some (pg_of_js (now + match_purge_ms))\<rparr>"

definition update_match :: "uuid \<Rightarrow> (match_row \<Rightarrow> match_row) \<Rightarrow> db \<Rightarrow> db" where
  "update_match i f d = d\<lparr>match_init := sql_update (\<lambda>m. mi_id m = i) f (match_init d)\<rparr>"

section \<open>Access to a match\<close>

definition available_to :: "uuid \<Rightarrow> uuid \<Rightarrow> db \<Rightarrow> match_row \<Rightarrow> bool" where
  "available_to i u d m \<longleftrightarrow> mi_id m = i \<and> participant u m \<and>
     \<not> account_deleted (mi_user1 m) d \<and> \<not> account_deleted (mi_user2 m) d"

definition lock_messaging_match ::
  "pg_time \<Rightarrow> uuid \<Rightarrow> uuid \<Rightarrow> db \<Rightarrow> db \<times> (match_failure + match_row)" where
  "lock_messaging_match clk i u d =
     (case sql_first (available_to i u d) (match_init d) of
        None \<Rightarrow> (d, Inl Match_not_found)
      | Some m0 \<Rightarrow>
          let now = js_of_pg clk;
              opens = mi_status m0 = Active \<and> js_of_pg (mi_expires_at m0) \<le> now;
              d1 = (if opens then update_match i (open_row now) d else d);
              m = (if opens then open_row now m0 else m0)
          in if mi_status m = Awaiting_continuation \<and> js_of_pg (mi_expires_at m) \<le> now
             then (update_match i (expire_row now) d1, Inl Match_expired)
             else if mi_status m \<noteq> Active \<and> mi_status m \<noteq> Awaiting_continuation \<and> mi_status m \<noteq> Confirmed
             then (d1, Inl Match_invalid_state)
             else (d1, Inr m))"

section \<open>Creation\<close>

definition blocked_pair :: "uuid \<Rightarrow> uuid \<Rightarrow> db \<Rightarrow> bool" where
  "blocked_pair u v d = sql_exists (\<lambda>b. ub_blocker b = u \<and> ub_blocked b = v \<or>
     ub_blocker b = v \<and> ub_blocked b = u) (user_block d)"

definition has_active_account :: "uuid \<Rightarrow> db \<Rightarrow> bool" where
  "has_active_account u d = sql_exists (\<lambda>a. ua_id a = u \<and> active_account a) (user_account d)"

definition new_match_row :: "uuid \<Rightarrow> uuid \<Rightarrow> uuid \<Rightarrow> js_time \<Rightarrow> match_row" where
  "new_match_row i u1 u2 now =
     \<lparr> mi_id = i, mi_user1 = u1, mi_user2 = u2, mi_status = Active,
       mi_expires_at = pg_of_js (now + day_ms), mi_purge_after = None, mi_initiator = None,
       mi_created_at = pg_of_js now, mi_last_message_at = None \<rparr>"

definition new_state_row :: "uuid \<Rightarrow> uuid \<Rightarrow> match_state_row" where
  "new_state_row i u = \<lparr> ms_match_id = i, ms_user_id = u, ms_revealed = False, ms_continued = False \<rparr>"

definition create_match :: "(uuid \<Rightarrow> notify_env) \<Rightarrow> match_row \<Rightarrow> db \<Rightarrow> sql_error + db" where
  "create_match v m d =
     (if \<not> (has_active_account (mi_user1 m) d \<and> has_active_account (mi_user2 m) d \<and>
            \<not> blocked_pair (mi_user1 m) (mi_user2 m) d)
      then Inl (Thrown (if blocked_pair (mi_user1 m) (mi_user2 m) d then ''blocked'' else ''not_found''))
      else and_then (insert_match m d)
        (\<lambda>d1. and_then (insert_match_state (new_state_row (mi_id m) (mi_user1 m)) d1)
        (\<lambda>d2. and_then (insert_match_state (new_state_row (mi_id m) (mi_user2 m)) d2)
        (\<lambda>d3. and_then (enqueue_notification (v (mi_user1 m)) (mi_user1 m) (mi_id m)
                          (Intent_new_match (mi_id m)) d3)
        (\<lambda>d4. enqueue_notification (v (mi_user2 m)) (mi_user2 m) (mi_id m)
                (Intent_new_match (mi_id m)) d4)))))"

definition find_by_pair :: "uuid \<Rightarrow> uuid \<Rightarrow> db \<Rightarrow> match_row option" where
  "find_by_pair u1 u2 d = sql_first (\<lambda>m. mi_user1 m = u1 \<and> mi_user2 m = u2) (match_init d)"

definition find_for_user :: "uuid \<Rightarrow> uuid \<Rightarrow> db \<Rightarrow> match_row option" where
  "find_for_user i u d = sql_first (\<lambda>m. mi_id m = i \<and> participant u m) (match_init d)"

definition participant_ids :: "uuid \<Rightarrow> uuid \<Rightarrow> db \<Rightarrow> (uuid \<times> uuid) option" where
  "participant_ids i u d =
     map_option (\<lambda>m. (mi_user1 m, mi_user2 m))
       (sql_first (\<lambda>m. mi_id m = i \<and> participant u m) (match_init d))"

section \<open>Pages of a user's matches\<close>

text \<open>COALESCE(last_message_at, created_at), id.\<close>

definition activity_key :: "match_row \<Rightarrow> pg_time \<times> uuid" where
  "activity_key m = (case mi_last_message_at m of None \<Rightarrow> mi_created_at m | Some t \<Rightarrow> t, mi_id m)"

definition visible_as :: "uuid \<Rightarrow> uuid \<Rightarrow> db \<Rightarrow> match_row \<Rightarrow> bool" where
  "visible_as u other d m \<longleftrightarrow> mi_status m \<noteq> Ended \<and>
     sql_exists (\<lambda>a. ua_id a = other \<and> live_account a) (user_account d) \<and> \<not> blocked_pair u other d"

definition page_branch1 :: "uuid \<Rightarrow> nat \<Rightarrow> (pg_time \<times> uuid) option \<Rightarrow> db \<Rightarrow> match_row list" where
  "page_branch1 u n c d =
     keyset_page activity_key n c (filter (\<lambda>m. mi_user1 m = u \<and> visible_as u (mi_user2 m) d m) (match_init d))"

definition page_branch2 :: "uuid \<Rightarrow> nat \<Rightarrow> (pg_time \<times> uuid) option \<Rightarrow> db \<Rightarrow> match_row list" where
  "page_branch2 u n c d =
     keyset_page activity_key n c (filter (\<lambda>m. mi_user2 m = u \<and> visible_as u (mi_user1 m) d m) (match_init d))"

definition match_page :: "uuid \<Rightarrow> nat \<Rightarrow> nat \<Rightarrow> (pg_time \<times> uuid) option \<Rightarrow> db \<Rightarrow> match_row list" where
  "match_page u limit offset c d =
     take limit (drop offset (rev (sort_key activity_key
       (page_branch1 u (limit + offset) c d @ page_branch2 u (limit + offset) c d))))"

section \<open>Reveal\<close>

text \<open>The statement reads the snapshot from before its own UPDATE, hence
  \<open>state.revealed OR state.user_id = $2\<close>.\<close>

definition record_reveal ::
  "pg_time \<Rightarrow> uuid \<Rightarrow> uuid \<Rightarrow> db \<Rightarrow> sql_error + db \<times> (match_failure + bool)" where
  "record_reveal clk i u d =
     (case lock_messaging_match clk i u d of
        (d1, Inl f) \<Rightarrow> Inr (d1, Inl f)
      | (d1, Inr m) \<Rightarrow>
          let mine = (\<lambda>s. ms_match_id s = i \<and> ms_user_id s = u);
              states = filter (\<lambda>s. ms_match_id s = i) (match_state d1)
          in and_then (update_match_states mine (\<lambda>s. s\<lparr>ms_revealed := True\<rparr>) d1)
               (\<lambda>d2. if \<not> sql_exists mine (match_state d1) then Inr (d2, Inl Match_not_found)
                     else Inr (d2, Inr (length states = 2 \<and>
                       list_all (\<lambda>s. ms_revealed s \<or> ms_user_id s = u) states))))"

section \<open>Continuation\<close>

definition open_continuation_window :: "uuid \<Rightarrow> js_time \<Rightarrow> db \<Rightarrow> bool \<times> db" where
  "open_continuation_window i now d =
     (let p = (\<lambda>m. mi_id m = i \<and> mi_status m = Active \<and> mi_expires_at m \<le> pg_of_js now) in
      (sql_count p (match_init d) = 1,
       d\<lparr>match_init := sql_update p (open_row now) (match_init d)\<rparr>))"

definition expire_awaiting_match :: "uuid \<Rightarrow> js_time \<Rightarrow> db \<Rightarrow> db" where
  "expire_awaiting_match i now d =
     d\<lparr>match_init := sql_update (\<lambda>m. mi_id m = i \<and> mi_status m = Awaiting_continuation \<and>
         mi_expires_at m \<le> pg_of_js now) (expire_row now) (match_init d)\<rparr>"

definition entitling :: "uuid \<Rightarrow> js_time \<Rightarrow> subscription_row \<Rightarrow> bool" where
  "entitling u now s \<longleftrightarrow> us_user_id s = u \<and>
     (us_plan s = ''free'' \<or>
      (us_provider s = None \<or> us_status s \<in> {Some Trialing, Some Sub_active, Some Past_due}) \<and>
      (case us_period_ends_at s of None \<Rightarrow> True | Some t \<Rightarrow> pg_of_js now < t))"

definition effective_plan :: "uuid \<Rightarrow> js_time \<Rightarrow> db \<Rightarrow> sql_error + string \<times> int option" where
  "effective_plan u now d =
     (let code = (case sql_first (entitling u now) (user_subscription d) of
                    None \<Rightarrow> ''free'' | Some s \<Rightarrow> us_plan s)
      in case sql_first (\<lambda>p. pl_code p = code) (subscription_plan d) of
           None \<Rightarrow> Inl (Thrown ''free subscription plan is missing'')
         | Some p \<Rightarrow> Inr (pl_code p, pl_weekly_limit p))"

text \<open>The Monday of the week, as days since the epoch: day 0 was a Thursday, and
  \<open>getUTCDay\<close> counts from Sunday.\<close>

definition start_of_utc_week :: "js_time \<Rightarrow> int" where
  "start_of_utc_week now =
     (let day = now div 86400000; dow = (day + 4) mod 7 in day - (dow + 6) mod 7)"

definition continuation_usage_of :: "uuid \<Rightarrow> int \<Rightarrow> db \<Rightarrow> int" where
  "continuation_usage_of u week d =
     (case sql_first (\<lambda>r. usage_key r = (u, week)) (continuation_usage d) of
        None \<Rightarrow> 0 | Some r \<Rightarrow> cu_used_count r)"

text \<open>INSERT .. SELECT .. WHERE limit > 0 ON CONFLICT DO UPDATE WHERE used_count < limit; the value is
  whether a row came back.\<close>

definition consume_quota :: "uuid \<Rightarrow> int \<Rightarrow> int \<Rightarrow> db \<Rightarrow> bool \<times> db" where
  "consume_quota u week limit d =
     (if \<not> 0 < limit then (False, d)
      else case sql_first (\<lambda>r. usage_key r = (u, week)) (continuation_usage d) of
        None \<Rightarrow> (True, d\<lparr>continuation_usage := continuation_usage d @
                 [\<lparr> cu_user_id = u, cu_week_start = week, cu_used_count = 1 \<rparr>]\<rparr>)
      | Some r \<Rightarrow>
          if cu_used_count r < limit
          then (True, d\<lparr>continuation_usage := sql_update (\<lambda>x. usage_key x = (u, week))
                 (\<lambda>x. x\<lparr>cu_used_count := cu_used_count x + 1\<rparr>) (continuation_usage d)\<rparr>)
          else (False, d))"

definition mark_continued :: "uuid \<Rightarrow> uuid \<Rightarrow> db \<Rightarrow> sql_error + db" where
  "mark_continued i u d =
     update_match_states (\<lambda>s. ms_match_id s = i \<and> ms_user_id s = u) (\<lambda>s. s\<lparr>ms_continued := True\<rparr>) d"

definition confirmable :: "uuid \<Rightarrow> js_time \<Rightarrow> db \<Rightarrow> match_row \<Rightarrow> bool" where
  "confirmable i now d m \<longleftrightarrow> mi_id m = i \<and> mi_status m = Awaiting_continuation \<and>
     pg_of_js now < mi_expires_at m \<and>
     sql_count (\<lambda>s. ms_match_id s = i \<and> ms_continued s) (match_state d) = 2"

definition confirm_row :: "match_row \<Rightarrow> match_row" where
  "confirm_row m = m\<lparr>mi_status := Confirmed, mi_purge_after := None\<rparr>"

text \<open>The second consent: the initiator's quota is charged, then the match is confirmed.\<close>

definition second_consent ::
  "js_time \<Rightarrow> uuid \<Rightarrow> uuid \<Rightarrow> uuid \<Rightarrow> db \<Rightarrow> sql_error + db \<times> continuation_result" where
  "second_consent now i u initiator d =
     and_then (effective_plan initiator now d) (\<lambda>(_, limit).
       let charged = (case limit of None \<Rightarrow> (True, d)
             | Some n \<Rightarrow> consume_quota initiator (start_of_utc_week now) n d)
       in if \<not> fst charged then Inr (snd charged, Cr_quota_reached)
          else and_then (mark_continued i u (snd charged))
            (\<lambda>d2. let p = confirmable i now d2 in
              Inr (d2\<lparr>match_init := sql_update p confirm_row (match_init d2)\<rparr>,
                if sql_count p (match_init d2) = 1 then Cr_confirmed else Cr_invalid_state)))"

definition record_continuation_consent ::
  "pg_time \<Rightarrow> uuid \<Rightarrow> uuid \<Rightarrow> db \<Rightarrow> sql_error + db \<times> continuation_result" where
  "record_continuation_consent clk i u d =
     (case sql_first (\<lambda>m. mi_id m = i \<and> participant u m) (match_init d) of
        None \<Rightarrow> Inr (d, Cr_not_found)
      | Some m0 \<Rightarrow>
          let now = js_of_pg clk in
          if mi_status m0 = Active \<and> now < js_of_pg (mi_expires_at m0) then Inr (d, Cr_not_available_yet)
          else
            let d1 = (if mi_status m0 = Active then update_match i (open_row now) d else d);
                m = (if mi_status m0 = Active then open_row now m0 else m0)
            in if mi_status m \<noteq> Awaiting_continuation then Inr (d1, Cr_invalid_state)
               else if js_of_pg (mi_expires_at m) \<le> now
               then Inr (update_match i (expire_row now) d1, Cr_expired)
               else case sql_first (\<lambda>s. ms_match_id s = i \<and> ms_user_id s = u) (match_state d1) of
                 None \<Rightarrow> Inr (d1, Cr_not_found)
               | Some s \<Rightarrow>
                   if ms_continued s then Inr (d1, Cr_already_recorded)
                   else case mi_initiator m of
                     None \<Rightarrow> and_then (mark_continued i u d1)
                       (\<lambda>d2. Inr (update_match i (\<lambda>x. x\<lparr>mi_initiator := Some u\<rparr>) d2, Cr_pending))
                   | Some initiator \<Rightarrow> second_consent now i u initiator d1)"

section \<open>Statements of other components on matches\<close>

definition open_status :: "match_status \<Rightarrow> bool" where
  "open_status s \<longleftrightarrow> s = Active \<or> s = Awaiting_continuation \<or> s = Confirmed"

definition ended_match_retention_us :: int where
  "ended_match_retention_us = 30 * 24 * 60 * 60 * 1000000"

definition end_row :: "pg_time \<Rightarrow> match_row \<Rightarrow> match_row" where
  "end_row clk m = m\<lparr>mi_status := Ended, mi_purge_after := Some (clk + ended_match_retention_us)\<rparr>"

text \<open>Blocking: \<open>trg_live_block\<close> and \<open>user_block_check\<close> guard the insert, open matches of the pair end.\<close>

definition block_user :: "uuid \<Rightarrow> uuid \<Rightarrow> pg_time \<Rightarrow> pg_time \<Rightarrow> db \<Rightarrow> sql_error + db \<times> bool" where
  "block_user u v now clk d =
     (if \<not> sql_exists (\<lambda>a. ua_id a = v \<and> live_account a) (user_account d) then Inr (d, False)
      else if account_deleted u d \<or> account_deleted v d then Inl Live_account_trigger
      else if u = v then Inl Check_violation
      else
        let b = \<lparr> ub_blocker = u, ub_blocked = v, ub_created_at = now \<rparr>;
            p = (\<lambda>m. (mi_user1 m = u \<and> mi_user2 m = v \<or> mi_user1 m = v \<and> mi_user2 m = u) \<and>
                   open_status (mi_status m))
        in Inr (d\<lparr>user_block := (if sql_exists (\<lambda>b. ub_blocker b = u \<and> ub_blocked b = v) (user_block d)
               then user_block d else user_block d @ [b]),
             match_init := sql_update p (end_row clk) (match_init d)\<rparr>, True))"

definition unblock_user :: "uuid \<Rightarrow> uuid \<Rightarrow> db \<Rightarrow> db" where
  "unblock_user u v d =
     d\<lparr>user_block := sql_delete (\<lambda>b. ub_blocker b = u \<and> ub_blocked b = v) (user_block d)\<rparr>"

text \<open>What erasing an account does to matches, messages and match states.\<close>

definition anonymise_matches :: "uuid \<Rightarrow> pg_time \<Rightarrow> string \<Rightarrow> db \<Rightarrow> db" where
  "anonymise_matches u now removed d =
     d\<lparr>match_init := sql_update (\<lambda>m. participant u m \<and> open_status (mi_status m))
         (\<lambda>m. m\<lparr>mi_status := Ended, mi_purge_after := (case mi_purge_after m of
            None \<Rightarrow> Some (now + ended_match_retention_us) | Some t \<Rightarrow> Some t)\<rparr>) (match_init d),
       chat_message := sql_update (\<lambda>c. cm_sender_id c = u) (\<lambda>c. c\<lparr>cm_content := removed\<rparr>) (chat_message d),
       match_state := sql_delete (\<lambda>s. ms_user_id s = u) (match_state d)\<rparr>"

end
