(* ===== verification/Match_Messages.thy ===== *)
theory Match_Messages
  imports Matches
begin

text \<open>
  The messages of a match, \<open>src/matches/match-message.repository.ts\<close>: sending a message once per
  idempotency key, reading, and the two ways of marking as read. The sender's match id arrives as
  the text of the request; SQL compares it as a UUID, JavaScript as a string.
\<close>

text \<open>\<open>MessageRow\<close> as JavaScript holds it.\<close>

record message =
  me_id :: uuid
  me_match_id :: uuid
  me_sender_id :: uuid
  me_content :: string
  me_created_at :: js_time
  me_read_at :: "js_time option"

record message_creation =
  mc_message :: message
  mc_participants :: "uuid \<times> uuid"
  mc_created :: bool

datatype message_failure = Idempotency_conflict_message | Unavailable match_failure

record message_read =
  mr_updated_count :: nat
  mr_participants :: "uuid \<times> uuid"
  mr_read_through :: uuid

definition message_of_row :: "message_row \<Rightarrow> message" where
  "message_of_row c =
     \<lparr> me_id = cm_id c, me_match_id = cm_match_id c, me_sender_id = cm_sender_id c,
       me_content = cm_content c, me_created_at = js_of_pg (cm_created_at c),
       me_read_at = map_option js_of_pg (cm_read_at c) \<rparr>"

definition message_order :: "message_row \<Rightarrow> pg_time \<times> uuid" where
  "message_order c = (cm_created_at c, cm_id c)"

definition messages_for_user ::
  "pg_time \<Rightarrow> uuid \<Rightarrow> uuid \<Rightarrow> nat \<Rightarrow> nat \<Rightarrow> (pg_time \<times> uuid) option \<Rightarrow> db \<Rightarrow>
     db \<times> (match_failure + message_row list)" where
  "messages_for_user clk i u limit offset c d =
     (case lock_messaging_match clk i u d of
        (d1, Inl f) \<Rightarrow> (d1, Inl f)
      | (d1, Inr m) \<Rightarrow> (d1, Inr (drop offset (keyset_page message_order (offset + limit) c
          (filter (\<lambda>x. cm_match_id x = i) (chat_message d1))))))"

section \<open>Sending\<close>

text \<open>The JOIN of the message with its match; a match with a deleted participant is not found.\<close>

definition find_idempotent_message ::
  "uuid \<Rightarrow> uuid \<Rightarrow> db \<Rightarrow> (message \<times> uuid \<times> uuid) option" where
  "find_idempotent_message sender key d =
     (let live = (\<lambda>c. \<lambda>m. mi_id m = cm_match_id c \<and> \<not> account_deleted (mi_user1 m) d \<and>
                       \<not> account_deleted (mi_user2 m) d)
      in case sql_first (\<lambda>c. message_key c = (sender, Some key) \<and> sql_exists (live c) (match_init d))
           (chat_message d) of
           None \<Rightarrow> None
         | Some c \<Rightarrow> map_option (\<lambda>m. (message_of_row c, mi_user1 m, mi_user2 m))
             (sql_first (live c) (match_init d)))"

text \<open>What a replayed request is answered with.\<close>

definition replay_result ::
  "string \<Rightarrow> string \<Rightarrow> message \<times> uuid \<times> uuid \<Rightarrow> message_failure + message_creation" where
  "replay_result match_text content r =
     (let (msg, parts) = r in
      if me_match_id msg \<noteq> match_text \<or> me_content msg \<noteq> content then Inl Idempotency_conflict_message
      else Inr \<lparr> mc_message = msg, mc_participants = parts, mc_created = False \<rparr>)"

definition new_message_row :: "uuid \<Rightarrow> uuid \<Rightarrow> uuid \<Rightarrow> string \<Rightarrow> uuid \<Rightarrow> pg_time \<Rightarrow> message_row" where
  "new_message_row i m sender content key clk =
     \<lparr> cm_id = i, cm_match_id = m, cm_sender_id = sender, cm_idempotency_key = Some key,
       cm_content = content, cm_created_at = clk, cm_read_at = None \<rparr>"

text \<open>The trigger runs before the conflict is looked for; no row comes back on a conflict.\<close>

definition insert_message :: "message_row \<Rightarrow> db \<Rightarrow> sql_error + db \<times> bool" where
  "insert_message c d =
     (if match_has_deleted (cm_match_id c) d then Inl Live_account_trigger
      else if sql_exists (\<lambda>x. has_message_key x \<and> message_key x = message_key c) (chat_message d)
      then Inr (d, False)
      else if sql_exists (\<lambda>x. cm_id x = cm_id c) (chat_message d) then Inl Unique_violation
      else Inr (d\<lparr>chat_message := chat_message d @ [c]\<rparr>, True))"

text \<open>\<open>last_message_at\<close> is written from the driver's \<open>Date\<close>: in milliseconds.\<close>

definition create_message ::
  "notify_env \<Rightarrow> pg_time \<Rightarrow> pg_time \<Rightarrow> uuid \<Rightarrow> string \<Rightarrow> uuid \<Rightarrow> string \<Rightarrow> uuid \<Rightarrow> db \<Rightarrow>
     sql_error + db \<times> (message_failure + message_creation)" where
  "create_message v clk clk' i match_text sender content key d =
     (let mid = pg_uuid match_text in
      case find_idempotent_message sender key d of
        Some r \<Rightarrow> Inr (d, replay_result match_text content r)
      | None \<Rightarrow>
        (case lock_messaging_match clk mid sender d of
           (d1, Inl f) \<Rightarrow> Inr (d1, Inl (Unavailable f))
         | (d1, Inr m) \<Rightarrow>
           let c = new_message_row i mid sender content key clk' in
           and_then (insert_message c d1) (\<lambda>(d2, inserted).
             if \<not> inserted then
               (case find_idempotent_message sender key d2 of
                  None \<Rightarrow> Inr (d2, Inl Idempotency_conflict_message)
                | Some r \<Rightarrow> Inr (d2, replay_result match_text content r))
             else
               let d3 = update_match mid (\<lambda>x. x\<lparr>mi_last_message_at :=
                          Some (pg_of_js (js_of_pg (cm_created_at c)))\<rparr>) d2;
                   recipient = (if mi_user1 m = sender then mi_user2 m else mi_user1 m)
               in and_then (enqueue_notification v recipient i (Intent_new_message match_text i sender) d3)
                    (\<lambda>d4. Inr (d4, Inr \<lparr> mc_message = message_of_row c,
                       mc_participants = (mi_user1 m, mi_user2 m), mc_created = True \<rparr>)))))"

section \<open>Reading\<close>

definition mark_message_read ::
  "pg_time \<Rightarrow> pg_time \<Rightarrow> uuid \<Rightarrow> uuid \<Rightarrow> uuid \<Rightarrow> db \<Rightarrow> db \<times> (match_failure + message_read option)" where
  "mark_message_read clk clk' i msg u d =
     (case lock_messaging_match clk i u d of
        (d1, Inl f) \<Rightarrow> (d1, Inl f)
      | (d1, Inr m) \<Rightarrow>
          let p = (\<lambda>c. cm_id c = msg \<and> cm_match_id c = i \<and> cm_sender_id c \<noteq> u) in
          (d1\<lparr>chat_message := sql_update p
               (\<lambda>c. c\<lparr>cm_read_at := (case cm_read_at c of None \<Rightarrow> Some clk' | Some t \<Rightarrow> Some t)\<rparr>)
               (chat_message d1)\<rparr>,
           Inr (if sql_count p (chat_message d1) \<noteq> 1 then None
                else Some \<lparr> mr_updated_count = 1, mr_participants = (mi_user1 m, mi_user2 m),
                  mr_read_through = msg \<rparr>)))"

definition unread_through :: "uuid \<Rightarrow> uuid \<Rightarrow> message_row \<Rightarrow> message_row \<Rightarrow> bool" where
  "unread_through i u b c \<longleftrightarrow> cm_match_id c = i \<and> cm_sender_id c \<noteq> u \<and> cm_read_at c = None \<and>
     message_order c \<le> message_order b"

definition mark_messages_read_through ::
  "pg_time \<Rightarrow> pg_time \<Rightarrow> uuid \<Rightarrow> uuid \<Rightarrow> uuid \<Rightarrow> db \<Rightarrow> db \<times> (match_failure + message_read option)" where
  "mark_messages_read_through clk clk' i msg u d =
     (case lock_messaging_match clk i u d of
        (d1, Inl f) \<Rightarrow> (d1, Inl f)
      | (d1, Inr m) \<Rightarrow>
          (case sql_first (\<lambda>c. cm_id c = msg \<and> cm_match_id c = i) (chat_message d1) of
             None \<Rightarrow> (d1, Inr None)
           | Some b \<Rightarrow>
               (d1\<lparr>chat_message := sql_update (unread_through i u b)
                    (\<lambda>c. c\<lparr>cm_read_at := Some clk'\<rparr>) (chat_message d1)\<rparr>,
                Inr (Some \<lparr> mr_updated_count = sql_count (unread_through i u b) (chat_message d1),
                  mr_participants = (mi_user1 m, mi_user2 m), mr_read_through = msg \<rparr>))))"

end
