(* ===== verification/Match_Service.thy ===== *)
theory Match_Service
  imports Match_Messages
begin

text \<open>
  \<open>src/matches/matches.service.ts\<close>: what the endpoints do with the repositories' answers, the errors
  they map to, and what is handed to the real-time delivery. A result is the database, the
  answer, and the deliveries in order. Each repository call is its own transaction.
\<close>

text \<open>\<open>PublicMatch\<close>: optional fields are absent when the column is NULL.\<close>

record public_match =
  pu_id :: uuid
  pu_user1 :: uuid
  pu_user2 :: uuid
  pu_status :: match_status
  pu_expires_at :: js_time
  pu_purge_after :: "js_time option"
  pu_created_at :: js_time
  pu_last_message_at :: "js_time option"

definition to_public_match :: "match_row \<Rightarrow> public_match" where
  "to_public_match m =
     \<lparr> pu_id = mi_id m, pu_user1 = mi_user1 m, pu_user2 = mi_user2 m, pu_status = mi_status m,
       pu_expires_at = js_of_pg (mi_expires_at m),
       pu_purge_after = map_option js_of_pg (mi_purge_after m),
       pu_created_at = js_of_pg (mi_created_at m),
       pu_last_message_at = map_option js_of_pg (mi_last_message_at m) \<rparr>"

datatype match_change = Photos_revealed bool | Match_confirmed_change bool

datatype delivery =
    Match_created public_match
  | Match_updated uuid "uuid \<times> uuid" match_change
  | Message_created message "uuid \<times> uuid"
  | Messages_read uuid "uuid \<times> uuid" uuid uuid

type_synonym 'a served = "db \<times> (failure + 'a) \<times> delivery list"

abbreviation refuse :: "db \<Rightarrow> nat \<Rightarrow> string \<Rightarrow> 'a served" where
  "refuse d st code \<equiv> (d, Inl (Api (api_error st code)), [])"

text \<open>\<open>throwMatchCommandError\<close>.\<close>

definition match_command_error :: "match_failure \<Rightarrow> bool \<Rightarrow> api_error" where
  "match_command_error f for_match =
     (case f of
        Match_not_found \<Rightarrow> api_error 404 ''match_not_found''
      | Match_expired \<Rightarrow> api_error 410 ''match_expired''
      | Match_invalid_state \<Rightarrow>
          if for_match then api_error 409 ''invalid_match_state''
          else api_error 409 ''messaging_not_available'')"

section \<open>Creation after a mutual like\<close>

text \<open>JavaScript orders the two ids as strings.\<close>

definition create_from_mutual_like ::
  "(uuid \<Rightarrow> notify_env) \<Rightarrow> uuid \<Rightarrow> js_time \<Rightarrow> string \<Rightarrow> string \<Rightarrow> db \<Rightarrow> public_match served" where
  "create_from_mutual_like v i now first second d =
     (if first = [] \<or> second = [] \<or> first = second then refuse d 400 ''invalid_match_request''
      else
        let (u1, u2) = (if first < second then (first, second) else (second, first));
            m = new_match_row i (pg_uuid u1) (pg_uuid u2) now
        in case create_match v m d of
             Inr d1 \<Rightarrow>
               let p = (to_public_match m)\<lparr>pu_user1 := u1, pu_user2 := u2\<rparr>
               in (d1, Inr p, [Match_created p])
           | Inl Unique_violation \<Rightarrow>
               (case find_by_pair (pg_uuid u1) (pg_uuid u2) d of
                  Some e \<Rightarrow> (d, Inr (to_public_match e), [])
                | None \<Rightarrow> (d, Inl (Unhandled Unique_violation), []))
           | Inl (Thrown reason) \<Rightarrow>
               if reason = ''blocked'' then refuse d 409 ''match_blocked''
               else if reason = ''not_found'' then refuse d 404 ''discovery_candidate_not_found''
               else (d, Inl (Unhandled (Thrown reason)), [])
           | Inl e \<Rightarrow> (d, Inl (Unhandled e), []))"

section \<open>Reveal and continue\<close>

definition updated_delivery :: "uuid \<Rightarrow> uuid \<Rightarrow> match_change \<Rightarrow> db \<Rightarrow> delivery list" where
  "updated_delivery i u change d =
     (case participant_ids i u d of None \<Rightarrow> [] | Some ps \<Rightarrow> [Match_updated i ps change])"

definition reveal :: "pg_time \<Rightarrow> uuid \<Rightarrow> uuid \<Rightarrow> db \<Rightarrow> bool served" where
  "reveal clk i u d =
     (case record_reveal clk i u d of
        Inl e \<Rightarrow> (d, Inl (Unhandled e), [])
      | Inr (d1, Inl f) \<Rightarrow> (d1, Inl (Api (match_command_error f True)), [])
      | Inr (d1, Inr both) \<Rightarrow> (d1, Inr both, updated_delivery i u (Photos_revealed both) d1))"

definition continue_match :: "pg_time \<Rightarrow> uuid \<Rightarrow> uuid \<Rightarrow> db \<Rightarrow> bool served" where
  "continue_match clk i u d =
     (case record_continuation_consent clk i u d of
        Inl e \<Rightarrow> (d, Inl (Unhandled e), [])
      | Inr (d1, r) \<Rightarrow>
          if r = Cr_confirmed \<or> r = Cr_pending \<or> r = Cr_already_recorded
          then (d1, Inr (r = Cr_confirmed), updated_delivery i u (Match_confirmed_change (r = Cr_confirmed)) d1)
          else if r = Cr_not_available_yet then refuse d1 409 ''continuation_not_available_yet''
          else if r = Cr_quota_reached then refuse d1 403 ''continuation_quota_reached''
          else if r = Cr_expired then refuse d1 410 ''match_expired''
          else if r = Cr_not_found then refuse d1 404 ''match_not_found''
          else refuse d1 409 ''invalid_match_state'')"

record continuation_quota =
  cq_plan :: string
  cq_used :: int
  cq_weekly_limit :: "int option"
  cq_remaining :: "int option"

definition get_continuation_allowance ::
  "uuid \<Rightarrow> js_time \<Rightarrow> js_time \<Rightarrow> db \<Rightarrow> failure + continuation_quota" where
  "get_continuation_allowance u now now' d =
     (case effective_plan u now d of
        Inl e \<Rightarrow> Inl (Unhandled e)
      | Inr (code, None) \<Rightarrow> Inr \<lparr> cq_plan = code, cq_used = 0, cq_weekly_limit = None, cq_remaining = None \<rparr>
      | Inr (code, Some n) \<Rightarrow>
          let used = continuation_usage_of u (start_of_utc_week now') d
          in Inr \<lparr> cq_plan = code, cq_used = used, cq_weekly_limit = Some n,
               cq_remaining = Some (max (n - used) 0) \<rparr>)"

section \<open>Messages\<close>

definition get_messages ::
  "pg_time \<Rightarrow> uuid \<Rightarrow> uuid \<Rightarrow> int \<Rightarrow> int \<Rightarrow> (pg_time \<times> uuid) option \<Rightarrow> db \<Rightarrow>
     (message list \<times> (pg_time \<times> uuid) option) served" where
  "get_messages clk i u limit offset c d =
     (if limit < 1 \<or> 100 < limit \<or> offset < 0 \<or> c \<noteq> None \<and> offset \<noteq> 0
      then refuse d 400 ''invalid_message_request''
      else case messages_for_user clk i u (nat limit + 1) (nat offset) c d of
        (d1, Inl f) \<Rightarrow> (d1, Inl (Api (match_command_error f False)), [])
      | (d1, Inr rows) \<Rightarrow>
          let (items, next) = cursor_page rows (nat limit) message_order
          in (d1, Inr (map message_of_row items, next), []))"

definition send_message ::
  "notify_env \<Rightarrow> pg_time \<Rightarrow> pg_time \<Rightarrow> uuid \<Rightarrow> string \<Rightarrow> uuid \<Rightarrow> string \<Rightarrow> string option \<Rightarrow> db \<Rightarrow>
     message served" where
  "send_message v clk clk' i match_text sender raw input d =
     (let content = js_trim raw in
      if content = [] \<or> 2000 < length content then refuse d 400 ''invalid_message_request''
      else case normalize_idempotency_key input of
        Inl e \<Rightarrow> (d, Inl (Api e), [])
      | Inr key \<Rightarrow>
        (case create_message v clk clk' i match_text sender content key d of
           Inl e \<Rightarrow> (d, Inl (Unhandled e), [])
         | Inr (d1, Inl Idempotency_conflict_message) \<Rightarrow> refuse d1 409 ''idempotency_key_conflict''
         | Inr (d1, Inl (Unavailable f)) \<Rightarrow> (d1, Inl (Api (match_command_error f False)), [])
         | Inr (d1, Inr r) \<Rightarrow> (d1, Inr (mc_message r),
             if mc_created r then [Message_created (mc_message r) (mc_participants r)] else [])))"

definition mark_as_read ::
  "pg_time \<Rightarrow> pg_time \<Rightarrow> uuid \<Rightarrow> uuid \<Rightarrow> uuid \<Rightarrow> db \<Rightarrow> unit served" where
  "mark_as_read clk clk' i msg u d =
     (case mark_message_read clk clk' i msg u d of
        (d1, Inl f) \<Rightarrow> (d1, Inl (Api (match_command_error f False)), [])
      | (d1, Inr None) \<Rightarrow> refuse d1 404 ''message_not_found''
      | (d1, Inr (Some r)) \<Rightarrow> (d1, Inr (), [Messages_read i (mr_participants r) u (mr_read_through r)]))"

definition mark_read_through ::
  "pg_time \<Rightarrow> pg_time \<Rightarrow> uuid \<Rightarrow> uuid \<Rightarrow> uuid \<Rightarrow> db \<Rightarrow> nat served" where
  "mark_read_through clk clk' i msg u d =
     (case mark_messages_read_through clk clk' i msg u d of
        (d1, Inl f) \<Rightarrow> (d1, Inl (Api (match_command_error f False)), [])
      | (d1, Inr None) \<Rightarrow> refuse d1 404 ''message_not_found''
      | (d1, Inr (Some r)) \<Rightarrow> (d1, Inr (mr_updated_count r),
          if 0 < mr_updated_count r then [Messages_read i (mr_participants r) u (mr_read_through r)] else []))"

end
