(* ===== verification/Match_Maintenance.thy ===== *)
theory Match_Maintenance
  imports Matches
begin

text \<open>
  The hourly maintenance of matches, \<open>src/matches/match-maintenance.repository.ts\<close>: five bounded
  statements in one transaction (open, expire, delete messages, detach reports, purge), repeated
  by the leader while a statement fills its batch. Rows that another transaction holds are
  skipped; which ones is an argument of each batch.
\<close>

record batch_result =
  mb_opened :: nat
  mb_expired :: nat
  mb_deleted_messages :: nat
  mb_detached_reports :: nat
  mb_purged :: nat

record maintenance_result =
  mt_total :: batch_result
  mt_batches :: nat
  mt_work_remaining :: bool

text \<open>Rows held by other transactions: matches, messages, reports.\<close>

record held_rows =
  hr_match :: "uuid \<Rightarrow> bool"
  hr_message :: "uuid \<Rightarrow> bool"
  hr_report :: "uuid \<Rightarrow> bool"

definition chosen_match :: "match_row list \<Rightarrow> match_row \<Rightarrow> bool" where
  "chosen_match c m \<longleftrightarrow> mi_id m \<in> set (map mi_id c)"

definition expiry_order :: "match_row \<Rightarrow> pg_time \<times> uuid" where
  "expiry_order m = (mi_expires_at m, mi_id m)"

definition open_due :: "js_time \<Rightarrow> nat \<Rightarrow> (uuid \<Rightarrow> bool) \<Rightarrow> db \<Rightarrow> nat \<times> db" where
  "open_due now n held d =
     (let c = sql_candidates (\<lambda>m. mi_status m = Active \<and> mi_expires_at m \<le> pg_of_js now)
                expiry_order (\<lambda>m. held (mi_id m)) n (match_init d)
      in (sql_count (chosen_match c) (match_init d),
          d\<lparr>match_init := sql_update (chosen_match c) (open_row now) (match_init d)\<rparr>))"

definition expire_due :: "js_time \<Rightarrow> nat \<Rightarrow> (uuid \<Rightarrow> bool) \<Rightarrow> db \<Rightarrow> nat \<times> db" where
  "expire_due now n held d =
     (let c = sql_candidates (\<lambda>m. mi_status m = Awaiting_continuation \<and> mi_expires_at m \<le> pg_of_js now)
                expiry_order (\<lambda>m. held (mi_id m)) n (match_init d)
      in (sql_count (chosen_match c) (match_init d),
          d\<lparr>match_init := sql_update (chosen_match c) (expire_row now) (match_init d)\<rparr>))"

definition purge_reached :: "js_time \<Rightarrow> match_row \<Rightarrow> bool" where
  "purge_reached now m \<longleftrightarrow> mi_status m \<in> {Expired, Ended} \<and>
     (case mi_purge_after m of None \<Rightarrow> False | Some t \<Rightarrow> t \<le> pg_of_js now)"

definition purge_order :: "match_row \<Rightarrow> pg_time \<times> uuid" where
  "purge_order m = (case mi_purge_after m of None \<Rightarrow> 0 | Some t \<Rightarrow> t, mi_id m)"

text \<open>match_init JOIN chat_message, match_init JOIN user_report: the pairs of matching rows.\<close>

definition due_messages :: "js_time \<Rightarrow> db \<Rightarrow> (match_row \<times> message_row) list" where
  "due_messages now d = concat (map (\<lambda>m. map (Pair m) (filter (\<lambda>c. cm_match_id c = mi_id m) (chat_message d)))
     (filter (purge_reached now) (match_init d)))"

definition delete_due_messages :: "js_time \<Rightarrow> nat \<Rightarrow> (uuid \<Rightarrow> bool) \<Rightarrow> db \<Rightarrow> nat \<times> db" where
  "delete_due_messages now n held d =
     (let c = sql_candidates (\<lambda>_. True) (\<lambda>(m, x). (purge_order m, cm_created_at x, cm_id x))
                (\<lambda>(m, x). held (cm_id x)) n (due_messages now d);
          p = (\<lambda>x. cm_id x \<in> set (map (\<lambda>(_, x). cm_id x) c))
      in (sql_count p (chat_message d), d\<lparr>chat_message := sql_delete p (chat_message d)\<rparr>))"

definition due_reports :: "js_time \<Rightarrow> db \<Rightarrow> (match_row \<times> report_row) list" where
  "due_reports now d = concat (map (\<lambda>m. map (Pair m) (filter (\<lambda>r. rp_match_id r = Some (mi_id m)) (user_report d)))
     (filter (purge_reached now) (match_init d)))"

definition detach_due_reports :: "js_time \<Rightarrow> nat \<Rightarrow> (uuid \<Rightarrow> bool) \<Rightarrow> db \<Rightarrow> nat \<times> db" where
  "detach_due_reports now n held d =
     (let c = sql_candidates (\<lambda>_. True) (\<lambda>(m, r). (purge_order m, rp_created_at r, rp_id r))
                (\<lambda>(m, r). held (rp_id r)) n (due_reports now d);
          p = (\<lambda>r. rp_id r \<in> set (map (\<lambda>(_, r). rp_id r) c))
      in (sql_count p (user_report d),
          d\<lparr>user_report := sql_update p (\<lambda>r. r\<lparr>rp_match_id := None\<rparr>) (user_report d)\<rparr>))"

definition purgeable :: "js_time \<Rightarrow> db \<Rightarrow> match_row \<Rightarrow> bool" where
  "purgeable now d m \<longleftrightarrow> purge_reached now m \<and>
     \<not> sql_exists (\<lambda>c. cm_match_id c = mi_id m) (chat_message d) \<and>
     \<not> sql_exists (\<lambda>r. rp_match_id r = Some (mi_id m)) (user_report d)"

definition purge_matches :: "js_time \<Rightarrow> nat \<Rightarrow> (uuid \<Rightarrow> bool) \<Rightarrow> db \<Rightarrow> nat \<times> db" where
  "purge_matches now n held d =
     (let c = sql_candidates (purgeable now d) purge_order (\<lambda>m. held (mi_id m)) n (match_init d)
      in (sql_count (chosen_match c) (match_init d), delete_matches (chosen_match c) d))"

definition run_maintenance :: "js_time \<Rightarrow> nat \<Rightarrow> held_rows \<Rightarrow> db \<Rightarrow> batch_result \<times> db" where
  "run_maintenance now n h d =
     (let (opened, d1) = open_due now n (hr_match h) d;
          (expired, d2) = expire_due now n (hr_match h) d1;
          (messages, d3) = delete_due_messages now n (hr_message h) d2;
          (reports, d4) = detach_due_reports now n (hr_report h) d3;
          (purged, d5) = purge_matches now n (hr_match h) d4
      in (\<lparr> mb_opened = opened, mb_expired = expired, mb_deleted_messages = messages,
            mb_detached_reports = reports, mb_purged = purged \<rparr>, d5))"

definition empty_batch_result :: batch_result where
  "empty_batch_result = \<lparr> mb_opened = 0, mb_expired = 0, mb_deleted_messages = 0,
     mb_detached_reports = 0, mb_purged = 0 \<rparr>"

definition merge_result :: "batch_result \<Rightarrow> batch_result \<Rightarrow> batch_result" where
  "merge_result t b =
     \<lparr> mb_opened = mb_opened t + mb_opened b, mb_expired = mb_expired t + mb_expired b,
       mb_deleted_messages = mb_deleted_messages t + mb_deleted_messages b,
       mb_detached_reports = mb_detached_reports t + mb_detached_reports b,
       mb_purged = mb_purged t + mb_purged b \<rparr>"

definition batch_is_full :: "batch_result \<Rightarrow> nat \<Rightarrow> bool" where
  "batch_is_full b n \<longleftrightarrow>
     n \<le> foldr max [mb_opened b, mb_expired b, mb_deleted_messages b, mb_detached_reports b, mb_purged b] 0"

text \<open>The \<open>for\<close> loop, on the number of batches still allowed.\<close>

fun run_batches ::
  "js_time \<Rightarrow> nat \<Rightarrow> nat \<Rightarrow> (nat \<Rightarrow> held_rows) \<Rightarrow> maintenance_result \<Rightarrow> db \<Rightarrow> maintenance_result \<times> db" where
  "run_batches now n 0 held acc d = (acc, d)"
| "run_batches now n (Suc left) held acc d =
     (let (b, d1) = run_maintenance now n (held left) d;
          full = batch_is_full b n;
          acc1 = \<lparr> mt_total = merge_result (mt_total acc) b, mt_batches = mt_batches acc + 1,
                   mt_work_remaining = full \<rparr>
      in if full then run_batches now n left held acc1 d1 else (acc1, d1))"

definition run_maintenance_as_leader ::
  "bool \<Rightarrow> js_time \<Rightarrow> nat \<Rightarrow> nat \<Rightarrow> (nat \<Rightarrow> held_rows) \<Rightarrow> db \<Rightarrow> maintenance_result option \<times> db" where
  "run_maintenance_as_leader acquired now n batches held d =
     (if \<not> acquired then (None, d)
      else let (r, d1) = run_batches now n batches held
                 \<lparr> mt_total = empty_batch_result, mt_batches = 0, mt_work_remaining = False \<rparr> d
           in (Some r, d1))"

end
