(* ===== verification/Match_Lifecycle.thy ===== *)
theory Match_Lifecycle
  imports Match_Service Match_Maintenance
begin

text \<open>
  What matches promise: a status machine in which a match is confirmed only when both users have
  agreed and is purged only after it ended, access that never acts on a match whose window is
  over, and continuation charged to the initiator's weekly quota.
\<close>

section \<open>The invariant\<close>

definition continued_by :: "match_state_row list \<Rightarrow> uuid \<Rightarrow> uuid \<Rightarrow> bool" where
  "continued_by ss i u = sql_exists (\<lambda>s. ms_match_id s = i \<and> ms_user_id s = u \<and> ms_continued s) ss"

definition match_ok :: "match_state_row list \<Rightarrow> match_row \<Rightarrow> bool" where
  "match_ok ss m \<longleftrightarrow>
     (mi_purge_after m = None \<longleftrightarrow> open_status (mi_status m)) \<and>
     (mi_status m = Active \<longrightarrow> mi_initiator m = None) \<and>
     (mi_status m = Awaiting_continuation \<longrightarrow>
       (\<forall>x. mi_initiator m = Some x \<longrightarrow> participant x m \<and> continued_by ss (mi_id m) x)) \<and>
     (mi_status m = Confirmed \<longrightarrow>
       continued_by ss (mi_id m) (mi_user1 m) \<and> continued_by ss (mi_id m) (mi_user2 m))"

definition match_tables_ok :: "match_row list \<Rightarrow> match_state_row list \<Rightarrow> message_row list \<Rightarrow> bool" where
  "match_tables_ok mi ss cs \<longleftrightarrow> match_table_ok mi \<and> list_all (match_ok ss) mi \<and>
     distinct (map state_key ss) \<and>
     (\<forall>s \<in> set ss. \<exists>m \<in> set mi. mi_id m = ms_match_id s \<and> participant (ms_user_id s) m) \<and>
     message_table_ok cs \<and>
     (\<forall>c \<in> set cs. \<exists>m \<in> set mi. mi_id m = cm_match_id c \<and> participant (cm_sender_id c) m)"

definition match_inv :: "db \<Rightarrow> bool" where
  "match_inv d = match_tables_ok (match_init d) (match_state d) (chat_message d)"

lemma match_table_okD:
  assumes "match_table_ok t"
  shows "\<And>m. m \<in> set t \<Longrightarrow> mi_user1 m < mi_user2 m" "distinct (map mi_id t)" "distinct (map match_pair t)"
  using assms by (auto simp: match_table_ok_def list_all_iff)

lemma match_idD:
  "match_table_ok t \<Longrightarrow> m \<in> set t \<Longrightarrow> n \<in> set t \<Longrightarrow> mi_id m = mi_id n \<Longrightarrow> m = n"
  by (rule distinct_keyD [where k = mi_id]) (auto dest: match_table_okD)

lemma match_invD:
  assumes "match_inv d"
  shows "match_table_ok (match_init d)" "\<And>m. m \<in> set (match_init d) \<Longrightarrow> match_ok (match_state d) m"
    "distinct (map state_key (match_state d))"
    "\<And>s. s \<in> set (match_state d) \<Longrightarrow> \<exists>m \<in> set (match_init d). mi_id m = ms_match_id s \<and> participant (ms_user_id s) m"
    "message_table_ok (chat_message d)"
    "\<And>c. c \<in> set (chat_message d) \<Longrightarrow> \<exists>m \<in> set (match_init d). mi_id m = cm_match_id c \<and> participant (cm_sender_id c) m"
  using assms by (auto simp: match_inv_def match_tables_ok_def list_all_iff)

lemma participant_pair: "match_pair m = match_pair n \<Longrightarrow> participant u m = participant u n"
  by (simp add: match_pair_def participant_def)

text \<open>An update of matches that keeps identity and pair, and leaves valid rows.\<close>

lemma match_tables_update:
  assumes ok: "match_tables_ok mi ss cs"
    and f: "\<And>m. mi_id (f m) = mi_id m" "\<And>m. match_pair (f m) = match_pair m"
    and row: "\<And>m. m \<in> set mi \<Longrightarrow> p m \<Longrightarrow> match_ok ss m \<Longrightarrow> match_ok ss (f m)"
  shows "match_tables_ok (sql_update p f mi) ss cs"
proof -
  have pair: "mi_user1 (f m) = mi_user1 m" "mi_user2 (f m) = mi_user2 m" for m
    using f(2) [of m] by (simp_all add: match_pair_def)
  have "match_table_ok (sql_update p f mi)"
    using ok by (simp add: match_tables_ok_def match_table_ok_def list_all_sql_update pair map_sql_update f)
  moreover have "list_all (match_ok ss) (sql_update p f mi)"
    using ok row by (simp add: match_tables_ok_def list_all_sql_update)
  moreover have "(\<exists>m \<in> set (sql_update p f mi). mi_id m = i \<and> participant u m) \<longleftrightarrow>
      (\<exists>m \<in> set mi. mi_id m = i \<and> participant u m)" for i u
    unfolding bex_sql_update by (rule bex_cong) (auto simp: f participant_def pair)
  ultimately show ?thesis
    using ok by (simp add: match_tables_ok_def)
qed

lemma continued_by_update:
  assumes "\<And>s. ms_match_id (f s) = ms_match_id s" "\<And>s. ms_user_id (f s) = ms_user_id s"
    and "\<And>s. ms_continued s \<Longrightarrow> ms_continued (f s)"
  shows "continued_by ss i u \<Longrightarrow> continued_by (sql_update p f ss) i u"
  unfolding continued_by_def sql_exists_iff bex_sql_update using assms by (metis (full_types))

lemma match_ok_mono:
  "match_ok ss m \<Longrightarrow> (\<And>u. continued_by ss (mi_id m) u \<Longrightarrow> continued_by ss' (mi_id m) u) \<Longrightarrow> match_ok ss' m"
  by (auto simp: match_ok_def)

text \<open>Consents and reveals are only added.\<close>

lemma match_tables_states:
  assumes ok: "match_tables_ok mi ss cs"
    and f: "\<And>s. ms_match_id (f s) = ms_match_id s" "\<And>s. ms_user_id (f s) = ms_user_id s"
      "\<And>s. ms_continued s \<Longrightarrow> ms_continued (f s)"
  shows "match_tables_ok mi (sql_update p f ss) cs"
proof -
  have "list_all (match_ok (sql_update p f ss)) mi"
    using ok match_ok_mono continued_by_update [of f, OF f]
    unfolding match_tables_ok_def list_all_iff by blast
  moreover have "state_key (f s) = state_key s" for s by (simp add: state_key_def f)
  then have "distinct (map state_key (sql_update p f ss))"
    using ok by (simp add: match_tables_ok_def map_sql_update)
  moreover have "\<forall>s \<in> set (sql_update p f ss). \<exists>m \<in> set mi. mi_id m = ms_match_id s \<and> participant (ms_user_id s) m"
    using ok unfolding match_tables_ok_def set_sql_update by (auto simp: f)
  ultimately show ?thesis using ok by (simp add: match_tables_ok_def)
qed

lemma match_tables_messages:
  assumes ok: "match_tables_ok mi ss cs"
    and f: "\<And>c. cm_id (f c) = cm_id c" "\<And>c. cm_match_id (f c) = cm_match_id c"
      "\<And>c. message_key (f c) = message_key c"
  shows "match_tables_ok mi ss (sql_update p f cs)"
proof -
  have sender: "cm_sender_id (f c) = cm_sender_id c" "has_message_key (f c) = has_message_key c" for c
    using f(3) [of c] by (simp_all add: message_key_def has_message_key_def)
  have "message_table_ok (sql_update p f cs)"
    using ok unfolding match_tables_ok_def message_table_ok_def
    by (simp add: map_sql_update f) (rule unique_where_sql_update_shrink; simp add: f sender)
  moreover have "\<forall>c \<in> set (sql_update p f cs). \<exists>m \<in> set mi. mi_id m = cm_match_id c \<and> participant (cm_sender_id c) m"
    using ok unfolding match_tables_ok_def set_sql_update by (auto simp: f sender)
  ultimately show ?thesis using ok by (simp add: match_tables_ok_def)
qed

section \<open>Access\<close>

lemma js_before_open: "js_of_pg (mi_expires_at (open_row now m)) = now + day_ms"
  by (simp add: open_row_def)

lemma row_simps [simp]:
  "mi_id (open_row now m) = mi_id m" "match_pair (open_row now m) = match_pair m"
  "mi_status (open_row now m) = Awaiting_continuation" "mi_initiator (open_row now m) = mi_initiator m"
  "mi_id (expire_row now m) = mi_id m" "match_pair (expire_row now m) = match_pair m"
  "mi_status (expire_row now m) = Expired"
  "mi_id (confirm_row m) = mi_id m" "match_pair (confirm_row m) = match_pair m"
  "mi_status (confirm_row m) = Confirmed"
  "mi_id (end_row clk m) = mi_id m" "match_pair (end_row clk m) = match_pair m"
  "mi_status (end_row clk m) = Ended"
  by (simp_all add: open_row_def expire_row_def confirm_row_def end_row_def match_pair_def)

lemma participant_rows [simp]:
  "participant u (open_row now m) = participant u m" "participant u (expire_row now m) = participant u m"
  by (rule participant_pair, simp)+

text \<open>The five ways the locked match can be found.\<close>

lemma lock_messaging_match_cases:
  assumes "lock_messaging_match clk i u d = (d', r)"
  obtains (Missing) "d' = d" "r = Inl Match_not_found" "\<forall>m \<in> set (match_init d). \<not> available_to i u d m"
  | (Kept) m where "m \<in> set (match_init d)" "available_to i u d m" "d' = d" "r = Inr m"
      "open_status (mi_status m)" "mi_status m \<noteq> Confirmed \<longrightarrow> js_of_pg clk < js_of_pg (mi_expires_at m)"
  | (Opened) m where "m \<in> set (match_init d)" "available_to i u d m" "mi_status m = Active"
      "js_of_pg (mi_expires_at m) \<le> js_of_pg clk"
      "d' = update_match i (open_row (js_of_pg clk)) d" "r = Inr (open_row (js_of_pg clk) m)"
  | (Expires) m where "m \<in> set (match_init d)" "available_to i u d m" "mi_status m = Awaiting_continuation"
      "js_of_pg (mi_expires_at m) \<le> js_of_pg clk"
      "d' = update_match i (expire_row (js_of_pg clk)) d" "r = Inl Match_expired"
  | (Closed) m where "m \<in> set (match_init d)" "available_to i u d m" "\<not> open_status (mi_status m)"
      "d' = d" "r = Inl Match_invalid_state"
proof (cases "sql_first (available_to i u d) (match_init d)")
  case None
  with assms show thesis by (intro Missing) (auto simp: lock_messaging_match_def sql_first_None_iff)
next
  case (Some m)
  then have m: "m \<in> set (match_init d)" "available_to i u d m" using sql_first_SomeD by fastforce+
  show thesis
  proof (cases "mi_status m = Active \<and> js_of_pg (mi_expires_at m) \<le> js_of_pg clk")
    case True
    then show thesis using assms m
      by (intro Opened) (auto simp: lock_messaging_match_def Some Let_def js_before_open day_ms_def)
  next
    case no_open: False
    show thesis
    proof (cases "mi_status m = Awaiting_continuation \<and> js_of_pg (mi_expires_at m) \<le> js_of_pg clk")
      case True
      then show thesis using assms m
        by (intro Expires) (auto simp: lock_messaging_match_def Some Let_def)
    next
      case False
      show thesis
      proof (cases "open_status (mi_status m)")
        case True
        then show thesis using assms m no_open False
          by (intro Kept) (auto simp: lock_messaging_match_def Some Let_def open_status_def split: if_splits)
      next
        case closed: False
        then show thesis using assms m no_open False
          by (intro Closed) (auto simp: lock_messaging_match_def Some Let_def open_status_def split: if_splits)
      qed
    qed
  qed
qed

section \<open>Continuation, branch by branch\<close>

definition current_row :: "js_time \<Rightarrow> match_row \<Rightarrow> match_row" where
  "current_row now m = (if mi_status m = Active then open_row now m else m)"

definition current_db :: "js_time \<Rightarrow> match_row \<Rightarrow> db \<Rightarrow> db" where
  "current_db now m d = (if mi_status m = Active then update_match (mi_id m) (open_row now) d else d)"

text \<open>Once the match is found and its first day is over, with the status brought up to date.\<close>

lemma consent_after_day:
  assumes "sql_first (\<lambda>m. mi_id m = i \<and> participant u m) (match_init d) = Some m" "mi_id m = i"
    and "\<not> (mi_status m = Active \<and> now < js_of_pg (mi_expires_at m))" and now: "now = js_of_pg clk"
  shows "record_continuation_consent clk i u d =
    (let d1 = current_db now m d; m1 = current_row now m in
     if mi_status m1 \<noteq> Awaiting_continuation then Inr (d1, Cr_invalid_state)
     else if js_of_pg (mi_expires_at m1) \<le> now then Inr (update_match i (expire_row now) d1, Cr_expired)
     else case sql_first (\<lambda>s. ms_match_id s = i \<and> ms_user_id s = u) (match_state d) of
       None \<Rightarrow> Inr (d1, Cr_not_found)
     | Some s \<Rightarrow> if ms_continued s then Inr (d1, Cr_already_recorded)
         else case mi_initiator m of
           None \<Rightarrow> and_then (mark_continued i u d1)
             (\<lambda>d2. Inr (update_match i (\<lambda>x. x\<lparr>mi_initiator := Some u\<rparr>) d2, Cr_pending))
         | Some x \<Rightarrow> second_consent now i u x d1)"
proof -
  have states: "match_state (if mi_status m = Active then update_match i (open_row now) d else d) = match_state d"
    by (simp add: update_match_def)
  have init: "mi_initiator (if mi_status m = Active then open_row now m else m) = mi_initiator m" by simp
  show ?thesis
    using assms(3) unfolding record_continuation_consent_def assms(1) option.case Let_def now
    by (simp only: if_False current_row_def current_db_def assms(2) states [unfolded now] init [unfolded now])
qed

lemma consent_cases:
  assumes "record_continuation_consent clk i u d = Inr (d', r)"
  obtains (Missing) "d' = d" "r = Cr_not_found" "\<forall>m \<in> set (match_init d). \<not> (mi_id m = i \<and> participant u m)"
  | (Early) m where "m \<in> set (match_init d)" "mi_id m = i" "participant u m" "mi_status m = Active"
      "js_of_pg clk < js_of_pg (mi_expires_at m)" "d' = d" "r = Cr_not_available_yet"
  | (Closed) m where "m \<in> set (match_init d)" "mi_id m = i" "participant u m"
      "mi_status m \<noteq> Active" "mi_status m \<noteq> Awaiting_continuation" "d' = d" "r = Cr_invalid_state"
  | (Expires) m where "m \<in> set (match_init d)" "mi_id m = i" "participant u m"
      "mi_status m = Awaiting_continuation" "js_of_pg (mi_expires_at m) \<le> js_of_pg clk"
      "d' = update_match i (expire_row (js_of_pg clk)) d" "r = Cr_expired"
  | (Stateless) m where "m \<in> set (match_init d)" "mi_id m = i" "participant u m"
      "d' = current_db (js_of_pg clk) m d" "r = Cr_not_found"
      "\<forall>s \<in> set (match_state d). \<not> (ms_match_id s = i \<and> ms_user_id s = u)"
  | (Again) m s where "m \<in> set (match_init d)" "mi_id m = i" "participant u m"
      "d' = current_db (js_of_pg clk) m d" "r = Cr_already_recorded" "s \<in> set (match_state d)"
      "ms_match_id s = i" "ms_user_id s = u" "ms_continued s"
  | (First) m d2 where "m \<in> set (match_init d)" "mi_id m = i" "participant u m"
      "mi_status m = Active \<or> mi_status m = Awaiting_continuation" "mi_initiator m = None"
      "mark_continued i u (current_db (js_of_pg clk) m d) = Inr d2"
      "\<exists>s \<in> set (match_state d). ms_match_id s = i \<and> ms_user_id s = u"
      "d' = update_match i (\<lambda>x. x\<lparr>mi_initiator := Some u\<rparr>) d2" "r = Cr_pending"
  | (Second) m x s where "m \<in> set (match_init d)" "mi_id m = i" "participant u m"
      "mi_status m = Active \<or> mi_status m = Awaiting_continuation"
      "js_of_pg clk < js_of_pg (mi_expires_at (current_row (js_of_pg clk) m))"
      "mi_initiator m = Some x" "s \<in> set (match_state d)" "ms_match_id s = i" "ms_user_id s = u"
      "\<not> ms_continued s"
      "second_consent (js_of_pg clk) i u x (current_db (js_of_pg clk) m d) = Inr (d', r)"
proof (cases "sql_first (\<lambda>m. mi_id m = i \<and> participant u m) (match_init d)")
  case None
  with assms show thesis by (intro Missing) (auto simp: record_continuation_consent_def sql_first_None_iff)
next
  case (Some m)
  then have m: "m \<in> set (match_init d)" "mi_id m = i" "participant u m" using sql_first_SomeD by fastforce+
  let ?now = "js_of_pg clk" let ?d1 = "current_db (js_of_pg clk) m d" let ?m = "current_row (js_of_pg clk) m"
  show thesis
  proof (cases "mi_status m = Active \<and> ?now < js_of_pg (mi_expires_at m)")
    case True
    with assms m show thesis by (intro Early [of m]) (auto simp: record_continuation_consent_def Some Let_def)
  next
    case no_early: False
    note eq = consent_after_day [OF Some m(2) no_early refl, unfolded Let_def]
    show thesis
    proof (cases "mi_status ?m = Awaiting_continuation")
      case False
      then have "mi_status m \<noteq> Active" "mi_status m \<noteq> Awaiting_continuation" by (auto simp: current_row_def)
      with assms eq False m show thesis by (intro Closed [of m]) (simp_all add: current_db_def)
    next
      case awaiting: True
      then have st: "mi_status m = Active \<or> mi_status m = Awaiting_continuation"
        by (auto simp: current_row_def split: if_splits)
      show thesis
      proof (cases "js_of_pg (mi_expires_at ?m) \<le> ?now")
        case True
        then have "mi_status m \<noteq> Active" by (auto simp: current_row_def js_before_open day_ms_def)
        with st True assms eq awaiting m show thesis
          by (intro Expires [of m]) (simp_all add: current_row_def current_db_def)
      next
        case in_time: False
        show thesis
        proof (cases "sql_first (\<lambda>s. ms_match_id s = i \<and> ms_user_id s = u) (match_state d)")
          case None
          with assms eq awaiting in_time m show thesis by (intro Stateless [of m]) (simp_all add: sql_first_None_iff)
        next
          case s: (Some s)
          then have s': "s \<in> set (match_state d)" "ms_match_id s = i" "ms_user_id s = u"
            using sql_first_SomeD by fastforce+
          show thesis
          proof (cases "ms_continued s")
            case True
            with assms eq awaiting in_time m s s' show thesis by (intro Again [of m s]) simp_all
          next
            case fresh: False
            show thesis
            proof (cases "mi_initiator m")
              case None
              with assms eq awaiting in_time s fresh obtain d2 where
                "mark_continued i u ?d1 = Inr d2" "d' = update_match i (\<lambda>x. x\<lparr>mi_initiator := Some u\<rparr>) d2"
                "r = Cr_pending"
                by (auto elim: and_then_InrE)
              with m st None s' show thesis by (intro First [of m d2]) auto
            next
              case (Some x)
              with assms eq awaiting in_time s fresh have "second_consent ?now i u x ?d1 = Inr (d', r)" by simp
              with m st in_time Some s' fresh show thesis by (intro Second [of m x s]) simp_all
            qed
          qed
        qed
      qed
    qed
  qed
qed

section \<open>The weekly quota\<close>

lemma usage_first: "usage_key r = (u, w) \<longleftrightarrow> cu_user_id r = u \<and> cu_week_start r = w"
  by (simp add: usage_key_def)

lemma consume_quota_allowed: "fst (consume_quota u w n d) \<longleftrightarrow> 0 < n \<and> continuation_usage_of u w d < n"
  by (cases "sql_first (\<lambda>r. usage_key r = (u, w)) (continuation_usage d)")
    (simp_all add: consume_quota_def continuation_usage_of_def)

lemma consume_quota_refused: "\<not> fst (consume_quota u w n d) \<Longrightarrow> snd (consume_quota u w n d) = d"
  unfolding consume_quota_def
  by (cases "0 < n"; cases "sql_first (\<lambda>r. usage_key r = (u, w)) (continuation_usage d)"; simp only:
      if_True if_False option.case not_True_eq_False fst_conv snd_conv simp_thms HOL.if_cancel split: if_split if_split_asm)

lemma consume_quota_frame:
  "snd (consume_quota u w n d) = d\<lparr>continuation_usage := continuation_usage (snd (consume_quota u w n d))\<rparr>"
  by (simp add: consume_quota_def split: option.splits)

lemma consume_quota_usage:
  assumes "fst (consume_quota u w n d)"
  shows "continuation_usage_of v w' (snd (consume_quota u w n d)) =
    continuation_usage_of v w' d + (if v = u \<and> w' = w then 1 else 0)"
proof (cases "sql_first (\<lambda>r. usage_key r = (u, w)) (continuation_usage d)")
  case None
  then show ?thesis using assms
    by (auto simp: consume_quota_def continuation_usage_of_def sql_first_append usage_first split: option.splits if_splits)
next
  case (Some r)
  let ?f = "\<lambda>x. x\<lparr>cu_used_count := cu_used_count x + 1\<rparr>"
  have key: "usage_key (?f x) = usage_key x" for x by (simp add: usage_key_def)
  have "continuation_usage (snd (consume_quota u w n d)) =
      sql_update (\<lambda>x. usage_key x = (u, w)) ?f (continuation_usage d)"
    using assms by (simp add: consume_quota_def Some split: if_splits)
  then have first: "sql_first (\<lambda>x. usage_key x = (v, w')) (continuation_usage (snd (consume_quota u w n d))) =
      map_option (\<lambda>x. if usage_key x = (u, w) then ?f x else x)
        (sql_first (\<lambda>x. usage_key x = (v, w')) (continuation_usage d))"
    using sql_first_update_key [of usage_key ?f, OF key] by simp
  have other: "usage_key y \<noteq> (u, w)"
    if "sql_first (\<lambda>x. usage_key x = (v, w')) (continuation_usage d) = Some y" "(v, w') \<noteq> (u, w)" for y
    using sql_first_SomeD [OF that(1)] that(2) by simp
  show ?thesis
  proof (cases "(v, w') = (u, w)")
    case True
    then show ?thesis using Some sql_first_SomeD [OF Some] first by (simp add: continuation_usage_of_def)
  next
    case False
    then show ?thesis using first other unfolding continuation_usage_of_def
      by (cases "sql_first (\<lambda>x. usage_key x = (v, w')) (continuation_usage d)") auto
  qed
qed

lemma effective_plan_Inr:
  "effective_plan u now d = Inr (code, limit) \<Longrightarrow>
     \<exists>p \<in> set (subscription_plan d). pl_code p = code \<and> pl_weekly_limit p = limit"
  by (auto simp: effective_plan_def Let_def dest!: sql_first_SomeD split: option.splits)

section \<open>The second consent\<close>

lemma mark_continued_Inr:
  "mark_continued i u d = Inr d' \<Longrightarrow> d' = d\<lparr>match_state :=
     sql_update (\<lambda>s. ms_match_id s = i \<and> ms_user_id s = u) (\<lambda>s. s\<lparr>ms_continued := True\<rparr>) (match_state d)\<rparr>"
  by (simp add: mark_continued_def update_match_states_def split: if_splits)

lemma two_continued:
  assumes keys: "distinct (map state_key ss)"
    and users: "\<And>s. s \<in> set ss \<Longrightarrow> ms_match_id s = i \<Longrightarrow> ms_user_id s = a \<or> ms_user_id s = b"
    and both: "continued_by ss i a" "continued_by ss i b" and ne: "a \<noteq> b"
  shows "sql_count (\<lambda>s. ms_match_id s = i \<and> ms_continued s) ss = 2"
proof -
  let ?f = "filter (\<lambda>s. ms_match_id s = i \<and> ms_continued s) ss"
  have "distinct (map state_key ?f)" using keys by (simp add: distinct_map_filter)
  then have "distinct (map ms_user_id ?f)"
    by (auto simp: distinct_map inj_on_def state_key_def)
  moreover have "set (map ms_user_id ?f) = {a, b}"
    using users both by (auto simp: continued_by_def sql_exists_iff image_iff)
  ultimately have "length (map ms_user_id ?f) = card {a, b}" by (metis distinct_card)
  with ne show ?thesis by (simp add: sql_count_def)
qed

lemma states_of_match:
  assumes "match_inv d" "m \<in> set (match_init d)" "s \<in> set (match_state d)" "ms_match_id s = mi_id m"
  shows "ms_user_id s = mi_user1 m \<or> ms_user_id s = mi_user2 m"
proof -
  obtain n where n: "n \<in> set (match_init d)" "mi_id n = ms_match_id s" "participant (ms_user_id s) n"
    using match_invD(4) [OF assms(1,3)] by blast
  have "n = m" by (rule match_idD [OF match_invD(1) [OF assms(1)] n(1) assms(2)]) (simp add: n assms(4))
  with n(3) show ?thesis by (auto simp: participant_def)
qed

lemma not_yet_continued:
  assumes "match_inv d" "s \<in> set (match_state d)" "ms_match_id s = i" "ms_user_id s = u" "\<not> ms_continued s"
  shows "\<not> continued_by (match_state d) i u"
proof
  assume "continued_by (match_state d) i u"
  then obtain s' where s': "s' \<in> set (match_state d)" "state_key s' = state_key s" "ms_continued s'"
    using assms(3,4) by (auto simp: continued_by_def sql_exists_iff state_key_def)
  have "s' = s" by (rule distinct_keyD [OF match_invD(3) [OF assms(1)] s'(1) assms(2) s'(2)])
  with s' assms(5) show False by simp
qed

text \<open>When the initiator has consented and the other user does, both have.\<close>

lemma consent_completes:
  assumes inv: "match_inv d" and m: "m \<in> set (match_init d)" "mi_id m = i" "participant u m"
    "mi_status m = Awaiting_continuation" "mi_initiator m = Some x"
    and s: "s \<in> set (match_state d)" "ms_match_id s = i" "ms_user_id s = u" "\<not> ms_continued s"
  defines "ss \<equiv> sql_update (\<lambda>s. ms_match_id s = i \<and> ms_user_id s = u) (\<lambda>s. s\<lparr>ms_continued := True\<rparr>) (match_state d)"
  shows "continued_by ss i (mi_user1 m)" "continued_by ss i (mi_user2 m)"
    "sql_count (\<lambda>s. ms_match_id s = i \<and> ms_continued s) ss = 2"
proof -
  have x: "participant x m" "continued_by (match_state d) i x"
    using match_invD(2) [OF inv m(1)] m by (auto simp: match_ok_def)
  have "\<not> continued_by (match_state d) i u" by (rule not_yet_continued [OF inv s])
  with x have "x \<noteq> u" by auto
  have u: "continued_by ss i u"
    using s unfolding continued_by_def sql_exists_iff ss_def bex_sql_update by (intro bexI [of _ s]) simp_all
  have x': "continued_by ss i x"
    using x(2) unfolding ss_def by (rule continued_by_update [rotated -1]) simp_all
  show both: "continued_by ss i (mi_user1 m)" "continued_by ss i (mi_user2 m)"
    using u x' x(1) m(3) \<open>x \<noteq> u\<close> by (auto simp: participant_def)
  show "sql_count (\<lambda>s. ms_match_id s = i \<and> ms_continued s) ss = 2"
  proof (rule two_continued [OF _ _ both])
    show "distinct (map state_key ss)"
      using match_invD(3) [OF inv] by (simp add: ss_def map_sql_update state_key_def)
    show "mi_user1 m \<noteq> mi_user2 m" using match_table_okD(1) [OF match_invD(1) [OF inv] m(1)] by auto
    fix s' assume "s' \<in> set ss" "ms_match_id s' = i"
    then obtain s0 where "s0 \<in> set (match_state d)"
      and "s' = (if ms_match_id s0 = i \<and> ms_user_id s0 = u then s0\<lparr>ms_continued := True\<rparr> else s0)"
      unfolding ss_def by (elim in_sql_updateE)
    with \<open>ms_match_id s' = i\<close> m(2) have "s0 \<in> set (match_state d)" "ms_match_id s0 = mi_id m"
      "ms_user_id s' = ms_user_id s0" by (simp_all split: if_splits)
    then show "ms_user_id s' = mi_user1 m \<or> ms_user_id s' = mi_user2 m"
      using states_of_match [OF inv m(1)] by simp
  qed
qed

lemma sql_update_only:
  assumes "distinct (map k t)" "r \<in> set t" "k r = x" "\<And>s. s \<in> set t \<Longrightarrow> p s \<longleftrightarrow> s = r"
  shows "sql_update p f t = sql_update (\<lambda>s. k s = x) f t" "sql_count p t = 1"
proof -
  have eq: "p s \<longleftrightarrow> k s = x" if "s \<in> set t" for s
    using assms(4) [OF that] distinct_keyD [OF assms(1) that assms(2)] assms(3) by auto
  then show "sql_update p f t = sql_update (\<lambda>s. k s = x) f t"
    unfolding sql_update_def by (intro map_cong) auto
  have "sql_count p t = sql_count (\<lambda>s. k s = x) t"
    unfolding sql_count_def using eq by (intro arg_cong [where f = length] filter_cong) auto
  also have "\<dots> = 1"
    by (rule iffD2 [OF sql_count_1_iff_exists [OF assms(1)]]) (use assms(2,3) in \<open>auto simp: sql_exists_iff\<close>)
  finally show "sql_count p t = 1" .
qed

definition continue_states :: "uuid \<Rightarrow> uuid \<Rightarrow> match_state_row list \<Rightarrow> match_state_row list" where
  "continue_states i u ss =
     sql_update (\<lambda>s. ms_match_id s = i \<and> ms_user_id s = u) (\<lambda>s. s\<lparr>ms_continued := True\<rparr>) ss"

lemma second_consent_cases:
  assumes inv: "match_inv d" and m: "m \<in> set (match_init d)" "mi_id m = i" "participant u m"
      "mi_status m = Awaiting_continuation" "mi_initiator m = Some x" "now < js_of_pg (mi_expires_at m)"
    and s: "s \<in> set (match_state d)" "ms_match_id s = i" "ms_user_id s = u" "\<not> ms_continued s"
    and run: "second_consent now i u x d = Inr (d', r)"
  obtains (Quota) code n where "effective_plan x now d = Inr (code, Some n)"
      "\<not> fst (consume_quota x (start_of_utc_week now) n d)" "d' = d" "r = Cr_quota_reached"
  | (Done) code limit usage where "effective_plan x now d = Inr (code, limit)" "r = Cr_confirmed"
      "d' = d\<lparr>continuation_usage := usage, match_state := continue_states i u (match_state d),
         match_init := sql_update (\<lambda>m. mi_id m = i) confirm_row (match_init d)\<rparr>"
      "case limit of None \<Rightarrow> usage = continuation_usage d
       | Some n \<Rightarrow> fst (consume_quota x (start_of_utc_week now) n d) \<and>
           usage = continuation_usage (snd (consume_quota x (start_of_utc_week now) n d))"
proof -
  obtain code limit where plan: "effective_plan x now d = Inr (code, limit)"
    using run unfolding second_consent_def by (elim and_then_InrE) auto
  define charged where "charged = (case limit of None \<Rightarrow> (True, d)
    | Some n \<Rightarrow> consume_quota x (start_of_utc_week now) n d)"
  have usage: "snd charged = d\<lparr>continuation_usage := continuation_usage (snd charged)\<rparr>"
    using consume_quota_frame by (simp add: charged_def split: option.split)
  have r: "(if \<not> fst charged then Inr (snd charged, Cr_quota_reached)
      else and_then (mark_continued i u (snd charged)) (\<lambda>d2. let p = confirmable i now d2 in
        Inr (d2\<lparr>match_init := sql_update p confirm_row (match_init d2)\<rparr>,
          if sql_count p (match_init d2) = 1 then Cr_confirmed else Cr_invalid_state))) = Inr (d', r)"
    using run unfolding second_consent_def plan and_then_simps prod.case charged_def Let_def .
  show thesis
  proof (cases "fst charged")
    case False
    then obtain n where "limit = Some n" "\<not> fst (consume_quota x (start_of_utc_week now) n d)"
      by (auto simp: charged_def split: option.splits)
    with plan r False show thesis using consume_quota_refused [of x _ n d] by (intro Quota) (simp_all add: charged_def)
  next
    case True
    define u' where "u' = continuation_usage (snd charged)"
    let ?d2 = "d\<lparr>continuation_usage := u', match_state := continue_states i u (match_state d)\<rparr>"
    obtain d2 where d2: "mark_continued i u (snd charged) = Inr d2"
      and d': "d' = d2\<lparr>match_init := sql_update (confirmable i now d2) confirm_row (match_init d2)\<rparr>"
      and r': "r = (if sql_count (confirmable i now d2) (match_init d2) = 1 then Cr_confirmed else Cr_invalid_state)"
      using r True unfolding Let_def by (auto elim!: and_then_InrE)
    have eq: "d2 = ?d2" using mark_continued_Inr [OF d2] unfolding usage [folded u'_def]
      by (simp add: continue_states_def)
    have two: "sql_count (\<lambda>s. ms_match_id s = i \<and> ms_continued s) (continue_states i u (match_state d)) = 2"
      using consent_completes(3) [OF inv m(1-5) s] by (simp only: continue_states_def)
    have "pg_of_js now < mi_expires_at m" using m(6) by (rule pg_of_js_less_pg_iff)
    then have p: "confirmable i now ?d2 m' \<longleftrightarrow> m' = m" if "m' \<in> set (match_init d)" for m'
      using match_idD [OF match_invD(1) [OF inv] that m(1)] m two by (auto simp: confirmable_def)
    note only = sql_update_only [where k = mi_id and x = i, OF match_table_okD(2) [OF match_invD(1) [OF inv]] m(1,2) p]
    show thesis
    proof (rule Done [OF plan])
      show "r = Cr_confirmed" using only(2) unfolding r' eq by simp
      show "d' = d\<lparr>continuation_usage := u', match_state := continue_states i u (match_state d),
         match_init := sql_update (\<lambda>m. mi_id m = i) confirm_row (match_init d)\<rparr>"
        unfolding d' eq using only(1) by simp
      show "case limit of None \<Rightarrow> u' = continuation_usage d
       | Some n \<Rightarrow> fst (consume_quota x (start_of_utc_week now) n d) \<and>
           u' = continuation_usage (snd (consume_quota x (start_of_utc_week now) n d))"
        using True by (simp add: u'_def charged_def split: option.split option.splits)
    qed
  qed
qed

section \<open>The status machine\<close>

definition status_edges :: "(match_status \<times> match_status) set" where
  "status_edges = {(Active, Awaiting_continuation), (Awaiting_continuation, Confirmed),
     (Awaiting_continuation, Expired), (Active, Ended), (Awaiting_continuation, Ended), (Confirmed, Ended)}"

definition match_edge :: "match_row \<Rightarrow> match_row \<Rightarrow> bool" where
  "match_edge m m' \<longleftrightarrow> mi_id m' = mi_id m \<and> match_pair m' = match_pair m \<and>
     (mi_status m' = mi_status m \<or> (mi_status m, mi_status m') \<in> status_edges)"

text \<open>A row of the new table comes from a row of the old one along an edge, or is new and active;
  a row that is gone was over.\<close>

definition match_moves :: "match_row list \<Rightarrow> match_row list \<Rightarrow> bool" where
  "match_moves t t' \<longleftrightarrow>
     (\<forall>m' \<in> set t'. (\<exists>m \<in> set t. match_edge m m') \<or> mi_id m' \<notin> mi_id ` set t \<and> mi_status m' = Active) \<and>
     (\<forall>m \<in> set t. mi_id m \<notin> mi_id ` set t' \<longrightarrow> mi_status m = Expired \<or> mi_status m = Ended)"

lemma match_edge_refl [simp]: "match_edge m m"
  by (simp add: match_edge_def)

lemma match_moves_refl [simp]: "match_moves t t"
  unfolding match_moves_def using match_edge_refl by blast

lemma match_moves_update:
  assumes "\<And>m. m \<in> set t \<Longrightarrow> p m \<Longrightarrow> match_edge m (f m)"
  shows "match_moves t (sql_update p f t)"
proof -
  have id: "mi_id (f m) = mi_id m" if "m \<in> set t" "p m" for m
    using assms [OF that] by (simp add: match_edge_def)
  have "\<exists>m \<in> set t. match_edge m (if p n then f n else n)" if "n \<in> set t" for n
    using assms that by (intro bexI [of _ n]) auto
  moreover have "mi_id m \<in> mi_id ` set (sql_update p f t)" if "m \<in> set t" for m
    unfolding set_sql_update image_image using that id by (intro image_eqI [of _ _ m]) auto
  ultimately show ?thesis unfolding match_moves_def ball_sql_update by blast
qed

lemma edge_rows [simp]:
  "mi_status m = Active \<Longrightarrow> match_edge m (open_row now m)"
  "mi_status m = Awaiting_continuation \<Longrightarrow> match_edge m (expire_row now m)"
  "mi_status m = Awaiting_continuation \<Longrightarrow> match_edge m (confirm_row m)"
  "open_status (mi_status m) \<Longrightarrow> match_edge m (end_row clk m)"
  by (auto simp: match_edge_def status_edges_def open_status_def)

lemma pair_fields:
  "match_pair m = match_pair n \<Longrightarrow> mi_user1 m = mi_user1 n" "match_pair m = match_pair n \<Longrightarrow> mi_user2 m = mi_user2 n"
  by (simp_all add: match_pair_def)

lemma ok_rows:
  "mi_status m = Active \<Longrightarrow> match_ok ss m \<Longrightarrow> match_ok ss (open_row now m)"
  "match_ok ss (expire_row now m)"
  "match_ok ss (end_row clk m)"
  by (auto simp: match_ok_def open_status_def open_row_def expire_row_def end_row_def)

lemma confirm_row_ok:
  "continued_by ss (mi_id m) (mi_user1 m) \<Longrightarrow> continued_by ss (mi_id m) (mi_user2 m) \<Longrightarrow> match_ok ss (confirm_row m)"
  by (simp add: match_ok_def confirm_row_def open_status_def)

text \<open>An update of one row, as the handlers do it.\<close>

lemma inv_update_match:
  assumes inv: "match_inv d" and m: "m \<in> set (match_init d)" "mi_id m = i"
    and f: "\<And>m. mi_id (f m) = mi_id m" "\<And>m. match_pair (f m) = match_pair m"
    and row: "match_ok (match_state d) m \<Longrightarrow> match_ok (match_state d) (f m)" and edge: "match_edge m (f m)"
  shows "match_inv (update_match i f d)" "match_moves (match_init d) (match_init (update_match i f d))"
proof -
  have only: "n = m" if "n \<in> set (match_init d)" "mi_id n = i" for n
    using match_idD [OF match_invD(1) [OF inv] that(1) m(1)] that(2) m(2) by simp
  have "match_tables_ok (sql_update (\<lambda>m. mi_id m = i) f (match_init d)) (match_state d) (chat_message d)"
    using inv unfolding match_inv_def by (rule match_tables_update) (use f only row in auto)
  then show "match_inv (update_match i f d)" by (simp add: match_inv_def update_match_def)
  show "match_moves (match_init d) (match_init (update_match i f d))"
    unfolding update_match_def by simp (rule match_moves_update, use only edge in auto)
qed

lemma inv_open:
  assumes "match_inv d" "m \<in> set (match_init d)" "mi_id m = i" "mi_status m = Active"
  shows "match_inv (update_match i (open_row now) d)"
    "match_moves (match_init d) (match_init (update_match i (open_row now) d))"
  using inv_update_match [OF assms(1-3), of "open_row now"] assms(4) ok_rows(1) by simp_all

lemma inv_expire:
  assumes "match_inv d" "m \<in> set (match_init d)" "mi_id m = i" "mi_status m = Awaiting_continuation"
  shows "match_inv (update_match i (expire_row now) d)"
    "match_moves (match_init d) (match_init (update_match i (expire_row now) d))"
  using inv_update_match [OF assms(1-3), of "expire_row now"] assms(4) ok_rows(2) by simp_all

lemma inv_lock:
  assumes "match_inv d" "lock_messaging_match clk i u d = (d', r)"
  shows "match_inv d'" "match_moves (match_init d) (match_init d')"
proof -
  have "match_inv d' \<and> match_moves (match_init d) (match_init d')"
    using assms(2)
    by (cases rule: lock_messaging_match_cases)
      (use assms(1) inv_open [OF assms(1)] inv_expire [OF assms(1)] in \<open>auto simp: available_to_def\<close>)
  then show "match_inv d'" "match_moves (match_init d) (match_init d')" by blast+
qed

text \<open>What the lock touches, and what it hands out.\<close>

lemma lock_frame:
  assumes "lock_messaging_match clk i u d = (d', r)"
  shows "d' = d\<lparr>match_init := match_init d'\<rparr>"
  using assms by (cases rule: lock_messaging_match_cases) (simp_all add: update_match_def)

lemma lock_Inr:
  assumes "match_inv d" "lock_messaging_match clk i u d = (d', Inr m)"
  shows "m \<in> set (match_init d')" "mi_id m = i" "participant u m" "open_status (mi_status m)"
    "mi_status m \<noteq> Confirmed \<longrightarrow> js_of_pg clk < js_of_pg (mi_expires_at m)"
    "\<not> account_deleted (mi_user1 m) d" "\<not> account_deleted (mi_user2 m) d"
proof -
  let ?G = "m \<in> set (match_init d') \<and> mi_id m = i \<and> participant u m \<and> open_status (mi_status m) \<and>
    (mi_status m \<noteq> Confirmed \<longrightarrow> js_of_pg clk < js_of_pg (mi_expires_at m)) \<and>
    \<not> account_deleted (mi_user1 m) d \<and> \<not> account_deleted (mi_user2 m) d"
  have ?G
    using assms(2)
  proof (cases rule: lock_messaging_match_cases)
    case (Opened n)
    then have "m = open_row (js_of_pg clk) n" by simp
    moreover have "open_row (js_of_pg clk) n \<in> set (match_init d')"
      using Opened by (force simp: update_match_def set_sql_update available_to_def)
    moreover have "mi_user1 (open_row (js_of_pg clk) n) = mi_user1 n" "mi_user2 (open_row (js_of_pg clk) n) = mi_user2 n"
      by (simp_all add: open_row_def)
    ultimately show ?G using Opened by (simp add: available_to_def open_status_def js_before_open day_ms_def)
  qed (auto simp: available_to_def)
  then show "m \<in> set (match_init d')" "mi_id m = i" "participant u m" "open_status (mi_status m)"
    "mi_status m \<noteq> Confirmed \<longrightarrow> js_of_pg clk < js_of_pg (mi_expires_at m)"
    "\<not> account_deleted (mi_user1 m) d" "\<not> account_deleted (mi_user2 m) d" by blast+
qed

lemma match_moves_trans_edge:
  assumes "match_moves t t'" and "\<And>m m' m''. m \<in> set t \<Longrightarrow> match_edge m m' \<Longrightarrow> m' \<in> set t' \<Longrightarrow> m'' = f m' \<Longrightarrow>
      match_edge m m''"
    and "\<And>m'. m' \<in> set t' \<Longrightarrow> mi_id (f m') = mi_id m'" "\<And>m'. m' \<in> set t' \<Longrightarrow> mi_status (f m') = mi_status m'"
  shows "match_moves t (map f t')"
proof -
  have "mi_id ` set (map f t') = mi_id ` set t'"
    using assms(3) by (simp add: image_image)
  then show ?thesis
    using assms unfolding match_moves_def by (auto simp: ball_Un) blast+
qed

text \<open>A change of the other columns of one row.\<close>

lemma inv_touch:
  assumes inv: "match_inv d"
    and f: "\<And>m. mi_id (f m) = mi_id m" "\<And>m. match_pair (f m) = match_pair m" "\<And>m. mi_status (f m) = mi_status m"
    and row: "\<And>m. m \<in> set (match_init d) \<Longrightarrow> mi_id m = i \<Longrightarrow> match_ok (match_state d) m \<Longrightarrow> match_ok (match_state d) (f m)"
    and moves: "match_moves t (match_init d)"
  shows "match_inv (update_match i f d)" "match_moves t (match_init (update_match i f d))"
proof -
  show "match_inv (update_match i f d)"
    using inv match_tables_update [of "match_init d" "match_state d" "chat_message d" f "\<lambda>m. mi_id m = i", OF _ f(1,2)] row
    by (simp add: match_inv_def update_match_def)
  have "match_moves t (map (\<lambda>m. if mi_id m = i then f m else m) (match_init d))"
    by (rule match_moves_trans_edge [OF moves]) (auto simp: f match_edge_def)
  then show "match_moves t (match_init (update_match i f d))"
    by (simp add: update_match_def sql_update_def)
qed

lemma inv_states:
  assumes "match_inv d" "update_match_states p f d = Inr d'"
    and "\<And>s. ms_match_id (f s) = ms_match_id s" "\<And>s. ms_user_id (f s) = ms_user_id s"
      "\<And>s. ms_continued s \<Longrightarrow> ms_continued (f s)"
  shows "match_inv d'" "d' = d\<lparr>match_state := sql_update p f (match_state d)\<rparr>"
proof -
  show d': "d' = d\<lparr>match_state := sql_update p f (match_state d)\<rparr>"
    using assms(2) by (simp add: update_match_states_def split: if_splits)
  show "match_inv d'"
    using match_tables_states [of "match_init d" "match_state d" "chat_message d" f p] assms(1,3-5)
    by (simp add: match_inv_def d')
qed

section \<open>Each operation keeps the invariant and follows the edges\<close>

lemma inv_reveal:
  assumes "match_inv d" "record_reveal clk i u d = Inr (d', r)"
  shows "match_inv d'" "match_moves (match_init d) (match_init d')"
proof -
  obtain d1 l where l: "lock_messaging_match clk i u d = (d1, l)" by (cases "lock_messaging_match clk i u d")
  note lock = inv_lock [OF assms(1) l]
  have "match_inv d' \<and> match_init d' = match_init d1"
  proof (cases l)
    case (Inl f)
    with assms(2) l lock show ?thesis by (simp add: record_reveal_def)
  next
    case (Inr m)
    with assms(2) l obtain b d2 where
      "update_match_states b (\<lambda>s. s\<lparr>ms_revealed := True\<rparr>) d1 = Inr d2" "d' = d2"
      by (auto simp: record_reveal_def Let_def elim!: and_then_InrE split: if_splits)
    with inv_states [OF lock(1)] show ?thesis by fastforce
  qed
  with lock show "match_inv d'" "match_moves (match_init d) (match_init d')" by simp_all
qed

lemma current_only:
  assumes "match_inv d" "m \<in> set (match_init d)" "n \<in> set (match_init (current_db now m d))" "mi_id n = mi_id m"
  shows "n = current_row now m"
proof -
  have only: "k = m" if "k \<in> set (match_init d)" "mi_id k = mi_id m" for k
    by (rule match_idD [OF match_invD(1) [OF assms(1)] that(1) assms(2) that(2)])
  show ?thesis
  proof (cases "mi_status m = Active")
    case True
    with assms(3) have "n \<in> set (sql_update (\<lambda>x. mi_id x = mi_id m) (open_row now) (match_init d))"
      by (simp add: current_db_def update_match_def)
    then obtain k where k: "k \<in> set (match_init d)" "n = (if mi_id k = mi_id m then open_row now k else k)"
      by (rule in_sql_updateE)
    with assms(4) have "mi_id k = mi_id m" by (simp split: if_splits)
    with only [OF k(1) this] k(2) True show ?thesis by (simp add: current_row_def)
  next
    case False
    with assms(3,4) only show ?thesis by (simp add: current_db_def current_row_def)
  qed
qed

lemma inv_consent:
  assumes inv: "match_inv d" and run: "record_continuation_consent clk i u d = Inr (d', r)"
  shows "match_inv d' \<and> match_moves (match_init d) (match_init d')"
proof -
  have cur: "match_inv (current_db now m d) \<and> match_moves (match_init d) (match_init (current_db now m d)) \<and>
      match_state (current_db now m d) = match_state d"
    if "m \<in> set (match_init d)" for now m
    using inv inv_open [OF inv that refl] by (simp add: current_db_def update_match_def)
  show ?thesis
    using run
  proof (cases rule: consent_cases)
    case (Expires m)
    then show ?thesis using inv_expire [OF inv] by blast
  next
    case (First m d2)
    note d1 = cur [OF First(1), of "js_of_pg clk"]
    note d2 = inv_states [OF conjunct1 [OF d1] First(6) [unfolded mark_continued_def]]
    have mi: "match_init d2 = match_init (current_db (js_of_pg clk) m d)" using d2(2) by simp
    have inv2: "match_inv d2" by (rule d2(1)) simp_all
    have "continued_by (match_state d2) i u"
      using d2(2) d1 First(7) by (auto simp: continued_by_def sql_exists_iff bex_sql_update)
    moreover have "participant u n \<and> mi_status n = Awaiting_continuation"
      if n: "n \<in> set (match_init d2)" "mi_id n = i" for n
    proof -
      have "n = current_row (js_of_pg clk) m"
        by (rule current_only [OF inv First(1)]) (use n First(2) in \<open>simp_all add: mi\<close>)
      with First(3,4) show ?thesis by (auto simp: current_row_def)
    qed
    ultimately have "match_ok (match_state d2) (n\<lparr>mi_initiator := Some u\<rparr>)"
      if "n \<in> set (match_init d2)" "mi_id n = i" "match_ok (match_state d2) n" for n
      using that by (auto simp: match_ok_def open_status_def participant_def)
    then show ?thesis
      using inv_touch [OF inv2, of "\<lambda>x. x\<lparr>mi_initiator := Some u\<rparr>" i "match_init d"] d1
      unfolding First(8) mi by (simp add: match_pair_def)
  next
    case (Second m x s)
    have st: "mi_status m = Awaiting_continuation"
      using match_invD(2) [OF inv Second(1)] Second(4,6) by (auto simp: match_ok_def)
    then have now: "current_row (js_of_pg clk) m = m" "current_db (js_of_pg clk) m d = d"
      by (simp_all add: current_row_def current_db_def)
    show ?thesis
    proof (rule second_consent_cases [OF inv Second(1-3) st Second(6,5) [unfolded now] Second(7-10)
          Second(11) [unfolded now]], goal_cases Quota Done)
      case (Done code limit usage)
      define ss where "ss = continue_states i u (match_state d)"
      have only: "n = m" if "n \<in> set (match_init d)" "mi_id n = i" for n
        using match_idD [OF match_invD(1) [OF inv] that(1) Second(1)] that(2) Second(2) by simp
      have tables: "match_tables_ok (match_init d) ss (chat_message d)"
        using inv unfolding match_inv_def ss_def continue_states_def by (rule match_tables_states) simp_all
      have "match_ok ss (confirm_row m)"
        using consent_completes(1,2) [OF inv Second(1-3) st Second(6-10)] Second(2)
        by (intro confirm_row_ok) (simp_all only: ss_def continue_states_def)
      then have "match_tables_ok (sql_update (\<lambda>m. mi_id m = i) confirm_row (match_init d)) ss (chat_message d)"
        by (intro match_tables_update [OF tables]) (use only in auto)
      moreover have "match_moves (match_init d) (sql_update (\<lambda>m. mi_id m = i) confirm_row (match_init d))"
        by (rule match_moves_update) (use only st in auto)
      ultimately show ?thesis by (simp add: Done(3) match_inv_def ss_def)
    qed (use inv in simp)
  qed (use inv cur in auto)
qed

end
