(* ===== verification/Match_Steps.thy ===== *)
theory Match_Steps
  imports Match_Lifecycle
begin

text \<open>
  The remaining operations on matches keep the invariant, and the life of a match over any
  interleaving of requests, maintenance and erasures.
\<close>

section \<open>Notifications leave matches alone\<close>

lemma enqueue_notification_frame:
  assumes "enqueue_notification v u src intent d = Inr d'"
  shows "d' = d\<lparr>outbox_event := outbox_event d', notification := notification d',
    notification_push_delivery := notification_push_delivery d'\<rparr>"
  using assms
  by (auto simp: enqueue_notification_def Let_def write_outbox_Inr_iff elim!: and_then_InrE split: if_splits)

lemma enqueue_notification_matches:
  assumes "enqueue_notification v u src intent d = Inr d'"
  shows "match_init d' = match_init d" "match_state d' = match_state d" "chat_message d' = chat_message d"
    "user_account d' = user_account d" "user_block d' = user_block d"
  using arg_cong [OF enqueue_notification_frame [OF assms], of match_init]
    arg_cong [OF enqueue_notification_frame [OF assms], of match_state]
    arg_cong [OF enqueue_notification_frame [OF assms], of chat_message]
    arg_cong [OF enqueue_notification_frame [OF assms], of user_account]
    arg_cong [OF enqueue_notification_frame [OF assms], of user_block]
  by simp_all

section \<open>Creation\<close>

lemma match_moves_new:
  assumes "mi_id m \<notin> mi_id ` set t" "mi_status m = Active"
  shows "match_moves t (t @ [m])"
proof -
  have "\<exists>n \<in> set t. match_edge n m'" if "m' \<in> set t" for m'
    using that match_edge_refl by blast
  with assms show ?thesis unfolding match_moves_def by auto
qed

lemma tables_new_match:
  assumes ok: "match_tables_ok mi ss cs" and new: "mi_user1 m < mi_user2 m"
    "\<not> sql_exists (\<lambda>x. mi_id x = mi_id m \<or> match_pair x = match_pair m) mi"
    and m: "mi_status m = Active" "mi_initiator m = None" "mi_purge_after m = None"
  shows "match_tables_ok (mi @ [m]) ss cs"
proof -
  have "match_table_ok (mi @ [m])"
    using ok new by (auto simp: match_tables_ok_def match_table_ok_def sql_exists_iff)
  moreover have "match_ok ss m" using m by (simp add: match_ok_def open_status_def)
  ultimately show ?thesis using ok by (auto simp: match_tables_ok_def)
qed

lemma tables_new_state:
  assumes "match_tables_ok mi ss cs" "\<not> sql_exists (\<lambda>x. state_key x = state_key s) ss"
    and "\<exists>m \<in> set mi. mi_id m = ms_match_id s \<and> participant (ms_user_id s) m"
  shows "match_tables_ok mi (ss @ [s]) cs"
proof -
  have "list_all (match_ok (ss @ [s])) mi"
    using assms(1) match_ok_mono [of ss _ "ss @ [s]"]
    unfolding match_tables_ok_def list_all_iff continued_by_def sql_exists_iff by fastforce
  moreover have "distinct (map state_key (ss @ [s]))"
    using assms(1,2) by (auto simp: match_tables_ok_def sql_exists_iff)
  ultimately show ?thesis using assms(1,3) by (auto simp: match_tables_ok_def)
qed

lemma insert_match_Inr:
  "insert_match m d = Inr d' \<longleftrightarrow> \<not> account_deleted (mi_user1 m) d \<and> \<not> account_deleted (mi_user2 m) d \<and>
     mi_user1 m < mi_user2 m \<and>
     \<not> sql_exists (\<lambda>x. mi_id x = mi_id m \<or> match_pair x = match_pair m) (match_init d) \<and>
     d' = d\<lparr>match_init := match_init d @ [m]\<rparr>"
  by (auto simp: insert_match_def)

lemma insert_match_state_Inr:
  "insert_match_state s d = Inr d' \<longleftrightarrow> \<not> match_has_deleted (ms_match_id s) d \<and>
     \<not> sql_exists (\<lambda>x. state_key x = state_key s) (match_state d) \<and>
     d' = d\<lparr>match_state := match_state d @ [s]\<rparr>"
  by (auto simp: insert_match_state_def)

lemma create_match_Inr:
  assumes "create_match v m d = Inr d'"
  obtains d1 d2 d3 d4 where "insert_match m d = Inr d1"
    "insert_match_state (new_state_row (mi_id m) (mi_user1 m)) d1 = Inr d2"
    "insert_match_state (new_state_row (mi_id m) (mi_user2 m)) d2 = Inr d3"
    "enqueue_notification (v (mi_user1 m)) (mi_user1 m) (mi_id m) (Intent_new_match (mi_id m)) d3 = Inr d4"
    "enqueue_notification (v (mi_user2 m)) (mi_user2 m) (mi_id m) (Intent_new_match (mi_id m)) d4 = Inr d'"
    "has_active_account (mi_user1 m) d" "has_active_account (mi_user2 m) d"
    "\<not> blocked_pair (mi_user1 m) (mi_user2 m) d"
  using assms unfolding create_match_def by (auto elim!: and_then_InrE split: if_splits)

lemma create_match_effect:
  assumes "create_match v m d = Inr d'"
  shows "match_init d' = match_init d @ [m]"
    "match_state d' = match_state d @ [new_state_row (mi_id m) (mi_user1 m), new_state_row (mi_id m) (mi_user2 m)]"
    "chat_message d' = chat_message d" "user_block d' = user_block d"
    "\<not> sql_exists (\<lambda>x. mi_id x = mi_id m \<or> match_pair x = match_pair m) (match_init d)"
    "mi_user1 m < mi_user2 m"
    "\<not> sql_exists (\<lambda>x. state_key x = (mi_id m, mi_user1 m)) (match_state d)"
    "\<not> sql_exists (\<lambda>x. state_key x = (mi_id m, mi_user2 m)) (match_state d)"
  using assms
  by (rule create_match_Inr;
      simp add: insert_match_Inr insert_match_state_Inr enqueue_notification_matches new_state_row_def
        state_key_def sql_exists_iff)+

lemma inv_create_match:
  assumes inv: "match_inv d" and run: "create_match v (new_match_row i a b now) d = Inr d'"
  shows "match_inv d' \<and> match_moves (match_init d) (match_init d')"
proof -
  let ?m = "new_match_row i a b now"
  note e = create_match_effect [OF run]
  have row: "mi_status ?m = Active" "mi_initiator ?m = None" "mi_purge_after ?m = None"
    "mi_id ?m = i" "mi_user1 ?m = a" "mi_user2 ?m = b" by (simp_all add: new_match_row_def)
  have tables: "match_tables_ok (match_init d @ [?m]) (match_state d) (chat_message d)"
    using inv unfolding match_inv_def by (rule tables_new_match [OF _ e(6,5) row(1-3)])
  have key: "state_key (new_state_row i u) = (i, u)" for u by (simp add: new_state_row_def state_key_def)
  have part: "\<exists>m \<in> set (match_init d @ [?m]). mi_id m = ms_match_id (new_state_row i u) \<and>
      participant (ms_user_id (new_state_row i u)) m" if "u = a \<or> u = b" for u
    using that by (auto simp: new_state_row_def new_match_row_def participant_def)
  have 1: "match_tables_ok (match_init d @ [?m]) (match_state d @ [new_state_row i a]) (chat_message d)"
    using tables e(7) part by (intro tables_new_state) (simp_all add: key row)
  have "match_tables_ok (match_init d @ [?m]) ((match_state d @ [new_state_row i a]) @ [new_state_row i b]) (chat_message d)"
  proof (rule tables_new_state [OF 1])
    show "\<not> sql_exists (\<lambda>x. state_key x = state_key (new_state_row i b)) (match_state d @ [new_state_row i a])"
      using e(6,8) by (auto simp: key row sql_exists_iff)
  qed (use part in simp)
  then have "match_inv d'" by (simp add: match_inv_def e(1-3) row)
  moreover have "match_moves (match_init d) (match_init d')"
    unfolding e(1) using e(5) by (intro match_moves_new) (auto simp: row sql_exists_iff)
  ultimately show ?thesis ..
qed

section \<open>Messages\<close>

lemma insert_message_Inr:
  assumes "insert_message c d = Inr (d', b)"
  shows "b \<Longrightarrow> d' = d\<lparr>chat_message := chat_message d @ [c]\<rparr> \<and>
      \<not> sql_exists (\<lambda>x. has_message_key x \<and> message_key x = message_key c) (chat_message d) \<and>
      \<not> sql_exists (\<lambda>x. cm_id x = cm_id c) (chat_message d)"
    "\<not> b \<Longrightarrow> d' = d"
  using assms by (auto simp: insert_message_def split: if_splits)

lemma tables_new_message:
  assumes "match_tables_ok mi ss cs"
    and "\<not> sql_exists (\<lambda>x. has_message_key x \<and> message_key x = message_key c) cs"
      "\<not> sql_exists (\<lambda>x. cm_id x = cm_id c) cs"
    and "m \<in> set mi" "mi_id m = cm_match_id c" "participant (cm_sender_id c) m"
  shows "match_tables_ok mi ss (cs @ [c])"
proof -
  have "message_table_ok (cs @ [c])"
    using assms(1-3) by (auto simp: match_tables_ok_def message_table_ok_def unique_where_append sql_exists_iff)
  moreover have "\<forall>x \<in> set (cs @ [c]). \<exists>m \<in> set mi. mi_id m = cm_match_id x \<and> participant (cm_sender_id x) m"
    using assms(1,4-6) by (auto simp: match_tables_ok_def)
  ultimately show ?thesis using assms(1) by (simp add: match_tables_ok_def)
qed

text \<open>What an accepted message changes, given the state after the lock.\<close>

definition touch_last_message :: "pg_time \<Rightarrow> match_row \<Rightarrow> match_row" where
  "touch_last_message clk m = m\<lparr>mi_last_message_at := Some (pg_of_js (js_of_pg clk))\<rparr>"

lemma touch_simps [simp]:
  "mi_id (touch_last_message clk m) = mi_id m" "match_pair (touch_last_message clk m) = match_pair m"
  "mi_status (touch_last_message clk m) = mi_status m"
  "match_ok ss (touch_last_message clk m) = match_ok ss m"
  by (simp_all add: touch_last_message_def match_pair_def match_ok_def participant_def)

text \<open>The three ways a request to send ends without an error.\<close>

lemma create_message_cases:
  assumes "create_message v clk clk' i txt u content key d = Inr (d', r)"
  obtains (Replay) x where "find_idempotent_message u key d = Some x" "d' = d" "r = replay_result txt content x"
  | (Refused) f where "find_idempotent_message u key d = None"
      "lock_messaging_match clk (pg_uuid txt) u d = (d', Inl f)" "r = Inl (Unavailable f)"
  | (Conflict) m where "find_idempotent_message u key d = None"
      "lock_messaging_match clk (pg_uuid txt) u d = (d', Inr m)"
      "r = (case find_idempotent_message u key d' of None \<Rightarrow> Inl Idempotency_conflict_message
            | Some x \<Rightarrow> replay_result txt content x)"
      "sql_exists (\<lambda>x. has_message_key x \<and> message_key x = (u, Some key)) (chat_message d)"
  | (Sent) m d1 d2 where "find_idempotent_message u key d = None"
      "lock_messaging_match clk (pg_uuid txt) u d = (d1, Inr m)"
      "insert_message (new_message_row i (pg_uuid txt) u content key clk') d1 = Inr (d2, True)"
      "enqueue_notification v (if mi_user1 m = u then mi_user2 m else mi_user1 m) i (Intent_new_message txt i u)
         (update_match (pg_uuid txt) (touch_last_message clk') d2) = Inr d'"
      "r = Inr \<lparr> mc_message = message_of_row (new_message_row i (pg_uuid txt) u content key clk'),
         mc_participants = (mi_user1 m, mi_user2 m), mc_created = True \<rparr>"
proof (cases "find_idempotent_message u key d")
  case (Some x)
  with assms show thesis by (intro Replay [of x]) (auto simp: create_message_def Let_def)
next
  case None
  obtain d1 l where l: "lock_messaging_match clk (pg_uuid txt) u d = (d1, l)"
    by (cases "lock_messaging_match clk (pg_uuid txt) u d")
  show thesis
  proof (cases l)
    case (Inl f)
    with assms None l show thesis by (intro Refused [of f]) (auto simp: create_message_def Let_def)
  next
    case (Inr m)
    let ?c = "new_message_row i (pg_uuid txt) u content key clk'"
    have clk: "cm_created_at ?c = clk'" by (simp add: new_message_row_def)
    obtain d2 b where ins: "insert_message ?c d1 = Inr (d2, b)"
      using assms None l Inr by (auto simp: create_message_def Let_def elim!: and_then_InrE)
    have frame: "chat_message d1 = chat_message d" using arg_cong [OF lock_frame [OF l], of chat_message] by simp
    show thesis
    proof (cases b)
      case True
      then show thesis using assms None l Inr ins
        by (intro Sent [of d1 m d2])
          (auto simp: create_message_def Let_def clk touch_last_message_def [abs_def] elim!: and_then_InrE)
    next
      case False
      then have "d2 = d1" using insert_message_Inr(2) [OF ins] by simp
      moreover have "sql_exists (\<lambda>x. has_message_key x \<and> message_key x = (u, Some key)) (chat_message d)"
        using ins False frame
        by (auto simp: insert_message_def new_message_row_def message_key_def split: if_splits)
      ultimately show thesis using assms None l Inr ins False
        by (intro Conflict [of m]) (auto simp: create_message_def Let_def split: option.splits)
    qed
  qed
qed

lemma inv_send:
  assumes inv: "match_inv d" and run: "create_message v clk clk' i txt u content key d = Inr (d', r)"
  shows "match_inv d' \<and> match_moves (match_init d) (match_init d')"
  using run
proof (cases rule: create_message_cases)
  case (Sent m d1 d2)
  note lock = inv_lock [OF inv Sent(2)] and m = lock_Inr [OF inv Sent(2)]
  let ?c = "new_message_row i (pg_uuid txt) u content key clk'"
  have ins: "d2 = d1\<lparr>chat_message := chat_message d1 @ [?c]\<rparr>"
    "\<not> sql_exists (\<lambda>x. has_message_key x \<and> message_key x = message_key ?c) (chat_message d1)"
    "\<not> sql_exists (\<lambda>x. cm_id x = cm_id ?c) (chat_message d1)"
    using insert_message_Inr(1) [OF Sent(3)] by simp_all
  have c: "cm_match_id ?c = pg_uuid txt" "cm_sender_id ?c = u" by (simp_all add: new_message_row_def)
  have "match_tables_ok (match_init d1) (match_state d1) (chat_message d1 @ [?c])"
    using lock(1) unfolding match_inv_def
    by (rule tables_new_message [OF _ ins(2,3) m(1)]) (simp_all add: c m)
  then have inv2: "match_inv d2" "match_moves (match_init d) (match_init d2)"
    using lock(2) by (simp_all add: match_inv_def ins(1))
  have touched: "match_inv (update_match (pg_uuid txt) (touch_last_message clk') d2)"
    "match_moves (match_init d) (match_init (update_match (pg_uuid txt) (touch_last_message clk') d2))"
    by (rule inv_touch [OF inv2(1) _ _ _ _ inv2(2)]; simp)+
  note frame = enqueue_notification_matches [OF Sent(4)]
  show ?thesis
    using touched by (simp add: match_inv_def frame)
qed (use inv inv_lock [OF inv] in auto)

lemma inv_mark:
  assumes inv: "match_inv d" and l: "lock_messaging_match clk i u d = (d1, l)"
    and f: "\<And>c. cm_id (f c) = cm_id c" "\<And>c. cm_match_id (f c) = cm_match_id c"
      "\<And>c. message_key (f c) = message_key c"
  shows "match_inv (d1\<lparr>chat_message := sql_update p f (chat_message d1)\<rparr>)"
    "match_moves (match_init d) (match_init (d1\<lparr>chat_message := sql_update p f (chat_message d1)\<rparr>))"
  using inv_lock [OF inv l] match_tables_messages [of "match_init d1" "match_state d1" "chat_message d1" f p, OF _ f]
  by (simp_all add: match_inv_def)

lemma inv_mark_read:
  assumes inv: "match_inv d" and run: "mark_message_read clk clk' i msg u d = (d', r)"
  shows "match_inv d' \<and> match_moves (match_init d) (match_init d')"
proof -
  obtain d1 l where l: "lock_messaging_match clk i u d = (d1, l)" by (cases "lock_messaging_match clk i u d")
  show ?thesis
  proof (cases l)
    case (Inl f)
    with run l inv_lock [OF inv l] show ?thesis by (simp add: mark_message_read_def)
  next
    case (Inr m)
    show ?thesis
      using run inv_mark [OF inv l, of "\<lambda>c. c\<lparr>cm_read_at := (case cm_read_at c of None \<Rightarrow> Some clk' | Some t \<Rightarrow> Some t)\<rparr>"]
      by (auto simp: mark_message_read_def l Inr Let_def message_key_def)
  qed
qed

lemma inv_mark_through:
  assumes inv: "match_inv d" and run: "mark_messages_read_through clk clk' i msg u d = (d', r)"
  shows "match_inv d' \<and> match_moves (match_init d) (match_init d')"
proof -
  obtain d1 l where l: "lock_messaging_match clk i u d = (d1, l)" by (cases "lock_messaging_match clk i u d")
  show ?thesis
  proof (cases l)
    case (Inl f)
    with run l inv_lock [OF inv l] show ?thesis by (simp add: mark_messages_read_through_def)
  next
    case (Inr m)
    show ?thesis
      using run inv_lock [OF inv l] inv_mark [OF inv l, of "\<lambda>c. c\<lparr>cm_read_at := Some clk'\<rparr>"]
      by (auto simp: mark_messages_read_through_def l Inr message_key_def split: option.splits)
  qed
qed

section \<open>Statements without a lock\<close>

lemma inv_rows:
  assumes inv: "match_inv d"
    and f: "\<And>m. mi_id (f m) = mi_id m" "\<And>m. match_pair (f m) = match_pair m"
    and row: "\<And>m. m \<in> set (match_init d) \<Longrightarrow> p m \<Longrightarrow> match_ok (match_state d) m \<Longrightarrow> match_ok (match_state d) (f m)"
    and edge: "\<And>m. m \<in> set (match_init d) \<Longrightarrow> p m \<Longrightarrow> match_edge m (f m)"
  shows "match_inv (d\<lparr>match_init := sql_update p f (match_init d)\<rparr>) \<and>
    match_moves (match_init d) (sql_update p f (match_init d))"
  using match_tables_update [of "match_init d" "match_state d" "chat_message d" f p, OF _ f row]
    match_moves_update [of "match_init d" p f, OF edge] inv
  by (simp add: match_inv_def)

lemma inv_open_window:
  assumes "match_inv d" "open_continuation_window i now d = (b, d')"
  shows "match_inv d' \<and> match_moves (match_init d) (match_init d')"
  using assms(2) inv_rows [OF assms(1), of "open_row now"
    "\<lambda>m. mi_id m = i \<and> mi_status m = Active \<and> mi_expires_at m \<le> pg_of_js now"]
  by (auto simp: open_continuation_window_def ok_rows Let_def)

lemma inv_expire_awaiting:
  assumes "match_inv d"
  shows "match_inv (expire_awaiting_match i now d) \<and> match_moves (match_init d) (match_init (expire_awaiting_match i now d))"
  using inv_rows [OF assms(1), of "expire_row now"
    "\<lambda>m. mi_id m = i \<and> mi_status m = Awaiting_continuation \<and> mi_expires_at m \<le> pg_of_js now"]
  by (simp add: expire_awaiting_match_def ok_rows)

lemma inv_block:
  assumes "match_inv d" "block_user u v now clk d = Inr (d', b)"
  shows "match_inv d' \<and> match_moves (match_init d) (match_init d')"
proof -
  let ?p = "\<lambda>m. (mi_user1 m = u \<and> mi_user2 m = v \<or> mi_user1 m = v \<and> mi_user2 m = u) \<and> open_status (mi_status m)"
  have "match_inv (d\<lparr>match_init := sql_update ?p (end_row clk) (match_init d)\<rparr>) \<and>
      match_moves (match_init d) (sql_update ?p (end_row clk) (match_init d))"
    by (rule inv_rows [OF assms(1)]) (simp_all add: ok_rows)
  then show ?thesis using assms by (auto simp: block_user_def Let_def match_inv_def split: if_splits)
qed

lemma inv_anonymise:
  assumes inv: "match_inv d"
  shows "match_inv (anonymise_matches u now txt d) \<and> match_moves (match_init d) (match_init (anonymise_matches u now txt d))"
proof -
  let ?p = "\<lambda>m. participant u m \<and> open_status (mi_status m)"
  let ?f = "\<lambda>m. m\<lparr>mi_status := Ended, mi_purge_after := (case mi_purge_after m of
            None \<Rightarrow> Some (now + ended_match_retention_us) | Some t \<Rightarrow> Some t)\<rparr>"
  let ?q = "\<lambda>s. ms_user_id s = u"
  let ?mi = "sql_update ?p ?f (match_init d)" and ?ss = "sql_delete ?q (match_state d)"
  have mid: "match_tables_ok ?mi (match_state d) (chat_message d)"
    using inv unfolding match_inv_def
    by (rule match_tables_update) (auto simp: match_pair_def match_ok_def open_status_def split: option.splits)
  have "match_ok ?ss m" if m: "m \<in> set ?mi" "match_ok (match_state d) m" for m
  proof -
    have "\<not> (participant u m \<and> open_status (mi_status m))"
      using m(1) by (auto elim!: in_sql_updateE simp: open_status_def participant_def split: if_splits)
    then show ?thesis
      using m(2) by (auto simp: match_ok_def open_status_def continued_by_def sql_exists_iff participant_def)
  qed
  then have "match_tables_ok ?mi ?ss (chat_message d)"
    using mid by (auto simp: match_tables_ok_def list_all_iff distinct_map_sql_delete)
  then have "match_tables_ok ?mi ?ss (sql_update (\<lambda>c. cm_sender_id c = u) (\<lambda>c. c\<lparr>cm_content := txt\<rparr>) (chat_message d))"
    by (rule match_tables_messages) (simp_all add: message_key_def)
  moreover have "match_moves (match_init d) ?mi"
    by (rule match_moves_update) (auto simp: match_edge_def match_pair_def status_edges_def open_status_def)
  ultimately show ?thesis by (simp add: anonymise_matches_def match_inv_def)
qed

section \<open>Maintenance\<close>

lemma inv_open_due:
  assumes "match_inv d" "open_due now n held d = (k, d')"
  shows "match_inv d'" "match_moves (match_init d) (match_init d')"
    "d' = d\<lparr>match_init := match_init d'\<rparr>"
proof -
  define c where "c = sql_candidates (\<lambda>m. mi_status m = Active \<and> mi_expires_at m \<le> pg_of_js now)
                expiry_order (\<lambda>m. held (mi_id m)) n (match_init d)"
  have sub: "set c \<subseteq> set (match_init d)" unfolding c_def by (rule sql_candidates_subset)
  have st: "mi_status m = Active" if "m \<in> set (match_init d)" "chosen_match c m" for m
    using in_candidate_ids [OF match_table_okD(2) [OF match_invD(1) [OF assms(1)]] sub that(1)] that(2)
    by (auto simp: chosen_match_def c_def dest: sql_candidatesD)
  have d': "d' = d\<lparr>match_init := sql_update (chosen_match c) (open_row now) (match_init d)\<rparr>"
    using assms(2) by (simp add: open_due_def Let_def c_def [symmetric])
  show "match_inv d'" "match_moves (match_init d) (match_init d')" "d' = d\<lparr>match_init := match_init d'\<rparr>"
    using inv_rows [OF assms(1), of "open_row now" "chosen_match c"] st by (simp_all add: ok_rows d')
qed

lemma inv_expire_due:
  assumes "match_inv d" "expire_due now n held d = (k, d')"
  shows "match_inv d'" "match_moves (match_init d) (match_init d')"
    "d' = d\<lparr>match_init := match_init d'\<rparr>"
proof -
  define c where "c = sql_candidates (\<lambda>m. mi_status m = Awaiting_continuation \<and> mi_expires_at m \<le> pg_of_js now)
                expiry_order (\<lambda>m. held (mi_id m)) n (match_init d)"
  have sub: "set c \<subseteq> set (match_init d)" unfolding c_def by (rule sql_candidates_subset)
  have st: "mi_status m = Awaiting_continuation" if "m \<in> set (match_init d)" "chosen_match c m" for m
    using in_candidate_ids [OF match_table_okD(2) [OF match_invD(1) [OF assms(1)]] sub that(1)] that(2)
    by (auto simp: chosen_match_def c_def dest: sql_candidatesD)
  have d': "d' = d\<lparr>match_init := sql_update (chosen_match c) (expire_row now) (match_init d)\<rparr>"
    using assms(2) by (simp add: expire_due_def Let_def c_def [symmetric])
  show "match_inv d'" "match_moves (match_init d) (match_init d')" "d' = d\<lparr>match_init := match_init d'\<rparr>"
    using inv_rows [OF assms(1), of "expire_row now" "chosen_match c"] st by (simp_all add: ok_rows d')
qed

text \<open>Deleting messages keeps the invariant, and so does deleting matches with their states and
  messages.\<close>

lemma tables_delete_messages:
  "match_tables_ok mi ss cs \<Longrightarrow> match_tables_ok mi ss (sql_delete p cs)"
  by (auto simp: match_tables_ok_def message_table_ok_def distinct_map_sql_delete unique_where_sql_delete)

lemma tables_delete_matches:
  assumes ok: "match_tables_ok (match_init d) (match_state d) (chat_message d)"
  shows "match_inv (delete_matches p d)"
proof -
  let ?gone = "\<lambda>i. sql_exists (\<lambda>m. p m \<and> mi_id m = i) (match_init d)"
  have gone: "?gone (mi_id m) \<longleftrightarrow> p m" if "m \<in> set (match_init d)" for m
    using that match_idD [of "match_init d" _ m] ok by (auto simp: sql_exists_iff match_tables_ok_def)
  have keep: "\<exists>m \<in> set (sql_delete p (match_init d)). mi_id m = i \<and> q m"
    if "\<exists>m \<in> set (match_init d). mi_id m = i \<and> q m" "\<not> ?gone i" for i q
    using that by (auto simp: sql_exists_iff)
  have cont: "continued_by (sql_delete (\<lambda>s. ?gone (ms_match_id s)) (match_state d)) (mi_id m) u"
    if c: "continued_by (match_state d) (mi_id m) u" "m \<in> set (match_init d)" "\<not> p m" for m u
  proof -
    obtain s where s: "s \<in> set (match_state d)" "ms_match_id s = mi_id m" "ms_user_id s = u" "ms_continued s"
      using c(1) by (auto simp: continued_by_def sql_exists_iff)
    have "\<not> ?gone (ms_match_id s)" using gone [OF c(2)] c(3) s(2) by simp
    with s show ?thesis unfolding continued_by_def sql_exists_iff by (intro bexI [of _ s]) simp_all
  qed
  have "match_table_ok (sql_delete p (match_init d))"
    using ok by (simp add: match_tables_ok_def match_table_ok_def list_all_sql_delete distinct_map_sql_delete)
  moreover have "list_all (match_ok (sql_delete (\<lambda>s. ?gone (ms_match_id s)) (match_state d))) (sql_delete p (match_init d))"
    using ok match_ok_mono cont unfolding match_tables_ok_def list_all_iff set_sql_delete by blast
  ultimately show ?thesis
    using ok keep
    by (simp add: match_inv_def delete_matches_def Let_def match_tables_ok_def distinct_map_sql_delete
        message_table_ok_def unique_where_sql_delete)
qed

lemma delete_messages_frame:
  "snd (delete_due_messages now n held d) = d\<lparr>chat_message := chat_message (snd (delete_due_messages now n held d))\<rparr>"
  "\<exists>p. chat_message (snd (delete_due_messages now n held d)) = sql_delete p (chat_message d)"
  by (auto simp: delete_due_messages_def Let_def)

lemma detach_reports_frame:
  "snd (detach_due_reports now n held d) = d\<lparr>user_report := user_report (snd (detach_due_reports now n held d))\<rparr>"
  by (simp add: detach_due_reports_def Let_def)

lemma purge_matches_gone:
  assumes "match_inv d" "purge_matches now n held d = (k, d')"
  shows "match_inv d'" "match_moves (match_init d) (match_init d')"
    "\<And>m. m \<in> set (match_init d) \<Longrightarrow> m \<notin> set (match_init d') \<Longrightarrow> purgeable now d m"
    "set (match_init d') \<subseteq> set (match_init d)"
proof -
  define c where "c = sql_candidates (purgeable now d) purge_order (\<lambda>m. held (mi_id m)) n (match_init d)"
  have d': "d' = delete_matches (chosen_match c) d"
    using assms(2) by (simp add: purge_matches_def Let_def c_def [symmetric])
  have mi: "match_init d' = sql_delete (chosen_match c) (match_init d)" by (simp add: d' delete_matches_def Let_def)
  have sub: "set c \<subseteq> set (match_init d)" unfolding c_def by (rule sql_candidates_subset)
  have p: "purgeable now d m" if "m \<in> set (match_init d)" "chosen_match c m" for m
    using in_candidate_ids [OF match_table_okD(2) [OF match_invD(1) [OF assms(1)]] sub that(1)] that(2)
    by (auto simp: chosen_match_def c_def dest: sql_candidatesD)
  show "match_inv d'" unfolding d' by (rule tables_delete_matches) (use assms(1) in \<open>simp add: match_inv_def\<close>)
  show gone: "purgeable now d m" if "m \<in> set (match_init d)" "m \<notin> set (match_init d')" for m
    using that p by (simp add: mi)
  show "set (match_init d') \<subseteq> set (match_init d)" by (auto simp: mi)
  have "mi_status m = Expired \<or> mi_status m = Ended"
    if "m \<in> set (match_init d)" "mi_id m \<notin> mi_id ` set (match_init d')" for m
    using gone [OF that(1)] that(2) by (auto simp: purgeable_def purge_reached_def)
  moreover have "\<exists>m \<in> set (match_init d). match_edge m m'" if "m' \<in> set (match_init d')" for m'
    using that match_edge_refl unfolding mi set_sql_delete by blast
  ultimately show "match_moves (match_init d) (match_init d')" unfolding match_moves_def by blast
qed

text \<open>A row the batch opens or expires is not due again in the same batch.\<close>

lemma updated_or_kept: "m \<in> set (sql_update p f t) \<Longrightarrow> m \<in> set t \<or> (\<exists>n \<in> set t. p n \<and> m = f n)"
  by (auto elim!: in_sql_updateE split: if_splits)

lemma not_due_after_open: "\<not> mi_expires_at (open_row now m) \<le> pg_of_js now"
  by (simp add: open_row_def day_ms_def)

lemma not_due_after_expire: "\<not> purge_reached now (expire_row now m)"
  by (simp add: purge_reached_def expire_row_def match_purge_ms_def)

lemma open_due_kept:
  assumes "open_due now n held d = (k, d')" "m \<in> set (match_init d')" "mi_expires_at m \<le> pg_of_js now \<or> mi_status m \<noteq> Awaiting_continuation"
  shows "m \<in> set (match_init d)"
proof -
  obtain p where "match_init d' = sql_update p (open_row now) (match_init d)"
    using assms(1) by (auto simp: open_due_def Let_def)
  with assms(2) have "m \<in> set (match_init d) \<or> (\<exists>n. m = open_row now n)"
    using updated_or_kept [of m p "open_row now" "match_init d"] by auto
  with assms(3) show ?thesis using not_due_after_open by auto
qed

lemma expire_due_changes:
  assumes "match_inv d" "expire_due now n held d = (k, d')"
  shows "\<exists>c. match_init d' = sql_update (chosen_match c) (expire_row now) (match_init d) \<and>
    (\<forall>m \<in> set (match_init d). chosen_match c m \<longrightarrow>
       mi_status m = Awaiting_continuation \<and> mi_expires_at m \<le> pg_of_js now)"
proof -
  define c where "c = sql_candidates (\<lambda>m. mi_status m = Awaiting_continuation \<and> mi_expires_at m \<le> pg_of_js now)
                expiry_order (\<lambda>m. held (mi_id m)) n (match_init d)"
  have sub: "set c \<subseteq> set (match_init d)" unfolding c_def by (rule sql_candidates_subset)
  have "match_init d' = sql_update (chosen_match c) (expire_row now) (match_init d)"
    using assms(2) by (auto simp: expire_due_def Let_def c_def [symmetric])
  moreover have "mi_status m = Awaiting_continuation \<and> mi_expires_at m \<le> pg_of_js now"
      if "m \<in> set (match_init d)" "chosen_match c m" for m
    using in_candidate_ids [OF match_table_okD(2) [OF match_invD(1) [OF assms(1)]] sub that(1)] that(2)
    by (auto simp: chosen_match_def c_def dest: sql_candidatesD)
  ultimately show ?thesis by blast
qed

lemma match_moves_then_update:
  assumes "match_moves t t1" "\<And>m. m \<in> set t1 \<Longrightarrow> p m \<Longrightarrow> m \<in> set t \<and> match_edge m (f m)"
  shows "match_moves t (sql_update p f t1)"
proof -
  have id: "mi_id (f m) = mi_id m" if "m \<in> set t1" "p m" for m
    using assms(2) [OF that] by (simp add: match_edge_def)
  have "mi_id ` set (sql_update p f t1) = mi_id ` set t1"
    unfolding set_sql_update image_image using id by (intro image_cong) auto
  moreover have "(\<exists>m \<in> set t. match_edge m (if p n then f n else n)) \<or>
      mi_id (if p n then f n else n) \<notin> mi_id ` set t \<and> mi_status (if p n then f n else n) = Active"
    if n: "n \<in> set t1" for n
  proof (cases "p n")
    case True
    with assms(2) [OF n] show ?thesis by auto
  next
    case False
    with assms(1) n show ?thesis by (simp add: match_moves_def)
  qed
  ultimately show ?thesis
    using assms(1) unfolding match_moves_def ball_sql_update by blast
qed

lemma match_moves_then_delete:
  assumes "match_moves t t1" "set t2 \<subseteq> set t1"
    and "\<And>m. m \<in> set t1 \<Longrightarrow> m \<notin> set t2 \<Longrightarrow> m \<in> set t \<and> (mi_status m = Expired \<or> mi_status m = Ended)"
    and "distinct (map mi_id t)"
  shows "match_moves t t2"
proof -
  have "mi_status m = Expired \<or> mi_status m = Ended" if m: "m \<in> set t" "mi_id m \<notin> mi_id ` set t2" for m
  proof (cases "mi_id m \<in> mi_id ` set t1")
    case True
    then obtain m1 where m1: "m1 \<in> set t1" "mi_id m = mi_id m1" by auto
    then have "m1 \<notin> set t2" using m(2) by auto
    with assms(3) [OF m1(1)] m1 m(1) distinct_keyD [OF assms(4)] show ?thesis by metis
  next
    case False
    with assms(1) m(1) show ?thesis by (auto simp: match_moves_def)
  qed
  then show ?thesis using assms(1,2) unfolding match_moves_def by blast
qed

lemma inv_maintenance:
  assumes inv: "match_inv d" and run: "run_maintenance now n h d = (b, d')"
  shows "match_inv d' \<and> match_moves (match_init d) (match_init d') \<and>
    (\<forall>m \<in> set (match_init d). mi_id m \<notin> mi_id ` set (match_init d') \<longrightarrow> purge_reached now m)"
proof -
  obtain k1 d1 where 1: "open_due now n (hr_match h) d = (k1, d1)" by fastforce
  obtain k2 d2 where 2: "expire_due now n (hr_match h) d1 = (k2, d2)" by fastforce
  obtain k3 d3 where 3: "delete_due_messages now n (hr_message h) d2 = (k3, d3)" by fastforce
  obtain k4 d4 where 4: "detach_due_reports now n (hr_report h) d3 = (k4, d4)" by fastforce
  obtain k5 where 5: "purge_matches now n (hr_match h) d4 = (k5, d')"
    using run by (auto simp: run_maintenance_def 1 2 3 4 split: prod.splits)
  note i1 = inv_open_due [OF inv 1]
  note i2 = inv_expire_due [OF i1(1) 2]
  obtain c where c: "match_init d2 = sql_update (chosen_match c) (expire_row now) (match_init d1)"
    "\<forall>m \<in> set (match_init d1). chosen_match c m \<longrightarrow>
       mi_status m = Awaiting_continuation \<and> mi_expires_at m \<le> pg_of_js now"
    using expire_due_changes [OF i1(1) 2] by blast
  have m2: "match_moves (match_init d) (match_init d2)"
    unfolding c(1) using i1(2)
    by (rule match_moves_then_update) (use c(2) open_due_kept [OF 1] in auto)
  have d4: "match_init d4 = match_init d2" "match_state d4 = match_state d2" "\<exists>p. chat_message d4 = sql_delete p (chat_message d2)"
    using arg_cong [OF delete_messages_frame(1) [of now n "hr_message h" d2], of match_init]
      arg_cong [OF delete_messages_frame(1) [of now n "hr_message h" d2], of match_state]
      delete_messages_frame(2) [of now n "hr_message h" d2]
      arg_cong [OF detach_reports_frame [of now n "hr_report h" d3], of match_init]
      arg_cong [OF detach_reports_frame [of now n "hr_report h" d3], of match_state]
      arg_cong [OF detach_reports_frame [of now n "hr_report h" d3], of chat_message]
    by (simp_all add: 3 4)
  then have i4: "match_inv d4" using i2(1) tables_delete_messages by (auto simp: match_inv_def)
  note i5 = purge_matches_gone [OF i4 5]
  have kept: "m \<in> set (match_init d)" if m: "m \<in> set (match_init d4)" "purge_reached now m" for m
  proof -
    have "m \<in> set (match_init d1)"
      using m not_due_after_expire updated_or_kept [of m "chosen_match c" "expire_row now" "match_init d1"]
      unfolding d4(1) c(1) by auto
    moreover have "mi_status m \<noteq> Awaiting_continuation" using m(2) by (auto simp: purge_reached_def)
    ultimately show ?thesis using open_due_kept [OF 1] by blast
  qed
  have over: "m \<in> set (match_init d) \<and> (mi_status m = Expired \<or> mi_status m = Ended) \<and> purge_reached now m"
    if "m \<in> set (match_init d4)" "m \<notin> set (match_init d')" for m
    using i5(3) [OF that] kept [OF that(1)] by (auto simp: purgeable_def purge_reached_def)
  have moves: "match_moves (match_init d) (match_init d')"
    using m2 [folded d4(1)] i5(4)
    by (rule match_moves_then_delete) (use over match_table_okD(2) [OF match_invD(1) [OF inv]] in auto)
  have "purge_reached now m" if m: "m \<in> set (match_init d)" "mi_id m \<notin> mi_id ` set (match_init d')" for m
  proof -
    have "map mi_id (match_init d1) = map mi_id (match_init d)"
      using 1 by (auto simp: open_due_def Let_def map_sql_update)
    then have "map mi_id (match_init d4) = map mi_id (match_init d)"
      unfolding d4(1) c(1) by (simp add: map_sql_update)
    then have "mi_id m \<in> set (map mi_id (match_init d4))" using m(1) by simp
    then obtain m4 where m4: "m4 \<in> set (match_init d4)" "mi_id m4 = mi_id m" by auto
    with m(2) have "m4 \<notin> set (match_init d')" by (metis image_eqI)
    from over [OF m4(1) this] match_idD [OF match_invD(1) [OF inv] _ m(1) m4(2)] show ?thesis by blast
  qed
  then show ?thesis using i5(1) moves by blast
qed

section \<open>The life of a match\<close>

inductive match_step :: "db \<Rightarrow> db \<Rightarrow> bool" where
  creates: "create_match v (new_match_row i a b now) d = Inr d' \<Longrightarrow> match_step d d'"
| reveals: "record_reveal clk i u d = Inr (d', r) \<Longrightarrow> match_step d d'"
| consents: "record_continuation_consent clk i u d = Inr (d', c) \<Longrightarrow> match_step d d'"
| looks: "messages_for_user clk i u n k cur d = (d', ms) \<Longrightarrow> match_step d d'"
| sends: "create_message v clk clk' i txt u content key d = Inr (d', s) \<Longrightarrow> match_step d d'"
| marks: "mark_message_read clk clk' i msg u d = (d', x) \<Longrightarrow> match_step d d'"
| marks_through: "mark_messages_read_through clk clk' i msg u d = (d', x) \<Longrightarrow> match_step d d'"
| opens: "open_continuation_window i now d = (opened, d') \<Longrightarrow> match_step d d'"
| expires: "match_step d (expire_awaiting_match i now d)"
| maintains: "run_maintenance now n h d = (res, d') \<Longrightarrow> match_step d d'"
| blocks: "block_user u w now clk d = Inr (d', done_block) \<Longrightarrow> match_step d d'"
| unblocks: "match_step d (unblock_user u w d)"
| anonymises: "match_step d (anonymise_matches u clk txt d)"

lemma inv_looks:
  assumes "match_inv d" "messages_for_user clk i u n k cur d = (d', ms)"
  shows "match_inv d' \<and> match_moves (match_init d) (match_init d')"
  using assms(2) inv_lock [OF assms(1)]
  by (auto simp: messages_for_user_def split: prod.splits sum.splits)

lemma inv_match_step:
  assumes "match_inv d" "match_step d d'"
  shows "match_inv d' \<and> match_moves (match_init d) (match_init d')"
  using assms(2)
proof cases
  case creates with assms(1) show ?thesis by (rule inv_create_match)
next
  case reveals
  then show ?thesis using inv_reveal [OF assms(1)] by blast
next
  case consents with assms(1) show ?thesis by (rule inv_consent)
next
  case looks with assms(1) show ?thesis by (rule inv_looks)
next
  case sends with assms(1) show ?thesis by (rule inv_send)
next
  case marks with assms(1) show ?thesis by (rule inv_mark_read)
next
  case marks_through with assms(1) show ?thesis by (rule inv_mark_through)
next
  case opens with assms(1) show ?thesis by (rule inv_open_window)
next
  case expires with inv_expire_awaiting [OF assms(1)] show ?thesis by simp
next
  case maintains with inv_maintenance [OF assms(1)] show ?thesis by blast
next
  case blocks with assms(1) show ?thesis by (rule inv_block)
next
  case (unblocks u w)
  with assms(1) show ?thesis by (simp add: unblock_user_def match_inv_def)
next
  case anonymises with inv_anonymise [OF assms(1)] show ?thesis by simp
qed

lemma inv_match_reachable:
  "match_step\<^sup>*\<^sup>* d0 d \<Longrightarrow> match_inv d0 \<Longrightarrow> match_inv d"
  by (induction rule: rtranclp_induct) (use inv_match_step in blast)+

text \<open>C12. Over any interleaving of requests, maintenance batches, blocks and erasures a match lives by its
  status machine: each step leaves it as it is or moves it along one edge (active, awaiting
  continuation, then confirmed or expired; ended from any open status), a new match starts active,
  and a match disappears only after it expired or ended. A confirmed match has the recorded consent of
  both users, an open match has no purge date and a closed one has one.\<close>

theorem match_life:
  assumes "match_inv d0" "match_step\<^sup>*\<^sup>* d0 d" "match_step d d'"
  shows "(\<forall>m' \<in> set (match_init d'). (\<exists>m \<in> set (match_init d). mi_id m = mi_id m' \<and> match_pair m = match_pair m' \<and>
        (mi_status m = mi_status m' \<or> (mi_status m, mi_status m') \<in> status_edges)) \<or>
        mi_status m' = Active \<and> mi_id m' \<notin> mi_id ` set (match_init d)) \<and>
    (\<forall>m \<in> set (match_init d). mi_id m \<notin> mi_id ` set (match_init d') \<longrightarrow>
        mi_status m = Expired \<or> mi_status m = Ended) \<and>
    (\<forall>m' \<in> set (match_init d'). mi_status m' = Confirmed \<longrightarrow>
        continued_by (match_state d') (mi_id m') (mi_user1 m') \<and>
        continued_by (match_state d') (mi_id m') (mi_user2 m')) \<and>
    (\<forall>m' \<in> set (match_init d'). (mi_purge_after m' = None) = open_status (mi_status m'))"
proof -
  have inv: "match_inv d'" "match_moves (match_init d) (match_init d')"
    using inv_match_step [OF inv_match_reachable [OF assms(2,1)] assms(3)] by blast+
  have row: "match_ok (match_state d') m'" if "m' \<in> set (match_init d')" for m'
    using match_invD(2) [OF inv(1) that] .
  have edge: "match_edge m m' \<Longrightarrow> mi_id m = mi_id m' \<and> match_pair m = match_pair m' \<and>
        (mi_status m = mi_status m' \<or> (mi_status m, mi_status m') \<in> status_edges)" for m m'
    by (auto simp: match_edge_def)
  show ?thesis
    using inv(2) edge row unfolding match_moves_def match_ok_def by blast
qed

end
