(* ===== verification/Match_Consent.thy ===== *)
theory Match_Consent
  imports Match_Steps
begin

text \<open>
  Continuing and revealing: what each answer of the repository means for the match, for the
  consents and for the initiator's weekly quota.
\<close>

section \<open>Reading back one match\<close>

lemma find_for_user_eq:
  assumes "match_inv d" "m \<in> set (match_init d)" "mi_id m = i" "participant u m"
  shows "find_for_user i u d = Some m"
proof -
  have "sql_first (\<lambda>m. mi_id m = i \<and> participant u m) (match_init d) = Some m"
    by (rule sql_first_key [where k = mi_id, OF match_table_okD(2) [OF match_invD(1) [OF assms(1)]] assms(2)])
      (use assms(3,4) in auto)
  then show ?thesis by (simp add: find_for_user_def)
qed

lemma find_after_update:
  assumes "match_inv (update_match i f d)" "m \<in> set (match_init d)" "mi_id m = i"
    "mi_id (f m) = i" "participant u (f m)"
  shows "find_for_user i u (update_match i f d) = Some (f m)"
proof (rule find_for_user_eq [OF assms(1) _ assms(4,5)])
  show "f m \<in> set (match_init (update_match i f d))"
    using assms(2,3) by (force simp: update_match_def set_sql_update)
qed

section \<open>Continuation\<close>

definition charges :: "uuid \<Rightarrow> js_time \<Rightarrow> db \<Rightarrow> db \<Rightarrow> bool" where
  "charges x now d d' \<longleftrightarrow> (\<exists>code limit. effective_plan x now d = Inr (code, limit) \<and>
     (case limit of
        None \<Rightarrow> \<forall>v w. continuation_usage_of v w d' = continuation_usage_of v w d
      | Some n \<Rightarrow> continuation_usage_of x (start_of_utc_week now) d < n \<and>
          (\<forall>v w. continuation_usage_of v w d' = continuation_usage_of v w d +
            (if v = x \<and> w = start_of_utc_week now then 1 else 0))))"

lemma continuation_usage_of_cong:
  "continuation_usage d' = continuation_usage d \<Longrightarrow> continuation_usage_of v w d' = continuation_usage_of v w d"
  by (simp add: continuation_usage_of_def)

lemma confirmed_charges:
  assumes "effective_plan x now d = Inr (code, limit)" "continuation_usage d' = usage"
    and "case limit of None \<Rightarrow> usage = continuation_usage d
       | Some n \<Rightarrow> fst (consume_quota x (start_of_utc_week now) n d) \<and>
           usage = continuation_usage (snd (consume_quota x (start_of_utc_week now) n d))"
  shows "charges x now d d'"
proof (cases limit)
  case None
  with assms show ?thesis unfolding charges_def
    using continuation_usage_of_cong [of d' d] by auto
next
  case (Some n)
  let ?c = "consume_quota x (start_of_utc_week now) n d"
  have c: "fst ?c" "continuation_usage d' = continuation_usage (snd ?c)" using assms Some by simp_all
  have "continuation_usage_of v w d' = continuation_usage_of v w (snd ?c)" for v w
    using c(2) by (rule continuation_usage_of_cong)
  with assms(1) c(1) Some show ?thesis unfolding charges_def
    by (intro exI [of _ code] exI [of _ limit]) (simp add: consume_quota_usage consume_quota_allowed)
qed

lemma second_row:
  assumes "match_inv d" "m \<in> set (match_init d)" "mi_status m = Active \<or> mi_status m = Awaiting_continuation"
    "mi_initiator m = Some x"
  shows "mi_status m = Awaiting_continuation" "current_row now m = m" "current_db now m d = d"
  using match_invD(2) [OF assms(1,2)] assms(3,4)
  by (auto simp: match_ok_def current_row_def current_db_def)

text \<open>What the second consent leaves.\<close>

lemma consent_confirmed:
  assumes inv: "match_inv d" and run: "record_continuation_consent clk i u d = Inr (d', Cr_confirmed)"
  shows "\<exists>m x. find_for_user i u d = Some m \<and> mi_status m = Awaiting_continuation \<and>
    mi_initiator m = Some x \<and> x \<noteq> u \<and> js_of_pg clk < js_of_pg (mi_expires_at m) \<and>
    continued_by (match_state d') i x \<and> continued_by (match_state d') i u \<and>
    find_for_user i u d' = Some (confirm_row m) \<and> charges x (js_of_pg clk) d d'"
  using run
proof (cases rule: consent_cases)
  case (Second m x s)
  have ok: "match_ok (match_state d) m" using match_invD(2) [OF inv Second(1)] .
  note st = second_row(1) [OF inv Second(1,4,6)] and now = second_row(2,3) [OF inv Second(1,4,6)]
  note both = consent_completes [OF inv Second(1-3) st Second(6-10)]
  have "participant x m" "continued_by (match_state d) i x"
    using ok st Second(2,6) by (auto simp: match_ok_def)
  moreover have "\<not> continued_by (match_state d) i u" by (rule not_yet_continued [OF inv Second(7-10)])
  ultimately have x: "participant x m" "x \<noteq> u" by auto
  have inv': "match_inv d'" using inv_consent [OF inv run] by blast
  show ?thesis
  proof (rule second_consent_cases [OF inv Second(1-3) st Second(6,5) [unfolded now] Second(7-10)
        Second(11) [unfolded now]], goal_cases Quota Done)
    case (Done code limit usage)
    have "confirm_row m \<in> set (match_init d')"
      using Second(1,2) by (force simp: Done(3) set_sql_update)
    moreover have "participant u (confirm_row m)" using Second(3) by (simp add: confirm_row_def participant_def)
    ultimately have "find_for_user i u d' = Some (confirm_row m)"
      using find_for_user_eq [OF inv'] Second(2) by simp
    moreover have "charges x (js_of_pg clk) d d'"
      by (rule confirmed_charges [OF Done(1) _ Done(4)]) (simp add: Done(3))
    moreover have "continued_by (match_state d') i x" "continued_by (match_state d') i u"
      using both x(1) Second(3) by (auto simp: Done(3) continue_states_def participant_def)
    ultimately show ?thesis
      using find_for_user_eq [OF inv Second(1-3)] st Second(5,6) x(2) unfolding now by blast
  qed simp
qed simp_all

lemma consent_free:
  assumes inv: "match_inv d" and run: "record_continuation_consent clk i u d = Inr (d', r)" and "r \<noteq> Cr_confirmed"
  shows "continuation_usage d' = continuation_usage d"
  using run
proof (cases rule: consent_cases)
  case (First m d2)
  then show ?thesis using mark_continued_Inr [OF First(6)] by (simp add: current_db_def update_match_def)
next
  case (Second m x s)
  note st = second_row(1) [OF inv Second(1,4,6)] and now = second_row(2,3) [OF inv Second(1,4,6)]
  show ?thesis
    by (rule second_consent_cases [OF inv Second(1-3) st Second(6,5) [unfolded now] Second(7-10)
        Second(11) [unfolded now]]) (use assms(3) in simp_all)
qed (simp_all add: current_db_def update_match_def)

lemma consent_quota:
  assumes inv: "match_inv d" and run: "record_continuation_consent clk i u d = Inr (d', Cr_quota_reached)"
  shows "d' = d \<and> (\<exists>m x code n. find_for_user i u d = Some m \<and> mi_initiator m = Some x \<and>
    effective_plan x (js_of_pg clk) d = Inr (code, Some n) \<and>
    (n \<le> 0 \<or> n \<le> continuation_usage_of x (start_of_utc_week (js_of_pg clk)) d))"
  using run
proof (cases rule: consent_cases)
  case (Second m x s)
  note st = second_row(1) [OF inv Second(1,4,6)] and now = second_row(2,3) [OF inv Second(1,4,6)]
  show ?thesis
  proof (rule second_consent_cases [OF inv Second(1-3) st Second(6,5) [unfolded now] Second(7-10)
        Second(11) [unfolded now]], goal_cases Quota Done)
    case (Quota code n)
    then show ?case
      using find_for_user_eq [OF inv Second(1-3)] Second(6) unfolding consume_quota_allowed by fastforce
  qed simp
qed simp_all

lemma consent_pending:
  assumes inv: "match_inv d" and run: "record_continuation_consent clk i u d = Inr (d', Cr_pending)"
  shows "continued_by (match_state d') i u \<and> (\<exists>m. find_for_user i u d' = Some m \<and>
    mi_status m = Awaiting_continuation \<and> mi_initiator m = Some u)"
  using run
proof (cases rule: consent_cases)
  case (First m d2)
  let ?f = "\<lambda>x. x\<lparr>mi_initiator := Some u\<rparr>"
  have inv': "match_inv (update_match i ?f d2)" using inv_consent [OF inv run] First(8) by simp
  have d2: "d2 = (current_db (js_of_pg clk) m d)\<lparr>match_state := continue_states i u (match_state (current_db (js_of_pg clk) m d))\<rparr>"
    using mark_continued_Inr [OF First(6)] by (simp add: continue_states_def)
  have "current_row (js_of_pg clk) m \<in> set (match_init d2)"
    using First(1,2) by (force simp: d2 current_row_def current_db_def update_match_def set_sql_update)
  then have "find_for_user i u (update_match i ?f d2) = Some (?f (current_row (js_of_pg clk) m))"
    by (rule find_after_update [OF inv'])
      (use First(2,3) in \<open>simp_all add: current_row_def open_row_def participant_def\<close>)
  moreover have "continued_by (match_state d') i u"
    using First(7) by (auto simp: First(8) d2 update_match_def current_db_def continue_states_def
        continued_by_def sql_exists_iff bex_sql_update)
  moreover have "mi_status (current_row (js_of_pg clk) m) = Awaiting_continuation"
    using First(4) by (auto simp: current_row_def)
  ultimately show ?thesis by (simp add: First(8))
next
  case (Second m x s)
  note st = second_row(1) [OF inv Second(1,4,6)] and now = second_row(2,3) [OF inv Second(1,4,6)]
  show ?thesis
    by (rule second_consent_cases [OF inv Second(1-3) st Second(6,5) [unfolded now] Second(7-10)
        Second(11) [unfolded now]]) simp_all
qed simp_all

text \<open>C13. Consent to continue: a match is confirmed exactly by the second consent, while its window is
  open, and then both consents are recorded and the first to consent is charged one continuation
  of the week if its plan has a weekly limit, never beyond the limit; no other answer charges
  anything. The first consent makes its user the initiator. When the limit is reached nothing changes.\<close>

theorem continuation_consent_spec:
  assumes "match_inv d" "record_continuation_consent clk i u d = Inr (d', r)"
  shows "(r = Cr_confirmed \<longrightarrow> (\<exists>m x. find_for_user i u d = Some m \<and> mi_status m = Awaiting_continuation \<and>
        mi_initiator m = Some x \<and> x \<noteq> u \<and> js_of_pg clk < js_of_pg (mi_expires_at m) \<and>
        continued_by (match_state d') i x \<and> continued_by (match_state d') i u \<and>
        find_for_user i u d' = Some (confirm_row m) \<and> charges x (js_of_pg clk) d d')) \<and>
    (r \<noteq> Cr_confirmed \<longrightarrow> continuation_usage d' = continuation_usage d) \<and>
    (r = Cr_pending \<longrightarrow> continued_by (match_state d') i u \<and> (\<exists>m. find_for_user i u d' = Some m \<and>
        mi_status m = Awaiting_continuation \<and> mi_initiator m = Some u)) \<and>
    (r = Cr_quota_reached \<longrightarrow> d' = d \<and> (\<exists>m x code n. find_for_user i u d = Some m \<and> mi_initiator m = Some x \<and>
        effective_plan x (js_of_pg clk) d = Inr (code, Some n) \<and>
        (n \<le> 0 \<or> n \<le> continuation_usage_of x (start_of_utc_week (js_of_pg clk)) d)))"
proof -
  have "r = Cr_confirmed \<Longrightarrow> record_continuation_consent clk i u d = Inr (d', Cr_confirmed)"
    "r = Cr_pending \<Longrightarrow> record_continuation_consent clk i u d = Inr (d', Cr_pending)"
    "r = Cr_quota_reached \<Longrightarrow> record_continuation_consent clk i u d = Inr (d', Cr_quota_reached)"
    using assms(2) by simp_all
  note parts = consent_confirmed [OF assms(1) this(1)] consent_free [OF assms]
    consent_pending [OF assms(1) this(2)] consent_quota [OF assms(1) this(3)]
  show ?thesis by (rule conjI [OF impI conjI [OF impI conjI [OF impI impI]]]) (rule parts, assumption)+
qed

text \<open>A match in its second day: the first user has agreed, the second now does; the free plan allows
  one continuation a week.\<close>

definition sample_plans :: "plan_row list" where
  "sample_plans = [\<lparr> pl_code = ''free'', pl_weekly_limit = Some 1, pl_trial_days = 0, pl_active = True \<rparr>]"

definition sample_users :: "account_row list" where
  "sample_users =
     [\<lparr> ua_id = ''u1'', ua_role = User, ua_phone_hash = ''h1'', ua_phone_encrypted = [], ua_banned = False, ua_deleted_at = None \<rparr>,
      \<lparr> ua_id = ''u2'', ua_role = User, ua_phone_hash = ''h2'', ua_phone_encrypted = [], ua_banned = False, ua_deleted_at = None \<rparr>]"

definition sample_match :: match_row where
  "sample_match = (open_row 0 (new_match_row ''m1'' ''u1'' ''u2'' 0))\<lparr>mi_initiator := Some ''u1''\<rparr>"

definition match_db :: db where
  "match_db = empty_db\<lparr>user_account := sample_users, subscription_plan := sample_plans,
     match_init := [sample_match],
     match_state := [(new_state_row ''m1'' ''u1'')\<lparr>ms_continued := True\<rparr>, new_state_row ''m1'' ''u2'']\<rparr>"

lemmas match_db_defs = match_db_def sample_match_def sample_users_def sample_plans_def empty_db_def
  open_row_def new_match_row_def new_state_row_def day_ms_def

lemma match_db_inv: "match_inv match_db"
  by (simp add: match_inv_def match_tables_ok_def match_table_ok_def message_table_ok_def match_ok_def
      match_db_defs match_pair_def state_key_def open_status_def participant_def continued_by_def)

lemma match_db_confirms: "\<exists>d'. record_continuation_consent 5000 ''m1'' ''u2'' match_db = Inr (d', Cr_confirmed)"
  by (simp add: record_continuation_consent_def second_consent_def effective_plan_def entitling_def
      consume_quota_def mark_continued_def update_match_states_def match_has_deleted_def account_deleted_def
      confirmable_def match_db_defs participant_def js_of_pg_def pg_of_js_def usage_key_def Let_def)

theorem continuation_consent_spec_witness:
  "\<exists>d'. record_continuation_consent 5000 ''m1'' ''u2'' match_db = Inr (d', Cr_confirmed) \<and>
     charges ''u1'' 5 match_db d'"
proof -
  obtain d' where run: "record_continuation_consent 5000 ''m1'' ''u2'' match_db = Inr (d', Cr_confirmed)"
    using match_db_confirms ..
  obtain m x where m: "find_for_user ''m1'' ''u2'' match_db = Some m" "mi_initiator m = Some x"
    and x: "charges x (js_of_pg 5000) match_db d'"
    using continuation_consent_spec [OF match_db_inv run] by blast
  have "x = ''u1''"
    using m by (auto simp: find_for_user_def match_db_defs participant_def)
  with x run show ?thesis by (auto simp: js_of_pg_def)
qed

theorem match_life_witness:
  "\<exists>d'. match_step match_db d' \<and> (\<exists>m' \<in> set (match_init d'). mi_status m' = Confirmed \<and>
     continued_by (match_state d') (mi_id m') (mi_user1 m') \<and> continued_by (match_state d') (mi_id m') (mi_user2 m'))"
proof -
  obtain d' where run: "record_continuation_consent 5000 ''m1'' ''u2'' match_db = Inr (d', Cr_confirmed)"
    using match_db_confirms ..
  then have step: "match_step match_db d'" by (rule match_step.consents)
  obtain m where "find_for_user ''m1'' ''u2'' d' = Some (confirm_row m)"
    using consent_confirmed [OF match_db_inv run] by blast
  then have "confirm_row m \<in> set (match_init d')" unfolding find_for_user_def by (auto dest: sql_first_SomeD)
  with match_life [OF match_db_inv rtranclp.rtrancl_refl step] step show ?thesis
    by (intro exI conjI bexI [of _ "confirm_row m"]) auto
qed

section \<open>Revealing\<close>

definition revealed_by :: "match_state_row list \<Rightarrow> uuid \<Rightarrow> uuid \<Rightarrow> bool" where
  "revealed_by ss i u = sql_exists (\<lambda>s. ms_match_id s = i \<and> ms_user_id s = u \<and> ms_revealed s) ss"

lemma record_reveal_Inr:
  assumes "record_reveal clk i u d = Inr (d', Inr b)"
  obtains m d1 where "lock_messaging_match clk i u d = (d1, Inr m)"
    "d' = d1\<lparr>match_state := sql_update (\<lambda>s. ms_match_id s = i \<and> ms_user_id s = u)
       (\<lambda>s. s\<lparr>ms_revealed := True\<rparr>) (match_state d)\<rparr>"
    "sql_exists (\<lambda>s. ms_match_id s = i \<and> ms_user_id s = u) (match_state d)"
    "b \<longleftrightarrow> length (filter (\<lambda>s. ms_match_id s = i) (match_state d)) = 2 \<and>
       list_all (\<lambda>s. ms_revealed s \<or> ms_user_id s = u) (filter (\<lambda>s. ms_match_id s = i) (match_state d))"
proof -
  obtain d1 l where l: "lock_messaging_match clk i u d = (d1, l)" by (cases "lock_messaging_match clk i u d")
  have st: "match_state d1 = match_state d" using arg_cong [OF lock_frame [OF l], of match_state] by simp
  show thesis
  proof (cases l)
    case (Inl f)
    with assms l show thesis by (simp add: record_reveal_def)
  next
    case (Inr m)
    with assms l st show thesis
      by (intro that [of d1 m])
        (auto simp: record_reveal_def Let_def update_match_states_def elim!: and_then_InrE split: if_splits)
  qed
qed

text \<open>Photos are revealed when both users agreed: the answer \<open>true\<close> means that the consents of both are now
  recorded, and any answer means that the user's own consent is, on a match that is open and is theirs.\<close>

theorem reveal_needs_both:
  assumes "match_inv d" "record_reveal clk i u d = Inr (d', Inr b)"
  shows "revealed_by (match_state d') i u \<and>
    (\<exists>m. find_for_user i u d' = Some m \<and> open_status (mi_status m) \<and>
      (b \<longrightarrow> revealed_by (match_state d') i (mi_user1 m) \<and> revealed_by (match_state d') i (mi_user2 m)))"
  using assms(2)
proof (rule record_reveal_Inr)
  fix m d1
  let ?ss = "sql_update (\<lambda>s. ms_match_id s = i \<and> ms_user_id s = u) (\<lambda>s. s\<lparr>ms_revealed := True\<rparr>) (match_state d)"
  assume l: "lock_messaging_match clk i u d = (d1, Inr m)"
    and d': "d' = d1\<lparr>match_state := ?ss\<rparr>"
    and ex: "sql_exists (\<lambda>s. ms_match_id s = i \<and> ms_user_id s = u) (match_state d)"
    and b: "b \<longleftrightarrow> length (filter (\<lambda>s. ms_match_id s = i) (match_state d)) = 2 \<and>
       list_all (\<lambda>s. ms_revealed s \<or> ms_user_id s = u) (filter (\<lambda>s. ms_match_id s = i) (match_state d))"
  note m = lock_Inr [OF assms(1) l] and inv1 = inv_lock(1) [OF assms(1) l]
  have st: "match_state d1 = match_state d" using arg_cong [OF lock_frame [OF l], of match_state] by simp
  have mine: "revealed_by ?ss i u"
    using ex by (auto simp: revealed_by_def sql_exists_iff bex_sql_update)
  have "match_inv d'" using inv_reveal [OF assms] by blast
  then have found: "find_for_user i u d' = Some m"
    by (rule find_for_user_eq) (simp_all add: d' m)
  have both: "revealed_by ?ss i w" if "b" "w = mi_user1 m \<or> w = mi_user2 m" for w
  proof -
    let ?f = "filter (\<lambda>s. ms_match_id s = i) (match_state d)"
    have users: "ms_user_id s = mi_user1 m \<or> ms_user_id s = mi_user2 m" if "s \<in> set ?f" for s
      using states_of_match [OF inv1 m(1), of s] that m(2) st by simp
    have "distinct (map state_key ?f)" using match_invD(3) [OF assms(1)] by (simp add: distinct_map_filter)
    then have "distinct (map ms_user_id ?f)" by (auto simp: distinct_map inj_on_def state_key_def)
    then have "card (set (map ms_user_id ?f)) = 2" using b \<open>b\<close> by (metis distinct_card length_map)
    moreover have "set (map ms_user_id ?f) \<subseteq> {mi_user1 m, mi_user2 m}" using users by auto
    moreover have "mi_user1 m \<noteq> mi_user2 m" using match_table_okD(1) [OF match_invD(1) [OF inv1] m(1)] by auto
    ultimately have "set (map ms_user_id ?f) = {mi_user1 m, mi_user2 m}"
      by (intro card_subset_eq) simp_all
    with that(2) have "w \<in> set (map ms_user_id ?f)" by blast
    then obtain s where s: "s \<in> set ?f" "ms_user_id s = w" by (auto simp del: set_filter)
    have "list_all (\<lambda>s. ms_revealed s \<or> ms_user_id s = u) ?f" using b \<open>b\<close> by blast
    then have "ms_revealed s \<or> ms_user_id s = u" using s(1) unfolding list_all_iff by (rule bspec)
    then have "ms_revealed s \<or> w = u" using s(2) by simp
    then show ?thesis
    proof
      assume "ms_revealed s"
      with s show ?thesis unfolding revealed_by_def sql_exists_iff bex_sql_update
        by (intro bexI [of _ s]) simp_all
    qed (use mine in simp)
  qed
  show ?thesis
  proof (intro conjI exI)
    show "b \<longrightarrow> revealed_by (match_state d') i (mi_user1 m) \<and> revealed_by (match_state d') i (mi_user2 m)"
      using both by (simp add: d')
  qed (use mine found m(4) in \<open>simp_all add: d'\<close>)
qed

theorem reveal_needs_both_witness:
  "\<exists>d'. record_reveal 5000 ''m1'' ''u2'' match_db = Inr (d', Inr False) \<and> revealed_by (match_state d') ''m1'' ''u2''"
proof -
  obtain d' where run: "record_reveal 5000 ''m1'' ''u2'' match_db = Inr (d', Inr False)"
    by (simp add: record_reveal_def lock_messaging_match_def available_to_def update_match_states_def
        match_has_deleted_def account_deleted_def match_db_defs participant_def js_of_pg_def pg_of_js_def Let_def)
  show ?thesis using reveal_needs_both [OF match_db_inv run] run by blast
qed

end
