(* ===== verification/Match_Messaging.thy ===== *)
theory Match_Messaging
  imports Match_Consent "HOL-Library.Multiset"
begin

text \<open>
  Messages are sent once per idempotency key, the pages of a user's matches are the pages of one
  sorted list, and two places where the service compares identifiers as text while PostgreSQL compares
  them as UUIDs.
\<close>

section \<open>Sending once\<close>

lemma account_deleted_frame: "user_account d' = user_account d \<Longrightarrow> account_deleted u d' = account_deleted u d"
  by (simp add: account_deleted_def)

lemma lock_accounts:
  assumes "lock_messaging_match clk i u d = (d', r)"
  shows "user_account d' = user_account d" "chat_message d' = chat_message d"
  using arg_cong [OF lock_frame [OF assms], of user_account] arg_cong [OF lock_frame [OF assms], of chat_message]
  by simp_all

lemma find_idempotent_Some:
  assumes inv: "match_inv d" and c: "c \<in> set (chat_message d)" "message_key c = (u, Some key)"
    and m: "m \<in> set (match_init d)" "mi_id m = cm_match_id c"
      "\<not> account_deleted (mi_user1 m) d" "\<not> account_deleted (mi_user2 m) d"
  shows "find_idempotent_message u key d = Some (message_of_row c, mi_user1 m, mi_user2 m)"
proof -
  let ?live = "\<lambda>c m. mi_id m = cm_match_id c \<and> \<not> account_deleted (mi_user1 m) d \<and> \<not> account_deleted (mi_user2 m) d"
  let ?p = "\<lambda>c. message_key c = (u, Some key) \<and> sql_exists (?live c) (match_init d)"
  have keyed: "unique_where has_message_key message_key (chat_message d)"
    using match_invD(5) [OF inv] by (simp add: message_table_ok_def)
  have pc: "?p c" using c(2) m by (auto simp: sql_exists_iff)
  obtain c' where c': "sql_first ?p (chat_message d) = Some c'"
    using c(1) pc sql_first_None_iff [of ?p "chat_message d"] by blast
  have h: "has_message_key x" if "message_key x = (u, Some key)" for x
    using that by (simp add: message_key_def has_message_key_def)
  have "c' = c"
    using sql_first_SomeD [OF c'] c h by (intro unique_whereD [OF keyed]) simp_all
  moreover have "sql_first (?live c) (match_init d) = Some m"
    by (rule sql_first_key [where k = mi_id, OF match_table_okD(2) [OF match_invD(1) [OF inv]] m(1)])
      (use m in auto)
  ultimately show ?thesis using c' by (simp add: find_idempotent_message_def Let_def)
qed

lemma accepted_message_found:
  assumes inv: "match_inv d" and run: "create_message v clk clk' i txt u content key d = Inr (d', Inr c)"
  shows "find_idempotent_message u key d' = Some (mc_message c, mc_participants c)"
    "me_content (mc_message c) = content" "me_match_id (mc_message c) = (if mc_created c then pg_uuid txt else txt)"
    "chat_message d' = chat_message d @ (if mc_created c then [new_message_row i (pg_uuid txt) u content key clk'] else [])"
proof -
  have replayed: "mc_message c = fst x \<and> mc_participants c = snd x \<and> me_content (fst x) = content \<and>
      me_match_id (fst x) = txt \<and> \<not> mc_created c"
    if "replay_result txt content x = Inr c" for x
    using that by (auto simp: replay_result_def split: prod.splits if_splits)
  have "find_idempotent_message u key d' = Some (mc_message c, mc_participants c) \<and>
      me_content (mc_message c) = content \<and> me_match_id (mc_message c) = (if mc_created c then pg_uuid txt else txt) \<and>
      chat_message d' = chat_message d @ (if mc_created c then [new_message_row i (pg_uuid txt) u content key clk'] else [])"
    using run
  proof (cases rule: create_message_cases)
    case (Replay x)
    then show ?thesis using replayed [of x] by auto
  next
    case (Conflict m)
    then obtain x where "find_idempotent_message u key d' = Some x" "replay_result txt content x = Inr c"
      by (auto split: option.splits)
    then show ?thesis using replayed [of x] lock_accounts [OF Conflict(2)] by auto
  next
    case (Sent m d1 d2)
    let ?c = "new_message_row i (pg_uuid txt) u content key clk'"
    let ?d3 = "update_match (pg_uuid txt) (touch_last_message clk') d2"
    note m = lock_Inr [OF inv Sent(2)] and frame = enqueue_notification_matches [OF Sent(4)]
    have d2: "d2 = d1\<lparr>chat_message := chat_message d1 @ [?c]\<rparr>" using insert_message_Inr(1) [OF Sent(3)] by simp
    have chat: "chat_message d' = chat_message d @ [?c]"
      using lock_accounts(2) [OF Sent(2)] by (simp add: frame update_match_def d2)
    have acc: "account_deleted w d' = account_deleted w d" for w
      using lock_accounts(1) [OF Sent(2)] by (intro account_deleted_frame) (simp add: frame update_match_def d2)
    have "touch_last_message clk' m \<in> set (match_init d')"
      using m(1,2) by (force simp: frame update_match_def d2 set_sql_update)
    then have "find_idempotent_message u key d' =
        Some (message_of_row ?c, mi_user1 (touch_last_message clk' m), mi_user2 (touch_last_message clk' m))"
      using conjunct1 [OF inv_send [OF inv run]] m
      by (intro find_idempotent_Some) (simp_all add: chat acc new_message_row_def message_key_def touch_last_message_def)
    then show ?thesis using Sent(5) chat
      by (simp add: touch_last_message_def message_of_row_def new_message_row_def)
  qed simp
  then show "find_idempotent_message u key d' = Some (mc_message c, mc_participants c)"
    "me_content (mc_message c) = content" "me_match_id (mc_message c) = (if mc_created c then pg_uuid txt else txt)"
    "chat_message d' = chat_message d @ (if mc_created c then [new_message_row i (pg_uuid txt) u content key clk'] else [])"
    by blast+
qed


definition confirmed_db :: db where
  "confirmed_db = match_db\<lparr>match_init := [confirm_row sample_match],
     match_state := [(new_state_row ''m1'' ''u1'')\<lparr>ms_continued := True\<rparr>, (new_state_row ''m1'' ''u2'')\<lparr>ms_continued := True\<rparr>]\<rparr>"

lemmas confirmed_db_defs = confirmed_db_def match_db_defs confirm_row_def

lemma confirmed_db_inv: "match_inv confirmed_db"
  by (simp add: match_inv_def match_tables_ok_def match_table_ok_def message_table_ok_def match_ok_def
      confirmed_db_defs match_pair_def state_key_def open_status_def participant_def continued_by_def)

definition sample_env :: notify_env where
  "sample_env = \<lparr> nv_sha256_hex = (\<lambda>_. replicate 64 (CHR ''a'')), nv_id = ''n1'',
     nv_job_id = (\<lambda>k. replicate k (CHR ''j'')), nv_now = 0, nv_clock = 0 \<rparr>"

definition sample_key :: uuid where
  "sample_key = ''11111111-1111-4111-8111-111111111111''"

lemmas send_defs = create_message_def find_idempotent_message_def lock_messaging_match_def available_to_def
  insert_message_def match_has_deleted_def account_deleted_def enqueue_notification_def
  candidate_notification_def notification_row_ok_def active_account_def dedup_key_def push_targets_def write_outbox_def
  update_match_def confirmed_db_defs sample_env_def participant_def new_message_row_def

lemma canonical_m1: "pg_uuid ''m1'' = ''m1''" "pg_uuid ''M1'' = ''m1''"
  by code_simp+

lemma sample_hex: "hex64 (replicate 64 (CHR ''a''))"
  by (simp add: hex64_def list_all_length)

lemma confirmed_db_sends:
  "pg_uuid txt = ''m1'' \<Longrightarrow> \<exists>d' c. create_message sample_env 5000 6000 ''c1'' txt ''u2'' ''hi'' k confirmed_db = Inr (d', Inr c) \<and> mc_created c"
  using sample_hex by (simp add: send_defs message_key_def has_message_key_def Let_def)


section \<open>Identifiers in upper case\<close>

text \<open>The DTO accepts a UUID in either case and PostgreSQL compares UUIDs, but the replay check compares the
  text of the request with the stored match id: a message sent to a match id written with an upper-case letter is
  accepted, and the retry of the very same request is refused as a conflict with another request.\<close>

theorem uppercase_retry_conflicts:
  assumes "match_inv d" "pg_uuid txt \<noteq> txt"
    and "create_message v clk clk' i txt u content key d = Inr (d', Inr c)" "mc_created c"
  shows "create_message v2 clk2 clk2' i2 txt u content key d' = Inr (d', Inl Idempotency_conflict_message)"
proof -
  note a = accepted_message_found [OF assms(1,3)]
  have "me_match_id (mc_message c) \<noteq> txt" using a(3) assms(2,4) by simp
  then show ?thesis by (simp add: create_message_def a(1) replay_result_def)
qed

theorem uppercase_retry_conflicts_witness:
  "\<exists>d' c. create_message sample_env 5000 6000 ''c1'' ''M1'' ''u2'' ''hi'' ''k'' confirmed_db = Inr (d', Inr c) \<and>
     create_message sample_env 7000 8000 ''c2'' ''M1'' ''u2'' ''hi'' ''k'' d' = Inr (d', Inl Idempotency_conflict_message)"
proof -
  obtain d' c where run: "create_message sample_env 5000 6000 ''c1'' ''M1'' ''u2'' ''hi'' ''k'' confirmed_db = Inr (d', Inr c)"
    "mc_created c"
    using confirmed_db_sends [OF canonical_m1(2)] by blast
  have "pg_uuid ''M1'' \<noteq> ''M1''" by (simp add: canonical_m1)
  with run show ?thesis using uppercase_retry_conflicts [OF confirmed_db_inv _ run] by blast
qed

lemma create_match_misordered:
  assumes "has_active_account b d" "has_active_account a d" "\<not> blocked_pair b a d"
    and "distinct (map ua_id (user_account d))" "\<not> b < a"
  shows "create_match v (new_match_row i b a now) d = Inl Check_violation"
proof -
  have alive: "\<not> account_deleted w d" if active: "has_active_account w d" for w
  proof
    assume "account_deleted w d"
    then obtain x where x: "x \<in> set (user_account d)" "ua_id x = w" "ua_deleted_at x \<noteq> None"
      by (auto simp: account_deleted_def sql_exists_iff)
    obtain y where y: "y \<in> set (user_account d)" "ua_id y = w" "ua_deleted_at y = None"
      using active by (auto simp: has_active_account_def sql_exists_iff active_account_def)
    have "x = y" by (rule distinct_keyD [OF assms(4) x(1) y(1)]) (simp add: x y)
    with x y show False by simp
  qed
  show ?thesis
    using assms alive [OF assms(1)] alive [OF assms(2)]
    by (simp add: create_match_def insert_match_def new_match_row_def)
qed

text \<open>The pair of a match is ordered by JavaScript on the texts of the ids, while the table checks the order of
  the UUIDs: when the liked user's id arrives with an upper-case letter that JavaScript puts first and
  PostgreSQL puts second, the insert violates the check and the request ends in an internal error, although both
  accounts are active and no match exists.\<close>

theorem uppercase_like_fails:
  assumes "has_active_account (pg_uuid b) d" "has_active_account a d" "\<not> blocked_pair (pg_uuid b) a d"
    and "distinct (map ua_id (user_account d))"
    and "b < a" "\<not> pg_uuid b < a" "pg_uuid a = a" "a \<noteq> []" "b \<noteq> []"
  shows "create_from_mutual_like v i now a b d = (d, Inl (Unhandled Check_violation), [])"
proof -
  have "\<not> a < b" "a \<noteq> b" using assms(5) by auto
  then show ?thesis
    using create_match_misordered [OF assms(1-4,6)] assms(7-9)
    by (simp add: create_from_mutual_like_def)
qed

theorem uppercase_like_fails_witness:
  "create_from_mutual_like (\<lambda>_. sample_env) ''m9'' 0 ''u1'' ''U2'' (match_db\<lparr>match_init := []\<rparr>) =
     (match_db\<lparr>match_init := []\<rparr>, Inl (Unhandled Check_violation), []) \<and>
   fst (snd (create_from_mutual_like (\<lambda>_. sample_env) ''m9'' 0 ''u1'' ''u2'' (match_db\<lparr>match_init := [], match_state := []\<rparr>))) =
     Inr ((to_public_match (new_match_row ''m9'' ''u1'' ''u2'' 0)))"
proof
  have ids: "pg_uuid ''U2'' = ''u2''" "pg_uuid ''u1'' = ''u1''" "pg_uuid ''u2'' = ''u2''" by code_simp+
  have order: "''U2'' < ''u1''" "\<not> ''u2'' < ''u1''" "''u1'' < ''u2''" by code_simp+
  show "create_from_mutual_like (\<lambda>_. sample_env) ''m9'' 0 ''u1'' ''U2'' (match_db\<lparr>match_init := []\<rparr>) =
     (match_db\<lparr>match_init := []\<rparr>, Inl (Unhandled Check_violation), [])"
    by (rule uppercase_like_fails)
      (simp_all add: ids order has_active_account_def active_account_def blocked_pair_def match_db_defs)
  show "fst (snd (create_from_mutual_like (\<lambda>_. sample_env) ''m9'' 0 ''u1'' ''u2'' (match_db\<lparr>match_init := [], match_state := []\<rparr>))) =
     Inr ((to_public_match (new_match_row ''m9'' ''u1'' ''u2'' 0)))"
    using sample_hex
    by (simp add: create_from_mutual_like_def ids order create_match_def has_active_account_def blocked_pair_def
      insert_match_def insert_match_state_def state_key_def match_has_deleted_def account_deleted_def
      enqueue_notification_def candidate_notification_def notification_row_ok_def active_account_def dedup_key_def
      push_targets_def write_outbox_def sample_env_def match_db_defs to_public_match_def Let_def)
qed

end
