(* ===== verification/Match_Pages.thy ===== *)
theory Match_Pages
  imports Match_Messaging
begin

text \<open>
  The page query of a user's matches reads two index ranges, one per side of the pair, each cut
  to the rows the page can need; and the maintenance of matches settles what is due.
\<close>

section \<open>Merging two limited branches\<close>

lemma take_filter_prefix:
  "filter P (take n xs) = take (length (filter P (take n xs))) (filter P xs)"
proof -
  have "filter P xs = filter P (take n xs) @ filter P (drop n xs)"
    by (metis append_take_drop_id filter_append)
  then show ?thesis by simp
qed

lemma in_take_filter:
  assumes "x \<in> set (take n xs)" "P x"
  shows "x \<in> set (take n (filter P xs))"
proof -
  have "x \<in> set (filter P (take n xs))" using assms by simp
  then have "x \<in> set (take (length (filter P (take n xs))) (filter P xs))"
    unfolding take_filter_prefix [symmetric] .
  moreover have "length (filter P (take n xs)) \<le> n"
    by (rule order_trans [OF length_filter_le]) simp
  ultimately show ?thesis by (meson set_take_subset_set_take subsetD)
qed

text \<open>Cutting each branch to \<open>n\<close> rows before merging does not change the first \<open>n\<close> rows of the merge.\<close>

lemma merge_limited:
  fixes key :: "'r \<Rightarrow> 'k::linorder"
  assumes keys: "distinct (map key t)" and split: "\<And>r. r \<in> set t \<Longrightarrow> (P r \<or> Q r)" "\<And>r. \<not> (P r \<and> Q r)"
  defines "D \<equiv> rev (sort_key key t)"
  shows "take n (rev (sort_key key (take n (filter P D) @ take n (filter Q D)))) = take n D"
proof -
  let ?S = "set (take n (filter P D)) \<union> set (take n (filter Q D))"
  have D: "set D = set t" "distinct D"
    using keys by (simp_all add: D_def distinct_key_distinct)
  have "mset (take n (filter P D) @ take n (filter Q D)) = mset (filter (\<lambda>r. r \<in> ?S) (rev D))"
  proof (rule set_eq_iff_mset_eq_distinct [THEN iffD1])
    show "distinct (take n (filter P D) @ take n (filter Q D))"
      using D(2) split(2) by (auto simp: distinct_take dest!: in_set_takeD)
    show "set (take n (filter P D) @ take n (filter Q D)) = set (filter (\<lambda>r. r \<in> ?S) (rev D))"
      by (auto dest: in_set_takeD)
  qed (use D(2) in simp)
  then have "sort_key key (take n (filter P D) @ take n (filter Q D)) = filter (\<lambda>r. r \<in> ?S) (rev D)"
  proof (rule sort_key_inj_key_eq)
    show "inj_on key (set (take n (filter P D) @ take n (filter Q D)))"
      using keys D(1) by (auto simp: distinct_map dest!: in_set_takeD intro: inj_on_subset)
    show "sorted (map key (filter (\<lambda>r. r \<in> ?S) (rev D)))"
      by (simp add: D_def sorted_filter)
  qed
  then have eq: "rev (sort_key key (take n (filter P D) @ take n (filter Q D))) = filter (\<lambda>r. r \<in> ?S) D"
    by (simp add: rev_filter)
  have "r \<in> ?S" if r: "r \<in> set (take n D)" for r
    using split(1) [of r] in_take_filter [OF r, of P] in_take_filter [OF r, of Q] D(1) in_set_takeD [OF r] by auto
  then have "filter (\<lambda>r. r \<in> ?S) D = take n D @ filter (\<lambda>r. r \<in> ?S) (drop n D)"
    by (metis (no_types, lifting) append_take_drop_id filter_append filter_True)
  moreover have "filter (\<lambda>r. r \<in> ?S) (drop n D) = []" if "length D < n" using that by simp
  ultimately show ?thesis unfolding eq by (cases "length D < n") simp_all
qed

definition listed :: "uuid \<Rightarrow> db \<Rightarrow> match_row \<Rightarrow> bool" where
  "listed u d m \<longleftrightarrow> mi_user1 m = u \<and> visible_as u (mi_user2 m) d m \<or> mi_user2 m = u \<and> visible_as u (mi_user1 m) d m"

lemma activity_key_inj: "activity_key m = activity_key n \<Longrightarrow> mi_id m = mi_id n"
  by (simp add: activity_key_def)

text \<open>C16. The page of a user's matches, read as two index ranges cut to limit + offset rows and merged, is the
  page of the one list of all matches the user may see (not ended, the other account live, no block
  between the two), sorted by last activity.\<close>

theorem match_page_is_page:
  assumes "match_table_ok (match_init d)"
  shows "match_page u limit offset c d = take limit (drop offset (rev (sort_key activity_key
    (filter (\<lambda>m. listed u d m \<and> below c (activity_key m)) (match_init d)))))"
proof -
  let ?t = "filter (\<lambda>m. listed u d m \<and> below c (activity_key m)) (match_init d)"
  let ?P = "\<lambda>m. mi_user1 m = u" and ?Q = "\<lambda>m. mi_user1 m \<noteq> u"
  let ?D = "rev (sort_key activity_key ?t)"
  have ne: "mi_user1 m \<noteq> mi_user2 m" if "m \<in> set (match_init d)" for m
    using match_table_okD(1) [OF assms that] by auto
  have keys: "distinct (map activity_key ?t)"
  proof -
    have "map mi_id ?t = map snd (map activity_key ?t)" by (simp add: activity_key_def)
    moreover have "distinct (map mi_id ?t)" using match_table_okD(2) [OF assms] by (rule distinct_map_filter)
    ultimately have "distinct (map snd (map activity_key ?t))" by (simp only:)
    then show ?thesis by (simp only: distinct_map)
  qed
  have branch: "rev (sort_key activity_key (filter (\<lambda>r. below c (activity_key r)) (filter B (match_init d)))) = filter R ?D"
    if h: "\<And>m. m \<in> set (match_init d) \<Longrightarrow> B m = (listed u d m \<and> R m)" for B R
  proof -
    have "filter R ?t = filter (\<lambda>r. below c (activity_key r)) (filter B (match_init d))"
      unfolding filter_filter by (rule filter_cong [OF refl]) (simp add: h conj_ac)
    moreover have "filter R ?D = rev (sort_key activity_key (filter R ?t))"
      by (simp only: rev_filter [symmetric] filter_sort)
    ultimately show ?thesis by simp
  qed
  have b1: "page_branch1 u k c d = take k (filter ?P ?D)" for k
    unfolding page_branch1_def keyset_page_def
    by (subst branch [of _ ?P]) (use ne in \<open>auto simp: listed_def\<close>)
  have b2: "page_branch2 u k c d = take k (filter ?Q ?D)" for k
    unfolding page_branch2_def keyset_page_def
    by (subst branch [of _ ?Q]) (use ne in \<open>auto simp: listed_def\<close>)
  have "take (limit + offset) (rev (sort_key activity_key (page_branch1 u (limit + offset) c d @ page_branch2 u (limit + offset) c d)))
      = take (limit + offset) ?D"
    unfolding b1 b2 by (rule merge_limited [OF keys]) auto
  then have "drop offset (take (limit + offset) (rev (sort_key activity_key (page_branch1 u (limit + offset) c d @ page_branch2 u (limit + offset) c d))))
      = drop offset (take (limit + offset) ?D)" by simp
  then show ?thesis by (simp add: match_page_def drop_take)
qed

theorem match_page_is_page_witness:
  "match_page ''u2'' 5 0 None match_db = [sample_match]"
  unfolding match_page_is_page [OF match_invD(1) [OF match_db_inv]]
  by (simp add: listed_def visible_as_def live_account_def blocked_pair_def below_def match_db_defs)

section \<open>What a maintenance run settles\<close>

definition nothing_held :: held_rows where
  "nothing_held = \<lparr> hr_match = (\<lambda>_. False), hr_message = (\<lambda>_. False), hr_report = (\<lambda>_. False) \<rparr>"

text \<open>A statement that changes fewer rows than its limit has changed all that were due.\<close>

lemma all_chosen:
  assumes "distinct (map mi_id t)" "sql_count (chosen_match (sql_candidates p key (\<lambda>_. False) n t)) t < n"
    "m \<in> set t" "p m"
  shows "chosen_match (sql_candidates p key (\<lambda>_. False) n t) m"
proof -
  let ?c = "sql_candidates p key (\<lambda>_. False) n t"
  have "sql_count (chosen_match ?c) t = length ?c"
    unfolding chosen_match_def
    by (rule sql_count_chosen [OF assms(1) sql_candidates_subset])
      (use assms(1) in \<open>simp add: distinct_sql_candidates distinct_key_distinct\<close>)
  with assms(2) have "m \<in> set ?c"
    using sql_candidates_left_out(1) [of m t p "\<lambda>_. False" key n] assms(3,4) by fastforce
  then show ?thesis by (simp add: chosen_match_def)
qed

lemma open_due_settles:
  assumes "match_inv d" "open_due now n (\<lambda>_. False) d = (k, d')" "k < n" "m \<in> set (match_init d')" "mi_status m = Active"
  shows "pg_of_js now < mi_expires_at m"
proof (rule ccontr)
  assume due: "\<not> pg_of_js now < mi_expires_at m"
  let ?p = "\<lambda>m. mi_status m = Active \<and> mi_expires_at m \<le> pg_of_js now"
  let ?c = "sql_candidates ?p expiry_order (\<lambda>_. False) n (match_init d)"
  have d': "match_init d' = sql_update (chosen_match ?c) (open_row now) (match_init d)"
    and k: "k = sql_count (chosen_match ?c) (match_init d)"
    using assms(2) by (auto simp: open_due_def Let_def)
  from assms(4) obtain m0 where m0: "m0 \<in> set (match_init d)" "m = (if chosen_match ?c m0 then open_row now m0 else m0)"
    unfolding d' by (rule in_sql_updateE)
  with assms(5) have "\<not> chosen_match ?c m0" "m = m0" by (auto split: if_splits)
  moreover have "chosen_match ?c m0"
    by (rule all_chosen [OF match_table_okD(2) [OF match_invD(1) [OF assms(1)]] _ m0(1)])
      (use k assms(3,5) due \<open>m = m0\<close> in simp_all)
  ultimately show False by blast
qed

lemma expire_due_settles:
  assumes "match_inv d" "expire_due now n (\<lambda>_. False) d = (k, d')" "k < n" "m \<in> set (match_init d')"
    "mi_status m = Awaiting_continuation"
  shows "pg_of_js now < mi_expires_at m" "m \<in> set (match_init d)"
proof -
  let ?p = "\<lambda>m. mi_status m = Awaiting_continuation \<and> mi_expires_at m \<le> pg_of_js now"
  let ?c = "sql_candidates ?p expiry_order (\<lambda>_. False) n (match_init d)"
  have d': "match_init d' = sql_update (chosen_match ?c) (expire_row now) (match_init d)"
    and k: "k = sql_count (chosen_match ?c) (match_init d)"
    using assms(2) by (auto simp: expire_due_def Let_def)
  from assms(4) obtain m0 where m0: "m0 \<in> set (match_init d)" "m = (if chosen_match ?c m0 then expire_row now m0 else m0)"
    unfolding d' by (rule in_sql_updateE)
  with assms(5) have no: "\<not> chosen_match ?c m0" "m = m0" by (auto split: if_splits)
  then show "m \<in> set (match_init d)" using m0(1) by simp
  show "pg_of_js now < mi_expires_at m"
  proof (rule ccontr)
    assume due: "\<not> pg_of_js now < mi_expires_at m"
    have "chosen_match ?c m0"
      by (rule all_chosen [OF match_table_okD(2) [OF match_invD(1) [OF assms(1)]] _ m0(1)])
        (use k assms(3,5) due no(2) in simp_all)
    with no(1) show False by blast
  qed
qed

text \<open>The joins of the purge: the rows of the matches due for purging.\<close>

lemma due_messages_iff:
  "(m, c) \<in> set (due_messages now d) \<longleftrightarrow>
     m \<in> set (match_init d) \<and> purge_reached now m \<and> c \<in> set (chat_message d) \<and> cm_match_id c = mi_id m"
  by (auto simp: due_messages_def)

lemma due_reports_iff:
  "(m, r) \<in> set (due_reports now d) \<longleftrightarrow>
     m \<in> set (match_init d) \<and> purge_reached now m \<and> r \<in> set (user_report d) \<and> rp_match_id r = Some (mi_id m)"
  by (auto simp: due_reports_def)

text \<open>If the rows named by the candidates are fewer than the limit, every pair was a candidate: the ids of the
  second components are distinct.\<close>

lemma joined_all_chosen:
  assumes pairs: "\<And>m c. (m, c) \<in> set j \<Longrightarrow> c \<in> set t" "\<And>m m' c c'. (m, c) \<in> set j \<Longrightarrow> (m', c') \<in> set j \<Longrightarrow> k c = k c' \<Longrightarrow> (m, c) = (m', c')"
    and ids: "distinct (map k t)" "distinct j"
    and few: "sql_count (\<lambda>x. k x \<in> set (map (\<lambda>(_, x). k x) (sql_candidates (\<lambda>_. True) key (\<lambda>_. False) n j))) t < n"
    and mem: "(m, c) \<in> set j"
  shows "k c \<in> set (map (\<lambda>(_, x). k x) (sql_candidates (\<lambda>_. True) key (\<lambda>_. False) n j))"
proof (rule ccontr)
  let ?C = "sql_candidates (\<lambda>_. True) key (\<lambda>_. False) n j"
  assume no: "k c \<notin> set (map (\<lambda>(_, x). k x) ?C)"
  have sub: "set ?C \<subseteq> set j" by (rule sql_candidates_subset)
  have "(m, c) \<notin> set ?C" using no by force
  then have len: "length ?C = n" using sql_candidates_left_out(1) [of "(m, c)" j "\<lambda>_. True" "\<lambda>_. False"] mem by simp
  let ?s = "map snd ?C"
  have "inj_on (\<lambda>x. k (snd x)) (set ?C)"
    using sub pairs(2) by (auto simp: inj_on_def) blast+
  then have "distinct (map (\<lambda>x. k (snd x)) ?C)"
    using ids(2) by (simp add: distinct_map distinct_sql_candidates)
  then have d: "distinct (map k ?s)" by (simp add: comp_def)
  have "set ?s \<subseteq> set t" using sub pairs(1) by auto
  then have "sql_count (\<lambda>x. k x \<in> set (map k ?s)) t = length ?s"
    by (rule sql_count_chosen [OF ids(1)]) (use d in \<open>rule distinct_key_distinct\<close>)
  moreover have "set (map k ?s) = set (map (\<lambda>(_, x). k x) ?C)" by force
  ultimately show False using few len by simp
qed

lemma distinct_join:
  "distinct xs \<Longrightarrow> (\<And>x. distinct (g x)) \<Longrightarrow> distinct (concat (map (\<lambda>x. map (Pair x) (g x)) xs))"
  by (induction xs) (auto simp: distinct_map inj_on_def)

lemma distinct_due:
  "distinct (match_init d) \<Longrightarrow> distinct (chat_message d) \<Longrightarrow> distinct (due_messages now d)"
  "distinct (match_init d) \<Longrightarrow> distinct (user_report d) \<Longrightarrow> distinct (due_reports now d)"
  unfolding due_messages_def due_reports_def by (rule distinct_join; simp)+

lemma due_messages_deleted:
  assumes inv: "match_inv d" and run: "delete_due_messages now n (\<lambda>_. False) d = (k, d')" and few: "k < n"
    and m: "m \<in> set (match_init d)" "purge_reached now m"
  shows "\<not> sql_exists (\<lambda>c. cm_match_id c = mi_id m) (chat_message d')"
proof
  let ?C = "sql_candidates (\<lambda>_. True) (\<lambda>(m, x). (purge_order m, cm_created_at x, cm_id x)) (\<lambda>_. False) n (due_messages now d)"
  let ?p = "\<lambda>x. cm_id x \<in> set (map (\<lambda>(_, x). cm_id x) ?C)"
  have held: "(\<lambda>(m, x). False) = (\<lambda>_. False)" by auto
  have r: "k = sql_count ?p (chat_message d)" "chat_message d' = sql_delete ?p (chat_message d)"
    using run by (auto simp: delete_due_messages_def Let_def held)
  have ids: "distinct (map mi_id (match_init d))" "distinct (map cm_id (chat_message d))"
    using match_table_okD(2) [OF match_invD(1) [OF inv]] match_invD(5) [OF inv] by (simp_all add: message_table_ok_def)
  assume "sql_exists (\<lambda>c. cm_match_id c = mi_id m) (chat_message d')"
  then obtain c where c: "c \<in> set (chat_message d)" "cm_match_id c = mi_id m" "\<not> ?p c"
    by (auto simp: sql_exists_iff r(2))
  have "?p c"
  proof (rule joined_all_chosen [where j = "due_messages now d" and t = "chat_message d" and m = m])
    show "(m, c) \<in> set (due_messages now d)" using m c by (simp add: due_messages_iff)
    show "distinct (due_messages now d)" by (rule distinct_due(1) [OF distinct_key_distinct [OF ids(1)] distinct_key_distinct [OF ids(2)]])
    show "sql_count ?p (chat_message d) < n" using few r(1) by simp
    show "(m, c) = (m', c')" if p: "(m, c) \<in> set (due_messages now d)" "(m', c') \<in> set (due_messages now d)" "cm_id c = cm_id c'" for m m' c c'
    proof -
      have i: "c \<in> set (chat_message d)" "c' \<in> set (chat_message d)" "m \<in> set (match_init d)" "m' \<in> set (match_init d)"
        using p(1,2) unfolding due_messages_iff by blast+
      have "c = c'" by (rule distinct_keyD [OF ids(2) i(1,2) p(3)])
      then have "mi_id m = mi_id m'" using p(1,2) unfolding due_messages_iff by simp
      then have "m = m'" by (rule distinct_keyD [OF ids(1) i(3,4)])
      with \<open>c = c'\<close> show ?thesis by simp
    qed
  qed (use ids in \<open>auto simp: due_messages_iff\<close>)
  with c(3) show False by blast
qed

lemma due_reports_detached:
  assumes inv: "match_inv d" "distinct (map rp_id (user_report d))"
    and run: "detach_due_reports now n (\<lambda>_. False) d = (k, d')" and few: "k < n"
    and m: "m \<in> set (match_init d)" "purge_reached now m"
  shows "\<not> sql_exists (\<lambda>r. rp_match_id r = Some (mi_id m)) (user_report d')"
proof
  let ?C = "sql_candidates (\<lambda>_. True) (\<lambda>(m, r). (purge_order m, rp_created_at r, rp_id r)) (\<lambda>_. False) n (due_reports now d)"
  let ?p = "\<lambda>r. rp_id r \<in> set (map (\<lambda>(_, r). rp_id r) ?C)"
  have held: "(\<lambda>(m, r). False) = (\<lambda>_. False)" by auto
  have r: "k = sql_count ?p (user_report d)"
    "user_report d' = sql_update ?p (\<lambda>r. r\<lparr>rp_match_id := None\<rparr>) (user_report d)"
    using run by (auto simp: detach_due_reports_def Let_def held)
  have ids: "distinct (map mi_id (match_init d))"
    using match_table_okD(2) [OF match_invD(1) [OF inv(1)]] .
  assume "sql_exists (\<lambda>r. rp_match_id r = Some (mi_id m)) (user_report d')"
  then obtain c where c: "c \<in> set (user_report d)" "rp_match_id c = Some (mi_id m)" "\<not> ?p c"
    unfolding sql_exists_iff r(2) bex_sql_update by (auto split: if_splits)
  have "?p c"
  proof (rule joined_all_chosen [where j = "due_reports now d" and t = "user_report d" and m = m])
    show "(m, c) \<in> set (due_reports now d)" using m c by (simp add: due_reports_iff)
    show "distinct (due_reports now d)" by (rule distinct_due(2) [OF distinct_key_distinct [OF ids] distinct_key_distinct [OF inv(2)]])
    show "sql_count ?p (user_report d) < n" using few r(1) by simp
    show "(m, c) = (m', c')" if p: "(m, c) \<in> set (due_reports now d)" "(m', c') \<in> set (due_reports now d)" "rp_id c = rp_id c'" for m m' c c'
    proof -
      have i: "c \<in> set (user_report d)" "c' \<in> set (user_report d)" "m \<in> set (match_init d)" "m' \<in> set (match_init d)"
        using p(1,2) unfolding due_reports_iff by blast+
      have "c = c'" by (rule distinct_keyD [OF inv(2) i(1,2) p(3)])
      then have "mi_id m = mi_id m'" using p(1,2) unfolding due_reports_iff by simp
      then have "m = m'" by (rule distinct_keyD [OF ids i(3,4)])
      with \<open>c = c'\<close> show ?thesis by simp
    qed
  qed (use inv(2) in \<open>auto simp: due_reports_iff\<close>)
  with c(3) show False by blast
qed

lemma purge_settles:
  assumes inv: "match_inv d" and run: "purge_matches now n (\<lambda>_. False) d = (k, d')" and few: "k < n"
    and m: "m \<in> set (match_init d')"
  shows "\<not> purgeable now d m"
proof
  let ?C = "sql_candidates (purgeable now d) purge_order (\<lambda>_. False) n (match_init d)"
  assume p: "purgeable now d m"
  have r: "k = sql_count (chosen_match ?C) (match_init d)" "d' = delete_matches (chosen_match ?C) d"
    using run by (auto simp: purge_matches_def Let_def)
  have mi: "m \<in> set (match_init d)" "\<not> chosen_match ?C m"
    using m by (simp_all add: r(2) delete_matches_def Let_def)
  have "chosen_match ?C m"
    by (rule all_chosen [OF match_table_okD(2) [OF match_invD(1) [OF inv]] _ mi(1), where p = "purgeable now d"])
      (use r(1) few p in simp_all)
  with mi(2) show False by blast
qed

text \<open>A batch that nobody hinders and that is not full leaves nothing due.\<close>

definition settled :: "js_time \<Rightarrow> db \<Rightarrow> bool" where
  "settled now d \<longleftrightarrow> (\<forall>m \<in> set (match_init d). \<not> purge_reached now m \<and>
     (mi_status m = Active \<or> mi_status m = Awaiting_continuation \<longrightarrow> pg_of_js now < mi_expires_at m))"

lemma batch_settles:
  assumes inv: "match_inv d" "distinct (map rp_id (user_report d))"
    and run: "run_maintenance now n nothing_held d = (b, d')" and few: "\<not> batch_is_full b n"
  shows "settled now d'"
proof -
  obtain k1 d1 where 1: "open_due now n (\<lambda>_. False) d = (k1, d1)" by fastforce
  obtain k2 d2 where 2: "expire_due now n (\<lambda>_. False) d1 = (k2, d2)" by fastforce
  obtain k3 d3 where 3: "delete_due_messages now n (\<lambda>_. False) d2 = (k3, d3)" by fastforce
  obtain k4 d4 where 4: "detach_due_reports now n (\<lambda>_. False) d3 = (k4, d4)" by fastforce
  obtain k5 where 5: "purge_matches now n (\<lambda>_. False) d4 = (k5, d')"
    and b: "b = \<lparr> mb_opened = k1, mb_expired = k2, mb_deleted_messages = k3, mb_detached_reports = k4, mb_purged = k5 \<rparr>"
    using run by (auto simp: run_maintenance_def nothing_held_def 1 2 3 4 split: prod.splits)
  have k: "k1 < n" "k2 < n" "k3 < n" "k4 < n" "k5 < n"
    using few by (simp_all add: b batch_is_full_def)
  note i1 = inv_open_due [OF inv(1) 1]
  note i2 = inv_expire_due [OF i1(1) 2]
  have f3: "d3 = d2\<lparr>chat_message := chat_message d3\<rparr>"
    using delete_messages_frame(1) [of now n "\<lambda>_. False" d2] by (simp add: 3)
  have f4: "d4 = d3\<lparr>user_report := user_report d4\<rparr>"
    using detach_reports_frame [of now n "\<lambda>_. False" d3] by (simp add: 4)
  have i3: "match_inv d3"
    using i2(1) tables_delete_messages delete_messages_frame(2) [of now n "\<lambda>_. False" d2]
      arg_cong [OF f3, of match_init] arg_cong [OF f3, of match_state]
    by (auto simp: match_inv_def 3)
  have i4: "match_inv d4"
    using i3 arg_cong [OF f4, of match_init] arg_cong [OF f4, of match_state] arg_cong [OF f4, of chat_message]
    by (simp add: match_inv_def)
  have same: "match_init d3 = match_init d2" "match_init d4 = match_init d2" "chat_message d4 = chat_message d3"
    using arg_cong [OF f3, of match_init] arg_cong [OF f4, of match_init] arg_cong [OF f4, of chat_message] by simp_all
  have reports: "user_report d3 = user_report d"
    using arg_cong [OF f3, of user_report] arg_cong [OF i2(3), of user_report] arg_cong [OF i1(3), of user_report] by simp
  note g = purge_matches_gone [OF i4 5]
  have "\<not> purge_reached now m \<and>
      (mi_status m = Active \<or> mi_status m = Awaiting_continuation \<longrightarrow> pg_of_js now < mi_expires_at m)"
    if m: "m \<in> set (match_init d')" for m
  proof -
    have m2: "m \<in> set (match_init d2)" using m g(4) same by auto
    have "purgeable now d4 m" if due: "purge_reached now m"
      using due due_messages_deleted [OF i2(1) 3 k(3) m2 due] same(3)
        due_reports_detached [OF i3 _ 4 k(4), of m] inv(2) m2
      by (simp add: purgeable_def same reports)
    then have "\<not> purge_reached now m" using purge_settles [OF i4 5 k(5) m] by blast
    moreover have "pg_of_js now < mi_expires_at m" if "mi_status m = Awaiting_continuation"
      using expire_due_settles(1) [OF i1(1) 2 k(2) m2 that] .
    moreover have "pg_of_js now < mi_expires_at m" if act: "mi_status m = Active"
    proof -
      obtain p where "match_init d2 = sql_update p (expire_row now) (match_init d1)"
        using expire_due_changes [OF i1(1) 2] by blast
      then have "m \<in> set (match_init d1)"
        using m2 act updated_or_kept [of m p "expire_row now" "match_init d1"] by auto
      then show ?thesis using open_due_settles [OF inv(1) 1 k(1) _ act] by blast
    qed
    ultimately show ?thesis by blast
  qed
  then show ?thesis by (simp add: settled_def)
qed

lemma reports_maintenance:
  assumes "run_maintenance now n h d = (b, d')"
  shows "map rp_id (user_report d') = map rp_id (user_report d)"
proof -
  obtain k1 d1 where 1: "open_due now n (hr_match h) d = (k1, d1)" by fastforce
  obtain k2 d2 where 2: "expire_due now n (hr_match h) d1 = (k2, d2)" by fastforce
  obtain k3 d3 where 3: "delete_due_messages now n (hr_message h) d2 = (k3, d3)" by fastforce
  obtain k4 d4 where 4: "detach_due_reports now n (hr_report h) d3 = (k4, d4)" by fastforce
  obtain k5 where 5: "purge_matches now n (hr_match h) d4 = (k5, d')"
    using assms by (auto simp: run_maintenance_def 1 2 3 4 split: prod.splits)
  have "user_report d3 = user_report d"
    using 1 2 3 by (auto simp: open_due_def expire_due_def delete_due_messages_def Let_def)
  moreover have "map rp_id (user_report d4) = map rp_id (user_report d3)"
    using 4 by (auto simp: detach_due_reports_def Let_def map_sql_update)
  moreover have "map rp_id (user_report d') = map rp_id (user_report d4)"
    using 5 by (auto simp: purge_matches_def delete_matches_def Let_def map_sql_update)
  ultimately show ?thesis by simp
qed

lemma run_batches_settles:
  assumes "match_inv d" "distinct (map rp_id (user_report d))"
    and "run_batches now n left (\<lambda>_. nothing_held) acc d = (r, d')" "left > 0 \<or> mt_work_remaining acc"
  shows "mt_batches r \<le> mt_batches acc + left \<and> match_inv d' \<and> (\<not> mt_work_remaining r \<longrightarrow> settled now d')"
  using assms
proof (induction left arbitrary: acc d)
  case (Suc left)
  obtain b d1 where b: "run_maintenance now n nothing_held d = (b, d1)" by fastforce
  have i: "match_inv d1" using inv_maintenance [OF Suc.prems(1) b] by blast
  have ids: "distinct (map rp_id (user_report d1))" using reports_maintenance [OF b] Suc.prems(2) by simp
  show ?case
  proof (cases "batch_is_full b n")
    case True
    then show ?thesis using Suc.prems(3) Suc.IH [OF i ids] by (fastforce simp: b)
  next
    case False
    with batch_settles [OF Suc.prems(1,2) b] i Suc.prems(3) show ?thesis by (auto simp: b)
  qed
qed simp

text \<open>C15. The hourly maintenance of matches ends after at most \<open>maxBatches\<close> batches; when nobody else holds a row and it
  reports no remaining work, no match is past its window and no match is left to purge.\<close>

theorem match_maintenance_settles:
  assumes "match_inv d" "distinct (map rp_id (user_report d))" "0 < batches"
    and "run_maintenance_as_leader True now n batches (\<lambda>_. nothing_held) d = (Some r, d')"
  shows "mt_batches r \<le> batches \<and> match_inv d' \<and> (\<not> mt_work_remaining r \<longrightarrow>
    (\<forall>m \<in> set (match_init d'). \<not> purge_reached now m \<and>
      (mi_status m = Active \<or> mi_status m = Awaiting_continuation \<longrightarrow> pg_of_js now < mi_expires_at m)))"
proof -
  obtain acc where "run_batches now n batches (\<lambda>_. nothing_held) acc d = (r, d')" "mt_batches acc = 0"
    using assms(4) by (auto simp: run_maintenance_as_leader_def split: prod.splits)
  with run_batches_settles [OF assms(1,2)] assms(3) show ?thesis by (fastforce simp: settled_def)
qed

theorem match_maintenance_settles_witness:
  "\<exists>r d'. run_maintenance_as_leader True 90000000 10 20 (\<lambda>_. nothing_held) match_db = (Some r, d') \<and>
     mt_batches r \<le> 20 \<and> match_inv d'"
proof -
  obtain r d' where run: "run_maintenance_as_leader True 90000000 10 20 (\<lambda>_. nothing_held) match_db = (Some r, d')"
    by (cases "run_maintenance_as_leader True 90000000 10 20 (\<lambda>_. nothing_held) match_db")
      (auto simp: run_maintenance_as_leader_def split: prod.splits)
  have "distinct (map rp_id (user_report match_db))" by (simp add: match_db_def empty_db_def)
  from match_maintenance_settles [OF match_db_inv this _ run] run show ?thesis by auto
qed

end
