(* ===== verification/Encoding.thy ===== *)
theory Encoding
  imports Common Pagination
begin

text \<open>
  Base64 as \<open>Buffer\<close> encodes and decodes it, decimal numbers, and the opaque text of a pagination cursor
  (\<open>decodeCursor\<close> and \<open>encodeCursor\<close> of \<open>src/common/pagination.ts\<close>). A string of bytes is a
  string of characters below 256.
\<close>

section \<open>Splitting\<close>

text \<open>\<open>split\<close> at colons.\<close>

fun split_colon :: "string \<Rightarrow> string list" where
  "split_colon [] = [[]]"
| "split_colon (c # cs) =
     (if c = CHR '':'' then [] # split_colon cs
      else case split_colon cs of [] \<Rightarrow> [[c]] | w # ws \<Rightarrow> (c # w) # ws)"

section \<open>Base64\<close>

definition b64_chars :: string where
  "b64_chars = ''ABCDEFGHIJKLMNOPQRSTUVWXYZabcdefghijklmnopqrstuvwxyz0123456789+/''"

definition b64url_chars :: string where
  "b64url_chars = ''ABCDEFGHIJKLMNOPQRSTUVWXYZabcdefghijklmnopqrstuvwxyz0123456789-_''"

fun sextets :: "nat list \<Rightarrow> nat list" where
  "sextets (a # b # c # bs) = (a div 4) # (a mod 4 * 16 + b div 16) # (b mod 16 * 4 + c div 64) # (c mod 64) # sextets bs"
| "sextets [a, b] = [a div 4, a mod 4 * 16 + b div 16, b mod 16 * 4]"
| "sextets [a] = [a div 4, a mod 4 * 16]"
| "sextets [] = []"

fun octets :: "nat list \<Rightarrow> nat list" where
  "octets (w # x # y # z # s) = (w * 4 + x div 16) # (x mod 16 * 16 + y div 4) # (y mod 4 * 64 + z) # octets s"
| "octets [w, x, y] = [w * 4 + x div 16, x mod 16 * 16 + y div 4]"
| "octets [w, x] = [w * 4 + x div 16]"
| "octets _ = []"

definition bytes_of :: "string \<Rightarrow> nat list" where
  "bytes_of s = map of_char s"

definition string_of :: "nat list \<Rightarrow> string" where
  "string_of bs = map char_of bs"

definition base64url_encode :: "string \<Rightarrow> string" where
  "base64url_encode s = map (\<lambda>i. b64url_chars ! i) (sextets (bytes_of s))"

definition base64_encode :: "string \<Rightarrow> string" where
  "base64_encode s = (let e = map (\<lambda>i. b64_chars ! i) (sextets (bytes_of s)) in
     e @ replicate ((4 - length e mod 4) mod 4) (CHR ''=''))"

text \<open>Decoding takes both alphabets, stops at the padding and skips what it does not know.\<close>

fun b64_value :: "char \<Rightarrow> nat option" where
  "b64_value c =
     (if c = CHR ''-'' then Some 62 else if c = CHR ''_'' then Some 63
      else let i = length (takeWhile (\<lambda>x. x \<noteq> c) b64_chars) in if i < 64 then Some i else None)"

definition base64_decode :: "string \<Rightarrow> string" where
  "base64_decode s =
     string_of (octets (map the (filter (\<lambda>v. v \<noteq> None) (map b64_value (takeWhile (\<lambda>c. c \<noteq> CHR ''='') s)))))"

lemma octets_sextets: "list_all (\<lambda>b. b < 256) bs \<Longrightarrow> octets (sextets bs) = bs"
proof (induction bs rule: sextets.induct)
  case (1 a b c bs)
  have "(a mod 4 * 16 + b div 16) mod 16 = b div 16" "(b mod 16 * 4 + c div 64) mod 4 = c div 64"
    using 1 by (auto simp: div_less_iff_less_mult mod_simps)
  then show ?case using 1 by (simp add: div_mult2_eq [symmetric])
qed (auto simp: div_less_iff_less_mult algebra_simps)

lemma sextets_bound: "list_all (\<lambda>b. b < 256) bs \<Longrightarrow> x \<in> set (sextets bs) \<Longrightarrow> x < 64"
proof (induction bs rule: sextets.induct)
  case (1 a b c bs)
  have "a mod 4 \<le> 3" "b mod 16 \<le> 15" by simp_all
  with 1 show ?case by (auto simp: div_less_iff_less_mult)
next
  case (2 a b)
  have "a mod 4 \<le> 3" "b mod 16 \<le> 15" by simp_all
  with 2 show ?case by (auto simp: div_less_iff_less_mult)
next
  case (3 a)
  have "a mod 4 \<le> 3" by simp
  with 3 show ?case by (auto simp: div_less_iff_less_mult)
qed simp

lemma length_sextets: "length (sextets bs) = (4 * length bs + 2) div 3"
  by (induction bs rule: sextets.induct) auto

lemma bytes_bound: "list_all (\<lambda>b. b < 256) (bytes_of s)"
  by (simp add: bytes_of_def list_all_iff of_char_def horner_sum_bound)

lemma string_of_bytes_of [simp]: "string_of (bytes_of s) = s"
  by (simp add: string_of_def bytes_of_def comp_def)

text \<open>An alphabet the decoder knows, and the round trip over it.\<close>

definition b64_alphabet :: "string \<Rightarrow> bool" where
  "b64_alphabet cs \<longleftrightarrow> list_all (\<lambda>i. b64_value (cs ! i) = Some i \<and> cs ! i \<noteq> CHR ''='') [0..<64]"

lemma b64_alphabets: "b64_alphabet b64_chars" "b64_alphabet b64url_chars"
  by code_simp+

lemma base64_round_trip_over:
  assumes "b64_alphabet cs"
  shows "base64_decode (map (\<lambda>i. cs ! i) (sextets (bytes_of s)) @ replicate n (CHR ''='')) = s"
proof -
  let ?x = "sextets (bytes_of s)" and ?e = "map (\<lambda>i. cs ! i) (sextets (bytes_of s))"
  have val: "b64_value (cs ! i) = Some i" "cs ! i \<noteq> CHR ''=''" if "i \<in> set ?x" for i
    using sextets_bound [OF bytes_bound that] assms unfolding b64_alphabet_def list_all_iff by auto
  have "takeWhile (\<lambda>c. c \<noteq> CHR ''='') (?e @ replicate n (CHR ''='')) = ?e"
    using val(2) by (simp add: takeWhile_append takeWhile_eq_Nil_iff hd_replicate takeWhile_replicate)
  moreover have "map b64_value ?e = map Some ?x"
    using val(1) by (simp del: b64_value.simps)
  ultimately have "base64_decode (?e @ replicate n (CHR ''='')) =
      string_of (octets (map the (filter (\<lambda>v. v \<noteq> None) (map Some ?x))))"
    unfolding base64_decode_def by (simp only:)
  also have "filter (\<lambda>v. v \<noteq> None) (map Some ?x) = map Some ?x" by (simp add: filter_id_conv)
  finally show ?thesis by (simp add: octets_sextets [OF bytes_bound] comp_def)
qed

lemma base64url_round_trip: "base64_decode (base64url_encode s) = s"
  using base64_round_trip_over [OF b64_alphabets(2), of s 0] by (simp add: base64url_encode_def)

lemma base64_round_trip: "base64_decode (base64_encode s) = s"
  using base64_round_trip_over [OF b64_alphabets(1), of s] by (simp add: base64_encode_def Let_def)

lemma base64_encode_chars:
  "c \<in> set (map (\<lambda>i. b64_chars ! i) (sextets (bytes_of s))) \<Longrightarrow> c \<in> set b64_chars"
proof -
  assume "c \<in> set (map (\<lambda>i. b64_chars ! i) (sextets (bytes_of s)))"
  then obtain i where "i \<in> set (sextets (bytes_of s))" "c = b64_chars ! i" by auto
  moreover from this have "i < 64" using sextets_bound [OF bytes_bound] by blast
  moreover have "length b64_chars = 64" by code_simp
  ultimately show ?thesis by simp
qed

text \<open>Decimal numbers.\<close>

fun show_nat :: "nat \<Rightarrow> string" where
  "show_nat n = (if n < 10 then [''0123456789'' ! n] else show_nat (n div 10) @ [''0123456789'' ! (n mod 10)])"

declare show_nat.simps [simp del]

definition read_nat :: "string \<Rightarrow> nat" where
  "read_nat s = foldl (\<lambda>a c. a * 10 + (of_char c - 48)) 0 s"

section \<open>Cursors\<close>

record keyset_cursor =
  kc_at :: string
  kc_id :: string

definition digit :: "char \<Rightarrow> bool" where
  "digit c \<longleftrightarrow> c \<in> set ''0123456789''"

definition hex_any :: "char \<Rightarrow> bool" where
  "hex_any c \<longleftrightarrow> c \<in> set ''0123456789abcdefABCDEF''"

text \<open>\<open>UUID_PATTERN\<close>: versions 1 to 8, either case.\<close>

definition uuid_pattern :: "string \<Rightarrow> bool" where
  "uuid_pattern k \<longleftrightarrow> length k = 36 \<and>
     list_all (\<lambda>i. if i \<in> {8, 13, 18, 23} then k ! i = CHR ''-''
       else if i = 14 then k ! i \<in> set ''12345678''
       else if i = 19 then k ! i \<in> set ''89abAB''
       else hex_any (k ! i)) [0..<36]"

text \<open>\<open>YYYY-MM-DDTHH:MM:SS.\<close>, three to six digits, \<open>Z\<close>.\<close>

definition timestamp_pattern :: "string \<Rightarrow> bool" where
  "timestamp_pattern s \<longleftrightarrow> 24 \<le> length s \<and> length s \<le> 27 \<and>
     list_all (\<lambda>i. if i = 4 \<or> i = 7 then s ! i = CHR ''-''
       else if i = 10 then s ! i = CHR ''T''
       else if i = 13 \<or> i = 16 then s ! i = CHR '':''
       else if i = 19 then s ! i = CHR ''.''
       else if i = length s - 1 then s ! i = CHR ''Z''
       else digit (s ! i)) [0..<length s]"

definition cursor_json :: "keyset_cursor \<Rightarrow> string" where
  "cursor_json c = ''{\"at\":\"'' @ kc_at c @ ''\",\"id\":\"'' @ kc_id c @ ''\"}''"

definition encode_cursor :: "string \<Rightarrow> string \<Rightarrow> string" where
  "encode_cursor ts i = base64url_encode (cursor_json \<lparr> kc_at = ts, kc_id = i \<rparr>)"

text \<open>\<open>JSON.parse\<close> (\<open>None\<close> when it throws) and whether \<open>Date\<close> reads the timestamp are the library's.\<close>

definition decode_cursor ::
  "(string \<Rightarrow> json option) \<Rightarrow> (string \<Rightarrow> bool) \<Rightarrow> string option \<Rightarrow> api_error + keyset_cursor option" where
  "decode_cursor json_parse date_valid value =
     (case value of
        None \<Rightarrow> Inr None
      | Some [] \<Rightarrow> Inr None
      | Some v \<Rightarrow>
          (case json_parse (base64_decode v) of
             Some (Json_object fs) \<Rightarrow>
               (case (map_of fs ''at'', map_of fs ''id'') of
                  (Some (Json_string ts), Some (Json_string i)) \<Rightarrow>
                    if uuid_pattern i \<and> timestamp_pattern ts \<and> date_valid ts
                    then Inr (Some \<lparr> kc_at = ts, kc_id = i \<rparr>)
                    else Inl (api_error 400 ''invalid_cursor'')
                | _ \<Rightarrow> Inl (api_error 400 ''invalid_cursor''))
           | _ \<Rightarrow> Inl (api_error 400 ''invalid_cursor'')))"

text \<open>The law of \<open>JSON.parse\<close> that the cursor relies on: it reads back the object that \<open>JSON.stringify\<close> wrote,
  when its two strings need no escape.\<close>

definition plain_json_string :: "string \<Rightarrow> bool" where
  "plain_json_string s \<longleftrightarrow> list_all (\<lambda>c. c \<in> set ''0123456789abcdefABCDEF-:.TZ'') s"

definition reads_cursors :: "(string \<Rightarrow> json option) \<Rightarrow> bool" where
  "reads_cursors parse \<longleftrightarrow> (\<forall>c. plain_json_string (kc_at c) \<and> plain_json_string (kc_id c) \<longrightarrow>
     parse (cursor_json c) = Some (Json_object [(''at'', Json_string (kc_at c)), (''id'', Json_string (kc_id c))]))"

lemma list_all_upt_nth: "list_all P [0..<length s] \<Longrightarrow> c \<in> set s \<Longrightarrow> \<exists>i. c = s ! i \<and> i < length s \<and> P i"
  unfolding list_all_iff in_set_conv_nth by auto

lemma plain_timestamp: "timestamp_pattern s \<Longrightarrow> plain_json_string s"
  unfolding timestamp_pattern_def plain_json_string_def list_all_iff [of _ s]
  by (elim conjE, intro ballI, drule (1) list_all_upt_nth) (auto simp: digit_def split: if_splits)

lemma plain_uuid: "uuid_pattern s \<Longrightarrow> plain_json_string s"
  unfolding uuid_pattern_def plain_json_string_def list_all_iff [of _ s]
  by (elim conjE, intro ballI, drule list_all_upt_nth [where s = s, rotated 1], simp)
    (auto simp: hex_any_def split: if_splits)

text \<open>A cursor that the API hands out decodes to the position it was made from.\<close>

theorem cursor_round_trip:
  assumes "reads_cursors json_parse" "timestamp_pattern ts" "date_valid ts" "uuid_pattern i"
  shows "decode_cursor json_parse date_valid (Some (encode_cursor ts i)) = Inr (Some \<lparr> kc_at = ts, kc_id = i \<rparr>)"
proof -
  have parsed: "json_parse (cursor_json \<lparr> kc_at = ts, kc_id = i \<rparr>) =
      Some (Json_object [(''at'', Json_string ts), (''id'', Json_string i)])"
    using assms plain_timestamp [OF assms(2)] plain_uuid [OF assms(4)] unfolding reads_cursors_def
    by (metis keyset_cursor.select_convs(1,2))
  have "encode_cursor ts i \<noteq> []"
    by (auto simp: encode_cursor_def base64url_encode_def bytes_of_def cursor_json_def)
  then obtain c cs where cons: "encode_cursor ts i = c # cs" by (cases "encode_cursor ts i") auto
  have "base64_decode (c # cs) = cursor_json \<lparr> kc_at = ts, kc_id = i \<rparr>"
    unfolding cons [symmetric] encode_cursor_def by (rule base64url_round_trip)
  then show ?thesis
    using assms(2-4) by (simp add: decode_cursor_def cons parsed)
qed

text \<open>A parser of cursor objects: it takes the text apart at the quotation marks.\<close>

fun before_quote :: "string \<Rightarrow> string \<times> string" where
  "before_quote [] = ([], [])"
| "before_quote (c # cs) = (if c = CHR 0x22 then ([], cs) else (let (a, b) = before_quote cs in (c # a, b)))"

definition parse_cursor_text :: "string \<Rightarrow> json option" where
  "parse_cursor_text s =
     (let (ts, rest) = before_quote (drop 7 s); (i, rest') = before_quote (drop 7 rest) in
      Some (Json_object [(''at'', Json_string ts), (''id'', Json_string i)]))"

lemma before_quote_plain: "plain_json_string s \<Longrightarrow> before_quote (s @ CHR 0x22 # t) = (s, t)"
  by (induction s) (auto simp: plain_json_string_def)

lemma parse_cursor_text_reads: "reads_cursors parse_cursor_text"
  unfolding reads_cursors_def parse_cursor_text_def cursor_json_def
  by (simp add: before_quote_plain)

theorem cursor_round_trip_witness:
  "decode_cursor parse_cursor_text (\<lambda>_. True)
     (Some (encode_cursor ''2024-03-01T10:00:00.000Z'' ''0188c2d0-0000-4000-8000-00000000000a'')) =
   Inr (Some \<lparr> kc_at = ''2024-03-01T10:00:00.000Z'', kc_id = ''0188c2d0-0000-4000-8000-00000000000a'' \<rparr>)"
  by (rule cursor_round_trip [OF parse_cursor_text_reads]) code_simp+

end
