(* ===== verification/Sessions.thy ===== *)
theory Sessions
  imports Schema Pagination Encoding
begin

text \<open>
  Mobile sessions: \<open>src/auth/refresh-session.repository.ts\<close> and the devices of
  \<open>src/mobile/mobile.repository.ts\<close>. A session is a family of refresh tokens, each the child of the one it
  replaced. Every transaction first locks the account, so the transactions of an account run one
  after the other. The readings of the clock in a transaction are a sequence \<open>clk\<close>.
\<close>

type_synonym clock = "nat \<Rightarrow> pg_time"

record new_refresh_token =
  nr_id :: uuid
  nr_jti :: uuid
  nr_plain :: string
  nr_hash :: string
  nr_created_at :: js_time
  nr_expires_at :: js_time

record session_identity =
  si_user :: uuid
  si_session :: uuid

section \<open>Constraints\<close>

text \<open>\<open>chk_refresh_family_revocation\<close> and the primary key.\<close>

definition family_table_ok :: "family_row list \<Rightarrow> bool" where
  "family_table_ok t \<longleftrightarrow> list_all (\<lambda>f. rf_revoked_at f = None \<longleftrightarrow> rf_revocation_reason f = None) t \<and> distinct (map rf_id t)"

text \<open>\<open>chk_refresh_not_own_parent\<close> and \<open>chk_refresh_rotation\<close>.\<close>

definition refresh_row_ok :: "refresh_row \<Rightarrow> bool" where
  "refresh_row_ok r \<longleftrightarrow> rt_parent_id r \<noteq> Some (rt_id r) \<and> (rt_rotated_at r = None \<or> rt_revoked r)"

text \<open>\<open>refresh_tokens_pkey\<close>, \<open>refresh_tokens_jti_key\<close>, \<open>uq_refresh_family_active\<close>, \<open>uq_refresh_token_child\<close>.\<close>

definition refresh_unique_ok :: "refresh_row list \<Rightarrow> bool" where
  "refresh_unique_ok t \<longleftrightarrow> distinct (map rt_id t) \<and> distinct (map rt_jti t) \<and>
     unique_where (\<lambda>r. \<not> rt_revoked r) rt_family_id t \<and> unique_where (\<lambda>r. rt_parent_id r \<noteq> None) rt_parent_id t"

text \<open>\<open>fk_refresh_family_owner\<close> and \<open>fk_refresh_parent\<close>.\<close>

definition refresh_refs_ok :: "family_row list \<Rightarrow> refresh_row list \<Rightarrow> refresh_row \<Rightarrow> bool" where
  "refresh_refs_ok fs t r \<longleftrightarrow>
     sql_exists (\<lambda>f. rf_id f = rt_family_id r \<and> rf_user_id f = rt_user_id r) fs \<and>
     (case rt_parent_id r of None \<Rightarrow> True
      | Some p \<Rightarrow> sql_exists (\<lambda>q. rt_id q = p \<and> rt_family_id q = rt_family_id r) t)"

definition insert_family :: "family_row \<Rightarrow> db \<Rightarrow> sql_error + db" where
  "insert_family f d =
     (let t = refresh_token_family d @ [f] in
      if \<not> (rf_revoked_at f = None \<longleftrightarrow> rf_revocation_reason f = None) then Inl Check_violation
      else if \<not> distinct (map rf_id t) then Inl Unique_violation
      else if \<not> sql_exists (\<lambda>a. ua_id a = rf_user_id f) (user_account d) then Inl Foreign_key_violation
      else Inr (d\<lparr>refresh_token_family := t\<rparr>))"

definition insert_refresh :: "refresh_row \<Rightarrow> db \<Rightarrow> sql_error + db" where
  "insert_refresh r d =
     (let t = refresh_tokens d @ [r] in
      if \<not> refresh_row_ok r then Inl Check_violation
      else if \<not> refresh_unique_ok t then Inl Unique_violation
      else if \<not> refresh_refs_ok (refresh_token_family d) t r then Inl Foreign_key_violation
      else Inr (d\<lparr>refresh_tokens := t\<rparr>))"

definition update_refresh :: "(refresh_row \<Rightarrow> bool) \<Rightarrow> (refresh_row \<Rightarrow> refresh_row) \<Rightarrow> db \<Rightarrow> sql_error + db" where
  "update_refresh p f d =
     (let t = sql_update p f (refresh_tokens d) in
      if \<not> list_all refresh_row_ok t then Inl Check_violation
      else if \<not> refresh_unique_ok t then Inl Unique_violation
      else Inr (d\<lparr>refresh_tokens := t\<rparr>))"

definition update_families :: "(family_row \<Rightarrow> bool) \<Rightarrow> (family_row \<Rightarrow> family_row) \<Rightarrow> db \<Rightarrow> sql_error + db" where
  "update_families p f d =
     (let t = sql_update p f (refresh_token_family d) in
      if \<not> list_all (\<lambda>f. rf_revoked_at f = None \<longleftrightarrow> rf_revocation_reason f = None) t then Inl Check_violation
      else Inr (d\<lparr>refresh_token_family := t\<rparr>))"

text \<open>DELETE FROM device_token: its push deliveries go with the device (ON DELETE CASCADE).\<close>

definition delete_devices :: "(device_row \<Rightarrow> bool) \<Rightarrow> db \<Rightarrow> db" where
  "delete_devices p d =
     (let gone = (\<lambda>i. sql_exists (\<lambda>r. p r \<and> dt_id r = i) (device_token d)) in
      d\<lparr>device_token := sql_delete p (device_token d),
        notification_push_delivery := sql_delete (\<lambda>r. gone (pd_device_id r)) (notification_push_delivery d)\<rparr>)"

section \<open>Reading\<close>

definition lock_active_account :: "uuid \<Rightarrow> db \<Rightarrow> bool" where
  "lock_active_account u d = sql_exists (\<lambda>a. ua_id a = u \<and> active_account a) (user_account d)"

definition active_family :: "pg_time \<Rightarrow> uuid \<Rightarrow> uuid \<Rightarrow> db \<Rightarrow> bool" where
  "active_family clk u s d =
     sql_exists (\<lambda>f. rf_id f = s \<and> rf_user_id f = u \<and> rf_revoked_at f = None \<and> clk < rf_expires_at f)
       (refresh_token_family d)"

definition same_hash :: "string \<Rightarrow> string \<Rightarrow> bool" where
  "same_hash stored supplied \<longleftrightarrow> length stored = length supplied \<and> stored = supplied"

definition lock_token :: "pg_time \<Rightarrow> uuid \<Rightarrow> string \<Rightarrow> uuid option \<Rightarrow> db \<Rightarrow> refresh_row option" where
  "lock_token clk jti hash owner d =
     (case sql_first (\<lambda>r. rt_jti r = jti) (refresh_tokens d) of
        None \<Rightarrow> None
      | Some c \<Rightarrow>
          if (case owner of None \<Rightarrow> False | Some u \<Rightarrow> u \<noteq> [] \<and> rt_user_id c \<noteq> u) \<or> \<not> same_hash (rt_token_hash c) hash
          then None
          else if \<not> lock_active_account (rt_user_id c) d then None
          else sql_first (\<lambda>r. rt_id r = rt_id c \<and> clk < rt_expires_at r) (refresh_tokens d))"

definition is_active :: "pg_time \<Rightarrow> uuid \<Rightarrow> uuid \<Rightarrow> db \<Rightarrow> bool" where
  "is_active now u s d \<longleftrightarrow>
     sql_count (\<lambda>f. rf_id f = s \<and> rf_user_id f = u \<and> rf_revoked_at f = None \<and> now < rf_expires_at f \<and>
       sql_exists (\<lambda>a. ua_id a = rf_user_id f \<and> ua_deleted_at a = None \<and> \<not> ua_banned a) (user_account d))
       (refresh_token_family d) = 1"

definition session_key :: "family_row \<Rightarrow> pg_time \<times> uuid" where
  "session_key f = (rf_created_at f, rf_id f)"

definition live_families :: "pg_time \<Rightarrow> uuid \<Rightarrow> db \<Rightarrow> family_row list" where
  "live_families now u d =
     filter (\<lambda>f. rf_user_id f = u \<and> rf_revoked_at f = None \<and> now < rf_expires_at f) (refresh_token_family d)"

definition list_sessions :: "pg_time \<Rightarrow> uuid \<Rightarrow> nat \<Rightarrow> (pg_time \<times> uuid) option \<Rightarrow> db \<Rightarrow> family_row list" where
  "list_sessions now u n c d = keyset_page session_key n c (live_families now u d)"

section \<open>Writing\<close>

text \<open>The caller holds the account's lock. \<open>None\<close> is every session of the account.\<close>

definition selects :: "uuid option \<Rightarrow> uuid \<Rightarrow> bool" where
  "selects s i \<longleftrightarrow> (case s of None \<Rightarrow> True | Some x \<Rightarrow> i = x)"

definition revoke_families ::
  "pg_time \<Rightarrow> uuid \<Rightarrow> revocation_reason \<Rightarrow> uuid option \<Rightarrow> db \<Rightarrow> sql_error + nat \<times> db" where
  "revoke_families clk u reason s d =
     (let p = (\<lambda>f. rf_user_id f = u \<and> rf_revoked_at f = None \<and> selects s (rf_id f)) in
      and_then (update_families p (\<lambda>f. f\<lparr>rf_revoked_at := Some clk, rf_revocation_reason := Some reason\<rparr>) d) (\<lambda>d1.
      and_then (update_refresh (\<lambda>r. rt_user_id r = u \<and> \<not> rt_revoked r \<and> selects s (rt_family_id r))
          (\<lambda>r. r\<lparr>rt_revoked := True\<rparr>) d1) (\<lambda>d2.
      Inr (sql_count p (refresh_token_family d),
        delete_devices (\<lambda>v. dt_user_id v = u \<and> (case s of None \<Rightarrow> True | Some x \<Rightarrow> dt_session_id v = Some x)) d2))))"

definition token_row :: "uuid \<Rightarrow> uuid \<Rightarrow> new_refresh_token \<Rightarrow> uuid option \<Rightarrow> refresh_row" where
  "token_row u s t parent =
     \<lparr> rt_id = nr_id t, rt_user_id = u, rt_token_hash = nr_hash t, rt_jti = nr_jti t, rt_revoked = False,
       rt_expires_at = pg_of_js (nr_expires_at t), rt_created_at = pg_of_js (nr_created_at t),
       rt_family_id = s, rt_parent_id = parent, rt_rotated_at = None \<rparr>"

definition insert_token :: "uuid \<Rightarrow> uuid \<Rightarrow> new_refresh_token \<Rightarrow> uuid option \<Rightarrow> db \<Rightarrow> sql_error + db" where
  "insert_token u s t parent d = insert_refresh (token_row u s t parent) d"

definition create_session ::
  "uuid \<Rightarrow> uuid \<Rightarrow> new_refresh_token \<Rightarrow> db \<Rightarrow> sql_error + session_identity option \<times> db" where
  "create_session s u t d =
     (if \<not> lock_active_account u d then Inr (None, d)
      else
        and_then (insert_family \<lparr> rf_id = s, rf_user_id = u, rf_created_at = pg_of_js (nr_created_at t),
            rf_last_refreshed_at = pg_of_js (nr_created_at t), rf_expires_at = pg_of_js (nr_expires_at t),
            rf_revoked_at = None, rf_revocation_reason = None \<rparr> d) (\<lambda>d1.
        and_then (insert_token u s t None d1) (\<lambda>d2.
        Inr (Some \<lparr> si_user = u, si_session = s \<rparr>, d2))))"

definition rotate_session ::
  "clock \<Rightarrow> uuid \<Rightarrow> string \<Rightarrow> new_refresh_token \<Rightarrow> db \<Rightarrow> sql_error + session_identity option \<times> db" where
  "rotate_session clk jti hash nxt d =
     (case lock_token (clk 0) jti hash None d of
        None \<Rightarrow> Inr (None, d)
      | Some t \<Rightarrow>
          if \<not> active_family (clk 1) (rt_user_id t) (rt_family_id t) d then Inr (None, d)
          else if rt_revoked t then
            (if rt_rotated_at t \<noteq> None then
               and_then (revoke_families (clk 2) (rt_user_id t) Replay (Some (rt_family_id t)) d)
                 (\<lambda>(n, d1). Inr (None, d1))
             else Inr (None, d))
          else
            and_then (update_refresh (\<lambda>r. rt_id r = rt_id t)
                (\<lambda>r. r\<lparr>rt_revoked := True, rt_rotated_at := Some (clk 2)\<rparr>) d) (\<lambda>d1.
            and_then (insert_token (rt_user_id t) (rt_family_id t) nxt (Some (rt_id t)) d1) (\<lambda>d2.
            and_then (update_families (\<lambda>f. rf_id f = rt_family_id t)
                (\<lambda>f. f\<lparr>rf_last_refreshed_at := clk 3, rf_expires_at := pg_of_js (nr_expires_at nxt)\<rparr>) d2) (\<lambda>d3.
            Inr (Some \<lparr> si_user = rt_user_id t, si_session = rt_family_id t \<rparr>, d3)))))"

definition logout_session ::
  "clock \<Rightarrow> uuid \<Rightarrow> uuid \<Rightarrow> uuid \<Rightarrow> string \<Rightarrow> uuid option \<Rightarrow> db \<Rightarrow> sql_error + bool \<times> db" where
  "logout_session clk u s jti hash device d =
     (case lock_token (clk 0) jti hash (Some u) d of
        None \<Rightarrow> Inr (False, d)
      | Some t \<Rightarrow>
          if rt_family_id t \<noteq> s \<or> \<not> active_family (clk 1) u s d then Inr (False, d)
          else
            and_then (revoke_families (clk 2) u Logout (Some s) d) (\<lambda>(n, d1).
              Inr (True, case device of
                 None \<Rightarrow> d1
               | Some v \<Rightarrow> if v = [] then d1 else delete_devices (\<lambda>x. dt_id x = v \<and> dt_user_id x = u) d1)))"

text \<open>\<open>None\<close> when the calling session is not live, 0 when the target is unknown. The controller has checked that a
  target is a UUID.\<close>

definition revoke_session ::
  "clock \<Rightarrow> uuid \<Rightarrow> uuid \<Rightarrow> uuid option \<Rightarrow> db \<Rightarrow> sql_error + nat option \<times> db" where
  "revoke_session clk u current target d =
     (if \<not> lock_active_account u d \<or> \<not> active_family (clk 0) u current d then Inr (None, d)
      else
        case target of
          Some t \<Rightarrow>
            if \<not> sql_exists (\<lambda>f. rf_id f = t \<and> rf_user_id f = u) (refresh_token_family d)
            then Inr (Some 0, d)
            else and_then (revoke_families (clk 1) u User_revoked (Some t) d) (\<lambda>(n, d1). Inr (Some 1, d1))
        | None \<Rightarrow> and_then (revoke_families (clk 1) u Logout_all None d) (\<lambda>(n, d1). Inr (Some n, d1)))"

section \<open>Devices\<close>

definition device_of :: "uuid \<Rightarrow> uuid \<Rightarrow> uuid \<Rightarrow> string \<Rightarrow> string \<Rightarrow> string option \<Rightarrow> pg_time \<Rightarrow> device_row" where
  "device_of i u s token platform version clk =
     \<lparr> dt_id = i, dt_user_id = u, dt_session_id = Some s, dt_token = token, dt_platform = platform,
       dt_app_version = version, dt_created_at = clk, dt_last_used_at = Some clk \<rparr>"

text \<open>\<open>device_token_pkey\<close>; the token's unique key is the conflict target of the upsert.\<close>

definition register_device ::
  "clock \<Rightarrow> uuid \<Rightarrow> uuid \<Rightarrow> uuid \<Rightarrow> string \<Rightarrow> string \<Rightarrow> string option \<Rightarrow> db \<Rightarrow> sql_error + device_row option \<times> db" where
  "register_device clk i u s token platform version d =
     (if \<not> lock_active_account u d then Inr (None, d)
      else if \<not> active_family (clk 0) u s d then Inr (None, d)
      else if sql_exists (\<lambda>v. dt_token v = token) (device_token d) then
        (let t = sql_update (\<lambda>v. dt_token v = token)
             (\<lambda>v. v\<lparr>dt_user_id := u, dt_session_id := Some s, dt_platform := platform, dt_app_version := version,
                dt_last_used_at := Some (clk 1)\<rparr>) (device_token d)
         in Inr (sql_first (\<lambda>v. dt_token v = token) t, d\<lparr>device_token := t\<rparr>))
      else if sql_exists (\<lambda>v. dt_id v = i) (device_token d) then Inl Unique_violation
      else Inr (Some (device_of i u s token platform version (clk 1)),
        d\<lparr>device_token := device_token d @ [device_of i u s token platform version (clk 1)]\<rparr>))"

text \<open>ORDER BY last_used_at DESC NULLS LAST, id.\<close>

definition device_key :: "device_row \<Rightarrow> bool \<times> pg_time \<times> uuid" where
  "device_key v = (case dt_last_used_at v of None \<Rightarrow> (True, 0, dt_id v) | Some t \<Rightarrow> (False, - t, dt_id v))"

definition devices_for_user :: "uuid \<Rightarrow> db \<Rightarrow> device_row list" where
  "devices_for_user u d = sort_key device_key (filter (\<lambda>v. dt_user_id v = u) (device_token d))"

definition remove_device :: "uuid \<Rightarrow> uuid \<Rightarrow> db \<Rightarrow> bool \<times> db" where
  "remove_device u i d =
     (sql_count (\<lambda>v. dt_id v = i \<and> dt_user_id v = u) (device_token d) = 1,
      delete_devices (\<lambda>v. dt_id v = i \<and> dt_user_id v = u) d)"

definition remove_token :: "string \<Rightarrow> db \<Rightarrow> db" where
  "remove_token token d = delete_devices (\<lambda>v. dt_token v = token) d"

end
