(* ===== verification/Session_Lifecycle.thy ===== *)
theory Session_Lifecycle
  imports Sessions
begin

text \<open>
  The life of mobile sessions: the invariant of the session tables, that no transaction can violate a
  constraint, and the chain of tokens as an abstract session that a rotation moves along.
\<close>

section \<open>The invariant\<close>

definition child_of :: "refresh_row list \<Rightarrow> refresh_row \<Rightarrow> bool" where
  "child_of t r \<longleftrightarrow> (\<exists>c \<in> set t. rt_parent_id c = Some (rt_id r))"

definition family_revoked :: "uuid \<Rightarrow> family_row list \<Rightarrow> bool" where
  "family_revoked s fs \<longleftrightarrow> sql_exists (\<lambda>f. rf_id f = s \<and> rf_revoked_at f \<noteq> None) fs"

text \<open>
  The constraints hold; a session that was revoked has no usable token; a token is spent because it was
  rotated or because its session was revoked; only a rotated token has a child.
\<close>

definition session_tables_ok :: "family_row list \<Rightarrow> refresh_row list \<Rightarrow> bool" where
  "session_tables_ok fs rs \<longleftrightarrow> family_table_ok fs \<and> list_all refresh_row_ok rs \<and> refresh_unique_ok rs \<and>
     list_all (refresh_refs_ok fs rs) rs \<and>
     (\<forall>r \<in> set rs. family_revoked (rt_family_id r) fs \<longrightarrow> rt_revoked r) \<and>
     (\<forall>r \<in> set rs. rt_revoked r \<and> rt_rotated_at r = None \<longrightarrow> family_revoked (rt_family_id r) fs) \<and>
     (\<forall>r \<in> set rs. child_of rs r \<longrightarrow> rt_rotated_at r \<noteq> None)"

definition session_inv :: "db \<Rightarrow> bool" where
  "session_inv d \<longleftrightarrow> session_tables_ok (refresh_token_family d) (refresh_tokens d)"

lemma session_tables_okD:
  assumes "session_tables_ok fs rs"
  shows "family_table_ok fs" "list_all refresh_row_ok rs" "refresh_unique_ok rs"
    "\<And>r. r \<in> set rs \<Longrightarrow> refresh_refs_ok fs rs r"
    "\<And>r. r \<in> set rs \<Longrightarrow> family_revoked (rt_family_id r) fs \<Longrightarrow> rt_revoked r"
    "\<And>r. r \<in> set rs \<Longrightarrow> rt_revoked r \<Longrightarrow> rt_rotated_at r = None \<Longrightarrow> family_revoked (rt_family_id r) fs"
    "\<And>r. r \<in> set rs \<Longrightarrow> child_of rs r \<Longrightarrow> rt_rotated_at r \<noteq> None"
    "distinct (map rf_id fs)" "distinct (map rt_id rs)" "distinct (map rt_jti rs)"
    "unique_where (\<lambda>r. \<not> rt_revoked r) rt_family_id rs" "unique_where (\<lambda>r. rt_parent_id r \<noteq> None) rt_parent_id rs"
  using assms unfolding session_tables_ok_def family_table_ok_def refresh_unique_ok_def list_all_iff by blast+

section \<open>Updates that keep the keys\<close>

definition same_token :: "refresh_row \<Rightarrow> refresh_row \<Rightarrow> bool" where
  "same_token r s \<longleftrightarrow> rt_id s = rt_id r \<and> rt_user_id s = rt_user_id r \<and> rt_token_hash s = rt_token_hash r \<and>
     rt_jti s = rt_jti r \<and> rt_family_id s = rt_family_id r \<and> rt_parent_id s = rt_parent_id r \<and>
     rt_expires_at s = rt_expires_at r \<and> (rt_revoked r \<longrightarrow> rt_revoked s) \<and> (rt_rotated_at r \<noteq> None \<longrightarrow> rt_rotated_at s = rt_rotated_at r)"

definition same_family :: "family_row \<Rightarrow> family_row \<Rightarrow> bool" where
  "same_family f g \<longleftrightarrow> rf_id g = rf_id f \<and> rf_user_id g = rf_user_id f \<and> rf_created_at g = rf_created_at f \<and>
     (rf_revoked_at f \<noteq> None \<longrightarrow> rf_revoked_at g = rf_revoked_at f \<and> rf_revocation_reason g = rf_revocation_reason f)"

lemma same_token_refl [simp]: "same_token r r" by (simp add: same_token_def)
lemma same_family_refl [simp]: "same_family f f" by (simp add: same_family_def)

lemma same_token_trans: "same_token r s \<Longrightarrow> same_token s t \<Longrightarrow> same_token r t"
  by (auto simp: same_token_def)

lemma same_family_trans: "same_family r s \<Longrightarrow> same_family s t \<Longrightarrow> same_family r t"
  by (auto simp: same_family_def)

lemma refresh_unique_same:
  assumes "list_all2 same_token t u" "refresh_unique_ok t"
  shows "refresh_unique_ok u"
proof -
  have ids: "map rt_id u = map rt_id t" "map rt_jti u = map rt_jti t"
    by (rule list_all2_map_eq [OF assms(1), symmetric], simp add: same_token_def)+
  have d: "distinct (map rt_id u)" "distinct (map rt_id t)" using assms(2) ids by (simp_all add: refresh_unique_ok_def)
  have u: "unique_where (\<lambda>r. \<not> rt_revoked r) rt_family_id u"
    unfolding unique_where_iff [OF d(1)]
  proof (intro ballI impI)
    fix x y assume xy: "x \<in> set u" "y \<in> set u" "\<not> rt_revoked x" "\<not> rt_revoked y" "rt_family_id x = rt_family_id y"
    obtain x0 y0 where "x0 \<in> set t" "same_token x0 x" "y0 \<in> set t" "same_token y0 y"
      using list_all2_setD2 [OF assms(1) xy(1)] list_all2_setD2 [OF assms(1) xy(2)] by blast
    with assms(2) xy show "rt_id x = rt_id y"
      unfolding refresh_unique_ok_def unique_where_iff [OF d(2)] same_token_def by metis
  qed
  have v: "unique_where (\<lambda>r. rt_parent_id r \<noteq> None) rt_parent_id u"
    unfolding unique_where_iff [OF d(1)]
  proof (intro ballI impI)
    fix x y assume xy: "x \<in> set u" "y \<in> set u" "rt_parent_id x \<noteq> None" "rt_parent_id y \<noteq> None" "rt_parent_id x = rt_parent_id y"
    obtain x0 y0 where "x0 \<in> set t" "same_token x0 x" "y0 \<in> set t" "same_token y0 y"
      using list_all2_setD2 [OF assms(1) xy(1)] list_all2_setD2 [OF assms(1) xy(2)] by blast
    with assms(2) xy show "rt_id x = rt_id y"
      unfolding refresh_unique_ok_def unique_where_iff [OF d(2)] same_token_def by metis
  qed
  from u v assms(2) show ?thesis by (simp add: refresh_unique_ok_def ids)
qed

lemma refresh_refs_same:
  assumes "list_all2 same_token t u" "list_all2 same_family fs gs" "\<And>r. r \<in> set t \<Longrightarrow> refresh_refs_ok fs t r" "s \<in> set u"
  shows "refresh_refs_ok gs u s"
proof -
  obtain r where r: "r \<in> set t" "same_token r s" using list_all2_setD2 [OF assms(1,4)] by blast
  obtain f where f: "f \<in> set fs" "rf_id f = rt_family_id r" "rf_user_id f = rt_user_id r"
    using assms(3) [OF r(1)] unfolding refresh_refs_ok_def sql_exists_iff by blast
  obtain g where g: "g \<in> set gs" "same_family f g" using list_all2_setD1 [OF assms(2) f(1)] by blast
  have fam: "sql_exists (\<lambda>f. rf_id f = rt_family_id s \<and> rf_user_id f = rt_user_id s) gs"
    unfolding sql_exists_iff using f g r(2) by (auto simp: same_family_def same_token_def intro!: bexI [of _ g])
  have par: "sql_exists (\<lambda>q. rt_id q = p \<and> rt_family_id q = rt_family_id s) u" if "rt_parent_id s = Some p" for p
  proof -
    have pr: "rt_parent_id r = Some p" using that r(2) by (simp add: same_token_def)
    obtain q where q: "q \<in> set t" "rt_id q = p" "rt_family_id q = rt_family_id r"
      using assms(3) [OF r(1)] pr unfolding refresh_refs_ok_def sql_exists_iff by auto
    obtain q' where "q' \<in> set u" "same_token q q'" using list_all2_setD1 [OF assms(1) q(1)] by blast
    with q r(2) show ?thesis unfolding sql_exists_iff same_token_def by auto
  qed
  show ?thesis using fam par by (auto simp: refresh_refs_ok_def split: option.splits)
qed

lemma child_of_same:
  assumes "list_all2 same_token t u" "s \<in> set u" "child_of u s" "r \<in> set t" "same_token r s"
  shows "child_of t r"
proof -
  obtain c where c: "c \<in> set u" "rt_parent_id c = Some (rt_id s)" using assms(3) unfolding child_of_def by blast
  obtain b where "b \<in> set t" "same_token b c" using list_all2_setD2 [OF assms(1) c(1)] by blast
  with c(2) assms(5) show ?thesis unfolding child_of_def same_token_def by force
qed

text \<open>An update of both tables that keeps the keys has only the meaning of "revoked" to answer for.\<close>

lemma session_tables_same:
  assumes ok: "session_tables_ok fs rs" and t: "list_all2 same_token rs us" and f: "list_all2 same_family fs gs"
    and chk: "list_all refresh_row_ok us" "list_all (\<lambda>f. rf_revoked_at f = None \<longleftrightarrow> rf_revocation_reason f = None) gs"
    and rev: "\<And>r. r \<in> set us \<Longrightarrow> family_revoked (rt_family_id r) gs \<Longrightarrow> rt_revoked r"
    and spent: "\<And>r. r \<in> set us \<Longrightarrow> rt_revoked r \<Longrightarrow> rt_rotated_at r = None \<Longrightarrow> family_revoked (rt_family_id r) gs"
  shows "session_tables_ok gs us"
proof -
  have ids: "map rf_id gs = map rf_id fs"
    by (rule list_all2_map_eq [OF f, symmetric]) (simp add: same_family_def)
  have fam: "family_table_ok gs" using chk(2) session_tables_okD(8) [OF ok] by (simp add: family_table_ok_def ids)
  have refs: "list_all (refresh_refs_ok gs us) us"
    unfolding list_all_iff using refresh_refs_same [OF t f session_tables_okD(4) [OF ok]] by blast
  have child: "rt_rotated_at s \<noteq> None" if s: "s \<in> set us" "child_of us s" for s
  proof -
    obtain r where r: "r \<in> set rs" "same_token r s" using list_all2_setD2 [OF t s(1)] by blast
    with session_tables_okD(7) [OF ok r(1) child_of_same [OF t s r]] show ?thesis by (simp add: same_token_def)
  qed
  show ?thesis
    unfolding session_tables_ok_def
    using fam chk(1) refresh_unique_same [OF t session_tables_okD(3) [OF ok]] refs rev spent child by blast
qed

section \<open>Revocation\<close>

definition kill_family :: "pg_time \<Rightarrow> revocation_reason \<Rightarrow> family_row \<Rightarrow> family_row" where
  "kill_family clk reason f = f\<lparr>rf_revoked_at := Some clk, rf_revocation_reason := Some reason\<rparr>"

definition kill_token :: "refresh_row \<Rightarrow> refresh_row" where
  "kill_token r = r\<lparr>rt_revoked := True\<rparr>"

definition doomed_family :: "uuid \<Rightarrow> uuid option \<Rightarrow> family_row \<Rightarrow> bool" where
  "doomed_family u s f \<longleftrightarrow> rf_user_id f = u \<and> rf_revoked_at f = None \<and> selects s (rf_id f)"

definition doomed_token :: "uuid \<Rightarrow> uuid option \<Rightarrow> refresh_row \<Rightarrow> bool" where
  "doomed_token u s r \<longleftrightarrow> rt_user_id r = u \<and> \<not> rt_revoked r \<and> selects s (rt_family_id r)"

definition doomed_device :: "uuid \<Rightarrow> uuid option \<Rightarrow> device_row \<Rightarrow> bool" where
  "doomed_device u s v \<longleftrightarrow> dt_user_id v = u \<and> (case s of None \<Rightarrow> True | Some x \<Rightarrow> dt_session_id v = Some x)"

lemma revoke_families_alt:
  "revoke_families clk u reason s d =
     and_then (update_families (doomed_family u s) (kill_family clk reason) d) (\<lambda>d1.
     and_then (update_refresh (doomed_token u s) kill_token d1) (\<lambda>d2.
     Inr (sql_count (doomed_family u s) (refresh_token_family d), delete_devices (doomed_device u s) d2)))"
  unfolding revoke_families_def Let_def doomed_family_def [abs_def] doomed_token_def [abs_def] kill_family_def [abs_def]
    kill_token_def [abs_def] doomed_device_def [abs_def] ..

lemma kill_simps [simp]:
  "rf_id (kill_family clk re f) = rf_id f" "rf_user_id (kill_family clk re f) = rf_user_id f"
  "rf_revoked_at (kill_family clk re f) = Some clk" "rf_revocation_reason (kill_family clk re f) = Some re"
  "rf_created_at (kill_family clk re f) = rf_created_at f"
  "rt_id (kill_token r) = rt_id r" "rt_family_id (kill_token r) = rt_family_id r" "rt_revoked (kill_token r)"
  "rt_rotated_at (kill_token r) = rt_rotated_at r" "rt_jti (kill_token r) = rt_jti r" "rt_parent_id (kill_token r) = rt_parent_id r"
  by (simp_all add: kill_family_def kill_token_def)

lemma kill_same: "doomed_family u s f \<Longrightarrow> same_family f (kill_family clk re f)" "same_token r (kill_token r)"
  by (simp_all add: doomed_family_def same_family_def kill_family_def same_token_def kill_token_def)

text \<open>The owner of a token is the owner of its session.\<close>

lemma token_owner:
  assumes ok: "session_tables_ok fs rs" and "r \<in> set rs" "f \<in> set fs" "rf_id f = rt_family_id r"
  shows "rf_user_id f = rt_user_id r"
proof -
  obtain g where g: "g \<in> set fs" "rf_id g = rt_family_id r" "rf_user_id g = rt_user_id r"
    using session_tables_okD(4) [OF ok assms(2)] unfolding refresh_refs_ok_def sql_exists_iff by blast
  have "g = f" by (rule distinct_keyD [OF session_tables_okD(8) [OF ok] g(1) assms(3)]) (simp add: g(2) assms(4))
  with g show ?thesis by simp
qed

definition after_revoke :: "pg_time \<Rightarrow> uuid \<Rightarrow> revocation_reason \<Rightarrow> uuid option \<Rightarrow> db \<Rightarrow> db" where
  "after_revoke clk u reason s d = delete_devices (doomed_device u s)
     (d\<lparr>refresh_token_family := sql_update (doomed_family u s) (kill_family clk reason) (refresh_token_family d),
        refresh_tokens := sql_update (doomed_token u s) kill_token (refresh_tokens d)\<rparr>)"

lemma after_revoke_tables [simp]:
  "refresh_token_family (after_revoke clk u re s d) = sql_update (doomed_family u s) (kill_family clk re) (refresh_token_family d)"
  "refresh_tokens (after_revoke clk u re s d) = sql_update (doomed_token u s) kill_token (refresh_tokens d)"
  "user_account (after_revoke clk u re s d) = user_account d"
  by (simp_all add: after_revoke_def delete_devices_def Let_def)

lemma revoke_families_spec:
  assumes inv: "session_inv d"
  shows "revoke_families clk u re s d =
      Inr (sql_count (doomed_family u s) (refresh_token_family d), after_revoke clk u re s d)"
    "session_inv (after_revoke clk u re s d)"
    "list_all2 same_token (refresh_tokens d) (refresh_tokens (after_revoke clk u re s d))"
    "list_all2 same_family (refresh_token_family d) (refresh_token_family (after_revoke clk u re s d))"
proof -
  let ?fs = "refresh_token_family d" and ?rs = "refresh_tokens d"
  let ?gs = "sql_update (doomed_family u s) (kill_family clk re) ?fs" and ?us = "sql_update (doomed_token u s) kill_token ?rs"
  note ok = inv [unfolded session_inv_def]
  have t: "list_all2 same_token ?rs ?us" by (rule list_all2_sql_update) (simp add: kill_same)
  have f: "list_all2 same_family ?fs ?gs" by (rule list_all2_sql_update) (simp add: kill_same)
  have chk: "list_all refresh_row_ok ?us"
    by (rule list_all_sql_update [OF session_tables_okD(2) [OF ok]]) (simp add: refresh_row_ok_def)
  have chk2: "list_all (\<lambda>f. rf_revoked_at f = None \<longleftrightarrow> rf_revocation_reason f = None) ?gs"
    by (rule list_all_sql_update) (use session_tables_okD(1) [OF ok] in \<open>auto simp: family_table_ok_def\<close>)
  have rev: "rt_revoked r'" if r': "r' \<in> set ?us" "family_revoked (rt_family_id r') ?gs" for r'
  proof -
    obtain r where r: "r \<in> set ?rs" "r' = (if doomed_token u s r then kill_token r else r)" using r'(1) by (rule in_sql_updateE)
    obtain g where "g \<in> set ?gs" "rf_id g = rt_family_id r'" "rf_revoked_at g \<noteq> None"
      using r'(2) unfolding family_revoked_def sql_exists_iff by blast
    then obtain f where f: "f \<in> set ?fs" "rf_id f = rt_family_id r" "rf_revoked_at f \<noteq> None \<or> doomed_family u s f"
      using r(2) by (auto elim!: in_sql_updateE split: if_splits)
    show ?thesis
    proof (cases "rf_revoked_at f = None")
      case False
      then have "family_revoked (rt_family_id r) ?fs" unfolding family_revoked_def sql_exists_iff using f by blast
      with session_tables_okD(5) [OF ok r(1)] r(2) show ?thesis by (auto simp: doomed_token_def)
    next
      case True
      with f token_owner [OF ok r(1) f(1,2)] r(2) show ?thesis by (auto simp: doomed_family_def doomed_token_def)
    qed
  qed
  have spent: "family_revoked (rt_family_id r') ?gs" if r': "r' \<in> set ?us" "rt_revoked r'" "rt_rotated_at r' = None" for r'
  proof -
    obtain r where r: "r \<in> set ?rs" "r' = (if doomed_token u s r then kill_token r else r)" using r'(1) by (rule in_sql_updateE)
    have "\<exists>f \<in> set ?fs. rf_id f = rt_family_id r \<and> (rf_revoked_at f \<noteq> None \<or> doomed_family u s f)"
    proof (cases "rt_revoked r")
      case True
      with r r'(3) have "family_revoked (rt_family_id r) ?fs" using session_tables_okD(6) [OF ok r(1) True] by (auto split: if_splits)
      then show ?thesis unfolding family_revoked_def sql_exists_iff by blast
    next
      case False
      with r r'(2) have "doomed_token u s r" by (auto split: if_splits)
      moreover obtain f where "f \<in> set ?fs" "rf_id f = rt_family_id r" "rf_user_id f = rt_user_id r"
        using session_tables_okD(4) [OF ok r(1)] unfolding refresh_refs_ok_def sql_exists_iff by blast
      ultimately show ?thesis by (auto simp: doomed_token_def doomed_family_def)
    qed
    then have "sql_exists (\<lambda>f. rf_id f = rt_family_id r \<and> rf_revoked_at f \<noteq> None) ?gs"
      unfolding sql_exists_iff bex_sql_update by auto
    with r(2) show ?thesis by (simp add: family_revoked_def split: if_splits)
  qed
  have ok': "session_tables_ok ?gs ?us" by (rule session_tables_same [OF ok t f chk chk2 rev spent])
  then show "session_inv (after_revoke clk u re s d)" by (simp add: session_inv_def)
  show "list_all2 same_token (refresh_tokens d) (refresh_tokens (after_revoke clk u re s d))"
    "list_all2 same_family (refresh_token_family d) (refresh_token_family (after_revoke clk u re s d))"
    using t f by simp_all
  show "revoke_families clk u re s d =
      Inr (sql_count (doomed_family u s) (refresh_token_family d), after_revoke clk u re s d)"
    using chk chk2 refresh_unique_same [OF t session_tables_okD(3) [OF ok]]
    by (simp add: revoke_families_alt update_families_def update_refresh_def after_revoke_def Let_def)
qed

section \<open>A new token\<close>

definition fresh_token :: "new_refresh_token \<Rightarrow> db \<Rightarrow> bool" where
  "fresh_token t d \<longleftrightarrow> nr_id t \<notin> rt_id ` set (refresh_tokens d) \<and> nr_jti t \<notin> rt_jti ` set (refresh_tokens d)"

lemma token_row_simps [simp]:
  "rt_id (token_row u s t p) = nr_id t" "rt_jti (token_row u s t p) = nr_jti t" "rt_user_id (token_row u s t p) = u"
  "rt_family_id (token_row u s t p) = s" "rt_parent_id (token_row u s t p) = p" "\<not> rt_revoked (token_row u s t p)"
  "rt_rotated_at (token_row u s t p) = None" "rt_token_hash (token_row u s t p) = nr_hash t"
  by (simp_all add: token_row_def)

text \<open>A token can be added to a session that has no usable one, as the child of a rotated token without a child.\<close>

lemma insert_token_spec:
  assumes inv: "session_inv d" and fresh: "fresh_token t d"
    and fam: "sql_exists (\<lambda>f. rf_id f = s \<and> rf_user_id f = u) (refresh_token_family d)"
    and live: "\<not> family_revoked s (refresh_token_family d)"
    and none: "\<And>r. r \<in> set (refresh_tokens d) \<Longrightarrow> rt_family_id r = s \<Longrightarrow> rt_revoked r"
    and par: "\<And>i. parent = Some i \<Longrightarrow> \<exists>q \<in> set (refresh_tokens d). rt_id q = i \<and> rt_family_id q = s \<and>
      rt_rotated_at q \<noteq> None \<and> \<not> child_of (refresh_tokens d) q"
  defines "d' \<equiv> d\<lparr>refresh_tokens := refresh_tokens d @ [token_row u s t parent]\<rparr>"
  shows "insert_token u s t parent d = Inr d'" "session_inv d'"
proof -
  let ?rs = "refresh_tokens d" and ?r = "token_row u s t parent" and ?fs = "refresh_token_family d"
  note ok = inv [unfolded session_inv_def]
  have id: "nr_id t \<notin> rt_id ` set ?rs" "nr_jti t \<notin> rt_jti ` set ?rs" using fresh by (simp_all add: fresh_token_def)
  have own: "parent \<noteq> Some (nr_id t)" using par id(1) by (metis image_eqI)
  have nochild: "rt_parent_id c \<noteq> parent" if "c \<in> set ?rs" "parent \<noteq> None" for c
    using par that unfolding child_of_def by fastforce
  have row: "refresh_row_ok ?r" using own by (simp add: refresh_row_ok_def)
  have uniq: "refresh_unique_ok (?rs @ [?r])"
    using session_tables_okD(3) [OF ok] id none nochild
    by (auto simp: refresh_unique_ok_def unique_where_append)
  have ref: "refresh_refs_ok ?fs (?rs @ [?r]) ?r"
    using fam par by (fastforce simp: refresh_refs_ok_def sql_exists_iff split: option.splits)
  show "insert_token u s t parent d = Inr d'"
    using row uniq ref by (simp add: insert_token_def insert_refresh_def d'_def)
  have refs: "refresh_refs_ok ?fs (?rs @ [?r]) x" if "x \<in> set ?rs" for x
    using session_tables_okD(4) [OF ok that] by (auto simp: refresh_refs_ok_def split: option.splits)
  have child: "rt_rotated_at x \<noteq> None" if x: "x \<in> set (?rs @ [?r])" "child_of (?rs @ [?r]) x" for x
  proof -
    obtain c where c: "c \<in> set (?rs @ [?r])" "rt_parent_id c = Some (rt_id x)" using x(2) unfolding child_of_def by blast
    have "x \<noteq> ?r"
    proof
      assume xr: "x = ?r"
      with c own have "c \<in> set ?rs" "rt_parent_id c = Some (nr_id t)" by auto
      then obtain q where "q \<in> set ?rs" "rt_id q = nr_id t"
        using session_tables_okD(4) [OF ok, of c] by (auto simp: refresh_refs_ok_def sql_exists_iff)
      with id(1) show False by (metis image_eqI)
    qed
    with x(1) have xs: "x \<in> set ?rs" by auto
    show ?thesis
    proof (cases "c \<in> set ?rs")
      case True
      with session_tables_okD(7) [OF ok xs] c(2) show ?thesis unfolding child_of_def by blast
    next
      case False
      with c have "parent = Some (rt_id x)" by auto
      with par obtain q where q: "q \<in> set ?rs" "rt_id q = rt_id x" "rt_rotated_at q \<noteq> None" by blast
      with distinct_keyD [OF session_tables_okD(9) [OF ok] q(1) xs] show ?thesis by blast
    qed
  qed
  have "session_tables_ok ?fs (?rs @ [?r])"
    unfolding session_tables_ok_def
  proof (intro conjI)
    show "list_all refresh_row_ok (?rs @ [?r])" using session_tables_okD(2) [OF ok] row by simp
    show "list_all (refresh_refs_ok ?fs (?rs @ [?r])) (?rs @ [?r])" using refs ref by (simp add: list_all_iff)
    show "\<forall>r\<in>set (?rs @ [?r]). family_revoked (rt_family_id r) ?fs \<longrightarrow> rt_revoked r"
      using session_tables_okD(5) [OF ok] live by simp
    show "\<forall>r\<in>set (?rs @ [?r]). rt_revoked r \<and> rt_rotated_at r = None \<longrightarrow> family_revoked (rt_family_id r) ?fs"
      using session_tables_okD(6) [OF ok] by simp
    show "\<forall>r\<in>set (?rs @ [?r]). child_of (?rs @ [?r]) r \<longrightarrow> rt_rotated_at r \<noteq> None" using child by blast
  qed (fact session_tables_okD(1) [OF ok], fact uniq)
  then show "session_inv d'" by (simp add: session_inv_def d'_def)
qed

lemma create_session_spec:
  fixes u
  assumes inv: "session_inv d" and fresh: "fresh_token t d" "s \<notin> rf_id ` set (refresh_token_family d)"
  defines "f \<equiv> \<lparr> rf_id = s, rf_user_id = u, rf_created_at = pg_of_js (nr_created_at t),
            rf_last_refreshed_at = pg_of_js (nr_created_at t), rf_expires_at = pg_of_js (nr_expires_at t),
            rf_revoked_at = None, rf_revocation_reason = None \<rparr>"
  defines "d' \<equiv> d\<lparr>refresh_token_family := refresh_token_family d @ [f],
      refresh_tokens := refresh_tokens d @ [token_row u s t None]\<rparr>"
  shows "create_session s u t d =
      Inr (if lock_active_account u d then (Some \<lparr> si_user = u, si_session = s \<rparr>, d') else (None, d))"
    "session_inv d'"
proof -
  let ?d1 = "d\<lparr>refresh_token_family := refresh_token_family d @ [f]\<rparr>"
  let ?fs = "refresh_token_family d" and ?rs = "refresh_tokens d"
  note ok = inv [unfolded session_inv_def]
  have new: "rt_family_id r \<noteq> s" if "r \<in> set ?rs" for r
    using session_tables_okD(4) [OF ok that] fresh(2) unfolding refresh_refs_ok_def sql_exists_iff by (metis image_eqI)
  have f: "rf_id f = s" "rf_user_id f = u" "rf_revoked_at f = None" by (simp_all add: f_def)
  have rev: "family_revoked x (?fs @ [f]) = family_revoked x ?fs" for x
    by (simp add: family_revoked_def f)
  have fam: "family_table_ok (?fs @ [f])"
    using session_tables_okD(1) [OF ok] fresh(2) by (auto simp: family_table_ok_def f_def)
  have refs: "list_all (refresh_refs_ok (?fs @ [f]) ?rs) ?rs"
    using session_tables_okD(4) [OF ok] by (auto simp: list_all_iff refresh_refs_ok_def split: option.splits)
  have "session_tables_ok (?fs @ [f]) ?rs"
    using ok fam refs by (simp add: session_tables_ok_def rev)
  then have inv1: "session_inv ?d1" by (simp add: session_inv_def)
  have ne: "\<not> family_revoked s (refresh_token_family ?d1)"
  proof
    assume "family_revoked s (refresh_token_family ?d1)"
    then obtain g where "g \<in> set ?fs" "rf_id g = s"
      using f(3) by (auto simp: family_revoked_def sql_exists_iff)
    with fresh(2) show False by blast
  qed
  note ins = insert_token_spec [OF inv1 _ _ ne, of t u None]
  have ins: "insert_token u s t None ?d1 = Inr d'" "session_inv d'"
    using ins fresh(1) new by (auto simp: fresh_token_def f_def d'_def)
  show "session_inv d'" by (rule ins)
  have "insert_family f d = Inr ?d1" if "lock_active_account u d"
    using that fresh(2) session_tables_okD(8) [OF ok]
    by (auto simp: insert_family_def f_def Let_def lock_active_account_def sql_exists_iff)
  then show "create_session s u t d =
      Inr (if lock_active_account u d then (Some \<lparr> si_user = u, si_session = s \<rparr>, d') else (None, d))"
    using ins(1) by (simp add: create_session_def f_def [symmetric])
qed

section \<open>Rotation\<close>

definition spend_token :: "pg_time \<Rightarrow> refresh_row \<Rightarrow> refresh_row" where
  "spend_token clk r = r\<lparr>rt_revoked := True, rt_rotated_at := Some clk\<rparr>"

definition touch_family :: "pg_time \<Rightarrow> pg_time \<Rightarrow> family_row \<Rightarrow> family_row" where
  "touch_family clk e f = f\<lparr>rf_last_refreshed_at := clk, rf_expires_at := e\<rparr>"

lemma spend_simps [simp]:
  "rt_id (spend_token clk r) = rt_id r" "rt_family_id (spend_token clk r) = rt_family_id r" "rt_revoked (spend_token clk r)"
  "rt_rotated_at (spend_token clk r) = Some clk" "rt_jti (spend_token clk r) = rt_jti r"
  "rt_parent_id (spend_token clk r) = rt_parent_id r"
  "rf_id (touch_family clk e f) = rf_id f" "rf_revoked_at (touch_family clk e f) = rf_revoked_at f"
  "rf_user_id (touch_family clk e f) = rf_user_id f" "rf_revocation_reason (touch_family clk e f) = rf_revocation_reason f"
  "rf_created_at (touch_family clk e f) = rf_created_at f"
  by (simp_all add: spend_token_def touch_family_def)

definition after_rotate :: "clock \<Rightarrow> refresh_row \<Rightarrow> new_refresh_token \<Rightarrow> db \<Rightarrow> db" where
  "after_rotate clk t nxt d =
     d\<lparr>refresh_tokens := sql_update (\<lambda>r. rt_id r = rt_id t) (spend_token (clk 2)) (refresh_tokens d) @
         [token_row (rt_user_id t) (rt_family_id t) nxt (Some (rt_id t))],
       refresh_token_family := sql_update (\<lambda>f. rf_id f = rt_family_id t)
         (touch_family (clk 3) (pg_of_js (nr_expires_at nxt))) (refresh_token_family d)\<rparr>"

lemma family_revoked_touch: "family_revoked x (sql_update p (touch_family clk e) fs) = family_revoked x fs"
  by (simp add: family_revoked_def sql_exists_sql_update if_distrib cong: if_cong)

lemma rotate_token_spec:
  assumes inv: "session_inv d" and t: "t \<in> set (refresh_tokens d)" "\<not> rt_revoked t"
    and live: "active_family c (rt_user_id t) (rt_family_id t) d" and fresh: "fresh_token nxt d"
  shows "and_then (update_refresh (\<lambda>r. rt_id r = rt_id t) (\<lambda>r. r\<lparr>rt_revoked := True, rt_rotated_at := Some (clk 2)\<rparr>) d) (\<lambda>d1.
      and_then (insert_token (rt_user_id t) (rt_family_id t) nxt (Some (rt_id t)) d1) (\<lambda>d2.
      and_then (update_families (\<lambda>f. rf_id f = rt_family_id t)
          (\<lambda>f. f\<lparr>rf_last_refreshed_at := clk 3, rf_expires_at := pg_of_js (nr_expires_at nxt)\<rparr>) d2) k)) =
      k (after_rotate clk t nxt d)"
    "session_inv (after_rotate clk t nxt d)"
proof -
  let ?rs = "refresh_tokens d" and ?fs = "refresh_token_family d" and ?s = "rt_family_id t"
  let ?us = "sql_update (\<lambda>r. rt_id r = rt_id t) (spend_token (clk 2)) ?rs"
  let ?gs = "sql_update (\<lambda>f. rf_id f = ?s) (touch_family (clk 3) (pg_of_js (nr_expires_at nxt))) ?fs"
  let ?d1 = "d\<lparr>refresh_tokens := ?us\<rparr>"
  let ?d2 = "?d1\<lparr>refresh_tokens := ?us @ [token_row (rt_user_id t) ?s nxt (Some (rt_id t))]\<rparr>"
  note ok = inv [unfolded session_inv_def]
  have only: "r = t" if "r \<in> set ?rs" "rt_id r = rt_id t" for r
    using distinct_keyD [OF session_tables_okD(9) [OF ok] that(1) t(1) that(2)] .
  obtain f where f: "f \<in> set ?fs" "rf_id f = ?s" "rf_user_id f = rt_user_id t" "rf_revoked_at f = None"
    using live unfolding active_family_def sql_exists_iff by blast
  have nrev: "\<not> family_revoked ?s ?fs"
    using distinct_keyD [OF session_tables_okD(8) [OF ok] _ f(1)] f(2,4) by (auto simp: family_revoked_def sql_exists_iff)
  have unrot: "rt_rotated_at t = None"
    using session_tables_okD(2) [OF ok] t by (auto simp: list_all_iff refresh_row_ok_def)
  have same: "list_all2 same_token ?rs ?us"
  proof (rule list_all2_sql_update)
    fix r assume r: "r \<in> set ?rs"
    show "same_token r (if rt_id r = rt_id t then spend_token (clk 2) r else r)"
    proof (cases "rt_id r = rt_id t")
      case True
      with only [OF r] unrot show ?thesis by (simp add: same_token_def spend_token_def)
    qed simp
  qed
  have chk: "list_all refresh_row_ok ?us"
    by (rule list_all_sql_update [OF session_tables_okD(2) [OF ok]]) (simp add: refresh_row_ok_def)
  have ok1: "session_tables_ok ?fs ?us"
  proof (rule session_tables_same [OF ok same _ chk])
    show "list_all2 same_family ?fs ?fs" by (simp add: list_all2_refl)
    show "list_all (\<lambda>f. (rf_revoked_at f = None) = (rf_revocation_reason f = None)) ?fs"
      using session_tables_okD(1) [OF ok] by (simp add: family_table_ok_def)
    show "rt_revoked r" if "r \<in> set ?us" "family_revoked (rt_family_id r) ?fs" for r
      using that(1) by (rule in_sql_updateE) (use session_tables_okD(5) [OF ok] that(2) in \<open>auto split: if_splits\<close>)
    show "family_revoked (rt_family_id r) ?fs" if "r \<in> set ?us" "rt_revoked r" "rt_rotated_at r = None" for r
      using that(1) by (rule in_sql_updateE) (use session_tables_okD(6) [OF ok] that(2,3) in \<open>auto split: if_splits\<close>)
  qed
  then have inv1: "session_inv ?d1" by (simp add: session_inv_def)
  have nochild: "\<not> child_of ?rs t" using session_tables_okD(7) [OF ok t(1)] unrot by blast
  have spent: "rt_revoked r" if "r \<in> set ?us" "rt_family_id r = ?s" for r
    using that(1)
  proof (rule in_sql_updateE)
    fix x assume x: "x \<in> set ?rs" "r = (if rt_id x = rt_id t then spend_token (clk 2) x else x)"
    show ?thesis
    proof (cases "rt_id x = rt_id t")
      case False
      have "x = t" if "\<not> rt_revoked x"
        using unique_whereD [OF session_tables_okD(11) [OF ok] x(1) t(1)] that t(2) \<open>rt_family_id r = ?s\<close> x(2) False by simp
      with False x(2) show ?thesis by auto
    qed (simp add: x)
  qed
  have q: "spend_token (clk 2) t \<in> set ?us" using t(1) unfolding set_sql_update by force
  have nochild1: "\<not> child_of ?us (spend_token (clk 2) t)"
    using child_of_same [OF same q _ t(1)] nochild unrot by (auto simp: same_token_def spend_token_def)
  have fresh1: "fresh_token nxt ?d1"
  proof -
    have "rt_id ` set ?us = rt_id ` set ?rs" "rt_jti ` set ?us = rt_jti ` set ?rs"
      by (simp_all only: set_map [symmetric]) (simp_all only: map_sql_update spend_simps)
    with fresh show ?thesis by (simp add: fresh_token_def)
  qed
  have fam1: "sql_exists (\<lambda>f. rf_id f = ?s \<and> rf_user_id f = rt_user_id t) (refresh_token_family ?d1)"
    using f unfolding sql_exists_iff by auto
  have par1: "\<exists>q \<in> set (refresh_tokens ?d1). rt_id q = i \<and> rt_family_id q = ?s \<and> rt_rotated_at q \<noteq> None \<and>
      \<not> child_of (refresh_tokens ?d1) q" if "Some (rt_id t) = Some i" for i
    using q nochild1 that by (intro bexI [of _ "spend_token (clk 2) t"]) simp_all
  have ins: "insert_token (rt_user_id t) ?s nxt (Some (rt_id t)) ?d1 = Inr ?d2" "session_inv ?d2"
    using insert_token_spec [OF inv1 fresh1 fam1 _ _ par1, of "Some (rt_id t)"] nrev spent by simp_all
  have chk2: "list_all (\<lambda>f. rf_revoked_at f = None \<longleftrightarrow> rf_revocation_reason f = None) ?gs"
    by (rule list_all_sql_update) (use session_tables_okD(1) [OF ok] in \<open>auto simp: family_table_ok_def\<close>)
  note ok2 = ins(2) [unfolded session_inv_def]
  have "session_tables_ok ?gs (refresh_tokens ?d2)"
  proof (rule session_tables_same [where fs = ?fs and rs = "refresh_tokens ?d2"])
    show "session_tables_ok ?fs (refresh_tokens ?d2)" using ok2 by simp
    show "list_all2 same_token (refresh_tokens ?d2) (refresh_tokens ?d2)" by (rule list_all2_refl) simp
    show "list_all2 same_family ?fs ?gs" by (rule list_all2_sql_update) (simp add: same_family_def)
    show "list_all refresh_row_ok (refresh_tokens ?d2)" using session_tables_okD(2) [OF ok2] by simp
    show "rt_revoked r" if "r \<in> set (refresh_tokens ?d2)" "family_revoked (rt_family_id r) ?gs" for r
      using session_tables_okD(5) [OF ok2 that(1)] that(2) by (simp add: family_revoked_touch)
    show "family_revoked (rt_family_id r) ?gs" if "r \<in> set (refresh_tokens ?d2)" "rt_revoked r" "rt_rotated_at r = None" for r
      using session_tables_okD(6) [OF ok2 that] by (simp add: family_revoked_touch)
  qed (rule chk2)
  then show "session_inv (after_rotate clk t nxt d)" by (simp add: session_inv_def after_rotate_def)
  have u1: "update_refresh (\<lambda>r. rt_id r = rt_id t) (spend_token (clk 2)) d = Inr ?d1"
    using chk refresh_unique_same [OF same session_tables_okD(3) [OF ok]] by (simp add: update_refresh_def)
  have u3: "update_families (\<lambda>f. rf_id f = ?s) (touch_family (clk 3) (pg_of_js (nr_expires_at nxt))) ?d2 =
      Inr (after_rotate clk t nxt d)"
    using chk2 by (simp add: update_families_def after_rotate_def)
  show "and_then (update_refresh (\<lambda>r. rt_id r = rt_id t) (\<lambda>r. r\<lparr>rt_revoked := True, rt_rotated_at := Some (clk 2)\<rparr>) d) (\<lambda>d1.
      and_then (insert_token (rt_user_id t) (rt_family_id t) nxt (Some (rt_id t)) d1) (\<lambda>d2.
      and_then (update_families (\<lambda>f. rf_id f = rt_family_id t)
          (\<lambda>f. f\<lparr>rf_last_refreshed_at := clk 3, rf_expires_at := pg_of_js (nr_expires_at nxt)\<rparr>) d2) k)) =
      k (after_rotate clk t nxt d)"
    using u1 ins(1) u3 by (simp add: spend_token_def [abs_def] touch_family_def [abs_def])
qed

text \<open>What a rotation does, on every branch.\<close>

lemma lock_tokenD:
  assumes "lock_token clk jti hash owner d = Some t" "distinct (map rt_id (refresh_tokens d))"
  shows "t \<in> set (refresh_tokens d)" "rt_jti t = jti" "rt_token_hash t = hash" "clk < rt_expires_at t"
    "lock_active_account (rt_user_id t) d"
proof -
  obtain c where c: "sql_first (\<lambda>r. rt_jti r = jti) (refresh_tokens d) = Some c" "rt_token_hash c = hash"
      "lock_active_account (rt_user_id c) d" "sql_first (\<lambda>r. rt_id r = rt_id c \<and> clk < rt_expires_at r) (refresh_tokens d) = Some t"
    using assms(1) by (auto simp: lock_token_def same_hash_def split: option.splits if_splits)
  then have "t \<in> set (refresh_tokens d)" "rt_id t = rt_id c" "clk < rt_expires_at t" "c \<in> set (refresh_tokens d)" "rt_jti c = jti"
    by (auto dest: sql_first_SomeD)
  moreover from this have "t = c" using distinct_keyD [OF assms(2)] by blast
  ultimately show "t \<in> set (refresh_tokens d)" "rt_jti t = jti" "rt_token_hash t = hash" "clk < rt_expires_at t"
    "lock_active_account (rt_user_id t) d" using c by simp_all
qed

datatype rotation = Refused | Replayed refresh_row | Rotated refresh_row

definition rotation_of :: "clock \<Rightarrow> uuid \<Rightarrow> string \<Rightarrow> db \<Rightarrow> rotation" where
  "rotation_of clk jti hash d =
     (case lock_token (clk 0) jti hash None d of
        None \<Rightarrow> Refused
      | Some t \<Rightarrow>
          if \<not> active_family (clk 1) (rt_user_id t) (rt_family_id t) d then Refused
          else if \<not> rt_revoked t then Rotated t
          else if rt_rotated_at t \<noteq> None then Replayed t else Refused)"

lemma rotate_session_spec:
  assumes inv: "session_inv d" and fresh: "fresh_token nxt d"
  shows "rotate_session clk jti hash nxt d = (case rotation_of clk jti hash d of
      Refused \<Rightarrow> Inr (None, d)
    | Replayed t \<Rightarrow> Inr (None, after_revoke (clk 2) (rt_user_id t) Replay (Some (rt_family_id t)) d)
    | Rotated t \<Rightarrow> Inr (Some \<lparr> si_user = rt_user_id t, si_session = rt_family_id t \<rparr>, after_rotate clk t nxt d))"
proof (cases "lock_token (clk 0) jti hash None d")
  case None
  then show ?thesis by (simp add: rotate_session_def rotation_of_def)
next
  case (Some t)
  note t = lock_tokenD [OF Some session_tables_okD(9) [OF inv [unfolded session_inv_def]]]
  show ?thesis
  proof (cases "active_family (clk 1) (rt_user_id t) (rt_family_id t) d")
    case True
    show ?thesis
    proof (cases "rt_revoked t")
      case False
      with Some True show ?thesis
        by (simp add: rotate_session_def rotation_of_def rotate_token_spec(1) [OF inv t(1) False True fresh])
    qed (use Some True in \<open>simp add: rotate_session_def rotation_of_def revoke_families_spec(1) [OF inv]\<close>)
  qed (use Some in \<open>simp add: rotate_session_def rotation_of_def\<close>)
qed

end
