(* ===== verification/Session_Steps.thy ===== *)
theory Session_Steps
  imports Session_Lifecycle
begin

text \<open>
  Mobile sessions over any order of transactions: the chain of tokens refines an abstract session, and a
  replayed token ends its session for good.
\<close>

section \<open>Transactions in any order\<close>

text \<open>
  New ids are fresh. Accounts change at will (bans and erasures); revocation in bulk is what a ban does to the
  sessions of its account.
\<close>

inductive session_step :: "db \<Rightarrow> db \<Rightarrow> bool" where
  Create: "fresh_token t d \<Longrightarrow> s \<notin> rf_id ` set (refresh_token_family d) \<Longrightarrow>
    create_session s u t d = Inr (r, d') \<Longrightarrow> session_step d d'"
| Rotate: "fresh_token t d \<Longrightarrow> rotate_session clk jti hash t d = Inr (r, d') \<Longrightarrow> session_step d d'"
| Logout: "logout_session clk u s jti hash device d = Inr (r, d') \<Longrightarrow> session_step d d'"
| Revoke: "revoke_session clk u current target d = Inr (r, d') \<Longrightarrow> session_step d d'"
| Revoke_all: "revoke_families now u reason s d = Inr (n, d') \<Longrightarrow> session_step d d'"
| Register: "register_device clk i u s token platform version d = Inr (r, d') \<Longrightarrow> session_step d d'"
| Accounts: "session_step d (d\<lparr>user_account := as\<rparr>)"

inductive session_run :: "db \<Rightarrow> db \<Rightarrow> bool" where
  Stay: "session_run d d"
| Next: "session_run d d1 \<Longrightarrow> session_step d1 d2 \<Longrightarrow> session_run d d2"

text \<open>Rows of sessions and of tokens stay, spent tokens stay spent, ended sessions stay ended.\<close>

definition session_grows :: "db \<Rightarrow> db \<Rightarrow> bool" where
  "session_grows d d' \<longleftrightarrow>
     (\<forall>f \<in> set (refresh_token_family d). \<exists>g \<in> set (refresh_token_family d'). same_family f g) \<and>
     (\<forall>r \<in> set (refresh_tokens d). \<exists>s \<in> set (refresh_tokens d'). same_token r s)"

lemma session_grows_refl: "session_grows d d"
  unfolding session_grows_def using same_family_refl same_token_refl by blast

lemma session_grows_trans: "session_grows d e \<Longrightarrow> session_grows e g \<Longrightarrow> session_grows d g"
  unfolding session_grows_def using same_family_trans same_token_trans by meson

lemma session_grows_same:
  "refresh_token_family d' = refresh_token_family d \<Longrightarrow> refresh_tokens d' = refresh_tokens d \<Longrightarrow>
    (session_inv d \<longrightarrow> session_inv d') \<and> session_grows d d'"
  using session_grows_refl [of d] unfolding session_grows_def session_inv_def by simp

lemma delete_devices_tables [simp]:
  "refresh_token_family (delete_devices p d) = refresh_token_family d" "refresh_tokens (delete_devices p d) = refresh_tokens d"
  "user_account (delete_devices p d) = user_account d"
  by (simp_all add: delete_devices_def Let_def)

lemma after_revoke_grows: "session_inv d \<Longrightarrow> session_grows d (after_revoke clk u re s d)"
  unfolding session_grows_def
  using list_all2_setD1 [OF revoke_families_spec(3)] list_all2_setD1 [OF revoke_families_spec(4)] by blast

lemma after_rotate_grows:
  assumes inv: "session_inv d" and t: "t \<in> set (refresh_tokens d)" "\<not> rt_revoked t"
  shows "session_grows d (after_rotate clk t nxt d)"
  unfolding session_grows_def
proof (intro conjI ballI)
  note ok = inv [unfolded session_inv_def]
  fix f assume f: "f \<in> set (refresh_token_family d)"
  let ?g = "if rf_id f = rt_family_id t then touch_family (clk 3) (pg_of_js (nr_expires_at nxt)) f else f"
  have "?g \<in> set (refresh_token_family (after_rotate clk t nxt d))"
    unfolding after_rotate_def using f by (simp add: set_sql_update image_iff) blast
  moreover have "same_family f ?g" by (simp add: same_family_def)
  ultimately show "\<exists>g \<in> set (refresh_token_family (after_rotate clk t nxt d)). same_family f g" by blast
next
  note ok = inv [unfolded session_inv_def]
  fix r assume r: "r \<in> set (refresh_tokens d)"
  let ?s = "if rt_id r = rt_id t then spend_token (clk 2) r else r"
  have "?s \<in> set (refresh_tokens (after_rotate clk t nxt d))"
    unfolding after_rotate_def using r by (simp add: set_sql_update image_iff) blast
  moreover have "same_token r ?s"
  proof (cases "rt_id r = rt_id t")
    case True
    with distinct_keyD [OF session_tables_okD(9) [OF ok] r t(1)] have "r = t" by simp
    moreover have "rt_rotated_at t = None"
      using session_tables_okD(2) [OF ok] t by (auto simp: list_all_iff refresh_row_ok_def)
    ultimately show ?thesis by (simp add: same_token_def spend_token_def)
  qed simp
  ultimately show "\<exists>s \<in> set (refresh_tokens (after_rotate clk t nxt d)). same_token r s" by blast
qed

lemma rotation_of_cases:
  assumes "session_inv d"
  shows "rotation_of clk jti hash d = Rotated t \<Longrightarrow>
      t \<in> set (refresh_tokens d) \<and> \<not> rt_revoked t \<and> rt_jti t = jti \<and>
      active_family (clk 1) (rt_user_id t) (rt_family_id t) d"
    and "rotation_of clk jti hash d = Replayed t \<Longrightarrow>
      t \<in> set (refresh_tokens d) \<and> rt_revoked t \<and> rt_jti t = jti \<and> rt_rotated_at t \<noteq> None \<and>
      active_family (clk 1) (rt_user_id t) (rt_family_id t) d"
  using lock_tokenD [OF _ session_tables_okD(9) [OF assms [unfolded session_inv_def]], of "clk 0" jti hash None t]
  by (auto simp: rotation_of_def split: option.splits if_splits)

lemma rotate_session_step:
  assumes inv: "session_inv d" and fresh: "fresh_token nxt d" and run: "rotate_session clk jti hash nxt d = Inr (r, d')"
  shows "session_inv d' \<and> session_grows d d'"
proof (cases "rotation_of clk jti hash d")
  case Refused
  with run session_grows_refl inv show ?thesis by (simp add: rotate_session_spec [OF inv fresh])
next
  case (Replayed t)
  with run have "d' = after_revoke (clk 2) (rt_user_id t) Replay (Some (rt_family_id t)) d"
    by (simp add: rotate_session_spec [OF inv fresh])
  then show ?thesis using revoke_families_spec(2) [OF inv] after_revoke_grows [OF inv] by simp
next
  case (Rotated t)
  with run have d': "d' = after_rotate clk t nxt d" by (simp add: rotate_session_spec [OF inv fresh])
  have t: "t \<in> set (refresh_tokens d)" "\<not> rt_revoked t" "active_family (clk 1) (rt_user_id t) (rt_family_id t) d"
    using rotation_of_cases(1) [OF inv Rotated] by auto
  show ?thesis using rotate_token_spec(2) [OF inv t fresh] after_rotate_grows [OF inv t(1,2)] by (simp add: d')
qed

lemma create_session_step:
  assumes "session_inv d" "fresh_token t d" "s \<notin> rf_id ` set (refresh_token_family d)" "create_session s u t d = Inr (r, d')"
  shows "session_inv d' \<and> session_grows d d'"
proof (cases "lock_active_account u d")
  case True
  with assms(4) create_session_spec [OF assms(1-3), of u] have "session_inv d'"
    "set (refresh_token_family d) \<subseteq> set (refresh_token_family d')" "set (refresh_tokens d) \<subseteq> set (refresh_tokens d')"
    by auto
  then show ?thesis unfolding session_grows_def using same_family_refl same_token_refl by blast
next
  case False
  with assms create_session_spec(1) [OF assms(1-3), of u] session_grows_refl show ?thesis by simp
qed

lemma logout_session_spec:
  assumes "session_inv d"
  shows "\<exists>b e. logout_session clk u s jti hash device d = Inr (b, e) \<and> session_inv e \<and> session_grows d e"
proof (cases "\<exists>t. lock_token (clk 0) jti hash (Some u) d = Some t \<and> rt_family_id t = s \<and> active_family (clk 1) u s d")
  case False
  then show ?thesis
    using assms session_grows_refl by (auto simp: logout_session_def split: option.splits)
next
  case True
  have "session_inv (after_revoke (clk 2) u Logout (Some s) d)" "session_grows d (after_revoke (clk 2) u Logout (Some s) d)"
    using revoke_families_spec(2) [OF assms] after_revoke_grows [OF assms] by blast+
  with True show ?thesis
    by (auto simp: logout_session_def revoke_families_spec(1) [OF assms] session_inv_def session_grows_def split: option.splits)
qed

lemma revoke_session_spec:
  assumes "session_inv d"
  shows "\<exists>n e. revoke_session clk u current target d = Inr (n, e) \<and> session_inv e \<and> session_grows d e"
proof -
  have "session_inv (after_revoke k u re s d)" "session_grows d (after_revoke k u re s d)" for k re s
    using revoke_families_spec(2) [OF assms] after_revoke_grows [OF assms] by blast+
  then show ?thesis
    using assms session_grows_refl
    by (cases target) (auto simp: revoke_session_def revoke_families_spec(1) [OF assms])
qed

lemma register_device_tables:
  "register_device clk i u s token platform version d = Inr (r, d') \<Longrightarrow>
    refresh_token_family d' = refresh_token_family d \<and> refresh_tokens d' = refresh_tokens d"
  by (auto simp: register_device_def Let_def split: if_splits)

lemma session_step_inv:
  assumes "session_step d d'" "session_inv d"
  shows "session_inv d' \<and> session_grows d d'"
  using assms(1)
proof cases
  case (Create t s u r)
  from create_session_step [OF assms(2) this] show ?thesis .
next
  case (Rotate t clk jti hash r)
  from rotate_session_step [OF assms(2) this] show ?thesis .
next
  case (Logout clk u s jti hash device r)
  with logout_session_spec [OF assms(2), of clk u s jti hash device] show ?thesis by auto
next
  case (Revoke clk u current target r)
  with revoke_session_spec [OF assms(2), of clk u current target] show ?thesis by auto
next
  case (Revoke_all now u reason s n)
  then have "d' = after_revoke now u reason s d" by (simp add: revoke_families_spec(1) [OF assms(2)])
  then show ?thesis using revoke_families_spec(2) [OF assms(2)] after_revoke_grows [OF assms(2)] by simp
next
  case (Register clk i u s token platform version r)
  from session_grows_same [of d' d] register_device_tables [OF this] assms(2) show ?thesis by blast
next
  case (Accounts as)
  with session_grows_same [of d' d] assms(2) show ?thesis by simp
qed

lemma session_run_inv: "session_run d d' \<Longrightarrow> session_inv d \<Longrightarrow> session_inv d' \<and> session_grows d d'"
proof (induction rule: session_run.induct)
  case (Stay d)
  then show ?case by (simp add: session_grows_refl)
next
  case (Next d d1 d2)
  with session_step_inv [OF Next.hyps(2)] session_grows_trans show ?case by blast
qed

lemma session_inv_empty: "refresh_token_family d = [] \<Longrightarrow> refresh_tokens d = [] \<Longrightarrow> session_inv d"
  by (simp add: session_inv_def session_tables_ok_def family_table_ok_def refresh_unique_ok_def)

lemma session_run_empty:
  "session_run d0 d \<Longrightarrow> refresh_token_family d0 = [] \<Longrightarrow> refresh_tokens d0 = [] \<Longrightarrow> session_inv d"
  using session_run_inv session_inv_empty by blast

section \<open>The session a chain of tokens stands for\<close>

datatype session_view = No_session | Dead_session | Live_session "uuid set" "uuid set"

definition view_of :: "uuid \<Rightarrow> db \<Rightarrow> session_view" where
  "view_of s d =
     (if \<not> sql_exists (\<lambda>f. rf_id f = s) (refresh_token_family d) then No_session
      else if family_revoked s (refresh_token_family d) then Dead_session
      else Live_session
        (set (map rt_jti (filter (\<lambda>r. rt_family_id r = s \<and> \<not> rt_revoked r) (refresh_tokens d))))
        (set (map rt_jti (filter (\<lambda>r. rt_family_id r = s \<and> rt_revoked r) (refresh_tokens d)))))"

text \<open>Presenting a token: the current one is spent and replaced, a spent one ends the session.\<close>

fun present_token :: "uuid \<Rightarrow> uuid \<Rightarrow> session_view \<Rightarrow> session_view" where
  "present_token j j' (Live_session cur spent) =
     (if j \<in> cur then Live_session {j'} (insert j spent)
      else if j \<in> spent then Dead_session else Live_session cur spent)"
| "present_token j j' v = v"

fun is_current :: "uuid \<Rightarrow> session_view \<Rightarrow> bool" where
  "is_current j (Live_session cur spent) \<longleftrightarrow> j \<in> cur"
| "is_current j v \<longleftrightarrow> False"

lemma view_of_live:
  assumes "sql_exists (\<lambda>f. rf_id f = s) (refresh_token_family d)" "\<not> family_revoked s (refresh_token_family d)"
  shows "view_of s d = Live_session {rt_jti r | r. r \<in> set (refresh_tokens d) \<and> rt_family_id r = s \<and> \<not> rt_revoked r}
    {rt_jti r | r. r \<in> set (refresh_tokens d) \<and> rt_family_id r = s \<and> rt_revoked r}"
  using assms by (auto simp: view_of_def)

lemma active_family_view:
  assumes "session_inv d" "active_family clk u s d"
  shows "sql_exists (\<lambda>f. rf_id f = s) (refresh_token_family d)" "\<not> family_revoked s (refresh_token_family d)"
proof -
  obtain f where f: "f \<in> set (refresh_token_family d)" "rf_id f = s" "rf_revoked_at f = None"
    using assms(2) unfolding active_family_def sql_exists_iff by blast
  then show "sql_exists (\<lambda>f. rf_id f = s) (refresh_token_family d)" unfolding sql_exists_iff by blast
  show "\<not> family_revoked s (refresh_token_family d)"
    using distinct_keyD [OF session_tables_okD(8) [OF assms(1) [unfolded session_inv_def]] _ f(1)] f(2,3)
    by (auto simp: family_revoked_def sql_exists_iff)
qed

lemma after_rotate_view:
  assumes inv: "session_inv d" and t: "t \<in> set (refresh_tokens d)" "\<not> rt_revoked t"
    and live: "active_family c (rt_user_id t) (rt_family_id t) d"
  shows "view_of (rt_family_id t) (after_rotate clk t nxt d) = present_token (rt_jti t) (nr_jti nxt) (view_of (rt_family_id t) d)"
    "is_current (rt_jti t) (view_of (rt_family_id t) d)"
    "s \<noteq> rt_family_id t \<Longrightarrow> view_of s (after_rotate clk t nxt d) = view_of s d"
proof -
  let ?s = "rt_family_id t" and ?rs = "refresh_tokens d"
  note ok = inv [unfolded session_inv_def]
  note act = active_family_view [OF inv live]
  have only: "r = t" if "r \<in> set ?rs" "rt_family_id r = ?s" "\<not> rt_revoked r" for r
    using unique_whereD [OF session_tables_okD(11) [OF ok] that(1) t(1)] that t(2) by simp
  have idt: "rt_id r = rt_id t \<longleftrightarrow> r = t" if "r \<in> set ?rs" for r
    using distinct_keyD [OF session_tables_okD(9) [OF ok] that t(1)] by blast
  have fam: "sql_exists (\<lambda>f. rf_id f = x) (refresh_token_family (after_rotate clk t nxt d)) =
      sql_exists (\<lambda>f. rf_id f = x) (refresh_token_family d)"
    "family_revoked x (refresh_token_family (after_rotate clk t nxt d)) = family_revoked x (refresh_token_family d)" for x
    by (simp_all add: after_rotate_def family_revoked_touch sql_exists_sql_update if_distrib cong: if_cong)
  have old: "view_of ?s d = Live_session {rt_jti t} {rt_jti r | r. r \<in> set ?rs \<and> rt_family_id r = ?s \<and> rt_revoked r}"
    unfolding view_of_live [OF act] using only t by auto
  then show "is_current (rt_jti t) (view_of ?s d)" by simp
  have rows: "sql_update (\<lambda>r. rt_id r = rt_id t) (spend_token (clk 2)) ?rs = map (\<lambda>r. if r = t then spend_token (clk 2) t else r) ?rs"
    unfolding sql_update_def using idt by (intro map_cong) auto
  have rs': "set (refresh_tokens (after_rotate clk t nxt d)) =
      insert (token_row (rt_user_id t) ?s nxt (Some (rt_id t))) (insert (spend_token (clk 2) t) (set ?rs - {t}))"
    unfolding after_rotate_def using t(1) by (auto simp: rows)
  have cur: "{rt_jti r | r. r \<in> set (refresh_tokens (after_rotate clk t nxt d)) \<and> rt_family_id r = ?s \<and> \<not> rt_revoked r} = {nr_jti nxt}"
    unfolding rs' using only by (auto intro!: exI [of _ "token_row (rt_user_id t) ?s nxt (Some (rt_id t))"])
  have "{r \<in> set (refresh_tokens (after_rotate clk t nxt d)). rt_family_id r = ?s \<and> rt_revoked r} =
      insert (spend_token (clk 2) t) {r \<in> set ?rs. rt_family_id r = ?s \<and> rt_revoked r}"
    unfolding rs' using t(2) by auto
  then have spent: "{rt_jti r | r. r \<in> set (refresh_tokens (after_rotate clk t nxt d)) \<and> rt_family_id r = ?s \<and> rt_revoked r} =
      insert (rt_jti t) {rt_jti r | r. r \<in> set ?rs \<and> rt_family_id r = ?s \<and> rt_revoked r}"
    by (simp add: setcompr_eq_image)
  show "view_of ?s (after_rotate clk t nxt d) = present_token (rt_jti t) (nr_jti nxt) (view_of ?s d)"
    unfolding old by (subst view_of_live) (use act in \<open>simp_all add: fam cur spent\<close>)
  assume ne: "s \<noteq> ?s"
  have "filter (\<lambda>r. rt_family_id r = s \<and> q r) (refresh_tokens (after_rotate clk t nxt d)) =
      filter (\<lambda>r. rt_family_id r = s \<and> q r) ?rs" for q
    unfolding after_rotate_def using ne
    by (simp add: rows [symmetric]) (rule filter_sql_update_other, auto simp: idt)
  then show "view_of s (after_rotate clk t nxt d) = view_of s d" by (simp add: view_of_def fam)
qed

text \<open>Revoking a live session of the account ends it.\<close>

lemma after_revoke_ends:
  assumes "active_family clk u s d" "selects target s"
  shows "family_revoked s (refresh_token_family (after_revoke now u re target d))"
proof -
  obtain f where f: "f \<in> set (refresh_token_family d)" "rf_id f = s" "rf_user_id f = u" "rf_revoked_at f = None"
    using assms(1) unfolding active_family_def sql_exists_iff by blast
  then have "kill_family now re f \<in> set (refresh_token_family (after_revoke now u re target d))"
    using assms(2) by (auto simp: set_sql_update doomed_family_def intro!: rev_image_eqI)
  with f(2) show ?thesis
    unfolding family_revoked_def sql_exists_iff by (intro bexI [of _ "kill_family now re f"]) simp_all
qed

lemma after_revoke_view:
  assumes inv: "session_inv d" and t: "t \<in> set (refresh_tokens d)"
    and live: "active_family c (rt_user_id t) (rt_family_id t) d"
  shows "view_of (rt_family_id t) (after_revoke clk (rt_user_id t) re (Some (rt_family_id t)) d) = Dead_session"
    "s \<noteq> rt_family_id t \<Longrightarrow>
      view_of s (after_revoke clk (rt_user_id t) re (Some (rt_family_id t)) d) = view_of s d"
proof -
  let ?s = "rt_family_id t" and ?p = "doomed_family (rt_user_id t) (Some (rt_family_id t))"
  let ?d = "after_revoke clk (rt_user_id t) re (Some (rt_family_id t)) d"
  have fam: "sql_exists (\<lambda>f. rf_id f = x) (refresh_token_family ?d) = sql_exists (\<lambda>f. rf_id f = x) (refresh_token_family d)" for x
    by (simp add: sql_exists_sql_update if_distrib cong: if_cong)
  have "family_revoked ?s (refresh_token_family ?d)"
    by (rule after_revoke_ends [OF live]) (simp add: selects_def)
  then show "view_of ?s ?d = Dead_session"
    using active_family_view(1) [OF inv live] by (simp add: view_of_def fam del: after_revoke_tables)
  assume ne: "s \<noteq> ?s"
  have rev: "family_revoked s (refresh_token_family ?d) = family_revoked s (refresh_token_family d)"
    unfolding family_revoked_def after_revoke_tables sql_exists_sql_update
    using ne by (auto simp: sql_exists_iff doomed_family_def selects_def)
  have "filter (\<lambda>r. rt_family_id r = s \<and> q (rt_revoked r)) (refresh_tokens ?d) =
      filter (\<lambda>r. rt_family_id r = s \<and> q (rt_revoked r)) (refresh_tokens d)" for q
    unfolding after_revoke_tables
    by (rule filter_sql_update_other) (use ne in \<open>auto simp: doomed_token_def selects_def\<close>)
  from this [of "\<lambda>b. b"] this [of "\<lambda>b. \<not> b"] show "view_of s ?d = view_of s d"
    by (simp add: view_of_def fam rev del: after_revoke_tables)
qed

section \<open>Properties\<close>

text \<open>C21. In every reachable state a session has at most one usable refresh token and none once it is ended; no
  transaction on sessions violates a constraint of the tables.\<close>

theorem session_life:
  assumes "refresh_token_family d0 = []" "refresh_tokens d0 = []" "session_run d0 d" "fresh_token t d"
    and "s \<notin> rf_id ` set (refresh_token_family d)"
  shows "(\<exists>r e. create_session s u t d = Inr (r, e)) \<and> (\<exists>r e. rotate_session clk jti hash t d = Inr (r, e)) \<and>
    (\<exists>r e. logout_session clk u c jti hash device d = Inr (r, e)) \<and>
    (\<exists>r e. revoke_session clk u c target d = Inr (r, e)) \<and>
    sql_count (\<lambda>r. rt_family_id r = c \<and> \<not> rt_revoked r) (refresh_tokens d) \<le>
      (if family_revoked c (refresh_token_family d) then 0 else 1)"
proof -
  have inv: "session_inv d" using session_run_empty [OF assms(3,1,2)] .
  note ok = inv [unfolded session_inv_def]
  have "distinct (map rt_family_id (filter (\<lambda>r. \<not> rt_revoked r) (refresh_tokens d)))"
    using session_tables_okD(11) [OF ok] by (simp add: unique_where_def)
  from sql_count_key_le_1 [OF this, of "\<lambda>r. rt_family_id r = c" c]
  have "sql_count (\<lambda>r. rt_family_id r = c \<and> \<not> rt_revoked r) (refresh_tokens d) \<le> 1"
    by (simp add: sql_count_def conj_commute)
  moreover have "sql_count (\<lambda>r. rt_family_id r = c \<and> \<not> rt_revoked r) (refresh_tokens d) = 0"
    if "family_revoked c (refresh_token_family d)"
    using session_tables_okD(5) [OF ok] that by (auto simp: sql_count_0_iff)
  moreover have "\<exists>r e. rotate_session clk jti hash t d = Inr (r, e)"
    by (simp add: rotate_session_spec [OF inv assms(4)] split: rotation.splits)
  moreover have "\<exists>r e. create_session s u t d = Inr (r, e)"
    by (simp add: create_session_spec(1) [OF inv assms(4,5)])
  moreover have "\<exists>r e. logout_session clk u c jti hash device d = Inr (r, e)"
    "\<exists>r e. revoke_session clk u c target d = Inr (r, e)"
    using logout_session_spec [OF inv] revoke_session_spec [OF inv] by blast+
  ultimately show ?thesis by simp
qed

text \<open>C22. The tables refine the abstract session: presenting an authentic, unexpired token moves the view of its
  session exactly as the abstract operation does and leaves every other session as it was; the
  caller gets a new token pair exactly when the token was the current one.\<close>

theorem rotation_refines:
  assumes "refresh_token_family d0 = []" "refresh_tokens d0 = []" "session_run d0 d" "fresh_token nxt d"
    and "lock_token (clk 0) jti hash None d = Some t" "active_family (clk 1) (rt_user_id t) (rt_family_id t) d"
    and "rotate_session clk jti hash nxt d = Inr (res, d')"
  shows "view_of (rt_family_id t) d' = present_token jti (nr_jti nxt) (view_of (rt_family_id t) d) \<and>
    (res \<noteq> None \<longleftrightarrow> is_current jti (view_of (rt_family_id t) d)) \<and>
    (s \<noteq> rt_family_id t \<longrightarrow> view_of s d' = view_of s d)"
proof -
  have inv: "session_inv d" using session_run_empty [OF assms(3,1,2)] .
  note ok = inv [unfolded session_inv_def]
  note t = lock_tokenD [OF assms(5) session_tables_okD(9) [OF ok]]
  note act = active_family_view [OF inv assms(6)]
  show ?thesis
  proof (cases "rt_revoked t")
    case False
    then have "rotation_of clk jti hash d = Rotated t" using assms(5,6) by (simp add: rotation_of_def)
    with assms(7) have "res \<noteq> None" "d' = after_rotate clk t nxt d" by (auto simp: rotate_session_spec [OF inv assms(4)])
    then show ?thesis using after_rotate_view [OF inv t(1) False assms(6)] t(2) by simp
  next
    case True
    then have rot: "rt_rotated_at t \<noteq> None" using session_tables_okD(6) [OF ok t(1)] act(2) by blast
    have view: "view_of (rt_family_id t) d = Live_session
        {rt_jti r | r. r \<in> set (refresh_tokens d) \<and> rt_family_id r = rt_family_id t \<and> \<not> rt_revoked r}
        {rt_jti r | r. r \<in> set (refresh_tokens d) \<and> rt_family_id r = rt_family_id t \<and> rt_revoked r}"
      by (rule view_of_live [OF act])
    have "r = t" if "r \<in> set (refresh_tokens d)" "rt_jti r = jti" for r
      using distinct_keyD [OF session_tables_okD(10) [OF ok] that(1) t(1)] that(2) t(2) by simp
    then have "jti \<notin> {rt_jti r | r. r \<in> set (refresh_tokens d) \<and> rt_family_id r = rt_family_id t \<and> \<not> rt_revoked r}"
      using True by auto
    moreover have "jti \<in> {rt_jti r | r. r \<in> set (refresh_tokens d) \<and> rt_family_id r = rt_family_id t \<and> rt_revoked r}"
      using t(1,2) True by blast
    ultimately have cur: "\<not> is_current jti (view_of (rt_family_id t) d)"
        "present_token jti (nr_jti nxt) (view_of (rt_family_id t) d) = Dead_session"
      unfolding view by simp_all
    have "rotation_of clk jti hash d = Replayed t" using assms(5,6) True rot by (simp add: rotation_of_def)
    with assms(7) have "res = None" "d' = after_revoke (clk 2) (rt_user_id t) Replay (Some (rt_family_id t)) d"
      by (auto simp: rotate_session_spec [OF inv assms(4)])
    then show ?thesis using after_revoke_view [OF inv t(1) assms(6)] cur by simp
  qed
qed

lemma ended_rows:
  assumes "session_grows d d'" "session_inv d'" "family_revoked s (refresh_token_family d)"
  shows "\<forall>h \<in> set (refresh_token_family d'). \<not> (rf_id h = s \<and> rf_revoked_at h = None)"
proof -
  obtain f where f: "f \<in> set (refresh_token_family d)" "rf_id f = s" "rf_revoked_at f \<noteq> None"
    using assms(3) unfolding family_revoked_def sql_exists_iff by blast
  then obtain g where g: "g \<in> set (refresh_token_family d')" "same_family f g"
    using assms(1) unfolding session_grows_def by blast
  show ?thesis
    using distinct_keyD [OF session_tables_okD(8) [OF assms(2) [unfolded session_inv_def]] _ g(1)] f g(2)
    by (auto simp: same_family_def)
qed

lemma ended_grows:
  assumes "session_grows d d'" "session_inv d'" "family_revoked s (refresh_token_family d)"
  shows "\<not> is_active now u s d'"
proof -
  have "sql_count (\<lambda>f. rf_id f = s \<and> rf_user_id f = u \<and> rf_revoked_at f = None \<and> now < rf_expires_at f \<and>
       sql_exists (\<lambda>a. ua_id a = rf_user_id f \<and> ua_deleted_at a = None \<and> \<not> ua_banned a) (user_account d'))
       (refresh_token_family d') = 0"
    unfolding sql_count_0_iff using ended_rows [OF assms] by blast
  then show ?thesis by (simp add: is_active_def)
qed

text \<open>C23. A refresh token works once. Presented a second time it is refused, whatever happened in between, and if
  it is authentic, unexpired and its session still live, the whole session ends for good: the
  thief and the victim are both signed out.\<close>

theorem replay_ends_session:
  assumes "refresh_token_family d0 = []" "refresh_tokens d0 = []" "session_run d0 d"
    and "fresh_token nxt d" "rotate_session clk jti hash nxt d = Inr (Some sess, d1)" "session_run d1 d2"
    and "fresh_token nxt' d2" "rotate_session clk' jti hash' nxt' d2 = Inr (res, d3)" "session_run d3 d4"
  shows "res = None \<and>
    (lock_token (clk' 0) jti hash' None d2 \<noteq> None \<and> active_family (clk' 1) (si_user sess) (si_session sess) d2 \<longrightarrow>
       \<not> is_active now u (si_session sess) d4)"
proof -
  have inv: "session_inv d" using session_run_empty [OF assms(3,1,2)] .
  obtain t where rot: "rotation_of clk jti hash d = Rotated t"
    and d1: "sess = \<lparr> si_user = rt_user_id t, si_session = rt_family_id t \<rparr>" "d1 = after_rotate clk t nxt d"
    using assms(5) by (auto simp: rotate_session_spec [OF inv assms(4)] split: rotation.splits)
  have t: "t \<in> set (refresh_tokens d)" "\<not> rt_revoked t" "rt_jti t = jti" "active_family (clk 1) (rt_user_id t) (rt_family_id t) d"
    using rotation_of_cases(1) [OF inv rot] by auto
  have inv1: "session_inv d1" using rotate_token_spec(2) [OF inv t(1,2,4) assms(4)] d1 by simp
  then have inv2: "session_inv d2" and grows: "session_grows d1 d2" using session_run_inv [OF assms(6)] by auto
  have "spend_token (clk 2) t \<in> set (refresh_tokens d1)"
    using t(1) unfolding d1 after_rotate_def by (force simp: set_sql_update)
  then obtain s where s: "s \<in> set (refresh_tokens d2)" "same_token (spend_token (clk 2) t) s"
    using grows unfolding session_grows_def by blast
  have sp: "rt_jti s = jti" "rt_revoked s" "rt_rotated_at s \<noteq> None" "rt_family_id s = rt_family_id t" "rt_user_id s = rt_user_id t"
    using s(2) t(3) by (auto simp: same_token_def spend_token_def)
  note ok2 = inv2 [unfolded session_inv_def]
  have locked: "x = s" if "lock_token (clk' 0) jti hash' None d2 = Some x" for x
    using lock_tokenD(1,2) [OF that session_tables_okD(9) [OF ok2]] distinct_keyD [OF session_tables_okD(10) [OF ok2] _ s(1)] sp(1)
    by simp
  have "rotation_of clk' jti hash' d2 \<noteq> Rotated x" for x
    using locked sp(2) by (auto simp: rotation_of_def split: option.splits if_splits)
  then have none: "res = None"
    using assms(8) by (auto simp: rotate_session_spec [OF inv2 assms(7)] split: rotation.splits)
  have "\<not> is_active now u (si_session sess) d4"
    if live: "lock_token (clk' 0) jti hash' None d2 \<noteq> None" "active_family (clk' 1) (si_user sess) (si_session sess) d2"
  proof -
    have "rotation_of clk' jti hash' d2 = Replayed s"
      using locked live sp d1(1) by (auto simp: rotation_of_def)
    with assms(8) have d3: "d3 = after_revoke (clk' 2) (rt_user_id s) Replay (Some (rt_family_id s)) d2"
      by (simp add: rotate_session_spec [OF inv2 assms(7)])
    have inv3: "session_inv d3" using revoke_families_spec(2) [OF inv2] d3 by simp
    have "active_family (clk' 1) (rt_user_id s) (rt_family_id s) d2" using live(2) sp(4,5) d1(1) by simp
    from after_revoke_view(1) [OF inv2 s(1) this] have "view_of (rt_family_id s) d3 = Dead_session" by (simp only: d3)
    then have "family_revoked (si_session sess) (refresh_token_family d3)"
      using sp(4) d1(1) by (auto simp: view_of_def split: if_splits)
    with ended_grows session_run_inv [OF assms(9) inv3] show ?thesis by blast
  qed
  with none show ?thesis by blast
qed

section \<open>A session that is replayed\<close>

definition session_account :: account_row where
  "session_account = \<lparr> ua_id = ''u'', ua_role = User, ua_phone_hash = ''p'', ua_phone_encrypted = ''e'',
     ua_banned = False, ua_deleted_at = None \<rparr>"

definition some_token :: "string \<Rightarrow> new_refresh_token" where
  "some_token n = \<lparr> nr_id = ''t'' @ n, nr_jti = ''j'' @ n, nr_plain = ''j'' @ n @ '':s'' @ n, nr_hash = ''h'' @ n,
     nr_created_at = 0, nr_expires_at = 9 \<rparr>"

definition session_db :: "nat \<Rightarrow> db" where
  "session_db n =
     (let out = (\<lambda>r. case r of Inr (_, d) \<Rightarrow> d | Inl _ \<Rightarrow> empty_db);
          d0 = empty_db\<lparr>user_account := [session_account]\<rparr>;
          d1 = out (create_session ''f'' ''u'' (some_token ''1'') d0);
          d2 = out (rotate_session (\<lambda>_. 5) ''j1'' ''h1'' (some_token ''2'') d1);
          d3 = out (rotate_session (\<lambda>_. 6) ''j1'' ''h1'' (some_token ''3'') d2)
      in [d0, d1, d2, d3] ! n)"

lemma session_db_runs:
  "create_session ''f'' ''u'' (some_token ''1'') (session_db 0) = Inr (Some \<lparr> si_user = ''u'', si_session = ''f'' \<rparr>, session_db 1)"
  "rotate_session (\<lambda>_. 5) ''j1'' ''h1'' (some_token ''2'') (session_db 1) =
     Inr (Some \<lparr> si_user = ''u'', si_session = ''f'' \<rparr>, session_db 2)"
  "rotate_session (\<lambda>_. 6) ''j1'' ''h1'' (some_token ''3'') (session_db 2) = Inr (None, session_db 3)"
  by code_simp+

lemma session_db_fresh:
  "fresh_token (some_token ''1'') (session_db 0)" "fresh_token (some_token ''2'') (session_db 1)"
  "fresh_token (some_token ''3'') (session_db 2)" "''f'' \<notin> rf_id ` set (refresh_token_family (session_db 0))"
  "''g'' \<notin> rf_id ` set (refresh_token_family (session_db 2))"
  by code_simp+

lemma session_db_empty: "refresh_token_family (session_db 0) = []" "refresh_tokens (session_db 0) = []"
  by code_simp+

lemma session_db_run1: "session_run (session_db 0) (session_db 1)"
  by (rule session_run.Next [OF session_run.Stay session_step.Create [OF session_db_fresh(1,4) session_db_runs(1)]])

lemma session_db_run2: "session_run (session_db 0) (session_db 2)"
  by (rule session_run.Next [OF session_db_run1 session_step.Rotate [OF session_db_fresh(2) session_db_runs(2)]])

lemma session_db_live:
  "lock_token 5 ''j1'' ''h1'' None (session_db 1) = Some (hd (refresh_tokens (session_db 1)))"
  "rt_family_id (hd (refresh_tokens (session_db 1))) = ''f''"
  "active_family 5 (rt_user_id (hd (refresh_tokens (session_db 1)))) (rt_family_id (hd (refresh_tokens (session_db 1)))) (session_db 1)"
  "lock_token 6 ''j1'' ''h1'' None (session_db 2) \<noteq> None" "active_family 6 ''u'' ''f'' (session_db 2)"
  by code_simp+

theorem session_life_witness:
  "(\<exists>r e. create_session ''g'' ''u'' (some_token ''3'') (session_db 2) = Inr (r, e)) \<and>
    (\<exists>r e. rotate_session (\<lambda>_. 6) ''j2'' ''h2'' (some_token ''3'') (session_db 2) = Inr (r, e)) \<and>
    (\<exists>r e. logout_session (\<lambda>_. 6) ''u'' ''f'' ''j2'' ''h2'' None (session_db 2) = Inr (r, e)) \<and>
    (\<exists>r e. revoke_session (\<lambda>_. 6) ''u'' ''f'' None (session_db 2) = Inr (r, e)) \<and>
    sql_count (\<lambda>r. rt_family_id r = ''f'' \<and> \<not> rt_revoked r) (refresh_tokens (session_db 2)) \<le>
      (if family_revoked ''f'' (refresh_token_family (session_db 2)) then 0 else 1)"
  by (rule session_life [OF session_db_empty session_db_run2 session_db_fresh(3,5)])

theorem rotation_refines_witness:
  "view_of ''f'' (session_db 2) = present_token ''j1'' ''j2'' (view_of ''f'' (session_db 1))"
  using rotation_refines [OF session_db_empty session_db_run1 session_db_fresh(2), where clk = "\<lambda>_. 5",
      OF session_db_live(1,3) session_db_runs(2), of "''g''"] session_db_live(2)
  by (simp add: some_token_def)

theorem replay_ends_session_witness:
  "\<not> is_active 7 ''u'' ''f'' (session_db 3)"
  using replay_ends_session [OF session_db_empty session_db_run1 session_db_fresh(2) session_db_runs(2) session_run.Stay
      session_db_fresh(3) session_db_runs(3) session_run.Stay, of 7 "''u''"] session_db_live(4,5)
  by simp

end
