(* ===== verification/Otp.thy ===== *)
theory Otp
  imports Schema Common
begin

text \<open>
  One-time codes: \<open>src/auth/otp.repository.ts\<close> and \<open>otp.service.ts\<close>. A code is requested under an
  idempotency key, sent by an SMS provider whose answer may come from the request or from a signed
  callback, in either order, and is consumed once. Every transaction first takes the advisory lock of
  the phone, so the transactions of a phone run one after the other.
\<close>

record otp_input =
  oi_id :: uuid
  oi_phone_hash :: string
  oi_otp_hash :: string
  oi_idempotency_key :: uuid
  oi_ttl_millis :: int
  oi_settlement_millis :: int

datatype delivery_start = Start_created uuid | Start_existing otp_delivery_state uuid | Start_conflict

datatype sms_event_type = Sms_sent | Sms_undelivered

record sms_event =
  sv_delivery_id :: uuid
  sv_message_id :: string
  sv_transaction_id :: "string option"
  sv_type :: sms_event_type

datatype sms_outcome = Sms_applied | Sms_ignored | Sms_conflict

section \<open>The table\<close>

text \<open>\<open>idx_otp_one_usable_per_phone\<close>, \<open>idx_otp_idempotency\<close> and the primary key.\<close>

definition usable_otp :: "otp_row \<Rightarrow> bool" where
  "usable_otp r \<longleftrightarrow> (ov_status r = Otp_accepted \<or> ov_status r = Otp_sent) \<and> \<not> ov_used r"

definition otp_table_ok :: "otp_row list \<Rightarrow> bool" where
  "otp_table_ok t \<longleftrightarrow> distinct (map ov_id t) \<and> distinct (map ov_idempotency_key t) \<and>
     unique_where usable_otp ov_phone_hash t"

definition write_otp :: "otp_row list \<Rightarrow> db \<Rightarrow> sql_error + db" where
  "write_otp t d = (if otp_table_ok t then Inr (d\<lparr>otp_verification := t\<rparr>) else Inl Unique_violation)"

definition update_otp :: "(otp_row \<Rightarrow> bool) \<Rightarrow> (otp_row \<Rightarrow> otp_row) \<Rightarrow> db \<Rightarrow> sql_error + db" where
  "update_otp p f d = write_otp (sql_update p f (otp_verification d)) d"

section \<open>Operations of the repository\<close>

definition new_otp_row :: "otp_input \<Rightarrow> pg_time \<Rightarrow> pg_time \<Rightarrow> nat \<Rightarrow> otp_row" where
  "new_otp_row b now clk n =
     \<lparr> ov_id = oi_id b, ov_phone_hash = oi_phone_hash b, ov_otp_hash = oi_otp_hash b,
       ov_expires_at = clk + oi_ttl_millis b * 1000, ov_used = False,
       ov_idempotency_key = oi_idempotency_key b, ov_status = Otp_pending, ov_provider = ''sweego'',
       ov_transaction_id = None, ov_message_id = None, ov_error_code = None, ov_sent_at = None,
       ov_created_at = now, ov_attempt_number = n,
       ov_settlement_deadline = clk + oi_settlement_millis b * 1000, ov_provider_sent_at = None,
       ov_failed_at = None, ov_last_webhook_at = None \<rparr>"

definition stale_delivery :: "otp_input \<Rightarrow> pg_time \<Rightarrow> otp_row \<Rightarrow> bool" where
  "stale_delivery b clk r \<longleftrightarrow> ov_idempotency_key r = oi_idempotency_key b \<and> ov_phone_hash r = oi_phone_hash b \<and>
     ov_status r = Otp_pending \<and> ov_settlement_deadline r \<le> clk"

text \<open>The identity column draws a number even when the insert then meets the conflict.\<close>

definition begin_otp_delivery ::
  "otp_input \<Rightarrow> pg_time \<Rightarrow> pg_time \<Rightarrow> db \<Rightarrow> sql_error + delivery_start \<times> db" where
  "begin_otp_delivery b now clk d =
     (let n = otp_next_attempt d; d0 = d\<lparr>otp_next_attempt := n + 1\<rparr> in
      if \<not> sql_exists (\<lambda>r. ov_idempotency_key r = oi_idempotency_key b) (otp_verification d) then
        and_then (write_otp (otp_verification d @ [new_otp_row b now clk n]) d0)
          (\<lambda>d1. Inr (Start_created (oi_id b), d1))
      else
        and_then (update_otp (stale_delivery b clk)
            (\<lambda>r. r\<lparr>ov_status := Otp_unknown, ov_error_code := Some ''delivery_unknown''\<rparr>) d0)
          (\<lambda>d1. case sql_first (\<lambda>r. ov_idempotency_key r = oi_idempotency_key b) (otp_verification d1) of
             None \<Rightarrow> Inl (Thrown ''OTP idempotency record disappeared'')
           | Some e \<Rightarrow> Inr (if ov_phone_hash e \<noteq> oi_phone_hash b then Start_conflict
                           else Start_existing (ov_status e) (ov_id e), d1)))"

definition locked_delivery :: "uuid \<Rightarrow> string \<Rightarrow> db \<Rightarrow> otp_row option" where
  "locked_delivery i h d = sql_first (\<lambda>r. ov_id r = i \<and> ov_phone_hash r = h) (otp_verification d)"

definition matches_receipt :: "otp_row \<Rightarrow> string \<Rightarrow> string option \<Rightarrow> bool" where
  "matches_receipt r msg txn \<longleftrightarrow>
     (ov_message_id r \<in> {None, Some []} \<or> ov_message_id r = Some msg) \<and>
     (ov_transaction_id r \<in> {None, Some []} \<or> txn \<in> {None, Some []} \<or> ov_transaction_id r = txn)"

text \<open>A code that expired, or that a newer code of the phone has superseded, is used up; otherwise it uses up
  the older codes of the phone.\<close>

definition newer_sent :: "otp_row \<Rightarrow> otp_row list \<Rightarrow> bool" where
  "newer_sent r t = sql_exists (\<lambda>x. ov_phone_hash x = ov_phone_hash r \<and>
     ov_attempt_number r < ov_attempt_number x \<and> ov_sent_at x \<noteq> None) t"

definition use_up :: "otp_row \<Rightarrow> otp_row" where
  "use_up r = r\<lparr>ov_used := True\<rparr>"

definition activate_otp :: "otp_row \<Rightarrow> pg_time \<Rightarrow> db \<Rightarrow> sql_error + db" where
  "activate_otp r clk d =
     (if ov_used r then Inr d
      else and_then (update_otp (\<lambda>x. ov_id x = ov_id r \<and>
               (ov_expires_at x \<le> clk \<or> newer_sent r (otp_verification d))) use_up d)
        (\<lambda>d1. update_otp (\<lambda>x. ov_phone_hash x = ov_phone_hash r \<and> ov_attempt_number x < ov_attempt_number r \<and>
             \<not> ov_used x \<and> sql_exists (\<lambda>y. ov_id y = ov_id r \<and> \<not> ov_used y) (otp_verification d1)) use_up d1))"

definition coalesce :: "'a option \<Rightarrow> 'a option \<Rightarrow> 'a option" where
  "coalesce a b = (case a of None \<Rightarrow> b | Some x \<Rightarrow> Some x)"

definition accept_row :: "string \<Rightarrow> string \<Rightarrow> pg_time \<Rightarrow> otp_row \<Rightarrow> otp_row" where
  "accept_row txn msg clk r =
     r\<lparr>ov_status := (if ov_status r = Otp_sent then Otp_sent else Otp_accepted),
       ov_transaction_id := Some txn, ov_message_id := Some msg,
       ov_sent_at := coalesce (ov_sent_at r) (Some clk), ov_error_code := None\<rparr>"

definition mark_otp_accepted ::
  "uuid \<Rightarrow> string \<Rightarrow> string \<Rightarrow> string \<Rightarrow> pg_time \<Rightarrow> pg_time \<Rightarrow> db \<Rightarrow> sql_error + bool \<times> db" where
  "mark_otp_accepted i h txn msg clk clk' d =
     (case locked_delivery i h d of
        None \<Rightarrow> Inr (False, d)
      | Some r \<Rightarrow>
          if \<not> matches_receipt r msg (Some txn) then Inr (False, d)
          else if ov_status r = Otp_failed then Inr (False, d)
          else and_then (activate_otp r clk d) (\<lambda>d1.
            and_then (update_otp (\<lambda>x. ov_id x = i) (accept_row txn msg clk') d1) (\<lambda>d2.
              Inr (sql_exists (\<lambda>x. ov_id x = i \<and> clk' < ov_expires_at x) (otp_verification d2), d2))))"

definition outcome_row :: "otp_delivery_state \<Rightarrow> string \<Rightarrow> pg_time \<Rightarrow> otp_row \<Rightarrow> otp_row" where
  "outcome_row st reason clk r =
     r\<lparr>ov_status := st, ov_error_code := Some reason,
       ov_failed_at := (if st = Otp_failed then coalesce (ov_failed_at r) (Some clk) else ov_failed_at r)\<rparr>"

text \<open>The outcome is \<open>failed\<close> or \<open>unknown\<close>.\<close>

definition mark_otp_outcome ::
  "uuid \<Rightarrow> string \<Rightarrow> otp_delivery_state \<Rightarrow> string \<Rightarrow> pg_time \<Rightarrow> db \<Rightarrow> sql_error + otp_delivery_state \<times> db" where
  "mark_otp_outcome i h st reason clk d =
     (case locked_delivery i h d of
        None \<Rightarrow> Inr (st, d)
      | Some r \<Rightarrow>
          if ov_status r \<noteq> Otp_pending \<and> ov_status r \<noteq> Otp_unknown then Inr (ov_status r, d)
          else and_then (update_otp (\<lambda>x. ov_id x = i) (outcome_row st reason clk) d) (\<lambda>d1. Inr (st, d1)))"

definition event_row :: "sms_event \<Rightarrow> pg_time \<Rightarrow> otp_row \<Rightarrow> otp_row" where
  "event_row ev clk r =
     (let sent = (sv_type ev = Sms_sent) in
      r\<lparr>ov_status := (if sent then Otp_sent else Otp_failed),
        ov_message_id := Some (sv_message_id ev),
        ov_transaction_id := coalesce (ov_transaction_id r) (sv_transaction_id ev),
        ov_sent_at := (if sent then coalesce (ov_sent_at r) (Some clk) else ov_sent_at r),
        ov_provider_sent_at := (if sent then coalesce (ov_provider_sent_at r) (Some clk) else ov_provider_sent_at r),
        ov_failed_at := (if sent then ov_failed_at r else coalesce (ov_failed_at r) (Some clk)),
        ov_error_code := (if sent then None else Some ''provider_undelivered''),
        ov_last_webhook_at := Some clk\<rparr>)"

definition apply_sms_event :: "sms_event \<Rightarrow> pg_time \<Rightarrow> pg_time \<Rightarrow> db \<Rightarrow> sql_error + sms_outcome \<times> db" where
  "apply_sms_event ev clk clk' d =
     (case sql_first (\<lambda>r. ov_id r = sv_delivery_id ev \<and> ov_provider r = ''sweego'') (otp_verification d) of
        None \<Rightarrow> Inr (Sms_ignored, d)
      | Some idt \<Rightarrow>
        (case locked_delivery (sv_delivery_id ev) (ov_phone_hash idt) d of
           None \<Rightarrow> Inr (Sms_ignored, d)
         | Some r \<Rightarrow>
             if \<not> matches_receipt r (sv_message_id ev) (sv_transaction_id ev) then Inr (Sms_conflict, d)
             else if ov_status r = Otp_failed \<or> ov_status r = Otp_sent \<and> sv_type ev = Sms_sent
             then Inr (Sms_ignored, d)
             else and_then (if sv_type ev = Sms_sent then activate_otp r clk d else Inr d) (\<lambda>d1.
               and_then (update_otp (\<lambda>x. ov_id x = sv_delivery_id ev) (event_row ev clk') d1)
                 (\<lambda>d2. Inr (Sms_applied, d2)))))"

definition consumable :: "string \<Rightarrow> string \<Rightarrow> pg_time \<Rightarrow> otp_row \<Rightarrow> bool" where
  "consumable h code clk r \<longleftrightarrow> ov_phone_hash r = h \<and> ov_otp_hash r = code \<and>
     (ov_status r = Otp_accepted \<or> ov_status r = Otp_sent) \<and> \<not> ov_used r \<and> clk < ov_expires_at r"

definition consume_otp :: "string \<Rightarrow> string \<Rightarrow> pg_time \<Rightarrow> db \<Rightarrow> sql_error + bool \<times> db" where
  "consume_otp h code clk d =
     and_then (update_otp (consumable h code clk) use_up d)
       (\<lambda>d1. Inr (sql_count (consumable h code clk) (otp_verification d) = 1, d1))"

end
