(* ===== verification/Otp_Lifecycle.thy ===== *)
theory Otp_Lifecycle
  imports Otp
begin

text \<open>
  The life of one-time codes: every transaction keeps at most one usable code per phone, none of
  them can raise a constraint violation, and a code that was consumed never lets an older code in.
\<close>

section \<open>How a row evolves\<close>

definition otp_evolves :: "otp_row \<Rightarrow> otp_row \<Rightarrow> bool" where
  "otp_evolves r s \<longleftrightarrow> ov_id s = ov_id r \<and> ov_phone_hash s = ov_phone_hash r \<and> ov_otp_hash s = ov_otp_hash r \<and>
     ov_idempotency_key s = ov_idempotency_key r \<and> ov_attempt_number s = ov_attempt_number r \<and>
     ov_expires_at s = ov_expires_at r \<and> (ov_used r \<longrightarrow> ov_used s) \<and>
     (ov_sent_at r \<noteq> None \<longrightarrow> ov_sent_at s \<noteq> None) \<and> (ov_status r = Otp_failed \<longrightarrow> ov_status s = Otp_failed)"

lemma otp_evolves_refl [simp]: "otp_evolves r r"
  by (simp add: otp_evolves_def)

lemma otp_evolves_trans: "otp_evolves r s \<Longrightarrow> otp_evolves s u \<Longrightarrow> otp_evolves r u"
  by (auto simp: otp_evolves_def)

lemma otp_evolves_use_up [simp]: "otp_evolves r (use_up r)"
  by (simp add: otp_evolves_def use_up_def)

lemma use_up_simps [simp]:
  "ov_id (use_up r) = ov_id r" "ov_phone_hash (use_up r) = ov_phone_hash r" "ov_used (use_up r)"
  "ov_attempt_number (use_up r) = ov_attempt_number r" "ov_sent_at (use_up r) = ov_sent_at r"
  "ov_status (use_up r) = ov_status r" "\<not> usable_otp (use_up r)"
  by (simp_all add: use_up_def usable_otp_def)

text \<open>What activation does to a row.\<close>

definition spared :: "otp_row \<Rightarrow> otp_row \<Rightarrow> bool" where
  "spared r s \<longleftrightarrow> s = r \<or> s = use_up r"

lemma spared_refl [simp]: "spared r r"
  by (simp add: spared_def)

lemma spared_trans: "spared r s \<Longrightarrow> spared s u \<Longrightarrow> spared r u"
  by (auto simp: spared_def use_up_def)

lemma spared_evolves: "spared r s \<Longrightarrow> otp_evolves r s"
  by (auto simp: spared_def)

lemma spared_use_up: "list_all2 spared t (sql_update p use_up t)"
  by (rule list_all2_sql_update) (simp add: spared_def)

section \<open>The invariant\<close>

definition otp_inv :: "db \<Rightarrow> bool" where
  "otp_inv d \<longleftrightarrow> otp_table_ok (otp_verification d) \<and>
     distinct (map ov_attempt_number (otp_verification d)) \<and>
     (\<forall>r \<in> set (otp_verification d). ov_attempt_number r < otp_next_attempt d) \<and>
     (\<forall>r \<in> set (otp_verification d). ov_status r = Otp_accepted \<or> ov_status r = Otp_sent \<longrightarrow> ov_sent_at r \<noteq> None)"

lemma otp_invD:
  assumes "otp_inv d"
  shows "distinct (map ov_id (otp_verification d))" "distinct (map ov_idempotency_key (otp_verification d))"
    "unique_where usable_otp ov_phone_hash (otp_verification d)" "otp_table_ok (otp_verification d)"
    "distinct (map ov_attempt_number (otp_verification d))"
    "\<And>r. r \<in> set (otp_verification d) \<Longrightarrow> ov_attempt_number r < otp_next_attempt d"
    "\<And>r. r \<in> set (otp_verification d) \<Longrightarrow> ov_status r = Otp_accepted \<or> ov_status r = Otp_sent \<Longrightarrow>
      ov_sent_at r \<noteq> None"
  using assms unfolding otp_inv_def otp_table_ok_def by blast+

definition sent_rows :: "otp_row list \<Rightarrow> bool" where
  "sent_rows t \<longleftrightarrow> (\<forall>r \<in> set t. ov_status r = Otp_accepted \<or> ov_status r = Otp_sent \<longrightarrow> ov_sent_at r \<noteq> None)"

text \<open>An UPDATE on rows that evolve only has the partial index and the dates of acceptance to answer for.\<close>

lemma update_otp_inv:
  assumes inv: "otp_inv d"
    and ev: "\<And>r. r \<in> set (otp_verification d) \<Longrightarrow> p r \<Longrightarrow> otp_evolves r (f r)"
    and uniq: "unique_where usable_otp ov_phone_hash (sql_update p f (otp_verification d))"
    and sent: "\<And>r. r \<in> set (otp_verification d) \<Longrightarrow> p r \<Longrightarrow>
      ov_status (f r) = Otp_accepted \<or> ov_status (f r) = Otp_sent \<Longrightarrow> ov_sent_at (f r) \<noteq> None"
  defines "d' \<equiv> d\<lparr>otp_verification := sql_update p f (otp_verification d)\<rparr>"
  shows "update_otp p f d = Inr d'" "otp_inv d'"
    "list_all2 otp_evolves (otp_verification d) (otp_verification d')"
proof -
  let ?t = "otp_verification d" and ?u = "sql_update p f (otp_verification d)"
  have all2: "list_all2 otp_evolves ?t ?u" by (rule list_all2_sql_update) (use ev in auto)
  have keys: "map ov_id ?u = map ov_id ?t" "map ov_idempotency_key ?u = map ov_idempotency_key ?t"
    "map ov_attempt_number ?u = map ov_attempt_number ?t"
    by (rule list_all2_map_eq [OF all2, symmetric], simp add: otp_evolves_def)+
  have ok: "otp_table_ok ?u" using otp_invD(1,2) [OF inv] uniq by (simp add: otp_table_ok_def keys)
  then show "update_otp p f d = Inr d'" by (simp add: update_otp_def write_otp_def d'_def)
  have "ov_attempt_number r < otp_next_attempt d" if r: "r \<in> set ?u" for r
  proof -
    obtain s where "s \<in> set ?t" "otp_evolves s r" using list_all2_setD2 [OF all2 r] by blast
    with otp_invD(6) [OF inv] show ?thesis by (auto simp: otp_evolves_def)
  qed
  moreover have "ov_sent_at r \<noteq> None" if r: "r \<in> set ?u" "ov_status r = Otp_accepted \<or> ov_status r = Otp_sent" for r
    using r(1)
  proof (rule in_sql_updateE)
    fix s assume "s \<in> set ?t" "r = (if p s then f s else s)"
    with sent [of s] otp_invD(7) [OF inv, of s] r(2) show ?thesis by (auto split: if_splits)
  qed
  ultimately show "otp_inv d'" using ok otp_invD(5) [OF inv] by (simp add: otp_inv_def d'_def keys)
  show "list_all2 otp_evolves ?t (otp_verification d')" using all2 by (simp add: d'_def)
qed

text \<open>Taking rows out of the index, and the one row of an id.\<close>

lemma shrink_otp_inv:
  assumes "otp_inv d" "\<And>r. r \<in> set (otp_verification d) \<Longrightarrow> p r \<Longrightarrow> otp_evolves r (f r)"
    and "\<And>r. r \<in> set (otp_verification d) \<Longrightarrow> p r \<Longrightarrow> \<not> usable_otp (f r)"
    and "\<And>r. r \<in> set (otp_verification d) \<Longrightarrow> p r \<Longrightarrow>
      ov_status (f r) = Otp_accepted \<or> ov_status (f r) = Otp_sent \<Longrightarrow> ov_sent_at (f r) \<noteq> None"
  defines "d' \<equiv> d\<lparr>otp_verification := sql_update p f (otp_verification d)\<rparr>"
  shows "update_otp p f d = Inr d'" "otp_inv d'"
    "list_all2 otp_evolves (otp_verification d) (otp_verification d')"
proof -
  have u: "unique_where usable_otp ov_phone_hash (sql_update p f (otp_verification d))"
    by (rule unique_where_sql_update_shrink [OF otp_invD(3) [OF assms(1)]]) (use assms(3) in blast)
  show "update_otp p f d = Inr d'" "otp_inv d'"
    "list_all2 otp_evolves (otp_verification d) (otp_verification d')"
    unfolding d'_def by (rule update_otp_inv [OF assms(1,2) u assms(4)]; assumption)+
qed

lemma use_up_otp_inv:
  fixes p
  assumes "otp_inv d"
  defines "d' \<equiv> d\<lparr>otp_verification := sql_update p use_up (otp_verification d)\<rparr>"
  shows "update_otp p use_up d = Inr d'" "otp_inv d'"
    "list_all2 otp_evolves (otp_verification d) (otp_verification d')"
  unfolding d'_def
  by (rule shrink_otp_inv [OF assms(1)]; simp add: otp_invD(7) [OF assms(1)])+

section \<open>Activation\<close>

text \<open>After activation the code is used up or no other code of the phone is usable, and none that is newer was
  ever sent.\<close>

definition only_candidate :: "uuid \<Rightarrow> otp_row list \<Rightarrow> bool" where
  "only_candidate i t \<longleftrightarrow> (\<forall>y \<in> set t. ov_id y = i \<and> \<not> ov_used y \<longrightarrow>
     (\<forall>x \<in> set t. ov_phone_hash x = ov_phone_hash y \<and> usable_otp x \<longrightarrow> ov_id x = i) \<and> \<not> newer_sent y t)"

lemma newer_sent_sql_update:
  "newer_sent (use_up r) t = newer_sent r t"
  "newer_sent r (sql_update p use_up t) = newer_sent r t"
  by (simp_all add: newer_sent_def sql_exists_sql_update if_distrib cong: if_cong)

lemma activate_otp_spec:
  assumes inv: "otp_inv d" and r: "r \<in> set (otp_verification d)"
  obtains d1 where "activate_otp r clk d = Inr d1" "otp_inv d1" "otp_next_attempt d1 = otp_next_attempt d"
    "list_all2 spared (otp_verification d) (otp_verification d1)" "only_candidate (ov_id r) (otp_verification d1)"
proof (cases "ov_used r")
  case True
  have "only_candidate (ov_id r) (otp_verification d)"
    unfolding only_candidate_def
  proof (intro ballI impI, elim conjE)
    fix y assume "y \<in> set (otp_verification d)" "ov_id y = ov_id r" "\<not> ov_used y"
    moreover from this have "y = r" using distinct_keyD [OF otp_invD(1) [OF inv]] r by blast
    ultimately show "(\<forall>x\<in>set (otp_verification d). ov_phone_hash x = ov_phone_hash y \<and> usable_otp x \<longrightarrow> ov_id x = ov_id r) \<and>
       \<not> newer_sent y (otp_verification d)" using True by blast
  qed
  with True inv show thesis by (intro that [of d]) (simp_all add: activate_otp_def list_all2_refl)
next
  case False
  let ?t = "otp_verification d"
  let ?p = "\<lambda>x. ov_id x = ov_id r \<and> (ov_expires_at x \<le> clk \<or> newer_sent r ?t)"
  let ?d1 = "d\<lparr>otp_verification := sql_update ?p use_up ?t\<rparr>"
  let ?q = "\<lambda>x. ov_phone_hash x = ov_phone_hash r \<and> ov_attempt_number x < ov_attempt_number r \<and>
    \<not> ov_used x \<and> sql_exists (\<lambda>y. ov_id y = ov_id r \<and> \<not> ov_used y) (otp_verification ?d1)"
  let ?d2 = "?d1\<lparr>otp_verification := sql_update ?q use_up (otp_verification ?d1)\<rparr>"
  note s1 = use_up_otp_inv [OF inv, of ?p]
  note s2 = use_up_otp_inv [OF s1(2), of ?q]
  have run: "activate_otp r clk d = Inr ?d2"
    using False s1(1) s2(1) by (simp add: activate_otp_def)
  have ev: "list_all2 spared ?t (otp_verification ?d2)"
    by (simp, rule list_all2_trans [OF spared_trans spared_use_up spared_use_up])
  have "only_candidate (ov_id r) (otp_verification ?d2)"
    unfolding only_candidate_def
  proof (intro ballI impI, elim conjE)
    fix y assume y: "y \<in> set (otp_verification ?d2)" "ov_id y = ov_id r" "\<not> ov_used y"
    obtain y1 where y1: "y1 \<in> set (otp_verification ?d1)" "y = (if ?q y1 then use_up y1 else y1)"
      using y(1) by (auto elim: in_sql_updateE)
    with y(3) have y1y: "y1 = y" by (auto split: if_splits)
    obtain y0 where y0: "y0 \<in> set ?t" "y1 = (if ?p y0 then use_up y0 else y0)"
      using y1(1) by (auto elim: in_sql_updateE)
    with y1y y(3) have y0y: "y0 = y" "\<not> ?p y" by (auto split: if_splits)
    then have yr: "y = r" using distinct_keyD [OF otp_invD(1) [OF inv] _ r] y0(1) y(2) by blast
    have newer: "\<not> newer_sent r ?t" using y0y(2) yr by blast
    have open_r: "sql_exists (\<lambda>y. ov_id y = ov_id r \<and> \<not> ov_used y) (otp_verification ?d1)"
      unfolding sql_exists_iff using y1(1) y1y y(2,3) by blast
    have "ov_id x = ov_id r" if x: "x \<in> set (otp_verification ?d2)" "ov_phone_hash x = ov_phone_hash y" "usable_otp x" for x
    proof -
      obtain x1 where x1: "x1 \<in> set (otp_verification ?d1)" "x = (if ?q x1 then use_up x1 else x1)"
        using x(1) by (auto elim: in_sql_updateE)
      with x(3) have q: "\<not> ?q x1" "x = x1" by (auto split: if_splits)
      obtain x0 where x0: "x0 \<in> set ?t" "x1 = (if ?p x0 then use_up x0 else x0)"
        using x1(1) by (auto elim: in_sql_updateE)
      with q x(3) have "x0 = x" by (auto split: if_splits)
      with x0 have xt: "x \<in> set ?t" by simp
      have "\<not> ov_attempt_number x < ov_attempt_number r"
        using q x(2,3) yr open_r by (auto simp: usable_otp_def)
      moreover have "\<not> ov_attempt_number r < ov_attempt_number x"
      proof
        assume "ov_attempt_number r < ov_attempt_number x"
        moreover have "ov_sent_at x \<noteq> None" using otp_invD(7) [OF inv xt] x(3) by (simp add: usable_otp_def)
        ultimately have "newer_sent r ?t" using xt x(2) yr unfolding newer_sent_def sql_exists_iff by blast
        with newer show False by contradiction
      qed
      ultimately have "ov_attempt_number x = ov_attempt_number r" by simp
      then show ?thesis using distinct_keyD [OF otp_invD(5) [OF inv] xt r] by simp
    qed
    moreover have "\<not> newer_sent y (otp_verification ?d2)"
      using newer by (simp add: yr newer_sent_sql_update)
    ultimately show "(\<forall>x\<in>set (otp_verification ?d2). ov_phone_hash x = ov_phone_hash y \<and> usable_otp x \<longrightarrow> ov_id x = ov_id r) \<and>
       \<not> newer_sent y (otp_verification ?d2)" by blast
  qed
  with run s2(2) ev show thesis by (intro that [of ?d2]) simp_all
qed

section \<open>Every statement keeps the invariant\<close>

lemma candidate_otp_inv:
  assumes inv: "otp_inv d" and cand: "only_candidate i (otp_verification d)"
    and ev: "\<And>r. r \<in> set (otp_verification d) \<Longrightarrow> ov_id r = i \<Longrightarrow> otp_evolves r (f r)"
    and sent: "\<And>r. r \<in> set (otp_verification d) \<Longrightarrow> ov_id r = i \<Longrightarrow>
      ov_status (f r) = Otp_accepted \<or> ov_status (f r) = Otp_sent \<Longrightarrow> ov_sent_at (f r) \<noteq> None"
  defines "d' \<equiv> d\<lparr>otp_verification := sql_update (\<lambda>r. ov_id r = i) f (otp_verification d)\<rparr>"
  shows "update_otp (\<lambda>r. ov_id r = i) f d = Inr d'" "otp_inv d'"
    "list_all2 otp_evolves (otp_verification d) (otp_verification d')"
proof -
  let ?t = "otp_verification d" and ?u = "sql_update (\<lambda>r. ov_id r = i) f (otp_verification d)"
  have all2: "list_all2 otp_evolves ?t ?u" by (rule list_all2_sql_update) (use ev in auto)
  have ids: "map ov_id ?u = map ov_id ?t"
    by (rule list_all2_map_eq [OF all2, symmetric]) (simp add: otp_evolves_def)
  have one: "ov_id y = ov_id x"
    if xy: "x \<in> set ?u" "y \<in> set ?u" "usable_otp x" "usable_otp y" "ov_phone_hash x = ov_phone_hash y" "ov_id x = i" for x y
  proof (rule ccontr)
    assume ne: "ov_id y \<noteq> ov_id x"
    obtain x0 where x0: "x0 \<in> set ?t" "x = (if ov_id x0 = i then f x0 else x0)" using xy(1) by (rule in_sql_updateE)
    obtain y0 where y0: "y0 \<in> set ?t" "y = (if ov_id y0 = i then f y0 else y0)" using xy(2) by (rule in_sql_updateE)
    have y0i: "ov_id y0 \<noteq> i" using y0 ev [of y0] ne xy(6) by (auto simp: otp_evolves_def)
    have x0i: "ov_id x0 = i" using x0 xy(6) by (auto split: if_splits)
    have e: "otp_evolves x0 x" using x0 x0i ev by simp
    then have "\<not> ov_used x0" "ov_phone_hash y = ov_phone_hash x0"
      using xy(3,5) by (auto simp: otp_evolves_def usable_otp_def)
    with cand x0(1) x0i y0 y0i xy(4) show False unfolding only_candidate_def by (metis (no_types, lifting))
  qed
  have "unique_where usable_otp ov_phone_hash ?u"
  proof (subst unique_where_iff [where i = ov_id], simp only: ids otp_invD(1) [OF inv], intro ballI impI)
    fix x y assume xy: "x \<in> set ?u" "y \<in> set ?u" "usable_otp x" "usable_otp y" "ov_phone_hash x = ov_phone_hash y"
    show "ov_id x = ov_id y"
    proof (cases "ov_id x = i \<or> ov_id y = i")
      case True
      then show ?thesis using one [OF xy] one [OF xy(2,1,4,3)] xy(5) by auto
    next
      case False
      have old: "z \<in> set ?t" if "z \<in> set ?u" "ov_id z \<noteq> i" for z
        using that(1) by (rule in_sql_updateE) (use ev that(2) in \<open>auto simp: otp_evolves_def split: if_splits\<close>)
      show ?thesis
        using unique_whereD [OF otp_invD(3) [OF inv] old [OF xy(1)] old [OF xy(2)] xy(3,4,5)] False by simp
    qed
  qed
  then show "update_otp (\<lambda>r. ov_id r = i) f d = Inr d'" "otp_inv d'"
    "list_all2 otp_evolves (otp_verification d) (otp_verification d')"
    unfolding d'_def by - (rule update_otp_inv [OF inv ev _ sent]; assumption)+
qed

lemma locked_deliveryD: "locked_delivery i h d = Some r \<Longrightarrow> r \<in> set (otp_verification d) \<and> ov_id r = i \<and> ov_phone_hash r = h"
  by (auto simp: locked_delivery_def dest: sql_first_SomeD)

text \<open>The state of the row after activation, as the following UPDATE finds it.\<close>

lemma spared_row:
  assumes "list_all2 spared (otp_verification d) (otp_verification d1)" "otp_inv d" "r \<in> set (otp_verification d)"
    and "s \<in> set (otp_verification d1)" "ov_id s = ov_id r"
  shows "spared r s"
proof -
  obtain r0 where "r0 \<in> set (otp_verification d)" "spared r0 s" using list_all2_setD2 [OF assms(1,4)] by blast
  moreover from this have "r0 = r"
    by (intro distinct_keyD [OF otp_invD(1) [OF assms(2)] _ assms(3)]) (use assms(5) in \<open>auto simp: spared_def\<close>)
  ultimately show ?thesis by simp
qed

lemma spared_list_evolves: "list_all2 spared s t \<Longrightarrow> list_all2 otp_evolves s t"
  by (erule list_all2_mono) (rule spared_evolves)

text \<open>A code becomes usable only when no newer code of its phone was sent before.\<close>

definition otp_admits :: "otp_row list \<Rightarrow> otp_row list \<Rightarrow> bool" where
  "otp_admits t u \<longleftrightarrow> (\<forall>y \<in> set u. usable_otp y \<longrightarrow>
     (\<exists>x \<in> set t. usable_otp x \<and> ov_phone_hash x = ov_phone_hash y \<and> ov_attempt_number x = ov_attempt_number y) \<or>
     \<not> newer_sent y t)"

lemma newer_sent_mono:
  assumes "newer_sent y t" "list_all2 otp_evolves t u"
  shows "newer_sent y u"
proof -
  obtain x where x: "x \<in> set t" "ov_phone_hash x = ov_phone_hash y" "ov_attempt_number y < ov_attempt_number x"
      "ov_sent_at x \<noteq> None"
    using assms(1) unfolding newer_sent_def sql_exists_iff by blast
  obtain z where "z \<in> set u" "otp_evolves x z" using list_all2_setD1 [OF assms(2) x(1)] by blast
  with x(2-) show ?thesis unfolding newer_sent_def sql_exists_iff otp_evolves_def by metis
qed

lemma newer_sent_cong:
  "ov_phone_hash x = ov_phone_hash y \<Longrightarrow> ov_attempt_number x = ov_attempt_number y \<Longrightarrow> newer_sent x t = newer_sent y t"
  by (simp add: newer_sent_def)

lemma otp_admits_trans:
  assumes "otp_admits s t" "otp_admits t u" "list_all2 otp_evolves s t"
  shows "otp_admits s u"
  unfolding otp_admits_def
proof (intro ballI impI)
  fix z assume z: "z \<in> set u" "usable_otp z"
  with assms(2) consider y where "y \<in> set t" "usable_otp y" "ov_phone_hash y = ov_phone_hash z"
      "ov_attempt_number y = ov_attempt_number z" | "\<not> newer_sent z t"
    unfolding otp_admits_def by blast
  then show "(\<exists>x \<in> set s. usable_otp x \<and> ov_phone_hash x = ov_phone_hash z \<and> ov_attempt_number x = ov_attempt_number z) \<or>
     \<not> newer_sent z s"
  proof cases
    case (1 y)
    with assms(1) newer_sent_cong [of y z s] show ?thesis unfolding otp_admits_def by metis
  next
    case 2
    with newer_sent_mono [OF _ assms(3)] show ?thesis by blast
  qed
qed

lemma otp_admits_old: "(\<And>y. y \<in> set u \<Longrightarrow> usable_otp y \<Longrightarrow> y \<in> set t) \<Longrightarrow> otp_admits t u"
  by (auto simp: otp_admits_def)

lemma otp_admits_spared: "list_all2 spared t u \<Longrightarrow> otp_admits t u"
  by (rule otp_admits_old) (auto dest!: list_all2_setD2 simp: spared_def)

lemma otp_admits_shrink:
  "(\<And>r. r \<in> set t \<Longrightarrow> p r \<Longrightarrow> \<not> usable_otp (f r)) \<Longrightarrow> otp_admits t (sql_update p f t)"
  by (rule otp_admits_old) (auto elim!: in_sql_updateE split: if_splits)

lemma otp_admits_candidate:
  assumes "only_candidate i t" "\<And>r. r \<in> set t \<Longrightarrow> ov_id r = i \<Longrightarrow> otp_evolves r (f r)"
  shows "otp_admits t (sql_update (\<lambda>r. ov_id r = i) f t)"
  unfolding otp_admits_def
proof (intro ballI impI)
  fix y assume y: "y \<in> set (sql_update (\<lambda>r. ov_id r = i) f t)" "usable_otp y"
  then obtain x where x: "x \<in> set t" "y = (if ov_id x = i then f x else x)" by (auto elim: in_sql_updateE)
  show "(\<exists>x \<in> set t. usable_otp x \<and> ov_phone_hash x = ov_phone_hash y \<and> ov_attempt_number x = ov_attempt_number y) \<or>
     \<not> newer_sent y t"
  proof (cases "ov_id x = i")
    case True
    with assms(2) [OF x(1)] x have e: "otp_evolves x y" by simp
    with y(2) have "\<not> ov_used x" by (auto simp: otp_evolves_def usable_otp_def)
    with assms(1) x(1) True have "\<not> newer_sent x t" unfolding only_candidate_def by blast
    then show ?thesis using newer_sent_cong [of x y t] e by (simp add: otp_evolves_def)
  qed (use x y in auto)
qed

text \<open>What every transaction on codes does: it keeps the invariant and lets the rows evolve.\<close>

definition otp_advance :: "db \<Rightarrow> db \<Rightarrow> bool" where
  "otp_advance d d' \<longleftrightarrow> otp_inv d' \<and> otp_next_attempt d' = otp_next_attempt d \<and>
     list_all2 otp_evolves (otp_verification d) (otp_verification d') \<and>
     otp_admits (otp_verification d) (otp_verification d')"

lemma otp_advance_refl: "otp_inv d \<Longrightarrow> otp_advance d d"
  by (simp add: otp_advance_def list_all2_refl otp_admits_old)

lemma otp_advance_trans: "otp_advance d d1 \<Longrightarrow> otp_advance d1 d2 \<Longrightarrow> otp_advance d d2"
  unfolding otp_advance_def using list_all2_trans [OF otp_evolves_trans] otp_admits_trans by auto

lemma activate_otp_advance:
  assumes "otp_inv d" "r \<in> set (otp_verification d)"
  shows "\<exists>d1. activate_otp r clk d = Inr d1 \<and> otp_advance d d1 \<and> only_candidate (ov_id r) (otp_verification d1) \<and>
    list_all2 spared (otp_verification d) (otp_verification d1)"
  by (rule activate_otp_spec [OF assms, of clk]) (auto simp: otp_advance_def spared_list_evolves otp_admits_spared)

lemma candidate_advance:
  assumes "otp_inv d" "only_candidate i (otp_verification d)"
    and "\<And>r. r \<in> set (otp_verification d) \<Longrightarrow> ov_id r = i \<Longrightarrow> otp_evolves r (f r)"
    and "\<And>r. r \<in> set (otp_verification d) \<Longrightarrow> ov_id r = i \<Longrightarrow>
      ov_status (f r) = Otp_accepted \<or> ov_status (f r) = Otp_sent \<Longrightarrow> ov_sent_at (f r) \<noteq> None"
  shows "\<exists>d'. update_otp (\<lambda>r. ov_id r = i) f d = Inr d' \<and> otp_advance d d'"
  unfolding otp_advance_def
  by (rule exI, rule conjI, rule candidate_otp_inv(1) [OF assms], assumption+, intro conjI,
      rule candidate_otp_inv(2) [OF assms], assumption+, simp, rule candidate_otp_inv(3) [OF assms], assumption+,
      simp, rule otp_admits_candidate [OF assms(2,3)], assumption+)

lemma shrink_advance:
  assumes "otp_inv d" "\<And>r. r \<in> set (otp_verification d) \<Longrightarrow> p r \<Longrightarrow> otp_evolves r (f r)"
    and "\<And>r. r \<in> set (otp_verification d) \<Longrightarrow> p r \<Longrightarrow> \<not> usable_otp (f r)"
    and "\<And>r. r \<in> set (otp_verification d) \<Longrightarrow> p r \<Longrightarrow>
      ov_status (f r) = Otp_accepted \<or> ov_status (f r) = Otp_sent \<Longrightarrow> ov_sent_at (f r) \<noteq> None"
  shows "\<exists>d'. update_otp p f d = Inr d' \<and> otp_advance d d' \<and> otp_verification d' = sql_update p f (otp_verification d)"
  unfolding otp_advance_def
  by (rule exI, rule conjI, rule shrink_otp_inv(1) [OF assms], assumption+, intro conjI,
      rule shrink_otp_inv(2) [OF assms], assumption+, simp, rule shrink_otp_inv(3) [OF assms], assumption+,
      simp, rule otp_admits_shrink [OF assms(3)], assumption+, simp)

lemma coalesce_Some [simp]: "coalesce a (Some x) \<noteq> None"
  by (simp add: coalesce_def split: option.splits)

lemma accept_row_evolves: "ov_status r \<noteq> Otp_failed \<Longrightarrow> otp_evolves r (accept_row txn msg clk r)"
  by (simp add: otp_evolves_def accept_row_def)

lemma accept_row_sent: "ov_sent_at (accept_row txn msg clk r) \<noteq> None"
  by (simp add: accept_row_def)

lemma event_row_evolves:
  "sv_type ev = Sms_sent \<Longrightarrow> ov_status r \<noteq> Otp_failed \<Longrightarrow> otp_evolves r (event_row ev clk r)"
  "sv_type ev = Sms_undelivered \<Longrightarrow> otp_evolves r (event_row ev clk r)"
  by (simp_all add: otp_evolves_def event_row_def)

lemma event_row_sent: "sv_type ev = Sms_sent \<Longrightarrow> ov_sent_at (event_row ev clk r) \<noteq> None"
  by (simp add: event_row_def)

lemma otp_advance_inv: "otp_advance d d' \<Longrightarrow> otp_inv d'"
  by (simp add: otp_advance_def)

lemma mark_otp_accepted_spec:
  assumes inv: "otp_inv d"
  shows "\<exists>b d'. mark_otp_accepted i h txn msg clk clk' d = Inr (b, d') \<and> otp_advance d d'"
proof (cases "\<exists>r. locked_delivery i h d = Some r \<and> matches_receipt r msg (Some txn) \<and> ov_status r \<noteq> Otp_failed")
  case False
  then show ?thesis
    using otp_advance_refl [OF inv] by (auto simp: mark_otp_accepted_def split: option.splits)
next
  case True
  then obtain r where r: "locked_delivery i h d = Some r" "matches_receipt r msg (Some txn)" "ov_status r \<noteq> Otp_failed"
    by blast
  have rd: "r \<in> set (otp_verification d)" "ov_id r = i" using locked_deliveryD [OF r(1)] by auto
  obtain d1 where d1: "activate_otp r clk d = Inr d1" "otp_advance d d1" "only_candidate (ov_id r) (otp_verification d1)"
      "list_all2 spared (otp_verification d) (otp_verification d1)"
    using activate_otp_advance [OF inv rd(1)] by blast
  have live: "ov_status s \<noteq> Otp_failed" if "s \<in> set (otp_verification d1)" "ov_id s = i" for s
    using spared_row [OF d1(4) inv rd(1) that(1)] that(2) rd(2) r(3) by (auto simp: spared_def)
  have "\<exists>d2. update_otp (\<lambda>x. ov_id x = i) (accept_row txn msg clk') d1 = Inr d2 \<and> otp_advance d1 d2"
    by (rule candidate_advance [OF otp_advance_inv [OF d1(2)] d1(3) [unfolded rd(2)]])
      (rule accept_row_evolves accept_row_sent live | assumption)+
  then obtain d2 where "update_otp (\<lambda>x. ov_id x = i) (accept_row txn msg clk') d1 = Inr d2" "otp_advance d1 d2" by blast
  with r d1 show ?thesis by (auto simp: mark_otp_accepted_def intro: otp_advance_trans)
qed

lemma mark_otp_outcome_spec:
  assumes inv: "otp_inv d" and st: "st = Otp_failed \<or> st = Otp_unknown"
  shows "\<exists>s d'. mark_otp_outcome i h st reason clk d = Inr (s, d') \<and> otp_advance d d'"
proof (cases "\<exists>r. locked_delivery i h d = Some r \<and> (ov_status r = Otp_pending \<or> ov_status r = Otp_unknown)")
  case False
  then show ?thesis
    using otp_advance_refl [OF inv] by (cases "locked_delivery i h d") (auto simp: mark_otp_outcome_def)
next
  case True
  then obtain r where r: "locked_delivery i h d = Some r" "ov_status r = Otp_pending \<or> ov_status r = Otp_unknown" by blast
  have row: "s = r" if "s \<in> set (otp_verification d)" "ov_id s = i" for s
    using distinct_keyD [OF otp_invD(1) [OF inv] that(1)] locked_deliveryD [OF r(1)] that(2) by simp
  have row_ev: "otp_evolves s (outcome_row st reason clk s)" if "s \<in> set (otp_verification d)" "ov_id s = i" for s
    using row [OF that] r(2) by (auto simp: otp_evolves_def outcome_row_def)
  obtain d' where "update_otp (\<lambda>x. ov_id x = i) (outcome_row st reason clk) d = Inr d'" "otp_advance d d'"
    using shrink_advance [OF inv, of "\<lambda>x. ov_id x = i" "outcome_row st reason clk", OF row_ev] st
    by (auto simp: outcome_row_def usable_otp_def)
  with r show ?thesis by (auto simp: mark_otp_outcome_def)
qed

lemma apply_sms_event_spec:
  assumes inv: "otp_inv d"
  shows "\<exists>s d'. apply_sms_event ev clk clk' d = Inr (s, d') \<and> otp_advance d d'"
proof (cases "\<exists>x r. sql_first (\<lambda>r. ov_id r = sv_delivery_id ev \<and> ov_provider r = ''sweego'') (otp_verification d) = Some x \<and>
    locked_delivery (sv_delivery_id ev) (ov_phone_hash x) d = Some r \<and> matches_receipt r (sv_message_id ev) (sv_transaction_id ev) \<and>
    ov_status r \<noteq> Otp_failed \<and> \<not> (ov_status r = Otp_sent \<and> sv_type ev = Sms_sent)")
  case False
  then show ?thesis
    using otp_advance_refl [OF inv] by (auto simp: apply_sms_event_def split: option.splits)
next
  case True
  then obtain x r where
    x: "sql_first (\<lambda>r. ov_id r = sv_delivery_id ev \<and> ov_provider r = ''sweego'') (otp_verification d) = Some x"
    and r: "locked_delivery (sv_delivery_id ev) (ov_phone_hash x) d = Some r"
      "matches_receipt r (sv_message_id ev) (sv_transaction_id ev)" "ov_status r \<noteq> Otp_failed"
      "\<not> (ov_status r = Otp_sent \<and> sv_type ev = Sms_sent)"
    by blast
  have rd: "r \<in> set (otp_verification d)" "ov_id r = sv_delivery_id ev" using locked_deliveryD [OF r(1)] by auto
  have "\<exists>d1 d2. (if sv_type ev = Sms_sent then activate_otp r clk d else Inr d) = Inr d1 \<and>
    update_otp (\<lambda>x. ov_id x = sv_delivery_id ev) (event_row ev clk') d1 = Inr d2 \<and> otp_advance d d2"
  proof (cases "sv_type ev")
    case Sms_sent
    obtain d1 where d1: "activate_otp r clk d = Inr d1" "otp_advance d d1" "only_candidate (ov_id r) (otp_verification d1)"
      "list_all2 spared (otp_verification d) (otp_verification d1)"
      using activate_otp_advance [OF inv rd(1)] by blast
    have "ov_status s \<noteq> Otp_failed" if "s \<in> set (otp_verification d1)" "ov_id s = sv_delivery_id ev" for s
      using spared_row [OF d1(4) inv rd(1) that(1)] that(2) rd(2) r(3) by (auto simp: spared_def)
    note live = this
    have "\<exists>d2. update_otp (\<lambda>x. ov_id x = sv_delivery_id ev) (event_row ev clk') d1 = Inr d2 \<and> otp_advance d1 d2"
      by (rule candidate_advance [OF otp_advance_inv [OF d1(2)] d1(3) [unfolded rd(2)]])
        (rule event_row_evolves(1) [OF Sms_sent] event_row_sent [OF Sms_sent] live | assumption)+
    then obtain d2 where "update_otp (\<lambda>x. ov_id x = sv_delivery_id ev) (event_row ev clk') d1 = Inr d2" "otp_advance d1 d2"
      by blast
    with d1 Sms_sent show ?thesis by (auto intro: otp_advance_trans)
  next
    case Sms_undelivered
    obtain d2 where "update_otp (\<lambda>x. ov_id x = sv_delivery_id ev) (event_row ev clk') d = Inr d2" "otp_advance d d2"
      using shrink_advance [OF inv, of "\<lambda>x. ov_id x = sv_delivery_id ev" "event_row ev clk'"] Sms_undelivered
      by (auto simp: otp_evolves_def event_row_def usable_otp_def)
    with Sms_undelivered show ?thesis by auto
  qed
  with x r show ?thesis by (auto simp: apply_sms_event_def)
qed

lemma consume_otp_spec:
  assumes inv: "otp_inv d"
  shows "\<exists>d'. consume_otp h code clk d = Inr (sql_count (consumable h code clk) (otp_verification d) = 1, d') \<and>
    otp_advance d d' \<and> otp_verification d' = sql_update (consumable h code clk) use_up (otp_verification d)"
  using shrink_advance [OF inv, of "consumable h code clk" use_up] otp_invD(7) [OF inv]
  by (auto simp: consume_otp_def)

text \<open>A request adds a pending code under the next number, or finds the one of its key.\<close>

lemma begin_otp_delivery_spec:
  assumes inv: "otp_inv d" and run: "begin_otp_delivery b now clk d = Inr (s, d')"
  shows "otp_inv d' \<and> otp_next_attempt d' = Suc (otp_next_attempt d) \<and>
    (list_all2 otp_evolves (otp_verification d) (otp_verification d') \<and>
       otp_admits (otp_verification d) (otp_verification d') \<or>
     otp_verification d' = otp_verification d @ [new_otp_row b now clk (otp_next_attempt d)])"
proof (cases "sql_exists (\<lambda>r. ov_idempotency_key r = oi_idempotency_key b) (otp_verification d)")
  case True
  let ?d0 = "d\<lparr>otp_next_attempt := otp_next_attempt d + 1\<rparr>"
  have inv0: "otp_inv ?d0" using inv by (fastforce simp: otp_inv_def)
  obtain d1 where d1: "update_otp (stale_delivery b clk)
      (\<lambda>r. r\<lparr>ov_status := Otp_unknown, ov_error_code := Some ''delivery_unknown''\<rparr>) ?d0 = Inr d1" "otp_advance ?d0 d1"
    using shrink_advance [OF inv0, of "stale_delivery b clk"
        "\<lambda>r. r\<lparr>ov_status := Otp_unknown, ov_error_code := Some ''delivery_unknown''\<rparr>"]
    by (auto simp: stale_delivery_def otp_evolves_def usable_otp_def)
  with True run have "d' = d1" by (auto simp: begin_otp_delivery_def Let_def split: option.splits)
  with d1(2) show ?thesis by (simp add: otp_advance_def)
next
  case False
  let ?r = "new_otp_row b now clk (otp_next_attempt d)"
  have ok: "otp_table_ok (otp_verification d @ [?r])"
    and d': "d' = d\<lparr>otp_next_attempt := otp_next_attempt d + 1, otp_verification := otp_verification d @ [?r]\<rparr>"
    using False run by (auto simp: begin_otp_delivery_def Let_def write_otp_def split: if_splits)
  have "ov_attempt_number ?r = otp_next_attempt d" "ov_status ?r = Otp_pending" by (simp_all add: new_otp_row_def)
  with inv ok have "otp_inv d'" unfolding otp_inv_def d' by (fastforce simp: less_Suc_eq)
  with d' show ?thesis by simp
qed

text \<open>It cannot violate a constraint: the id is fresh, or the key is known.\<close>

lemma begin_otp_delivery_runs:
  assumes inv: "otp_inv d" and fresh: "oi_id b \<notin> ov_id ` set (otp_verification d)"
  shows "\<exists>s d'. begin_otp_delivery b now clk d = Inr (s, d')"
proof (cases "sql_exists (\<lambda>r. ov_idempotency_key r = oi_idempotency_key b) (otp_verification d)")
  case True
  let ?d0 = "d\<lparr>otp_next_attempt := otp_next_attempt d + 1\<rparr>"
  have inv0: "otp_inv ?d0" using inv by (fastforce simp: otp_inv_def)
  obtain d1 where d1: "update_otp (stale_delivery b clk)
      (\<lambda>r. r\<lparr>ov_status := Otp_unknown, ov_error_code := Some ''delivery_unknown''\<rparr>) ?d0 = Inr d1"
    and t: "otp_verification d1 = sql_update (stale_delivery b clk)
      (\<lambda>r. r\<lparr>ov_status := Otp_unknown, ov_error_code := Some ''delivery_unknown''\<rparr>) (otp_verification d)"
    using shrink_advance [OF inv0, of "stale_delivery b clk"
        "\<lambda>r. r\<lparr>ov_status := Otp_unknown, ov_error_code := Some ''delivery_unknown''\<rparr>"]
    by (auto simp: stale_delivery_def otp_evolves_def usable_otp_def)
  have "sql_exists (\<lambda>r. ov_idempotency_key r = oi_idempotency_key b) (otp_verification d1)"
    using True by (simp add: t sql_exists_sql_update if_distrib cong: if_cong)
  then obtain e where "sql_first (\<lambda>r. ov_idempotency_key r = oi_idempotency_key b) (otp_verification d1) = Some e"
    by (auto simp: sql_first_Some_iff_exists [symmetric])
  with True d1 show ?thesis by (simp add: begin_otp_delivery_def)
next
  case False
  let ?r = "new_otp_row b now clk (otp_next_attempt d)"
  have "\<not> usable_otp ?r" by (simp add: new_otp_row_def usable_otp_def)
  moreover have "ov_id ?r = oi_id b" "ov_idempotency_key ?r = oi_idempotency_key b" by (simp_all add: new_otp_row_def)
  ultimately have "otp_table_ok (otp_verification d @ [?r])"
    using otp_invD(1-3) [OF inv] fresh False
    by (auto simp: otp_table_ok_def unique_where_append sql_exists_iff)
  with False show ?thesis by (simp add: begin_otp_delivery_def write_otp_def Let_def)
qed

section \<open>The transactions of the repository, in any order\<close>

inductive otp_step :: "db \<Rightarrow> db \<Rightarrow> bool" where
  Begin: "begin_otp_delivery b now clk d = Inr (s, d') \<Longrightarrow> otp_step d d'"
| Accept: "mark_otp_accepted i h txn msg clk clk' d = Inr (ok, d') \<Longrightarrow> otp_step d d'"
| Outcome: "st = Otp_failed \<or> st = Otp_unknown \<Longrightarrow>
    mark_otp_outcome i h st reason clk d = Inr (s', d') \<Longrightarrow> otp_step d d'"
| Event: "apply_sms_event ev clk clk' d = Inr (out, d') \<Longrightarrow> otp_step d d'"
| Consume: "consume_otp h code clk d = Inr (ok, d') \<Longrightarrow> otp_step d d'"

inductive otp_run :: "db \<Rightarrow> db \<Rightarrow> bool" where
  Stay: "otp_run d d"
| Next: "otp_run d d1 \<Longrightarrow> otp_step d1 d2 \<Longrightarrow> otp_run d d2"

lemma otp_step_cases:
  assumes "otp_step d d'" "otp_inv d"
  shows "otp_inv d' \<and> (otp_advance d d' \<or>
    otp_next_attempt d' = Suc (otp_next_attempt d) \<and>
    (list_all2 otp_evolves (otp_verification d) (otp_verification d') \<and>
       otp_admits (otp_verification d) (otp_verification d') \<or>
     (\<exists>b now clk. otp_verification d' = otp_verification d @ [new_otp_row b now clk (otp_next_attempt d)])))"
  using assms(1)
proof cases
  case (Begin b now clk s)
  from begin_otp_delivery_spec [OF assms(2) this] show ?thesis by blast
next
  case (Accept i h txn msg clk clk' ok)
  with mark_otp_accepted_spec [OF assms(2), of i h txn msg clk clk'] show ?thesis by (auto dest: otp_advance_inv)
next
  case (Outcome st i h reason clk s')
  with mark_otp_outcome_spec [OF assms(2) Outcome(1), of i h reason clk] show ?thesis by (auto dest: otp_advance_inv)
next
  case (Event ev clk clk' out)
  with apply_sms_event_spec [OF assms(2), of ev clk clk'] show ?thesis by (auto dest: otp_advance_inv)
next
  case (Consume h code clk ok)
  with consume_otp_spec [OF assms(2), of h code clk] show ?thesis by (auto dest: otp_advance_inv)
qed

lemma otp_run_inv: "otp_run d d' \<Longrightarrow> otp_inv d \<Longrightarrow> otp_inv d'"
  by (induction rule: otp_run.induct) (auto dest: otp_step_cases)

section \<open>A consumed code shuts out the older ones\<close>

text \<open>The barrier: a used code that was sent, and no code of its phone up to its number is usable.\<close>

definition otp_barrier :: "string \<Rightarrow> nat \<Rightarrow> otp_row list \<Rightarrow> bool" where
  "otp_barrier h n t \<longleftrightarrow>
     (\<exists>r \<in> set t. ov_phone_hash r = h \<and> ov_attempt_number r = n \<and> ov_used r \<and> ov_sent_at r \<noteq> None) \<and>
     (\<forall>x \<in> set t. ov_phone_hash x = h \<and> ov_attempt_number x \<le> n \<longrightarrow> \<not> usable_otp x)"

lemma otp_barrier_evolves:
  assumes "otp_barrier h n t" "list_all2 otp_evolves t u" "otp_admits t u" "distinct (map ov_attempt_number t)"
  shows "otp_barrier h n u"
proof -
  obtain r where r: "r \<in> set t" "ov_phone_hash r = h" "ov_attempt_number r = n" "ov_used r" "ov_sent_at r \<noteq> None"
    and old: "\<And>x. x \<in> set t \<Longrightarrow> ov_phone_hash x = h \<Longrightarrow> ov_attempt_number x \<le> n \<Longrightarrow> \<not> usable_otp x"
    using assms(1) unfolding otp_barrier_def by blast
  obtain r' where r': "r' \<in> set u" "otp_evolves r r'" using list_all2_setD1 [OF assms(2) r(1)] by blast
  have "\<not> usable_otp y" if y: "y \<in> set u" "ov_phone_hash y = h" "ov_attempt_number y \<le> n" for y
  proof
    assume us: "usable_otp y"
    with assms(3) y old have newer: "\<not> newer_sent y t" unfolding otp_admits_def by metis
    obtain x where x: "x \<in> set t" "otp_evolves x y" using list_all2_setD2 [OF assms(2) y(1)] by blast
    show False
    proof (cases "ov_attempt_number y = n")
      case True
      then have "x = r" using distinct_keyD [OF assms(4) x(1) r(1)] x(2) r(3) by (simp add: otp_evolves_def)
      with r(4) x(2) us show False by (simp add: otp_evolves_def usable_otp_def)
    next
      case False
      with y(2,3) r newer show False unfolding newer_sent_def sql_exists_iff by force
    qed
  qed
  moreover have "ov_phone_hash r' = h" "ov_attempt_number r' = n" "ov_used r'" "ov_sent_at r' \<noteq> None"
    using r r'(2) by (auto simp: otp_evolves_def)
  ultimately show ?thesis unfolding otp_barrier_def using r'(1) by blast
qed

lemma otp_barrier_append:
  "otp_barrier h n t \<Longrightarrow> \<not> usable_otp r \<Longrightarrow> otp_barrier h n (t @ [r])"
  by (auto simp: otp_barrier_def)

lemma otp_barrier_run: "otp_run d d' \<Longrightarrow> otp_inv d \<Longrightarrow> otp_barrier h n (otp_verification d) \<Longrightarrow>
    otp_barrier h n (otp_verification d')"
proof (induction rule: otp_run.induct)
  case (Next d d1 d2)
  have inv: "otp_inv d1" and bar: "otp_barrier h n (otp_verification d1)"
    using Next otp_run_inv by auto
  have "\<not> usable_otp (new_otp_row b now clk k)" for b now clk k by (simp add: new_otp_row_def usable_otp_def)
  then show ?case
    using otp_step_cases [OF Next.hyps(2) inv] otp_barrier_evolves [OF bar _ _ otp_invD(5) [OF inv]]
      otp_barrier_append [OF bar]
    by (auto simp: otp_advance_def)
qed

lemma consumable_usable: "consumable h code clk r \<Longrightarrow> usable_otp r \<and> ov_phone_hash r = h"
  by (simp add: consumable_def usable_otp_def)

text \<open>A successful verification puts up the barrier at the code it consumed.\<close>

lemma consume_otp_barrier:
  assumes inv: "otp_inv d" and run: "consume_otp h code clk d = Inr (True, d')"
  shows "otp_inv d' \<and> (\<exists>r \<in> set (otp_verification d). consumable h code clk r \<and>
    otp_barrier h (ov_attempt_number r) (otp_verification d'))"
proof -
  let ?t = "otp_verification d"
  have t': "otp_verification d' = sql_update (consumable h code clk) use_up ?t" "otp_inv d'"
    and one: "sql_count (consumable h code clk) ?t = 1"
    using consume_otp_spec [OF inv, of h code clk] run by (auto dest: otp_advance_inv)
  obtain r where r: "r \<in> set ?t" "consumable h code clk r"
    using one sql_count_0_iff [of "consumable h code clk" ?t] by auto
  have "\<not> usable_otp y" if y: "y \<in> set (otp_verification d')" "ov_phone_hash y = h" for y
  proof
    assume us: "usable_otp y"
    obtain x where x: "x \<in> set ?t" "y = (if consumable h code clk x then use_up x else x)"
      using y(1) unfolding t'(1) by (rule in_sql_updateE)
    with us have "y \<in> set ?t" "\<not> consumable h code clk y" by (auto split: if_splits)
    with unique_whereD [OF otp_invD(3) [OF inv], of y r] us y(2) r consumable_usable [OF r(2)] show False by auto
  qed
  moreover have "use_up r \<in> set (otp_verification d')" using r unfolding t'(1) set_sql_update by force
  moreover have "ov_sent_at r \<noteq> None" using otp_invD(7) [OF inv r(1)] r(2) by (auto simp: consumable_def)
  ultimately show ?thesis
    using r t'(2) consumable_usable [OF r(2)] unfolding otp_barrier_def by (metis use_up_simps(2-5))
qed

section \<open>Properties\<close>

lemma otp_inv_empty: "otp_verification d = [] \<Longrightarrow> otp_inv d"
  by (simp add: otp_inv_def otp_table_ok_def)

text \<open>C17. Whatever the order of requests, receipts, callbacks and verifications, a phone has at most one
  usable code, and no transaction on codes can fail: none of the statements violates an index.\<close>

theorem otp_life:
  assumes "otp_verification d0 = []" "otp_run d0 d"
    and "oi_id b \<notin> ov_id ` set (otp_verification d)" "st = Otp_failed \<or> st = Otp_unknown"
  shows "(\<exists>s e. begin_otp_delivery b now clk d = Inr (s, e)) \<and>
    (\<exists>s e. mark_otp_accepted i h txn msg clk clk' d = Inr (s, e)) \<and>
    (\<exists>s e. mark_otp_outcome i h st reason clk d = Inr (s, e)) \<and>
    (\<exists>s e. apply_sms_event ev clk clk' d = Inr (s, e)) \<and> (\<exists>s e. consume_otp h code clk d = Inr (s, e)) \<and>
    sql_count (\<lambda>r. usable_otp r \<and> ov_phone_hash r = h) (otp_verification d) \<le> 1"
proof -
  have inv: "otp_inv d" using otp_run_inv [OF assms(2) otp_inv_empty [OF assms(1)]] .
  have "distinct (map ov_phone_hash (filter usable_otp (otp_verification d)))"
    using otp_invD(3) [OF inv] by (simp add: unique_where_def)
  from sql_count_key_le_1 [OF this, of "\<lambda>r. ov_phone_hash r = h" h]
  have "sql_count (\<lambda>r. usable_otp r \<and> ov_phone_hash r = h) (otp_verification d) \<le> 1"
    by (simp add: sql_count_def filter_filter)
  then show ?thesis
    using begin_otp_delivery_runs [OF inv assms(3)] mark_otp_accepted_spec [OF inv]
      mark_otp_outcome_spec [OF inv assms(4)] apply_sms_event_spec [OF inv] consume_otp_spec [OF inv]
    by (metis (no_types, lifting))
qed

text \<open>Two requests of one phone; the first is sent only after the second was accepted.\<close>

definition sample_request :: "uuid \<Rightarrow> string \<Rightarrow> uuid \<Rightarrow> otp_input" where
  "sample_request i code k = \<lparr> oi_id = i, oi_phone_hash = ''p'', oi_otp_hash = code, oi_idempotency_key = k,
     oi_ttl_millis = 300000, oi_settlement_millis = 15000 \<rparr>"

definition ok_db :: "sql_error + 'a \<times> db \<Rightarrow> db" where
  "ok_db r = (case r of Inr (_, d) \<Rightarrow> d | Inl _ \<Rightarrow> empty_db)"

definition otp_sample :: "nat \<Rightarrow> db" where
  "otp_sample n =
     (let d1 = ok_db (begin_otp_delivery (sample_request ''a'' ''123'' ''k1'') 0 0 empty_db);
          d2 = ok_db (begin_otp_delivery (sample_request ''b'' ''456'' ''k2'') 5 5 d1);
          d3 = ok_db (mark_otp_accepted ''b'' ''p'' ''t2'' ''m2'' 6 6 d2);
          d4 = ok_db (mark_otp_accepted ''a'' ''p'' ''t1'' ''m1'' 7 7 d3);
          d5 = ok_db (consume_otp ''p'' ''456'' 8 d4);
          d6 = ok_db (begin_otp_delivery (sample_request ''c'' ''789'' ''k3'') 9 9 d5);
          d7 = ok_db (mark_otp_accepted ''c'' ''p'' ''t3'' ''m3'' 10 10 d6)
      in [d1, d2, d3, d4, d5, d6, d7] ! n)"

lemma ok_db_step: "r = Inr x \<Longrightarrow> r = Inr (fst x, ok_db r)"
  by (cases x) (simp add: ok_db_def)

lemma otp_sample_runs:
  "begin_otp_delivery (sample_request ''a'' ''123'' ''k1'') 0 0 empty_db = Inr (Start_created ''a'', otp_sample 0)"
  "begin_otp_delivery (sample_request ''b'' ''456'' ''k2'') 5 5 (otp_sample 0) = Inr (Start_created ''b'', otp_sample 1)"
  "mark_otp_accepted ''b'' ''p'' ''t2'' ''m2'' 6 6 (otp_sample 1) = Inr (True, otp_sample 2)"
  "mark_otp_accepted ''a'' ''p'' ''t1'' ''m1'' 7 7 (otp_sample 2) = Inr (True, otp_sample 3)"
  "consume_otp ''p'' ''456'' 8 (otp_sample 3) = Inr (True, otp_sample 4)"
  "begin_otp_delivery (sample_request ''c'' ''789'' ''k3'') 9 9 (otp_sample 4) = Inr (Start_created ''c'', otp_sample 5)"
  "mark_otp_accepted ''c'' ''p'' ''t3'' ''m3'' 10 10 (otp_sample 5) = Inr (True, otp_sample 6)"
  by code_simp+

lemma otp_sample_run: "otp_run empty_db (otp_sample 3)" "otp_run (otp_sample 4) (otp_sample 6)"
  by (rule otp_run.intros otp_step.intros otp_sample_runs)+

theorem otp_life_witness:
  "(\<exists>s e. begin_otp_delivery (sample_request ''z'' ''9'' ''k9'') 9 9 (otp_sample 3) = Inr (s, e)) \<and>
    (\<exists>s e. mark_otp_accepted ''a'' ''p'' ''t1'' ''m1'' 9 9 (otp_sample 3) = Inr (s, e)) \<and>
    (\<exists>s e. mark_otp_outcome ''a'' ''p'' Otp_failed ''provider_rejected'' 9 (otp_sample 3) = Inr (s, e)) \<and>
    (\<exists>s e. apply_sms_event \<lparr> sv_delivery_id = ''a'', sv_message_id = ''m1'', sv_transaction_id = None,
      sv_type = Sms_sent \<rparr> 9 9 (otp_sample 3) = Inr (s, e)) \<and>
    (\<exists>s e. consume_otp ''p'' ''456'' 9 (otp_sample 3) = Inr (s, e)) \<and>
    sql_count (\<lambda>r. usable_otp r \<and> ov_phone_hash r = ''p'') (otp_verification (otp_sample 3)) \<le> 1"
  by (rule otp_life [OF _ otp_sample_run(1)]) (simp add: empty_db_def, code_simp, simp)

text \<open>C18. After a verification succeeded with a code, a later one succeeds only with a code that was requested
  after it: neither the same code nor an older one, even when its delivery is confirmed late.\<close>

theorem verified_code_is_last:
  assumes "otp_verification d0 = []" "otp_run d0 d" "consume_otp h code clk d = Inr (True, d1)"
    and "otp_run d1 d2" "consume_otp h code' clk' d2 = Inr (True, d3)"
  shows "\<exists>r \<in> set (otp_verification d). \<exists>s \<in> set (otp_verification d2).
    consumable h code clk r \<and> consumable h code' clk' s \<and> ov_attempt_number r < ov_attempt_number s"
proof -
  have inv: "otp_inv d" using otp_run_inv [OF assms(2) otp_inv_empty [OF assms(1)]] .
  obtain r where r: "r \<in> set (otp_verification d)" "consumable h code clk r" "otp_inv d1"
      "otp_barrier h (ov_attempt_number r) (otp_verification d1)"
    using consume_otp_barrier [OF inv assms(3)] by blast
  have inv2: "otp_inv d2" and bar: "otp_barrier h (ov_attempt_number r) (otp_verification d2)"
    using otp_run_inv [OF assms(4) r(3)] otp_barrier_run [OF assms(4) r(3,4)] .
  obtain s where s: "s \<in> set (otp_verification d2)" "consumable h code' clk' s"
    using consume_otp_barrier [OF inv2 assms(5)] by blast
  with bar consumable_usable [OF s(2)] have "\<not> ov_attempt_number s \<le> ov_attempt_number r"
    unfolding otp_barrier_def by blast
  with r s show ?thesis by (meson not_le)
qed

theorem verified_code_is_last_witness:
  "\<exists>r \<in> set (otp_verification (otp_sample 3)). \<exists>s \<in> set (otp_verification (otp_sample 6)).
    consumable ''p'' ''456'' 8 r \<and> consumable ''p'' ''789'' 11 s \<and> ov_attempt_number r < ov_attempt_number s"
  by (rule verified_code_is_last [OF _ otp_sample_run(1) otp_sample_runs(5) otp_sample_run(2),
        of _ _ "ok_db (consume_otp ''p'' ''789'' 11 (otp_sample 6))"]) (simp add: empty_db_def, code_simp)

end
