(* ===== verification/Otp_Service.thy ===== *)
theory Otp_Service
  imports Otp_Lifecycle Encoding
begin

text \<open>
  \<open>src/auth/otp.service.ts\<close>, the SMS provider client \<open>sweego-sms.service.ts\<close>, and the signed callback:
  \<open>sweego-webhook.signature.ts\<close>, \<open>dto/sweego-webhook.dto.ts\<close> and \<open>sweego-webhook.service.ts\<close>. What
  the network, the clock, the random generator, the HMAC and \<open>JSON.parse\<close> give is an argument.
\<close>

section \<open>Phone numbers and codes\<close>

definition strip_phone :: "string \<Rightarrow> string" where
  "strip_phone s = filter (\<lambda>c. c \<notin> set '' .()-'') (js_trim s)"

text \<open>\<open>^\+33[1-9][0-9]{8}$\<close>\<close>

definition french_number :: "string \<Rightarrow> bool" where
  "french_number p \<longleftrightarrow> length p = 12 \<and> take 3 p = ''+33'' \<and> p ! 3 \<in> set ''123456789'' \<and> list_all digit (drop 4 p)"

definition normalize_phone :: "string \<Rightarrow> string \<Rightarrow> failure + string" where
  "normalize_phone input code =
     (let phone = strip_phone input in
      if french_number phone then Inr phone else Inl (Api (api_error 400 code)))"

text \<open>\<open>padStart(6, '0')\<close> of a number below a million.\<close>

definition generate_otp :: "nat \<Rightarrow> string" where
  "generate_otp n = (let s = show_nat n in replicate (6 - length s) (CHR ''0'') @ s)"

section \<open>The provider\<close>

definition max_sms_body :: nat where
  "max_sms_body = 16384"

text \<open>\<open>^[A-Za-z0-9_-]{1,128}$\<close>\<close>

definition identifier_text :: "string \<Rightarrow> bool" where
  "identifier_text s \<longleftrightarrow> 1 \<le> length s \<and> length s \<le> 128 \<and> list_all (\<lambda>c. c \<in> set b64url_chars) s"

fun sms_provider_identifier :: "json option \<Rightarrow> bool" where
  "sms_provider_identifier (Some (Json_string s)) = identifier_text s"
| "sms_provider_identifier _ = False"

text \<open>One read of the response's body.\<close>

datatype body_read = Chunk string | Read_failed

fun bounded_body :: "nat \<Rightarrow> body_read list \<Rightarrow> string option" where
  "bounded_body n [] = Some []"
| "bounded_body n (Chunk c # rs) =
     (if max_sms_body < n + length c then None else map_option (\<lambda>s. c @ s) (bounded_body (n + length c) rs))"
| "bounded_body n (Read_failed # rs) = None"

datatype sms_reply = Network_failed | Http_reply nat "body_read list option"

datatype sms_attempt = Sms_receipt string string | Sms_refused string otp_delivery_state | Sms_threw

definition bounded_response :: "(string \<Rightarrow> json option) \<Rightarrow> body_read list option \<Rightarrow> json option" where
  "bounded_response json_parse body =
     (case body of None \<Rightarrow> None
      | Some rs \<Rightarrow> (case bounded_body 0 rs of None \<Rightarrow> None | Some s \<Rightarrow> json_parse s))"

definition sweego_success :: "json \<Rightarrow> (string \<times> json list) option" where
  "sweego_success v =
     (case (v, json_field ''transaction_id'' v, json_field ''swg_uids'' v) of
        (Json_object _, Some (Json_string txn), Some (Json_object uids)) \<Rightarrow>
          if identifier_text txn \<and> list_all (\<lambda>f. sms_provider_identifier (Some (snd f))) uids
          then Some (txn, map snd uids) else None
      | _ \<Rightarrow> None)"

definition rejected_statuses :: "nat list" where
  "rejected_statuses = [400, 401, 403, 404, 405, 413, 415, 422, 429]"

definition sweego_deliver :: "bool \<Rightarrow> (string \<Rightarrow> json option) \<Rightarrow> sms_reply \<Rightarrow> sms_attempt" where
  "sweego_deliver configured json_parse reply =
     (if \<not> configured then Sms_refused ''not_configured'' Otp_failed
      else case reply of
        Network_failed \<Rightarrow> Sms_refused ''provider_network_error'' Otp_unknown
      | Http_reply status body \<Rightarrow>
          if status \<noteq> 200 then
            (if status \<in> set rejected_statuses then Sms_refused ''provider_rejected'' Otp_failed
             else Sms_refused ''provider_unavailable'' Otp_unknown)
          else
            (case bounded_response json_parse body of
               None \<Rightarrow> Sms_refused ''provider_invalid_response'' Otp_unknown
             | Some payload \<Rightarrow>
                 (case sweego_success payload of
                    Some (txn, [Json_string m]) \<Rightarrow>
                      if m = [] then Sms_refused ''provider_invalid_response'' Otp_unknown else Sms_receipt txn m
                  | _ \<Rightarrow> Sms_refused ''provider_invalid_response'' Otp_unknown)))"

definition format_minutes :: "nat \<Rightarrow> string" where
  "format_minutes ttl = (if ttl mod 60000 = 0 then show_nat (ttl div 60000) else show_nat (ttl div 60000 + 1))"

definition sms_text :: "string \<Rightarrow> nat \<Rightarrow> string" where
  "sms_text code ttl = ''Histae : votre code de verification est '' @ code @ ''. Il expire dans '' @
     format_minutes ttl @ '' minutes.''"

section \<open>Sending a code\<close>

record otp_env =
  oe_new_id :: uuid
  oe_random :: nat
  oe_hmac :: "string \<Rightarrow> string"
  oe_ttl :: int
  oe_timeout :: int
  oe_now :: pg_time
  oe_clk :: pg_time
  oe_attempt :: sms_attempt
  oe_meanwhile :: "db \<Rightarrow> db"
  oe_clk2 :: pg_time
  oe_clk3 :: pg_time

record sent_sms =
  ss_phone :: string
  ss_code :: string
  ss_delivery :: uuid

definition otp_unknown :: failure where
  "otp_unknown = Api (api_error 503 ''otp_delivery_unknown'')"

definition otp_unavailable :: failure where
  "otp_unavailable = Api (api_error 503 ''otp_delivery_unavailable'')"

text \<open>The answer to a state that the request's key already has, or that the failed attempt settles in.\<close>

definition existing_reply :: "otp_delivery_state \<Rightarrow> failure + unit" where
  "existing_reply s = (case s of Otp_sent \<Rightarrow> Inr () | Otp_accepted \<Rightarrow> Inr () | Otp_pending \<Rightarrow> Inr ()
     | Otp_unknown \<Rightarrow> Inl otp_unknown | Otp_failed \<Rightarrow> Inl otp_unavailable)"

definition outcome_reply :: "otp_delivery_state \<Rightarrow> failure + unit" where
  "outcome_reply s = (if s = Otp_sent \<or> s = Otp_accepted then Inr ()
     else if s = Otp_unknown then Inl otp_unknown else Inl otp_unavailable)"

text \<open>After the provider call; other transactions may have run meanwhile.\<close>

definition settle_attempt :: "otp_env \<Rightarrow> uuid \<Rightarrow> string \<Rightarrow> db \<Rightarrow> db \<times> (failure + unit)" where
  "settle_attempt v i ph d =
     (case oe_attempt v of
        Sms_receipt txn m \<Rightarrow>
          (case mark_otp_accepted i ph txn m (oe_clk2 v) (oe_clk3 v) d of
             Inl _ \<Rightarrow> (d, Inl otp_unknown)
           | Inr (ok, d1) \<Rightarrow> (d1, if ok then Inr () else Inl otp_unavailable))
      | failed \<Rightarrow>
          (case mark_otp_outcome i ph (case failed of Sms_refused _ s \<Rightarrow> s | _ \<Rightarrow> Otp_unknown)
               (case failed of Sms_refused r _ \<Rightarrow> r | _ \<Rightarrow> ''delivery_unknown'') (oe_clk2 v) d of
             Inl _ \<Rightarrow> (d, Inl otp_unknown)
           | Inr (s, d1) \<Rightarrow> (d1, outcome_reply s)))"

definition otp_send ::
  "otp_env \<Rightarrow> string \<Rightarrow> string option \<Rightarrow> db \<Rightarrow> db \<times> (failure + unit) \<times> sent_sms list" where
  "otp_send v phone_input key_input d =
     (case normalize_phone phone_input ''invalid_phone_number'' of
        Inl e \<Rightarrow> (d, Inl e, [])
      | Inr phone \<Rightarrow>
        (case normalize_idempotency_key key_input of
           Inl e \<Rightarrow> (d, Inl (Api e), [])
         | Inr key \<Rightarrow>
           let code = generate_otp (oe_random v); ph = oe_hmac v phone; i = oe_new_id v in
           (case begin_otp_delivery \<lparr> oi_id = i, oi_phone_hash = ph, oi_otp_hash = oe_hmac v code,
               oi_idempotency_key = key, oi_ttl_millis = oe_ttl v, oi_settlement_millis = oe_timeout v + 5000 \<rparr>
               (oe_now v) (oe_clk v) d of
              Inl e \<Rightarrow> (d, Inl (Unhandled e), [])
            | Inr (Start_conflict, d1) \<Rightarrow> (d1, Inl (Api (api_error 409 ''idempotency_key_conflict'')), [])
            | Inr (Start_existing s _, d1) \<Rightarrow> (d1, existing_reply s, [])
            | Inr (Start_created _, d1) \<Rightarrow>
                let (d2, r) = settle_attempt v i ph (oe_meanwhile v d1) in
                (d2, r, [\<lparr> ss_phone = phone, ss_code = code, ss_delivery = i \<rparr>]))))"

definition rate_limit_key :: "(string \<Rightarrow> string) \<Rightarrow> string \<Rightarrow> string \<Rightarrow> failure + string" where
  "rate_limit_key hmac phone_input code =
     (case normalize_phone phone_input code of Inl e \<Rightarrow> Inl e | Inr p \<Rightarrow> Inr (hmac p))"

definition otp_consume ::
  "(string \<Rightarrow> string) \<Rightarrow> pg_time \<Rightarrow> string \<Rightarrow> string \<Rightarrow> db \<Rightarrow> db \<times> (failure + string \<times> string)" where
  "otp_consume hmac clk phone_input otp d =
     (case normalize_phone phone_input ''invalid_otp_request'' of
        Inl e \<Rightarrow> (d, Inl e)
      | Inr phone \<Rightarrow>
          if \<not> (length otp = 6 \<and> list_all digit otp) then (d, Inl (Api (api_error 400 ''invalid_otp_request'')))
          else
            (case consume_otp (hmac phone) (hmac otp) clk d of
               Inl e \<Rightarrow> (d, Inl (Unhandled e))
             | Inr (ok, d1) \<Rightarrow>
                 if ok then (d1, Inr (phone, hmac phone))
                 else (d1, Inl (Api (api_error 401 ''invalid_or_expired_otp'')))))"

section \<open>The signed callback\<close>

text \<open>A header is \<open>None\<close> when it is absent or repeated.\<close>

record webhook_headers =
  wh_id :: "string option"
  wh_timestamp :: "string option"
  wh_signature :: "string option"

definition invalid_signature :: api_error where
  "invalid_signature = api_error 401 ''invalid_sweego_signature''"

definition signature_text :: "string \<Rightarrow> bool" where
  "signature_text s \<longleftrightarrow> length s = 44 \<and> list_all (\<lambda>c. c \<in> set b64_chars) (take 43 s) \<and> s ! 43 = CHR ''=''"

definition secret_text :: "string \<Rightarrow> bool" where
  "secret_text s \<longleftrightarrow> length s = 64 \<and> list_all (\<lambda>c. c \<in> set b64_chars) s"

definition timestamp_text :: "string \<Rightarrow> bool" where
  "timestamp_text s \<longleftrightarrow> 1 \<le> length s \<and> length s \<le> 12 \<and> list_all digit s"

definition verify_sweego_signature ::
  "(string \<Rightarrow> string \<Rightarrow> string) \<Rightarrow> js_time \<Rightarrow> string option \<Rightarrow> webhook_headers \<Rightarrow> string \<Rightarrow> api_error + string" where
  "verify_sweego_signature hmac now body hs secret =
     (case (body, wh_id hs, wh_timestamp hs, wh_signature hs) of
        (Some b, Some i, Some ts, Some sig) \<Rightarrow>
          if max_sms_body < length b \<or> \<not> identifier_text i \<or> \<not> timestamp_text ts \<or> \<not> signature_text sig \<or>
             \<not> secret_text secret
          then Inl invalid_signature
          else
            let age = now - int (read_nat ts) * 1000 in
            if 300000 < age \<or> age < - 60000 then Inl invalid_signature
            else
              let supplied = base64_decode sig;
                  expected = hmac (base64_decode secret) (i @ ''.'' @ ts @ ''.'' @ b) in
              if base64_encode supplied \<noteq> sig \<or> supplied \<noteq> expected then Inl invalid_signature else Inr b
      | _ \<Rightarrow> Inl invalid_signature)"

definition string_fields :: "string list" where
  "string_fields = [''timestamp'', ''swg_uid'', ''event_id'', ''details'', ''channel'', ''client-id'', ''client_id'',
     ''country_code'', ''phone_number'', ''sender_id'', ''sms_type'', ''campaign_id'', ''transaction_id'',
     ''send_date'', ''status'']"

definition number_fields :: "string list" where
  "number_fields = [''sms_price'', ''nb_segments'', ''mobile_network_code'', ''mobile_country_code'']"

fun allowed_field :: "string \<times> json \<Rightarrow> bool" where
  "allowed_field (k, v) \<longleftrightarrow> k = ''event_type'' \<or> k = ''test_mode'' \<or>
     (case v of
        Json_string s \<Rightarrow> k \<in> set string_fields \<and> length s \<le> 512
      | Json_number (Some x) \<Rightarrow> k \<in> set number_fields \<and> 0 \<le> x
      | _ \<Rightarrow> False)"

definition is_json_string :: "json option \<Rightarrow> bool" where
  "is_json_string v \<longleftrightarrow> (case v of Some (Json_string _) \<Rightarrow> True | _ \<Rightarrow> False)"

definition event_type_text :: "string \<Rightarrow> bool" where
  "event_type_text s \<longleftrightarrow> 1 \<le> length s \<and> length s \<le> 64 \<and> list_all (\<lambda>c. c \<in> set ''abcdefghijklmnopqrstuvwxyz_'') s"

text \<open>\<open>isUUID\<close>, of any version and of version 4, is the validation library's.\<close>

definition sweego_delivery_event ::
  "(string \<Rightarrow> bool) \<Rightarrow> (string \<Rightarrow> bool) \<Rightarrow> string \<Rightarrow> json \<Rightarrow> api_error + sms_event option" where
  "sweego_delivery_event is_uuid is_uuid_4 sender_id v =
     (let invalid = Inl (api_error 400 ''invalid_sweego_event'') in
      case v of
        Json_object fs \<Rightarrow>
          (case map_of fs ''event_type'' of
             Some (Json_string e) \<Rightarrow>
               if \<not> event_type_text e then invalid
               else if e \<noteq> ''sms_sent'' \<and> e \<noteq> ''sms_undelivered'' then Inr None
               else if \<not> list_all allowed_field fs then invalid
               else
                 (case (map_of fs ''sender_id'', map_of fs ''event_id'', map_of fs ''campaign_id'',
                        map_of fs ''swg_uid'', map_of fs ''test_mode'') of
                    (Some (Json_string sender), Some (Json_string ev), Some (Json_string campaign),
                     Some (Json_string uid), Some (Json_bool test)) \<Rightarrow>
                      if map_of fs ''channel'' \<noteq> Some (Json_string ''sms'') \<or> \<not> is_json_string (map_of fs ''timestamp'') \<or>
                         \<not> is_uuid ev \<or> \<not> identifier_text uid \<or>
                         map_of fs ''transaction_id'' \<noteq> None \<and> \<not> sms_provider_identifier (map_of fs ''transaction_id'')
                      then invalid
                      else if test \<or> sender \<noteq> sender_id \<or> \<not> is_uuid_4 campaign then Inr None
                      else Inr (Some \<lparr> sv_delivery_id = to_lower campaign, sv_message_id = uid,
                        sv_transaction_id = (case map_of fs ''transaction_id'' of Some (Json_string s) \<Rightarrow> Some s | _ \<Rightarrow> None),
                        sv_type = (if e = ''sms_sent'' then Sms_sent else Sms_undelivered) \<rparr>)
                  | _ \<Rightarrow> invalid)
           | _ \<Rightarrow> invalid)
      | _ \<Rightarrow> invalid)"

datatype webhook_outcome = Wo_applied | Wo_ignored | Wo_conflict | Wo_invalid_signature | Wo_invalid_event
  | Wo_unavailable | Wo_disabled

text \<open>The metrics service counts the outcomes.\<close>

definition record_outcome :: "webhook_outcome \<Rightarrow> (webhook_outcome \<Rightarrow> nat) \<Rightarrow> webhook_outcome \<Rightarrow> nat" where
  "record_outcome w counts = counts(w := counts w + 1)"

record webhook_env =
  we_configured :: bool
  we_secret :: string
  we_sender_id :: string
  we_hmac :: "string \<Rightarrow> string \<Rightarrow> string"
  we_now :: js_time
  we_parse :: "string \<Rightarrow> json option"
  we_is_uuid :: "string \<Rightarrow> bool"
  we_is_uuid_4 :: "string \<Rightarrow> bool"
  we_clk :: pg_time
  we_clk2 :: pg_time

definition webhook_handle ::
  "webhook_env \<Rightarrow> string option \<Rightarrow> webhook_headers \<Rightarrow> db \<Rightarrow> db \<times> webhook_outcome \<times> (failure + unit)" where
  "webhook_handle v body hs d =
     (if \<not> we_configured v \<or> we_secret v = [] then
        (d, Wo_disabled, Inl (Api (api_error 503 ''sweego_webhook_unavailable'')))
      else
        case verify_sweego_signature (we_hmac v) (we_now v) body hs (we_secret v) of
          Inl e \<Rightarrow> (d, Wo_invalid_signature, Inl (Api e))
        | Inr raw \<Rightarrow>
            (case (case we_parse v raw of None \<Rightarrow> Inl (api_error 400 ''invalid_sweego_event'')
                   | Some j \<Rightarrow> sweego_delivery_event (we_is_uuid v) (we_is_uuid_4 v) (we_sender_id v) j) of
               Inl _ \<Rightarrow> (d, Wo_invalid_event, Inl (Api (api_error 400 ''invalid_sweego_event'')))
             | Inr None \<Rightarrow> (d, Wo_ignored, Inr ())
             | Inr (Some ev) \<Rightarrow>
                 (case apply_sms_event ev (we_clk v) (we_clk2 v) d of
                    Inl _ \<Rightarrow> (d, Wo_unavailable, Inl (Api (api_error 503 ''sweego_webhook_unavailable'')))
                  | Inr (Sms_applied, d1) \<Rightarrow> (d1, Wo_applied, Inr ())
                  | Inr (Sms_ignored, d1) \<Rightarrow> (d1, Wo_ignored, Inr ())
                  | Inr (Sms_conflict, d1) \<Rightarrow>
                      (d1, Wo_conflict, Inl (Api (api_error 409 ''sweego_delivery_conflict''))))))"

section \<open>Lemmas\<close>

lemma base64_mac_text:
  assumes "length m = 32"
  shows "signature_text (base64_encode m)"
proof -
  let ?e = "map (\<lambda>i. b64_chars ! i) (sextets (bytes_of m))"
  have len: "length ?e = 43" using assms by (simp add: length_sextets bytes_of_def)
  then have enc: "base64_encode m = ?e @ [CHR ''='']"
    by (simp add: base64_encode_def Let_def)
  have "list_all (\<lambda>c. c \<in> set b64_chars) ?e"
    unfolding list_all_iff using base64_encode_chars by blast
  with len show ?thesis unfolding signature_text_def enc by (simp add: nth_append)
qed

lemma verify_sweego_signature_Inr_iff:
  assumes mac: "\<And>k m. length (hmac k m) = 32"
  shows "verify_sweego_signature hmac now body hs secret = Inr b \<longleftrightarrow>
    body = Some b \<and> length b \<le> 16384 \<and> secret_text secret \<and>
    (\<exists>i ts. wh_id hs = Some i \<and> wh_timestamp hs = Some ts \<and> identifier_text i \<and> timestamp_text ts \<and>
       int (read_nat ts) * 1000 - 60000 \<le> now \<and> now \<le> int (read_nat ts) * 1000 + 300000 \<and>
       wh_signature hs = Some (base64_encode (hmac (base64_decode secret) (i @ ''.'' @ ts @ ''.'' @ b))))"
    (is "?l \<longleftrightarrow> ?r")
proof
  assume ?l
  then obtain i ts sig where h: "body = Some b" "wh_id hs = Some i" "wh_timestamp hs = Some ts" "wh_signature hs = Some sig"
    by (auto simp: verify_sweego_signature_def Let_def split: option.splits if_splits)
  with \<open>?l\<close> show ?r
    by (auto simp: verify_sweego_signature_def Let_def max_sms_body_def split: if_splits)
next
  assume ?r
  then show ?l
    using base64_mac_text [OF mac] by (auto simp: verify_sweego_signature_def Let_def max_sms_body_def base64_round_trip)
qed

lemma otp_run_trans: "otp_run d1 d2 \<Longrightarrow> otp_run d d1 \<Longrightarrow> otp_run d d2"
  by (induction rule: otp_run.induct) (auto intro: otp_run.intros)

lemma sweego_deliver_outcome:
  "sweego_deliver c json_parse reply = Sms_refused reason s \<Longrightarrow> s = Otp_failed \<or> s = Otp_unknown"
  by (auto simp: sweego_deliver_def split: sms_reply.splits if_splits option.splits prod.splits list.splits json.splits)

lemma settle_attempt_run:
  assumes "oe_attempt v = sweego_deliver c json_parse reply" "settle_attempt v i ph d = (d', r)"
  shows "otp_run d d'"
proof (cases "oe_attempt v")
  case (Sms_receipt txn m)
  with assms(2) show ?thesis
    by (auto simp: settle_attempt_def split: sum.splits prod.splits intro: otp_run.Stay otp_run.Next [OF otp_run.Stay Accept])
next
  case (Sms_refused reason s)
  then have "s = Otp_failed \<or> s = Otp_unknown" using assms(1) sweego_deliver_outcome by metis
  with Sms_refused assms(2) show ?thesis
    by (auto simp: settle_attempt_def split: sum.splits prod.splits intro: otp_run.Stay otp_run.Next [OF otp_run.Stay Outcome])
next
  case Sms_threw
  with assms(2) show ?thesis
    by (auto simp: settle_attempt_def split: sum.splits prod.splits intro: otp_run.Stay otp_run.Next [OF otp_run.Stay Outcome])
qed

definition has_otp_key :: "uuid \<Rightarrow> db \<Rightarrow> bool" where
  "has_otp_key k d \<longleftrightarrow> sql_exists (\<lambda>r. ov_idempotency_key r = k) (otp_verification d)"

lemma has_otp_key_evolves: "list_all2 otp_evolves t u \<Longrightarrow> sql_exists (\<lambda>r. ov_idempotency_key r = k) t \<Longrightarrow>
    sql_exists (\<lambda>r. ov_idempotency_key r = k) u"
  unfolding sql_exists_iff using list_all2_setD1 [of otp_evolves t u] by (auto simp: otp_evolves_def)

lemma has_otp_key_run: "otp_run d d' \<Longrightarrow> otp_inv d \<Longrightarrow> has_otp_key k d \<Longrightarrow> has_otp_key k d'"
proof (induction rule: otp_run.induct)
  case (Next d d1 d2)
  from otp_step_cases [OF Next.hyps(2) otp_run_inv [OF Next.hyps(1) Next.prems(1)]] Next.IH [OF Next.prems]
  show ?case unfolding has_otp_key_def otp_advance_def using has_otp_key_evolves by auto
qed

lemma begin_created_key: "begin_otp_delivery b now clk d = Inr (Start_created i, d') \<Longrightarrow>
    \<not> has_otp_key (oi_idempotency_key b) d \<and> has_otp_key (oi_idempotency_key b) d'"
  by (auto simp: begin_otp_delivery_def Let_def has_otp_key_def write_otp_def new_otp_row_def
      elim!: and_then_InrE split: if_splits option.splits)

text \<open>A request that sends an SMS is the first one under its key, and its own transactions are a run.\<close>

lemma otp_send_sms:
  assumes "otp_send v phone key_input d = (d', r, m # ms)" "oe_attempt v = sweego_deliver c json_parse reply"
    and "\<forall>x. otp_run x (oe_meanwhile v x)" "otp_inv d"
  obtains key where "normalize_idempotency_key key_input = Inr key" "\<not> has_otp_key key d"
    "otp_run d d'" "has_otp_key key d'"
proof -
  obtain p key i d1 where n: "normalize_phone phone ''invalid_phone_number'' = Inr p"
    "normalize_idempotency_key key_input = Inr key"
    and b: "begin_otp_delivery \<lparr> oi_id = oe_new_id v, oi_phone_hash = oe_hmac v p,
        oi_otp_hash = oe_hmac v (generate_otp (oe_random v)), oi_idempotency_key = key, oi_ttl_millis = oe_ttl v,
        oi_settlement_millis = oe_timeout v + 5000 \<rparr> (oe_now v) (oe_clk v) d = Inr (Start_created i, d1)"
    and s: "fst (settle_attempt v (oe_new_id v) (oe_hmac v p) (oe_meanwhile v d1)) = d'"
    using assms(1) by (auto simp: otp_send_def Let_def split: sum.splits prod.splits delivery_start.splits)
  have r1: "otp_run d d1" by (rule otp_run.Next [OF otp_run.Stay Begin [OF b]])
  have "otp_run (oe_meanwhile v d1) d'" using settle_attempt_run [OF assms(2) prod.collapse [symmetric]] s by blast
  then have r2: "otp_run d1 d'" using assms(3) otp_run_trans by blast
  have k: "\<not> has_otp_key key d" "has_otp_key key d1" using begin_created_key [OF b] by auto
  show thesis
    by (rule that [OF n(2) k(1) otp_run_trans [OF r2 r1] has_otp_key_run [OF r2 otp_run_inv [OF r1 assms(4)] k(2)]])
qed

section \<open>Properties\<close>


definition sample_otp_env :: "sms_attempt \<Rightarrow> uuid \<Rightarrow> otp_env" where
  "sample_otp_env a i = \<lparr> oe_new_id = i, oe_random = 7, oe_hmac = (\<lambda>s. s), oe_ttl = 300000, oe_timeout = 10000,
     oe_now = 0, oe_clk = 0, oe_attempt = a, oe_meanwhile = (\<lambda>d. d), oe_clk2 = 20, oe_clk3 = 21 \<rparr>"

definition sample_otp_send :: "uuid \<Rightarrow> db \<Rightarrow> db \<times> (failure + unit) \<times> sent_sms list" where
  "sample_otp_send i = otp_send (sample_otp_env (sweego_deliver True (\<lambda>_. None) Network_failed) i)
     '' +33 6.12.34.56.78'' (Some ''0188C2D0-0000-4000-8000-00000000000a'')"

lemma sample_otp_send_first:
  "snd (sample_otp_send ''i'' empty_db) =
     (Inl otp_unknown, [\<lparr> ss_phone = ''+33612345678'', ss_code = ''000007'', ss_delivery = ''i'' \<rparr>])"
  by code_simp


text \<open>C20. A callback is accepted exactly when it is signed: the signature is the base64 text of the MAC of
  id, timestamp and body under the decoded secret, at most five minutes old and at most one
  minute ahead. No other spelling of the same bytes passes.\<close>

theorem callback_signature_iff:
  assumes "\<And>k m. length (hmac k m) = 32"
  shows "verify_sweego_signature hmac now body hs secret = Inr b \<longleftrightarrow>
    body = Some b \<and> length b \<le> 16384 \<and> secret_text secret \<and>
    (\<exists>i ts. wh_id hs = Some i \<and> wh_timestamp hs = Some ts \<and> identifier_text i \<and> timestamp_text ts \<and>
       int (read_nat ts) * 1000 - 60000 \<le> now \<and> now \<le> int (read_nat ts) * 1000 + 300000 \<and>
       wh_signature hs = Some (base64_encode (hmac (base64_decode secret) (i @ ''.'' @ ts @ ''.'' @ b))))"
  by (rule verify_sweego_signature_Inr_iff [OF assms])

text \<open>A MAC of 32 bytes that depends on key and message.\<close>

definition toy_mac :: "string \<Rightarrow> string \<Rightarrow> string" where
  "toy_mac k m = take 32 (rev k @ rev m @ replicate 32 (CHR ''x''))"

theorem callback_signature_iff_witness:
  "verify_sweego_signature toy_mac 1000060000 (Some ''{}'')
     \<lparr> wh_id = Some ''msg_1'', wh_timestamp = Some ''1000000'',
       wh_signature = Some (base64_encode (toy_mac (base64_decode (replicate 64 (CHR ''A''))) ''msg_1.1000000.{}'')) \<rparr>
     (replicate 64 (CHR ''A'')) = Inr ''{}''"
proof -
  have mac: "\<And>k m. length (toy_mac k m) = 32" by (simp add: toy_mac_def)
  have t: "secret_text (replicate 64 (CHR ''A''))" "identifier_text ''msg_1''" "timestamp_text ''1000000''"
    by code_simp+
  have r: "int (read_nat ''1000000'') = 1000000" by (simp add: read_nat_def)
  show ?thesis
    by (subst callback_signature_iff [OF mac]) (use t r in simp)
qed

end
