(* ===== verification/Auth_Service.thy ===== *)
theory Auth_Service
  imports Session_Steps Otp_Service
begin

text \<open>
  Signing in and staying signed in: \<open>src/auth/token.service.ts\<close>, \<open>auth.repository.ts\<close>, \<open>auth.service.ts\<close> and
  \<open>auth.guard.ts\<close>. The hash, the random bytes, the encryption of the phone number and the JSON web
  tokens are the library's, so they are arguments.
\<close>

section \<open>Refresh tokens as text\<close>

text \<open>The 32 random bytes are a string of characters below 256.\<close>

definition new_refresh :: "(string \<Rightarrow> string) \<Rightarrow> uuid \<Rightarrow> uuid \<Rightarrow> string \<Rightarrow> js_time \<Rightarrow> int \<Rightarrow> new_refresh_token" where
  "new_refresh sha jti i bytes now ttl =
     (let secret = base64url_encode bytes in
      \<lparr> nr_id = i, nr_jti = jti, nr_plain = jti @ '':'' @ secret, nr_hash = sha secret,
        nr_created_at = now, nr_expires_at = now + ttl \<rparr>)"

definition secret_ok :: "string \<Rightarrow> bool" where
  "secret_ok s \<longleftrightarrow> length s = 43 \<and> list_all (\<lambda>c. c \<in> set b64url_chars) s"

definition parse_refresh :: "(string \<Rightarrow> bool) \<Rightarrow> (string \<Rightarrow> string) \<Rightarrow> string \<Rightarrow> (string \<times> string) option" where
  "parse_refresh is_uuid_4 sha v =
     (case split_colon v of
        [j, s] \<Rightarrow> if is_uuid_4 j \<and> secret_ok s then Some (j, sha s) else None
      | _ \<Rightarrow> None)"

section \<open>Accounts\<close>

record account =
  ac_user :: uuid
  ac_role :: role
  ac_banned :: bool

definition find_account_by_phone_hash :: "string \<Rightarrow> db \<Rightarrow> account option" where
  "find_account_by_phone_hash h d =
     map_option (\<lambda>a. \<lparr> ac_user = ua_id a, ac_role = ua_role a, ac_banned = ua_banned a \<rparr>)
       (sql_first (\<lambda>a. ua_phone_hash a = h \<and> ua_deleted_at a = None) (user_account d))"

text \<open>\<open>user_account_pkey\<close> and \<open>user_account_phone_number_hash_key\<close>; the second counts deleted accounts too.\<close>

definition create_account :: "pg_time \<Rightarrow> uuid \<Rightarrow> string \<Rightarrow> string \<Rightarrow> db \<Rightarrow> sql_error + account \<times> db" where
  "create_account clk u h enc d =
     (if sql_exists (\<lambda>t. at_phone_hash t = h \<and> clk < at_expires_at t) (account_tombstone d)
      then Inl (Thrown ''account tombstone is active'')
      else if sql_exists (\<lambda>a. ua_id a = u \<or> ua_phone_hash a = h) (user_account d) then Inl Unique_violation
      else Inr (\<lparr> ac_user = u, ac_role = User, ac_banned = False \<rparr>,
        d\<lparr>user_account := user_account d @
            [\<lparr> ua_id = u, ua_role = User, ua_phone_hash = h, ua_phone_encrypted = enc, ua_banned = False,
               ua_deleted_at = None \<rparr>]\<rparr>))"

section \<open>The service\<close>

record token_pair =
  tp_access :: string
  tp_refresh :: string

text \<open>What a call draws: the clocks, new ids and the new refresh token; \<open>au_access\<close> signs an access token.\<close>

record auth_env =
  au_hmac :: "string \<Rightarrow> string"
  au_sha :: "string \<Rightarrow> string"
  au_is_uuid_4 :: "string \<Rightarrow> bool"
  au_encrypt :: "string \<Rightarrow> string"
  au_access :: "uuid \<Rightarrow> uuid \<Rightarrow> string"
  au_clock :: clock
  au_user :: uuid
  au_session :: uuid
  au_refresh :: new_refresh_token

definition invalid_refresh :: failure where
  "invalid_refresh = Api (api_error 401 ''invalid_or_expired_refresh_token'')"

definition account_unavailable :: failure where
  "account_unavailable = Api (api_error 403 ''account_unavailable'')"

definition issue_token_pair :: "auth_env \<Rightarrow> uuid \<Rightarrow> db \<Rightarrow> db \<times> (failure + token_pair)" where
  "issue_token_pair v u d =
     (case create_session (au_session v) u (au_refresh v) d of
        Inl e \<Rightarrow> (d, Inl (Unhandled e))
      | Inr (None, d1) \<Rightarrow> (d1, Inl account_unavailable)
      | Inr (Some s, d1) \<Rightarrow>
          (d1, Inr \<lparr> tp_access = au_access v u (si_session s), tp_refresh = nr_plain (au_refresh v) \<rparr>))"

text \<open>The account of the phone, created on first use; \<open>isPgUniqueViolation\<close> is the unique violation.\<close>

definition account_for_phone :: "auth_env \<Rightarrow> string \<Rightarrow> string \<Rightarrow> db \<Rightarrow> db \<times> (failure + account)" where
  "account_for_phone v phone h d =
     (case find_account_by_phone_hash h d of
        Some a \<Rightarrow> (d, Inr a)
      | None \<Rightarrow>
          (case create_account (au_clock v 1) (au_user v) h (au_encrypt v phone) d of
             Inr (a, d1) \<Rightarrow> (d1, Inr a)
           | Inl Unique_violation \<Rightarrow> (d, Inl (Api (api_error 409 ''account_creation_conflict'')))
           | Inl (Thrown m) \<Rightarrow>
               (d, Inl (if m = ''account tombstone is active'' then account_unavailable else Unhandled (Thrown m)))
           | Inl e \<Rightarrow> (d, Inl (Unhandled e))))"

definition verify_otp :: "auth_env \<Rightarrow> string \<Rightarrow> string \<Rightarrow> db \<Rightarrow> db \<times> (failure + token_pair)" where
  "verify_otp v phone_input otp d =
     (case otp_consume (au_hmac v) (au_clock v 0) phone_input otp d of
        (d1, Inl e) \<Rightarrow> (d1, Inl e)
      | (d1, Inr (phone, h)) \<Rightarrow>
          (case account_for_phone v phone h d1 of
             (d2, Inl e) \<Rightarrow> (d2, Inl e)
           | (d2, Inr a) \<Rightarrow> if ac_banned a then (d2, Inl account_unavailable) else issue_token_pair v (ac_user a) d2))"

definition refresh :: "auth_env \<Rightarrow> string \<Rightarrow> db \<Rightarrow> db \<times> (failure + token_pair)" where
  "refresh v raw d =
     (case parse_refresh (au_is_uuid_4 v) (au_sha v) raw of
        None \<Rightarrow> (d, Inl invalid_refresh)
      | Some (jti, hash) \<Rightarrow>
          (case rotate_session (au_clock v) (pg_uuid jti) hash (au_refresh v) d of
             Inl e \<Rightarrow> (d, Inl (Unhandled e))
           | Inr (None, d1) \<Rightarrow> (d1, Inl invalid_refresh)
           | Inr (Some s, d1) \<Rightarrow>
               (d1, Inr \<lparr> tp_access = au_access v (si_user s) (si_session s), tp_refresh = nr_plain (au_refresh v) \<rparr>)))"

definition logout :: "auth_env \<Rightarrow> uuid \<Rightarrow> uuid \<Rightarrow> string \<Rightarrow> uuid option \<Rightarrow> db \<Rightarrow> db \<times> (failure + unit)" where
  "logout v u s raw device d =
     (case parse_refresh (au_is_uuid_4 v) (au_sha v) raw of
        None \<Rightarrow> (d, Inl invalid_refresh)
      | Some (jti, hash) \<Rightarrow>
          (case logout_session (au_clock v) u s (pg_uuid jti) hash (map_option pg_uuid device) d of
             Inl e \<Rightarrow> (d, Inl (Unhandled e))
           | Inr (ok, d1) \<Rightarrow> (d1, if ok then Inr () else Inl invalid_refresh)))"

record public_session =
  ps_id :: uuid
  ps_created_at :: js_time
  ps_last_refreshed_at :: js_time
  ps_expires_at :: js_time
  ps_current :: bool

text \<open>A page of the live sessions; its cursor keeps the microseconds of the row.\<close>

definition list_sessions_page ::
  "pg_time \<Rightarrow> uuid \<Rightarrow> uuid \<Rightarrow> nat \<Rightarrow> (pg_time \<times> uuid) option \<Rightarrow> db \<Rightarrow> public_session list \<times> (pg_time \<times> uuid) option" where
  "list_sessions_page now u current limit c d =
     (let (items, nxt) = cursor_page (list_sessions now u (limit + 1) c d) limit session_key in
      (map (\<lambda>f. \<lparr> ps_id = rf_id f, ps_created_at = js_of_pg (rf_created_at f),
          ps_last_refreshed_at = js_of_pg (rf_last_refreshed_at f), ps_expires_at = js_of_pg (rf_expires_at f),
          ps_current = (rf_id f = current) \<rparr>) items, nxt))"

definition revoke_one :: "auth_env \<Rightarrow> uuid \<Rightarrow> uuid \<Rightarrow> uuid \<Rightarrow> db \<Rightarrow> db \<times> (failure + unit)" where
  "revoke_one v u current target d =
     (case revoke_session (au_clock v) u current (Some (pg_uuid target)) d of
        Inl e \<Rightarrow> (d, Inl (Unhandled e))
      | Inr (None, d1) \<Rightarrow> (d1, Inl invalid_refresh)
      | Inr (Some n, d1) \<Rightarrow> (d1, if n = 0 then Inl (Api (api_error 404 ''session_not_found'')) else Inr ()))"

definition logout_all :: "auth_env \<Rightarrow> uuid \<Rightarrow> uuid \<Rightarrow> db \<Rightarrow> db \<times> (failure + nat)" where
  "logout_all v u current d =
     (case revoke_session (au_clock v) u current None d of
        Inl e \<Rightarrow> (d, Inl (Unhandled e))
      | Inr (None, d1) \<Rightarrow> (d1, Inl invalid_refresh)
      | Inr (Some n, d1) \<Rightarrow> (d1, Inr n))"

section \<open>The guard\<close>

text \<open>\<open>split(/\s+/)\<close> of a trimmed text.\<close>

fun white_fields :: "string \<Rightarrow> string list" where
  "white_fields [] = [[]]"
| "white_fields (c # cs) =
     (if js_space c then
        (case cs of [] \<Rightarrow> [[], []] | d # _ \<Rightarrow> if js_space d then white_fields cs else [] # white_fields cs)
      else case white_fields cs of [] \<Rightarrow> [[c]] | w # ws \<Rightarrow> (c # w) # ws)"

record guard_env =
  ge_decode :: "string \<Rightarrow> json option"
  ge_keys :: "string \<Rightarrow> string option"
  ge_verify :: "string \<Rightarrow> string \<Rightarrow> json option"
  ge_is_uuid :: "string \<Rightarrow> bool"
  ge_is_uuid_4 :: "string \<Rightarrow> bool"
  ge_terms :: string
  ge_privacy :: string

record request_auth =
  ra_user :: uuid
  ra_account :: account
  ra_onboarded :: bool
  ra_session :: uuid
  ra_access_expires_at :: int

definition bearer_token :: "string option \<Rightarrow> string option" where
  "bearer_token header =
     (case white_fields (js_trim (case header of None \<Rightarrow> [] | Some h \<Rightarrow> h)) of
        [scheme, token] \<Rightarrow> if to_lower scheme = ''bearer'' then Some token else None
      | _ \<Rightarrow> None)"

definition signing_key :: "guard_env \<Rightarrow> json option \<Rightarrow> string option" where
  "signing_key v decoded =
     (case decoded of None \<Rightarrow> None
      | Some j \<Rightarrow>
          (case json_field ''header'' j of None \<Rightarrow> None
           | Some h \<Rightarrow>
               (case json_field ''kid'' h of
                  Some (Json_string kid) \<Rightarrow>
                    (case ge_keys v kid of
                       Some secret \<Rightarrow> if secret = [] \<or> json_field ''alg'' h \<noteq> Some (Json_string ''HS256'') then None else Some secret
                     | None \<Rightarrow> None)
                | _ \<Rightarrow> None)))"

definition safe_integer :: "real \<Rightarrow> bool" where
  "safe_integer x \<longleftrightarrow> real_of_int \<lfloor>x\<rfloor> = x \<and> \<bar>x\<bar> \<le> 9007199254740991"

definition access_claims :: "guard_env \<Rightarrow> json \<Rightarrow> (uuid \<times> uuid \<times> int) option" where
  "access_claims v p =
     (case (json_field ''typ'' p, json_field ''sub'' p, json_field ''sid'' p, json_field ''exp'' p) of
        (Some (Json_string typ), Some (Json_string sub), Some (Json_string sid), Some (Json_number (Some e))) \<Rightarrow>
          if typ = ''access'' \<and> ge_is_uuid v sub \<and> ge_is_uuid_4 v sid \<and> safe_integer e
          then Some (sub, sid, \<lfloor>e\<rfloor>) else None
      | _ \<Rightarrow> None)"

definition consented :: "consent_type \<Rightarrow> string \<Rightarrow> uuid \<Rightarrow> db \<Rightarrow> bool" where
  "consented ty version u d = sql_exists (\<lambda>c. uc_user_id c = u \<and> uc_type c = ty \<and> uc_granted c \<and>
     uc_withdrawn_at c = None \<and> uc_document_version c = version) (user_consent d)"

definition onboarding_complete :: "guard_env \<Rightarrow> account_row \<Rightarrow> db \<Rightarrow> bool" where
  "onboarding_complete v a d \<longleftrightarrow> ua_role a \<noteq> User \<or>
     consented Terms_of_service_acceptance (ge_terms v) (ua_id a) d \<and>
     consented Privacy_notice_acknowledgement (ge_privacy v) (ua_id a) d"

definition guard_account :: "guard_env \<Rightarrow> pg_time \<Rightarrow> uuid \<Rightarrow> uuid \<Rightarrow> db \<Rightarrow> failure + account \<times> bool" where
  "guard_account v now u s d =
     (case sql_first (\<lambda>a. ua_id a = u \<and> ua_deleted_at a = None \<and>
         sql_exists (\<lambda>f. rf_id f = s \<and> rf_user_id f = ua_id a \<and> rf_revoked_at f = None \<and> now < rf_expires_at f)
           (refresh_token_family d)) (user_account d) of
        None \<Rightarrow> Inl (Api (api_error 401 ''authentication_required''))
      | Some a \<Rightarrow>
          if ua_banned a then Inl account_unavailable
          else Inr (\<lparr> ac_user = ua_id a, ac_role = ua_role a, ac_banned = False \<rparr>, onboarding_complete v a d))"

definition can_activate ::
  "guard_env \<Rightarrow> pg_time \<Rightarrow> string option \<Rightarrow> bool \<Rightarrow> db \<Rightarrow> failure + request_auth" where
  "can_activate v now header allow_incomplete d =
     (case bearer_token header of
        None \<Rightarrow> Inl (Api (api_error 401 ''authentication_required''))
      | Some token \<Rightarrow>
          (case (case signing_key v (ge_decode v token) of None \<Rightarrow> None | Some key \<Rightarrow> ge_verify v key token) of
             None \<Rightarrow> Inl (Api (api_error 401 ''invalid_or_expired_access_token''))
           | Some payload \<Rightarrow>
               (case access_claims v payload of
                  None \<Rightarrow> Inl (Api (api_error 401 ''invalid_or_expired_access_token''))
                | Some (sub, sid, e) \<Rightarrow>
                    (case guard_account v now (pg_uuid sub) (pg_uuid sid) d of
                       Inl f \<Rightarrow> Inl f
                     | Inr (a, onboarded) \<Rightarrow>
                         if \<not> allow_incomplete \<and> \<not> onboarded then Inl (Api (api_error 403 ''onboarding_incomplete''))
                         else Inr \<lparr> ra_user = sub, ra_account = a, ra_onboarded = onboarded, ra_session = sid,
                           ra_access_expires_at = e * 1000 \<rparr>))))"

end
