(* ===== verification/Auth_Properties.thy ===== *)
theory Auth_Properties
  imports Auth_Service
begin

text \<open>
  What signing in, refreshing and signing out mean together: a token that is handed out reads back, an
  issued pair opens the guard, and a session that was left never opens it again.
\<close>

section \<open>The text of a refresh token\<close>

lemma split_colon_plain: "CHR '':'' \<notin> set s \<Longrightarrow> split_colon (s @ CHR '':'' # t) = s # split_colon t"
  by (induction s) auto

lemma split_colon_last: "CHR '':'' \<notin> set s \<Longrightarrow> split_colon s = [s]"
  by (induction s) auto

lemma uuid_no_colon: "uuid_v4 (to_lower s) \<Longrightarrow> CHR '':'' \<notin> set s"
proof
  assume u: "uuid_v4 (to_lower s)" "CHR '':'' \<in> set s"
  have "lower_char CHR '':'' = CHR '':''" by code_simp
  with u(2) have "CHR '':'' \<in> set (to_lower s)" unfolding to_lower_def by force
  with uuid_v4_chars [OF u(1)] show False by auto
qed

lemma base64url_encode_chars: "list_all (\<lambda>c. c \<in> set b64url_chars) (base64url_encode s)"
proof -
  have "length b64url_chars = 64" by code_simp
  then show ?thesis
    using sextets_bound [OF bytes_bound] by (auto simp: list_all_iff base64url_encode_def)
qed

lemma base64url_secret_ok: "length bytes = 32 \<Longrightarrow> secret_ok (base64url_encode bytes)"
  using base64url_encode_chars
  by (simp add: secret_ok_def base64url_encode_def length_sextets bytes_of_def)

lemma b64url_no_colon: "list_all (\<lambda>c. c \<in> set b64url_chars) s \<Longrightarrow> CHR '':'' \<notin> set s"
proof
  assume "list_all (\<lambda>c. c \<in> set b64url_chars) s" "CHR '':'' \<in> set s"
  then have "CHR '':'' \<in> set b64url_chars" by (auto simp: list_all_iff)
  moreover have "CHR '':'' \<notin> set b64url_chars" by code_simp
  ultimately show False by contradiction
qed

text \<open>C24. A refresh token reads back as what the server stored of it: its identifier and the hash of its secret.\<close>

theorem refresh_token_round_trip:
  assumes "\<And>s. is_uuid_4 s \<Longrightarrow> uuid_v4 (to_lower s)" "is_uuid_4 jti" "length bytes = 32"
  shows "parse_refresh is_uuid_4 sha (nr_plain (new_refresh sha jti i bytes now ttl)) =
    Some (jti, nr_hash (new_refresh sha jti i bytes now ttl))"
proof -
  have "CHR '':'' \<notin> set jti" using uuid_no_colon [OF assms(1) [OF assms(2)]] .
  moreover have "CHR '':'' \<notin> set (base64url_encode bytes)" by (rule b64url_no_colon [OF base64url_encode_chars])
  ultimately show ?thesis
    using assms(2) base64url_secret_ok [OF assms(3)]
    by (simp add: parse_refresh_def new_refresh_def Let_def split_colon_plain split_colon_last)
qed

theorem refresh_token_round_trip_witness:
  "parse_refresh uuid_v4 rev (nr_plain (new_refresh rev ''0188c2d0-0000-4000-8000-00000000000a'' ''i'' (replicate 32 (CHR ''x'')) 5 9)) =
    Some (''0188c2d0-0000-4000-8000-00000000000a'',
      nr_hash (new_refresh rev ''0188c2d0-0000-4000-8000-00000000000a'' ''i'' (replicate 32 (CHR ''x'')) 5 9))"
proof (rule refresh_token_round_trip)
  show "uuid_v4 (to_lower s)" if "uuid_v4 s" for s
  proof -
    have "\<forall>c \<in> set s. lower_char c = c"
      using uuid_char_codes uuid_v4_chars [OF that] unfolding list_all_iff by blast
    then have "to_lower s = s" by (simp add: to_lower_def map_idI)
    with that show ?thesis by simp
  qed
  show "uuid_v4 ''0188c2d0-0000-4000-8000-00000000000a''" by code_simp
qed simp

section \<open>Signing in\<close>

text \<open>The claims that a token carries, when it is signed with a known key.\<close>

definition token_claims :: "guard_env \<Rightarrow> string \<Rightarrow> (uuid \<times> uuid \<times> int) option" where
  "token_claims g token =
     (case signing_key g (ge_decode g token) of None \<Rightarrow> None
      | Some key \<Rightarrow> (case ge_verify g key token of None \<Rightarrow> None | Some payload \<Rightarrow> access_claims g payload))"

lemma can_activate_claims:
  assumes "bearer_token header = Some token" "token_claims g token = Some (u, s, e)"
  shows "can_activate g now header allow d =
    (case guard_account g now (pg_uuid u) (pg_uuid s) d of
       Inl f \<Rightarrow> Inl f
     | Inr (a, onboarded) \<Rightarrow>
         if \<not> allow \<and> \<not> onboarded then Inl (Api (api_error 403 ''onboarding_incomplete''))
         else Inr \<lparr> ra_user = u, ra_account = a, ra_onboarded = onboarded, ra_session = s, ra_access_expires_at = e * 1000 \<rparr>)"
  using assms by (auto simp: can_activate_def token_claims_def split: option.splits)

lemma can_activate_Inr:
  assumes "can_activate g now header allow d = Inr a"
  shows "\<exists>ac onboarded. guard_account g now (pg_uuid (ra_user a)) (pg_uuid (ra_session a)) d = Inr (ac, onboarded)"
  using assms by (auto simp: can_activate_def split: option.splits sum.splits prod.splits if_splits)

lemma otp_consume_accounts: "otp_consume hmac clk p otp d = (d', r) \<Longrightarrow>
    user_account d' = user_account d \<and> refresh_token_family d' = refresh_token_family d \<and> refresh_tokens d' = refresh_tokens d"
  by (auto simp: otp_consume_def consume_otp_def update_otp_def write_otp_def
      elim!: and_then_InrE split: sum.splits if_splits prod.splits)

lemma account_for_phone_spec:
  assumes "account_for_phone v phone h d = (d', Inr a)" "distinct (map ua_id (user_account d))"
  shows "distinct (map ua_id (user_account d')) \<and> refresh_token_family d' = refresh_token_family d \<and>
    refresh_tokens d' = refresh_tokens d"
proof (cases "find_account_by_phone_hash h d")
  case None
  then have "create_account (au_clock v 1) (au_user v) h (au_encrypt v phone) d = Inr (a, d')"
    using assms(1) by (auto simp: account_for_phone_def split: sum.splits sql_error.splits)
  then have new: "\<forall>x \<in> set (user_account d). ua_id x \<noteq> au_user v"
    and d': "\<exists>x. d' = d\<lparr>user_account := user_account d @ [x]\<rparr> \<and> ua_id x = au_user v"
    by (auto simp: create_account_def sql_exists_iff split: if_splits)
  have "au_user v \<notin> ua_id ` set (user_account d)" using new by (metis imageE)
  with assms(2) d' show ?thesis by auto
qed (use assms in \<open>auto simp: account_for_phone_def\<close>)

lemma issue_token_pair_spec:
  assumes inv: "session_inv d" and fresh: "fresh_token (au_refresh v) d" "au_session v \<notin> rf_id ` set (refresh_token_family d)"
    and acc: "distinct (map ua_id (user_account d))" and run: "issue_token_pair v u d = (d', Inr pair)"
    and time: "now < pg_of_js (nr_expires_at (au_refresh v))"
  shows "tp_access pair = au_access v u (au_session v) \<and> user_account d' = user_account d \<and>
    (\<exists>a \<in> set (user_account d). ua_id a = u \<and> guard_account g now u (au_session v) d' =
      Inr (\<lparr> ac_user = u, ac_role = ua_role a, ac_banned = False \<rparr>, onboarding_complete g a d'))"
proof -
  note spec = create_session_spec(1) [OF inv fresh, of u]
  have lock: "lock_active_account u d"
    using run by (auto simp: issue_token_pair_def spec split: if_splits)
  then obtain a where a: "a \<in> set (user_account d)" "ua_id a = u" "active_account a"
    unfolding lock_active_account_def sql_exists_iff by blast
  have res: "tp_access pair = au_access v u (au_session v)" "user_account d' = user_account d"
    and fam: "\<exists>f \<in> set (refresh_token_family d'). rf_id f = au_session v \<and> rf_user_id f = u \<and> rf_revoked_at f = None \<and>
      now < rf_expires_at f"
    using run lock time by (auto simp: issue_token_pair_def spec)
  have "sql_first (\<lambda>a. ua_id a = u \<and> ua_deleted_at a = None \<and>
         sql_exists (\<lambda>f. rf_id f = au_session v \<and> rf_user_id f = ua_id a \<and> rf_revoked_at f = None \<and> now < rf_expires_at f)
           (refresh_token_family d')) (user_account d') = Some a"
    by (rule sql_first_key [where k = ua_id])
      (use acc a fam res(2) in \<open>auto simp: active_account_def sql_exists_iff\<close>)
  then have "guard_account g now u (au_session v) d' =
      Inr (\<lparr> ac_user = u, ac_role = ua_role a, ac_banned = False \<rparr>, onboarding_complete g a d')"
    using a by (simp add: guard_account_def active_account_def)
  with res a show ?thesis by blast
qed


section \<open>Signing out\<close>

lemma ended_guard:
  assumes "session_grows d d'" "session_inv d'" "family_revoked s (refresh_token_family d)"
  shows "guard_account g now u s d' = Inl (Api (api_error 401 ''authentication_required''))"
proof -
  have "sql_first (\<lambda>a. ua_id a = u \<and> ua_deleted_at a = None \<and>
         sql_exists (\<lambda>f. rf_id f = s \<and> rf_user_id f = ua_id a \<and> rf_revoked_at f = None \<and> now < rf_expires_at f)
           (refresh_token_family d')) (user_account d') = None"
    unfolding sql_first_None_iff sql_exists_iff using ended_rows [OF assms] by blast
  then show ?thesis by (simp add: guard_account_def)
qed

lemma logout_ends:
  assumes inv: "session_inv d" and run: "logout v u s raw device d = (d1, Inr ())"
  shows "session_inv d1" "family_revoked s (refresh_token_family d1)"
proof -
  obtain jti hash where l: "logout_session (au_clock v) u s (pg_uuid jti) hash (map_option pg_uuid device) d = Inr (True, d1)"
    using run by (auto simp: logout_def split: option.splits sum.splits prod.splits if_splits)
  then show "session_inv d1" using logout_session_spec [OF inv] by (metis Inr_inject prod.inject)
  obtain t where t: "active_family (au_clock v 1) u s d"
      "refresh_token_family d1 = refresh_token_family (after_revoke (au_clock v 2) u Logout (Some s) d)"
    using l by (auto simp: logout_session_def revoke_families_spec(1) [OF inv] split: option.splits if_splits)
  from after_revoke_ends [OF t(1)] t(2) show "family_revoked s (refresh_token_family d1)"
    by (simp only:) (simp add: selects_def)
qed

text \<open>C26. Signing out is final: after a logout no request passes the guard under that session again, whatever token
  it carries and whatever happens later.\<close>

theorem logout_is_final:
  assumes "refresh_token_family d0 = []" "refresh_tokens d0 = []" "session_run d0 d"
    and "logout v u s raw device d = (d1, Inr ())" "session_run d1 d2" "can_activate g now header allow d2 = Inr a"
  shows "pg_uuid (ra_session a) \<noteq> s"
proof
  assume s: "pg_uuid (ra_session a) = s"
  have inv: "session_inv d" using session_run_empty [OF assms(3,1,2)] .
  note out = logout_ends [OF inv assms(4)]
  have "guard_account g now (pg_uuid (ra_user a)) s d2 = Inl (Api (api_error 401 ''authentication_required''))"
    using ended_guard session_run_inv [OF assms(5) out(1)] out(2) by blast
  with can_activate_Inr [OF assms(6)] s show False by auto
qed

section \<open>Two requests on concrete data\<close>

definition sample_auth :: "uuid \<Rightarrow> string \<Rightarrow> auth_env" where
  "sample_auth s n = \<lparr> au_hmac = (\<lambda>x. x), au_sha = (\<lambda>_. ''h2''), au_is_uuid_4 = (\<lambda>_. True), au_encrypt = (\<lambda>x. x),
     au_access = (\<lambda>_ _. ''tok''), au_clock = (\<lambda>_. 30), au_user = ''u'', au_session = s, au_refresh = some_token n \<rparr>"

definition sample_guard :: "uuid \<Rightarrow> guard_env" where
  "sample_guard s = \<lparr> ge_decode = (\<lambda>_. Some (Json_object [(''header'', Json_object
       [(''kid'', Json_string ''k''), (''alg'', Json_string ''HS256'')])])),
     ge_keys = (\<lambda>k. if k = ''k'' then Some ''key'' else None),
     ge_verify = (\<lambda>_ _. Some (Json_object [(''typ'', Json_string ''access''), (''sub'', Json_string ''u''),
       (''sid'', Json_string s), (''exp'', Json_number (Some 100))])),
     ge_is_uuid = (\<lambda>_. True), ge_is_uuid_4 = (\<lambda>_. True), ge_terms = ''v1'', ge_privacy = ''v1'' \<rparr>"

lemma sample_guard_claims: "token_claims (sample_guard s) token = Some (''u'', s, 100)"
  by (simp add: token_claims_def signing_key_def sample_guard_def access_claims_def safe_integer_def)

definition otp_ready :: db where
  "otp_ready = fst (otp_send (sample_otp_env (Sms_receipt ''t'' ''m'') ''i'') ''+33612345678''
     (Some ''0188c2d0-0000-4000-8000-00000000000a'') empty_db)"

definition signed_in :: db where
  "signed_in = fst (verify_otp (sample_auth ''f'' ''1'') ''+33612345678'' ''000007'' otp_ready)"

lemma signed_in_facts:
  "refresh_token_family otp_ready = []" "refresh_tokens otp_ready = []" "user_account otp_ready = []"
  "verify_otp (sample_auth ''f'' ''1'') ''+33612345678'' ''000007'' otp_ready =
     (signed_in, Inr \<lparr> tp_access = ''tok'', tp_refresh = ''j1:s1'' \<rparr>)"
  "map ua_id (user_account signed_in) = [''u'']" "bearer_token (Some ''Bearer tok'') = Some ''tok''"
  "pg_uuid ''u'' = ''u''" "pg_uuid ''f'' = ''f''" "pg_uuid ''g'' = ''g''"
  by code_simp+


definition logged_out :: "nat \<Rightarrow> db" where
  "logged_out n =
     (let d1 = fst (logout (sample_auth ''g'' ''3'') ''u'' ''f'' (''j2:'' @ replicate 43 (CHR ''x'')) None (session_db 2));
          d2 = (case create_session ''g'' ''u'' (some_token ''3'') d1 of Inr (_, d) \<Rightarrow> d | Inl _ \<Rightarrow> empty_db)
      in [d1, d2] ! n)"

lemma logged_out_runs:
  "logout (sample_auth ''g'' ''3'') ''u'' ''f'' (''j2:'' @ replicate 43 (CHR ''x'')) None (session_db 2) =
     (logged_out 0, Inr ())"
  "create_session ''g'' ''u'' (some_token ''3'') (logged_out 0) =
     Inr (Some \<lparr> si_user = ''u'', si_session = ''g'' \<rparr>, logged_out 1)"
  "fresh_token (some_token ''3'') (logged_out 0)" "''g'' \<notin> rf_id ` set (refresh_token_family (logged_out 0))"
  "guard_account (sample_guard ''g'') 7 ''u'' ''g'' (logged_out 1) =
     Inr (\<lparr> ac_user = ''u'', ac_role = User, ac_banned = False \<rparr>, False)"
  by code_simp+

theorem logout_is_final_witness:
  "\<exists>a. can_activate (sample_guard ''g'') 7 (Some ''Bearer tok'') True (logged_out 1) = Inr a \<and>
    pg_uuid (ra_session a) = ''g'' \<and> ''g'' \<noteq> ''f'' \<and> pg_uuid (ra_session a) \<noteq> ''f''"
proof -
  obtain a where a: "can_activate (sample_guard ''g'') 7 (Some ''Bearer tok'') True (logged_out 1) = Inr a"
    "ra_session a = ''g''"
    by (auto simp: can_activate_claims [OF signed_in_facts(6) sample_guard_claims] signed_in_facts(7,9) logged_out_runs(5) [simplified])
  have run: "session_run (logged_out 0) (logged_out 1)"
    by (rule session_run.Next [OF session_run.Stay session_step.Create [OF logged_out_runs(3,4,2)]])
  show ?thesis
    using a signed_in_facts(9)
      logout_is_final [OF session_db_empty session_db_run2 logged_out_runs(1) run a(1)] by auto
qed

end
