(* ===== verification/Rate_Limit.thy ===== *)
theory Rate_Limit
  imports Common
begin

text \<open>
  \<open>src/ratelimit/rate-limit.service.ts\<close> and the script of \<open>incrementFixedWindow\<close> in
  \<open>src/redis/redis.service.ts\<close>: fixed windows counted in memory, or in Redis when it is enabled. The
  locale states what the two counters share; the bound on what a client can do is proved once in it.
\<close>

record limit_policy =
  lp_max :: nat
  lp_window :: int

section \<open>In memory\<close>

record memory_entry =
  en_count :: nat
  en_expires_at :: js_time

record memory_limiter =
  ml_entries :: "string \<Rightarrow> memory_entry option"
  ml_operations :: nat

definition sweep_expired :: "js_time \<Rightarrow> memory_limiter \<Rightarrow> memory_limiter" where
  "sweep_expired now st =
     (let n = ml_operations st + 1 in
      if n < 256 then st\<lparr>ml_operations := n\<rparr>
      else st\<lparr>ml_operations := 0,
        ml_entries := (\<lambda>k. case ml_entries st k of None \<Rightarrow> None
          | Some e \<Rightarrow> if en_expires_at e \<le> now then None else Some e)\<rparr>)"

text \<open>The milliseconds to wait when the request is over the limit.\<close>

definition memory_allow ::
  "js_time \<Rightarrow> string \<Rightarrow> limit_policy \<Rightarrow> memory_limiter \<Rightarrow> int option \<times> memory_limiter" where
  "memory_allow now key p st =
     (let st1 = sweep_expired now st;
          e0 = (case ml_entries st1 key of
                  None \<Rightarrow> \<lparr> en_count = 0, en_expires_at = now + lp_window p \<rparr>
                | Some e \<Rightarrow> if en_expires_at e \<le> now then \<lparr> en_count = 0, en_expires_at = now + lp_window p \<rparr> else e);
          e = e0\<lparr>en_count := en_count e0 + 1\<rparr>
      in (if lp_max p < en_count e then Some (en_expires_at e - now) else None,
          st1\<lparr>ml_entries := (ml_entries st1)(key \<mapsto> e)\<rparr>))"

section \<open>In Redis\<close>

text \<open>A key with its expiry; Redis drops a key once the clock is past the expiry.\<close>

type_synonym redis_keys = "string \<Rightarrow> (nat \<times> js_time) option"

definition redis_live :: "js_time \<Rightarrow> redis_keys \<Rightarrow> string \<Rightarrow> (nat \<times> js_time) option" where
  "redis_live now r k = (case r k of None \<Rightarrow> None | Some (c, e) \<Rightarrow> if e < now then None else Some (c, e))"

text \<open>INCR; on the first increment PEXPIRE; then PTTL.\<close>

definition increment_fixed_window :: "js_time \<Rightarrow> string \<Rightarrow> int \<Rightarrow> redis_keys \<Rightarrow> (nat \<times> int) \<times> redis_keys" where
  "increment_fixed_window now key window r =
     (let (c, e) = (case redis_live now r key of None \<Rightarrow> (1, now + window) | Some (c, e) \<Rightarrow> (c + 1, e))
      in ((c, e - now), r(key \<mapsto> (c, e))))"

definition redis_allow :: "js_time \<Rightarrow> string \<Rightarrow> limit_policy \<Rightarrow> redis_keys \<Rightarrow> int option \<times> redis_keys" where
  "redis_allow now key p r =
     (let ((c, ttl), r') = increment_fixed_window now key (lp_window p) r in
      (if lp_max p < c then Some ttl else None, r'))"

section \<open>Enforcing a limit\<close>

definition storage_key :: "(string \<Rightarrow> string) \<Rightarrow> string \<Rightarrow> string \<Rightarrow> string" where
  "storage_key hmac name key = ''histae:rate-limit:'' @ name @ '':'' @ hmac (name @ '':'' @ key)"

definition retry_seconds :: "int \<Rightarrow> nat" where
  "retry_seconds ms = nat (max 1 (- ((- ms) div 1000)))"

text \<open>The limiter's state is the memory and the keys of Redis; Redis may be off, or fail.\<close>

datatype redis_mode = Redis_off | Redis_on | Redis_failing

definition enforce ::
  "(string \<Rightarrow> string) \<Rightarrow> redis_mode \<Rightarrow> js_time \<Rightarrow> string \<Rightarrow> string \<Rightarrow> limit_policy \<Rightarrow> string \<Rightarrow>
     memory_limiter \<times> redis_keys \<Rightarrow> api_error option \<times> memory_limiter \<times> redis_keys" where
  "enforce hmac mode now name key p code st =
     (let k = storage_key hmac name key;
          answer = (\<lambda>retry. case retry of None \<Rightarrow> None | Some ms \<Rightarrow> Some (Api_error 429 code (Some (retry_seconds ms))))
      in case mode of
           Redis_failing \<Rightarrow> (Some (api_error 503 ''rate_limit_unavailable''), st)
         | Redis_on \<Rightarrow> (let (retry, r) = redis_allow now k p (snd st) in (answer retry, fst st, r))
         | Redis_off \<Rightarrow> (let (retry, m) = memory_allow now k p (fst st) in (answer retry, m, snd st)))"

section \<open>Fixed windows\<close>

text \<open>A sequence of requests, each with its instant and its key, and which were let through.\<close>

fun run_hits ::
  "(js_time \<Rightarrow> string \<Rightarrow> limit_policy \<Rightarrow> 's \<Rightarrow> bool \<times> 's) \<Rightarrow> (string \<Rightarrow> limit_policy) \<Rightarrow>
    (js_time \<times> string) list \<Rightarrow> 's \<Rightarrow> (js_time \<times> string \<times> bool) list" where
  "run_hits hit pol [] s = []"
| "run_hits hit pol ((t, k) # hs) s = (let (ok, s') = hit t k (pol k) s in (t, k, ok) # run_hits hit pol hs s')"

definition counted :: "string \<Rightarrow> js_time \<Rightarrow> int \<Rightarrow> (js_time \<times> string \<times> bool) list \<Rightarrow> nat" where
  "counted k a w rs = length (filter (\<lambda>(t, k', ok). k' = k \<and> ok \<and> a \<le> t \<and> t < a + w) rs)"

lemma counted_simps:
  "counted k a w [] = 0"
  "counted k a w ((t, k', ok) # rs) = (if k' = k \<and> ok \<and> a \<le> t \<and> t < a + w then 1 else 0) + counted k a w rs"
  by (simp_all add: counted_def)

text \<open>
  A counter of fixed windows: \<open>hit\<close> counts a request, \<open>window\<close> is the count and the expiry of a key. A
  window stays to its expiry; the implementations differ in whether it is over at that very instant.
\<close>

locale fixed_window =
  fixes hit :: "js_time \<Rightarrow> string \<Rightarrow> limit_policy \<Rightarrow> 's \<Rightarrow> bool \<times> 's"
    and window :: "'s \<Rightarrow> string \<Rightarrow> (nat \<times> js_time) option"
    and alive :: "js_time \<Rightarrow> js_time \<Rightarrow> bool"
  assumes alive_before: "now < e \<Longrightarrow> alive now e"
    and dead_after: "e < now \<Longrightarrow> \<not> alive now e"
    and hit_open: "\<lbrakk>hit now k p s = (ok, s'); window s k = Some (c, e); alive now e\<rbrakk> \<Longrightarrow>
      window s' k = Some (c + 1, e) \<and> (ok \<longleftrightarrow> c + 1 \<le> lp_max p)"
    and hit_new: "\<lbrakk>hit now k p s = (ok, s'); window s k = None \<or> (\<exists>c e. window s k = Some (c, e) \<and> \<not> alive now e)\<rbrakk> \<Longrightarrow>
      window s' k = Some (1, now + lp_window p) \<and> (ok \<longleftrightarrow> 1 \<le> lp_max p)"
    and hit_other: "\<lbrakk>hit now k p s = (ok, s'); k' \<noteq> k\<rbrakk> \<Longrightarrow>
      window s' k' = window s k' \<or> window s' k' = None \<and> (\<exists>c e. window s k' = Some (c, e) \<and> \<not> alive now e)"
begin

text \<open>How many requests of the key are still let through between \<open>a\<close> and \<open>a + w\<close>, from the instant \<open>now\<close>.\<close>

definition budget :: "nat \<Rightarrow> int \<Rightarrow> js_time \<Rightarrow> js_time \<Rightarrow> (nat \<times> js_time) option \<Rightarrow> nat" where
  "budget m w a now win =
     (if now < a then 2 * m - 1
      else if a + w \<le> now then 0
      else case win of
        None \<Rightarrow> m
      | Some (c, e) \<Rightarrow> if \<not> alive now e then m else if a + w \<le> e then m - c else (m - c) + m)"

lemma alive_mono: "alive t e \<Longrightarrow> now < t \<Longrightarrow> alive now e"
  using alive_before [of now e] dead_after [of e t] by (cases "now < e") auto

lemma budget_time:
  "now \<le> t \<Longrightarrow> (\<And>c e. win = Some (c, e) \<Longrightarrow> 1 \<le> c) \<Longrightarrow> budget m w a t win \<le> budget m w a now win"
proof (cases "now = t")
  case False
  assume pos: "\<And>c e. win = Some (c, e) \<Longrightarrow> 1 \<le> c"
  assume "now \<le> t"
  with False have "now < t" by simp
  then show ?thesis
  proof (cases win)
    case None
    with \<open>now < t\<close> show ?thesis by (auto simp: budget_def)
  next
    case (Some ce)
    obtain c e where "ce = (c, e)" by (cases ce)
    with Some \<open>now < t\<close> pos [of c e] alive_mono [of t e now] dead_after [of e t] alive_before [of t e]
    show ?thesis by (auto simp: budget_def)
  qed
qed simp

text \<open>A window exists since its first request.\<close>

definition opened :: "'s \<Rightarrow> bool" where
  "opened s \<longleftrightarrow> (\<forall>k c e. window s k = Some (c, e) \<longrightarrow> 1 \<le> c)"

lemma opened_hit:
  assumes "hit t k p s = (ok, s')" "opened s"
  shows "opened s'"
  unfolding opened_def
proof (intro allI impI)
  fix k' c e
  assume "window s' k' = Some (c, e)"
  then show "1 \<le> c"
  proof (cases "k' = k")
    case True
    with \<open>window s' k' = Some (c, e)\<close> hit_open [OF assms(1)] hit_new [OF assms(1)] show ?thesis
      by (cases "window s k") force+
  next
    case False
    with \<open>window s' k' = Some (c, e)\<close> hit_other [OF assms(1) False] assms(2) show ?thesis
      by (metis opened_def option.distinct(1))
  qed
qed

lemma budget_hit:
  assumes "hit t k p s = (ok, s')"
  shows "(if ok \<and> a \<le> t \<and> t < a + lp_window p then 1 else 0) + budget (lp_max p) (lp_window p) a t (window s' k)
    \<le> budget (lp_max p) (lp_window p) a t (window s k)"
proof (cases "\<exists>c e. window s k = Some (c, e) \<and> alive t e")
  case True
  then obtain c e where "window s k = Some (c, e)" "alive t e" by blast
  with hit_open [OF assms] show ?thesis by (auto simp: budget_def)
next
  case False
  then have new: "window s' k = Some (1, t + lp_window p)" "ok \<longleftrightarrow> 1 \<le> lp_max p"
  proof -
    have "window s k = None \<or> (\<exists>c e. window s k = Some (c, e) \<and> \<not> alive t e)"
      using False by (cases "window s k") auto
    from hit_new [OF assms this] show "window s' k = Some (1, t + lp_window p)" "ok \<longleftrightarrow> 1 \<le> lp_max p" by auto
  qed
  have "budget (lp_max p) (lp_window p) a t (window s k) = (if t < a then 2 * lp_max p - 1 else if a + lp_window p \<le> t then 0 else lp_max p)"
    using False by (auto simp: budget_def split: option.splits)
  then show ?thesis using new alive_before [of t "t + lp_window p"] by (auto simp: budget_def)
qed

lemma budget_other:
  assumes "hit t k' p s = (ok, s')" "k' \<noteq> k"
  shows "budget m w a t (window s' k) \<le> budget m w a t (window s k)"
  using hit_other [OF assms(1) assms(2) [symmetric]] by (auto simp: budget_def)

text \<open>However requests of all keys are interleaved, a key gets less than twice its limit through in one window's time.\<close>

lemma counted_budget:
  "sorted (map fst hs) \<Longrightarrow> \<forall>h \<in> set hs. now \<le> fst h \<Longrightarrow> opened s \<Longrightarrow>
    counted k a (lp_window (pol k)) (run_hits hit pol hs s) \<le> budget (lp_max (pol k)) (lp_window (pol k)) a now (window s k)"
proof (induction hs arbitrary: s now)
  case Nil
  then show ?case by (simp add: counted_simps)
next
  case (Cons h hs)
  obtain t k' where h: "h = (t, k')" by (cases h)
  obtain ok s' where hit: "hit t k' (pol k') s = (ok, s')" by (cases "hit t k' (pol k') s")
  let ?b = "budget (lp_max (pol k)) (lp_window (pol k)) a"
  have rest: "counted k a (lp_window (pol k)) (run_hits hit pol hs s') \<le> ?b t (window s' k)"
    using Cons.prems h opened_hit [OF hit] by (intro Cons.IH) auto
  have "counted k a (lp_window (pol k)) (run_hits hit pol (h # hs) s) \<le> ?b t (window s k)"
  proof (cases "k' = k")
    case True
    with budget_hit [OF hit, of a] rest hit show ?thesis by (simp add: h counted_simps)
  next
    case False
    with budget_other [OF hit False] rest hit show ?thesis by (auto simp: h counted_simps intro: le_trans)
  qed
  also have "\<dots> \<le> ?b now (window s k)" by (rule budget_time) (use Cons.prems h in \<open>auto simp: opened_def\<close>)
  finally show ?case .
qed

lemma less_than_twice:
  assumes "sorted (map fst hs)" "opened s"
  shows "counted k a (lp_window (pol k)) (run_hits hit pol hs s) \<le> 2 * lp_max (pol k) - 1"
proof (cases hs)
  case Nil
  then show ?thesis by (simp add: counted_simps)
next
  case (Cons h hs')
  have "\<forall>x \<in> set hs. min (fst h) (a - 1) \<le> fst x" using assms Cons by auto
  from counted_budget [OF assms(1) this assms(2), of k a pol] show ?thesis
    by (simp add: budget_def split: if_splits)
qed

end

text \<open>The two counters are fixed windows.\<close>

definition memory_hit :: "js_time \<Rightarrow> string \<Rightarrow> limit_policy \<Rightarrow> memory_limiter \<Rightarrow> bool \<times> memory_limiter" where
  "memory_hit now k p st = (let (retry, st') = memory_allow now k p st in (retry = None, st'))"

definition memory_window :: "memory_limiter \<Rightarrow> string \<Rightarrow> (nat \<times> js_time) option" where
  "memory_window st k = map_option (\<lambda>e. (en_count e, en_expires_at e)) (ml_entries st k)"

definition redis_hit :: "js_time \<Rightarrow> string \<Rightarrow> limit_policy \<Rightarrow> redis_keys \<Rightarrow> bool \<times> redis_keys" where
  "redis_hit now k p r = (let (retry, r') = redis_allow now k p r in (retry = None, r'))"

lemma sweep_expired_entry:
  "ml_entries (sweep_expired now st) k = ml_entries st k \<or>
    ml_entries (sweep_expired now st) k = None \<and> (\<exists>e. ml_entries st k = Some e \<and> en_expires_at e \<le> now)"
  by (auto simp: sweep_expired_def Let_def split: option.splits)

lemma sweep_expired_alive:
  "ml_entries st k = Some e \<Longrightarrow> now < en_expires_at e \<Longrightarrow> ml_entries (sweep_expired now st) k = Some e"
  by (auto simp: sweep_expired_def Let_def)

lemma memory_hit_iff:
  "memory_hit now k p st = (ok, st') \<longleftrightarrow>
    (let st1 = sweep_expired now st;
         e0 = (case ml_entries st1 k of
                 None \<Rightarrow> \<lparr> en_count = 0, en_expires_at = now + lp_window p \<rparr>
               | Some e \<Rightarrow> if en_expires_at e \<le> now then \<lparr> en_count = 0, en_expires_at = now + lp_window p \<rparr> else e)
     in ok = (en_count e0 + 1 \<le> lp_max p)
        \<and> st' = st1\<lparr>ml_entries := (ml_entries st1)(k \<mapsto> e0\<lparr>en_count := en_count e0 + 1\<rparr>)\<rparr>)"
  by (auto simp: memory_hit_def memory_allow_def Let_def not_less)

lemma memory_hit_open:
  assumes "memory_hit now k p st = (ok, st')" "memory_window st k = Some (c, e)" "now < e"
  shows "memory_window st' k = Some (c + 1, e) \<and> (ok \<longleftrightarrow> c + 1 \<le> lp_max p)"
proof -
  obtain en where "ml_entries st k = Some en" "en_count en = c" "en_expires_at en = e"
    using assms(2) by (auto simp: memory_window_def)
  then show ?thesis
    using assms(1,3) sweep_expired_alive [of st k en now] by (auto simp: memory_hit_iff memory_window_def Let_def)
qed

lemma memory_hit_new:
  assumes "memory_hit now k p st = (ok, st')"
    and "memory_window st k = None \<or> (\<exists>c e. memory_window st k = Some (c, e) \<and> \<not> now < e)"
  shows "memory_window st' k = Some (1, now + lp_window p) \<and> (ok \<longleftrightarrow> 1 \<le> lp_max p)"
  using assms sweep_expired_entry [of now st k]
  by (auto simp: memory_hit_iff memory_window_def Let_def split: option.splits if_splits)

lemma memory_hit_other:
  assumes "memory_hit now k p st = (ok, st')" "k' \<noteq> k"
  shows "memory_window st' k' = memory_window st k'
    \<or> memory_window st' k' = None \<and> (\<exists>c e. memory_window st k' = Some (c, e) \<and> \<not> now < e)"
  using assms sweep_expired_entry [of now st k'] by (auto simp: memory_hit_iff memory_window_def Let_def)

interpretation in_memory: fixed_window memory_hit memory_window "\<lambda>now e. now < e"
  by unfold_locales (auto dest: memory_hit_open memory_hit_new memory_hit_other)

lemma redis_hit_iff:
  "redis_hit now k p r = (ok, r') \<longleftrightarrow>
    (let (c, e) = (case redis_live now r k of None \<Rightarrow> (1, now + lp_window p) | Some (c, e) \<Rightarrow> (c + 1, e))
     in ok = (c \<le> lp_max p) \<and> r' = r(k \<mapsto> (c, e)))"
  by (auto simp: redis_hit_def redis_allow_def increment_fixed_window_def Let_def not_less split: option.splits prod.splits)

interpretation in_redis: fixed_window redis_hit "\<lambda>r k. r k" "\<lambda>now e. now \<le> e"
  by unfold_locales (auto simp: redis_hit_iff redis_live_def split: if_splits)

text \<open>What the guards of the endpoints see is the state of these counters.\<close>

lemma enforce_memory:
  "fst (enforce hmac Redis_off now name key p code st) = None \<longleftrightarrow> fst (memory_hit now (storage_key hmac name key) p (fst st))"
  by (auto simp: enforce_def memory_hit_def Let_def split: prod.splits option.splits)

lemma enforce_redis:
  "fst (enforce hmac Redis_on now name key p code st) = None \<longleftrightarrow> fst (redis_hit now (storage_key hmac name key) p (snd st))"
  by (auto simp: enforce_def redis_hit_def Let_def split: prod.splits option.splits)

text \<open>A refused client is told to wait at least one second, and long enough for its window to be over.\<close>

lemma retry_seconds_covers: "ms \<le> int (retry_seconds ms) * 1000" "1 \<le> retry_seconds ms"
  by (auto simp: retry_seconds_def)

text \<open>C27. Over any stretch of one window's length, however the requests of all clients are interleaved, less than
  twice the limit of requests of a key are let through, in memory and in Redis alike: the fixed windows are off by
  less than a factor of two from a sliding one.
\<close>

theorem rate_limit_bound:
  assumes "sorted (map fst hs)"
    and "\<forall>k c e. memory_window st k = Some (c, e) \<longrightarrow> 1 \<le> c" "\<forall>k c e. r k = Some (c, e) \<longrightarrow> 1 \<le> c"
  shows "counted k a (lp_window (pol k)) (run_hits memory_hit pol hs st) \<le> 2 * lp_max (pol k) - 1
    \<and> counted k a (lp_window (pol k)) (run_hits redis_hit pol hs r) \<le> 2 * lp_max (pol k) - 1"
  using in_memory.less_than_twice [OF assms(1)] in_redis.less_than_twice [OF assms(1)] assms(2,3)
  by (simp add: in_memory.opened_def in_redis.opened_def)

text \<open>
  The bound is met: with a limit of two, a client that waits for the end of its window gets three requests
  through between 5 and 1005.
\<close>

definition burst :: "(js_time \<times> string) list" where
  "burst = [(0, ''a''), (999, ''a''), (999, ''b''), (999, ''a''), (1001, ''a''), (1001, ''a''), (1002, ''a'')]"

theorem rate_limit_bound_witness:
  "counted ''a'' 5 1000 (run_hits memory_hit (\<lambda>_. \<lparr> lp_max = 2, lp_window = 1000 \<rparr>) burst
      \<lparr> ml_entries = \<lambda>_. None, ml_operations = 0 \<rparr>) = 3
    \<and> counted ''a'' 5 1000 (run_hits memory_hit (\<lambda>_. \<lparr> lp_max = 2, lp_window = 1000 \<rparr>) burst
      \<lparr> ml_entries = \<lambda>_. None, ml_operations = 0 \<rparr>) \<le> 2 * 2 - 1"
  using rate_limit_bound [of burst "\<lparr> ml_entries = \<lambda>_. None, ml_operations = 0 \<rparr>" Map.empty "''a''" 5
      "\<lambda>_. \<lparr> lp_max = 2, lp_window = 1000 \<rparr>"]
  by (simp add: burst_def counted_simps memory_hit_def memory_allow_def memory_window_def sweep_expired_def)

end
