(* ===== verification/Text_Moderation.thy ===== *)
theory Text_Moderation
  imports Common Schema
begin

text \<open>
  \<open>src/moderation/text-moderation.service.ts\<close>: the rules that let a text through or keep it for a
  person. Texts are code points. The folding of a text (NFKD, marks removed, lower case) is Unicode's and a
  parameter; the regular expressions are modelled by the positions at which a match from a given position can end.
\<close>

section \<open>Regular expressions\<close>

datatype rx =
    Chr "nat \<Rightarrow> bool" | Seq rx rx | Alt rx rx | Rep nat "nat option" rx | Text_start | Word_boundary

definition word_code :: "nat \<Rightarrow> bool" where
  "word_code c \<longleftrightarrow> 48 \<le> c \<and> c \<le> 57 \<or> 65 \<le> c \<and> c \<le> 90 \<or> c = 95 \<or> 97 \<le> c \<and> c \<le> 122"

definition boundary :: "code_points \<Rightarrow> nat \<Rightarrow> bool" where
  "boundary t i \<longleftrightarrow> (0 < i \<and> word_code (t ! (i - 1))) \<noteq> (i < length t \<and> word_code (t ! i))"

text \<open>A repetition needs no more copies than there are characters: a copy that matches nothing adds no position.\<close>

definition rx_steps :: "(nat \<Rightarrow> nat list) \<Rightarrow> nat list \<Rightarrow> nat list" where
  "rx_steps f is = remdups (concat (map f is))"

fun rx_ends :: "code_points \<Rightarrow> rx \<Rightarrow> nat \<Rightarrow> nat list" where
  "rx_ends t (Chr p) i = (if i < length t \<and> p (t ! i) then [Suc i] else [])"
| "rx_ends t (Seq r s) i = rx_steps (rx_ends t s) (rx_ends t r i)"
| "rx_ends t (Alt r s) i = rx_ends t r i @ rx_ends t s i"
| "rx_ends t (Rep m n r) i =
     rx_steps (\<lambda>k. (rx_steps (rx_ends t r) ^^ k) [i])
       [m ..< Suc (case n of None \<Rightarrow> max m (length t) | Some k \<Rightarrow> k)]"
| "rx_ends t Text_start i = (if i = 0 then [i] else [])"
| "rx_ends t Word_boundary i = (if boundary t i then [i] else [])"

definition rx_test :: "rx \<Rightarrow> code_points \<Rightarrow> bool" where
  "rx_test r t \<longleftrightarrow> list_ex (\<lambda>i. rx_ends t r i \<noteq> []) [0 ..< Suc (length t)]"

definition codes :: "string \<Rightarrow> code_points" where
  "codes s = map of_char s"

definition chr_in :: "string \<Rightarrow> rx" where
  "chr_in s = Chr (\<lambda>c. c \<in> set (codes s))"

fun rx_word :: "string \<Rightarrow> rx" where
  "rx_word [] = Rep 0 (Some 0) Text_start"
| "rx_word [c] = Chr ((=) (of_char c))"
| "rx_word (c # cs) = Seq (Chr ((=) (of_char c))) (rx_word cs)"

definition white :: "nat \<Rightarrow> bool" where
  "white c \<longleftrightarrow> 9 \<le> c \<and> c \<le> 13 \<or> c \<in> {32, 160, 0x1680, 0x2028, 0x2029, 0x202f, 0x205f, 0x3000, 0xfeff}
     \<or> 0x2000 \<le> c \<and> c \<le> 0x200a"

definition digit_code :: "nat \<Rightarrow> bool" where
  "digit_code c \<longleftrightarrow> 48 \<le> c \<and> c \<le> 57"

definition lower_letter :: "nat \<Rightarrow> bool" where
  "lower_letter c \<longleftrightarrow> 97 \<le> c \<and> c \<le> 122"

definition letter_or :: "string \<Rightarrow> rx" where
  "letter_or s = Chr (\<lambda>c. lower_letter c \<or> digit_code c \<or> c \<in> set (codes s))"

fun rx_seq :: "rx list \<Rightarrow> rx" where
  "rx_seq [] = Rep 0 (Some 0) Text_start"
| "rx_seq [r] = r"
| "rx_seq (r # rs) = Seq r (rx_seq rs)"

fun rx_alt :: "rx list \<Rightarrow> rx" where
  "rx_alt [] = Chr (\<lambda>_. False)"
| "rx_alt [r] = r"
| "rx_alt (r # rs) = Alt r (rx_alt rs)"

section \<open>Personal contacts\<close>

definition email_rx :: rx where
  "email_rx = rx_seq [Word_boundary, Rep 1 None (letter_or ''._%+-''), Rep 0 None (Chr white),
     Alt (chr_in ''@'') (rx_seq [Word_boundary, rx_word ''at'', Word_boundary]), Rep 0 None (Chr white),
     Rep 1 None (letter_or ''.-''), chr_in ''.'', Rep 2 None (Chr lower_letter), Word_boundary]"

definition url_rx :: rx where
  "url_rx = rx_alt
     [rx_seq [rx_word ''http'', Rep 0 (Some 1) (chr_in ''s''), rx_word ''://''],
      rx_word ''www.'',
      rx_seq [Word_boundary, Rep 1 None (letter_or ''-''), chr_in ''.'',
        rx_alt [rx_word ''com'', rx_word ''fr'', rx_word ''net'', rx_word ''org'', rx_word ''io''], Word_boundary]]"

definition social_handle_rx :: rx where
  "social_handle_rx = rx_seq [Alt Text_start (Chr white), chr_in ''@'',
     Rep 3 (Some 32) (letter_or ''._-''), Word_boundary]"

definition phone_rx :: rx where
  "phone_rx = Rep 8 None (rx_seq [Rep 0 (Some 1) (chr_in ''+''), Chr digit_code,
     Rep 0 None (Chr (\<lambda>c. white c \<or> c \<in> set (codes ''().-'')))])"

definition contains_personal_contact :: "code_points \<Rightarrow> bool" where
  "contains_personal_contact t \<longleftrightarrow>
     rx_test email_rx t \<or> rx_test url_rx t \<or> rx_test social_handle_rx t \<or> rx_test phone_rx t"

section \<open>Words\<close>

text \<open>The matches of \<open>[a-z0-9]+\<close>.\<close>

definition rule_char :: "nat \<Rightarrow> bool" where
  "rule_char c \<longleftrightarrow> lower_letter c \<or> digit_code c"

function rule_words :: "code_points \<Rightarrow> code_points list" where
  "rule_words t =
     (case dropWhile (\<lambda>c. \<not> rule_char c) t of
        [] \<Rightarrow> []
      | c # cs \<Rightarrow> (c # takeWhile rule_char cs) # rule_words (dropWhile rule_char cs))"
  by pat_completeness auto
termination
proof (relation "measure length")
  fix t c cs
  assume "dropWhile (\<lambda>c. \<not> rule_char c) t = c # cs"
  then have "length (c # cs) \<le> length t" using length_dropWhile_le by metis
  with length_dropWhile_le [of rule_char cs] show "(dropWhile rule_char cs, t) \<in> measure length" by simp
qed simp

declare rule_words.simps [simp del]

definition insults :: "string list" where
  "insults = [''abruti'', ''abrutie'', ''connard'', ''connasse'', ''conne'', ''cretin'', ''cretine'',
     ''debile'', ''idiot'', ''idiote'', ''imbecile'', ''merde'', ''salope'', ''pute'',
     ''asshole'', ''bastard'', ''bitch'', ''idiot'', ''moron'', ''slut'', ''whore'']"

definition sexual_terms :: "string list" where
  "sexual_terms = [''baise'', ''baiser'', ''bite'', ''chatte'', ''cul'', ''escort'', ''nude'', ''nudes'',
     ''onlyfans'', ''porn'', ''porno'', ''pornographie'', ''sexe'', ''sexcam'', ''sugarbaby'']"

definition spam_terms :: "string list" where
  "spam_terms = [''bitcoin'', ''casino'', ''crypto'', ''cryptomonnaie'', ''dropshipping'', ''investissement'',
     ''promotion'', ''promo'', ''telegram'', ''whatsapp'', ''snapchat'', ''onlyfans'']"

definition contains_any :: "code_points list \<Rightarrow> string list \<Rightarrow> bool" where
  "contains_any words candidates \<longleftrightarrow> list_ex (\<lambda>w. codes w \<in> set words) candidates"

text \<open>\<open>(.)\1{7,}\<close>: eight times the same character, not a line end.\<close>

definition long_run :: "code_points \<Rightarrow> bool" where
  "long_run t \<longleftrightarrow> list_ex (\<lambda>i. t ! i \<notin> {10, 13, 0x2028, 0x2029} \<and>
     list_all (\<lambda>j. t ! (i + j) = t ! i) [0..<8]) [0 ..< length t - 7]"

definition invites :: "code_points \<Rightarrow> bool" where
  "invites t \<longleftrightarrow> rx_test (rx_alt (map rx_word [''contact'', ''dm'', ''ajoute'', ''rejoins'', ''gagne'', ''gratuit'', ''promo''])) t"

definition looks_like_spam :: "code_points \<Rightarrow> code_points list \<Rightarrow> bool" where
  "looks_like_spam t words \<longleftrightarrow> long_run t \<or> list_ex (\<lambda>w. 5 \<le> count_list words w) words \<or>
     contains_any words spam_terms \<and> invites t"

section \<open>The decision\<close>

record text_moderation =
  td_status :: moderation_status
  td_reasons :: "string list"
  td_policy_version :: string

definition analyze_text :: "(code_points \<Rightarrow> code_points) \<Rightarrow> code_points \<Rightarrow> text_moderation" where
  "analyze_text fold_text value =
     (let t = fold_text value; words = rule_words t;
          reasons = (if looks_like_spam t words then [''spam''] else [])
            @ (if contains_any words insults then [''insult''] else [])
            @ (if contains_personal_contact t then [''personal_contact''] else [])
            @ (if contains_any words sexual_terms then [''sexual_content''] else [])
      in \<lparr> td_status = (if reasons = [] then Mod_approved else Mod_pending), td_reasons = reasons,
           td_policy_version = ''text_rules_v1'' \<rparr>)"

section \<open>What an approved text is free of\<close>

lemma set_rx_steps: "set (rx_steps f is) = (\<Union>i \<in> set is. set (f i))"
  by (simp add: rx_steps_def)

lemma rx_power:
  assumes "\<And>j. j < k \<Longrightarrow> p (Suc j) \<in> set (rx_ends t r (p j))"
  shows "p k \<in> set ((rx_steps (rx_ends t r) ^^ k) [p 0])"
  using assms by (induction k) (auto simp: set_rx_steps)

lemma rx_ends_Rep:
  assumes "\<And>j. j < k \<Longrightarrow> p (Suc j) \<in> set (rx_ends t r (p j))"
    and "m \<le> k" "case n of None \<Rightarrow> k \<le> max m (length t) | Some b \<Rightarrow> k \<le> b"
  shows "p k \<in> set (rx_ends t (Rep m n r) (p 0))"
  using rx_power [where p = p and k = k and t = t and r = r, OF assms(1)] assms(2,3) by (auto simp: set_rx_steps less_Suc_eq_le split: option.splits)

lemma rx_ends_optional: "i \<in> set (rx_ends t (Rep 0 n r) i)"
  using rx_ends_Rep [of 0 "\<lambda>_. i" t r 0 n] by (cases n) auto

lemma rx_testI: "j \<in> set (rx_ends t r i) \<Longrightarrow> i \<le> length t \<Longrightarrow> rx_test r t"
  unfolding rx_test_def list_ex_iff by (rule bexI [of _ i]) auto

lemma rx_ends_Seq: "j \<in> set (rx_ends t r i) \<Longrightarrow> k \<in> set (rx_ends t s j) \<Longrightarrow> k \<in> set (rx_ends t (Seq r s) i)"
  by (auto simp: set_rx_steps)

lemma phone_found:
  assumes "\<forall>c \<in> set ds. digit_code c" "length ds = 8"
  shows "rx_test phone_rx (a @ ds @ b)"
proof -
  let ?t = "a @ ds @ b"
  have "length a + 8 \<in> set (rx_ends ?t phone_rx (length a + 0))"
    unfolding phone_rx_def
  proof (rule rx_ends_Rep [where p = "\<lambda>j. length a + j"])
    fix j :: nat
    assume "j < 8"
    then have "digit_code (?t ! (length a + j))" using assms by (simp add: nth_append)
    then show "length a + Suc j \<in> set (rx_ends ?t (rx_seq [Rep 0 (Some 1) (chr_in ''+''), Chr digit_code,
        Rep 0 None (Chr (\<lambda>c. white c \<or> c \<in> set (codes ''().-'')))]) (length a + j))"
      using assms(2) \<open>j < 8\<close> unfolding rx_seq.simps
      by (intro rx_ends_Seq [OF rx_ends_optional] rx_ends_Seq [OF _ rx_ends_optional]) simp
  qed (use assms(2) in auto)
  then show ?thesis by (rule rx_testI) simp
qed

lemma approved_text_clean:
  assumes "td_status (analyze_text fold_text value) = Mod_approved"
  shows "\<And>w. w \<in> set (insults @ sexual_terms) \<Longrightarrow> codes w \<notin> set (rule_words (fold_text value))"
    and "\<And>w. count_list (rule_words (fold_text value)) w < 5"
    and "\<And>a ds b. fold_text value = a @ ds @ b \<Longrightarrow> length ds = 8 \<Longrightarrow> \<exists>c \<in> set ds. \<not> digit_code c"
proof -
  let ?t = "fold_text value"
  have free: "\<not> looks_like_spam ?t (rule_words ?t)" "\<not> contains_any (rule_words ?t) insults"
    "\<not> contains_personal_contact ?t" "\<not> contains_any (rule_words ?t) sexual_terms"
    using assms by (auto simp: analyze_text_def Let_def split: if_splits)
  then show "\<And>w. w \<in> set (insults @ sexual_terms) \<Longrightarrow> codes w \<notin> set (rule_words ?t)"
    by (auto simp: contains_any_def list_ex_iff)
  show "count_list (rule_words ?t) w < 5" for w
    using free(1) by (cases "w \<in> set (rule_words ?t)") (auto simp: looks_like_spam_def list_ex_iff count_list_0_iff)
  show "\<exists>c \<in> set ds. \<not> digit_code c" if "?t = a @ ds @ b" "length ds = 8" for a ds b
    using free(3) phone_found [of ds a b] that by (auto simp: contains_personal_contact_def)
qed

end
