(* ===== verification/Users.thy ===== *)
theory Users
  imports Text_Moderation
begin

text \<open>
  \<open>src/users\<close>: profiles, preferences, presences and consents. The repository checks the consents a
  write needs in its own transaction, under the lock of the account; the service validates and checks them once
  before. The date of a database session and the clock readings of the statements are arguments. An error class of
  the repository (\<open>RequiredConsentMissingError\<close>) is a \<open>Thrown\<close> failure of the transaction.
\<close>

section \<open>Legal documents\<close>

record legal_documents =
  ld_terms :: string
  ld_privacy :: string
  ld_sensitive :: string
  ld_location :: string
  ld_terms_url :: string
  ld_privacy_url :: string
  ld_sensitive_url :: string
  ld_location_url :: string

fun legal_document_version :: "consent_type \<Rightarrow> legal_documents \<Rightarrow> string" where
  "legal_document_version Terms_of_service_acceptance v = ld_terms v"
| "legal_document_version Privacy_notice_acknowledgement v = ld_privacy v"
| "legal_document_version Sensitive_data_consent v = ld_sensitive v"
| "legal_document_version Location_consent v = ld_location v"

fun legal_document_url :: "consent_type \<Rightarrow> legal_documents \<Rightarrow> string" where
  "legal_document_url Terms_of_service_acceptance v = ld_terms_url v"
| "legal_document_url Privacy_notice_acknowledgement v = ld_privacy_url v"
| "legal_document_url Sensitive_data_consent v = ld_sensitive_url v"
| "legal_document_url Location_consent v = ld_location_url v"

definition legal_choice_types :: "consent_type list" where
  "legal_choice_types =
     [Terms_of_service_acceptance, Privacy_notice_acknowledgement, Sensitive_data_consent, Location_consent]"

definition onboarding_types :: "consent_type list" where
  "onboarding_types = [Terms_of_service_acceptance, Privacy_notice_acknowledgement]"

section \<open>Dates\<close>

definition leap_year :: "int \<Rightarrow> bool" where
  "leap_year y \<longleftrightarrow> y mod 4 = 0 \<and> (y mod 100 \<noteq> 0 \<or> y mod 400 = 0)"

definition days_in_month :: "int \<Rightarrow> int \<Rightarrow> int" where
  "days_in_month y m = (if m = 2 then if leap_year y then 29 else 28 else if m \<in> {4, 6, 9, 11} then 30 else 31)"

definition civil_date :: "pg_date \<Rightarrow> bool" where
  "civil_date = (\<lambda>(y, m, d). 1 \<le> m \<and> m \<le> 12 \<and> 1 \<le> d \<and> d \<le> days_in_month y m)"

text \<open>\<open>date - make_interval(years => n)\<close>: a 29th of February becomes the 28th.\<close>

definition years_before :: "pg_date \<Rightarrow> int \<Rightarrow> pg_date" where
  "years_before = (\<lambda>(y, m, d) n. (y - n, m, min d (days_in_month (y - n) m)))"

text \<open>\<open>date_part('year', age(today, date))\<close>\<close>

definition full_years :: "pg_date \<Rightarrow> pg_date \<Rightarrow> int" where
  "full_years = (\<lambda>(y, m, d) (by, bm, bd). y - by - (if (m, d) < (bm, bd) then 1 else 0))"

section \<open>The tables\<close>

definition is_live :: "uuid \<Rightarrow> db \<Rightarrow> bool" where
  "is_live u d = sql_exists (\<lambda>a. ua_id a = u \<and> live_account a) (user_account d)"

text \<open>
  The triggers \<open>fct_check_user_age\<close> and \<open>fct_require_live_account\<close>, the CHECK constraints, and the
  upsert by the primary key.
\<close>

definition upsert :: "('r \<Rightarrow> uuid) \<Rightarrow> 'r \<Rightarrow> 'r list \<Rightarrow> 'r list" where
  "upsert key r t = (if sql_exists (\<lambda>x. key x = key r) t then sql_update (\<lambda>x. key x = key r) (\<lambda>_. r) t else t @ [r])"

definition write_profile :: "pg_date \<Rightarrow> profile_row \<Rightarrow> db \<Rightarrow> sql_error + db" where
  "write_profile today r d =
     (if years_before today 18 < pr_birthdate r then Inl (Thrown ''User must be at least 18 years old'')
      else if account_deleted (pr_user_id r) d then Inl Live_account_trigger
      else Inr (d\<lparr>user_profile := upsert pr_user_id r (user_profile d)\<rparr>))"

definition write_preferences :: "preferences_row \<Rightarrow> db \<Rightarrow> sql_error + db" where
  "write_preferences r d =
     (if account_deleted (pf_user_id r) d then Inl Live_account_trigger
      else if \<not> (18 \<le> pf_min_age r \<and> pf_min_age r \<le> pf_max_age r \<and> pf_max_age r \<le> 99 \<and> 0 < pf_max_distance_km r)
      then Inl Check_violation
      else Inr (d\<lparr>user_preferences := upsert pf_user_id r (user_preferences d)\<rparr>))"

text \<open>A coordinate is a \<open>numeric(9,6)\<close>: rounded to six decimals, half away from zero.\<close>

definition numeric_6 :: "real \<Rightarrow> real" where
  "numeric_6 x = sgn x * of_int \<lfloor>\<bar>x\<bar> * 1000000 + 1 / 2\<rfloor> / 1000000"

definition write_presence :: "presence_row \<Rightarrow> db \<Rightarrow> sql_error + db" where
  "write_presence r d =
     (if account_deleted (pe_user_id r) d then Inl Live_account_trigger
      else Inr (d\<lparr>user_presence := upsert pe_user_id r (user_presence d)\<rparr>))"

text \<open>\<open>idx_consent_active\<close>: one active consent per user and type.\<close>

definition active_consent :: "consent_row \<Rightarrow> bool" where
  "active_consent c \<longleftrightarrow> uc_granted c \<and> uc_withdrawn_at c = None"

definition consent_key :: "consent_row \<Rightarrow> uuid \<times> consent_type" where
  "consent_key c = (uc_user_id c, uc_type c)"

definition insert_consent :: "consent_row \<Rightarrow> db \<Rightarrow> sql_error + db" where
  "insert_consent c d =
     (if account_deleted (uc_user_id c) d then Inl Live_account_trigger
      else if active_consent c \<and> sql_exists (\<lambda>x. active_consent x \<and> consent_key x = consent_key c) (user_consent d)
      then Inl Unique_violation
      else Inr (d\<lparr>user_consent := user_consent d @ [c], consent_next_event := consent_next_event d + 1\<rparr>))"

section \<open>Consents\<close>

definition active_legal_choices :: "uuid \<Rightarrow> consent_type list \<Rightarrow> db \<Rightarrow> (consent_type \<times> string) list" where
  "active_legal_choices u types d =
     map (\<lambda>c. (uc_type c, uc_document_version c))
       (filter (\<lambda>c. uc_user_id c = u \<and> uc_type c \<in> set types \<and> active_consent c) (user_consent d))"

text \<open>A JavaScript Map of the rows: the last row of a type counts.\<close>

definition choices_missing :: "consent_type list \<Rightarrow> legal_documents \<Rightarrow> uuid \<Rightarrow> db \<Rightarrow> bool" where
  "choices_missing required v u d =
     list_ex (\<lambda>ty. map_of (rev (active_legal_choices u required d)) ty \<noteq> Some (legal_document_version ty v)) required"

definition lock_legal_choices ::
  "uuid \<Rightarrow> consent_type option \<Rightarrow> legal_documents \<Rightarrow> db \<Rightarrow> sql_error + bool" where
  "lock_legal_choices u sensitive v d =
     (if \<not> is_live u d then Inr False
      else if choices_missing (onboarding_types @ (case sensitive of None \<Rightarrow> [] | Some ty \<Rightarrow> [ty])) v u d
      then Inl (Thrown ''required_consent_missing'')
      else Inr True)"

text \<open>The events of a user and type, the latest first.\<close>

definition latest_consent :: "uuid \<Rightarrow> consent_type \<Rightarrow> db \<Rightarrow> consent_row option" where
  "latest_consent u ty d =
     sql_first (\<lambda>_. True)
       (rev (sort_key uc_event_sequence (filter (\<lambda>c. uc_user_id c = u \<and> uc_type c = ty) (user_consent d))))"

text \<open>\<open>DISTINCT ON (consent_type) .. ORDER BY consent_type, event_sequence DESC\<close>\<close>

definition current_consents :: "uuid \<Rightarrow> db \<Rightarrow> consent_row list" where
  "current_consents u d =
     List.map_filter (\<lambda>ty. latest_consent u ty d)
       [Location_consent, Privacy_notice_acknowledgement, Sensitive_data_consent, Terms_of_service_acceptance]"

text \<open>What a withdrawal erases; the update of the profile runs its age trigger.\<close>

definition withdraw_sensitive :: "pg_date \<Rightarrow> consent_type \<Rightarrow> uuid \<Rightarrow> db \<Rightarrow> sql_error + db" where
  "withdraw_sensitive today ty u d =
     (if ty = Sensitive_data_consent
      then if sql_exists (\<lambda>p. pr_user_id p = u \<and> years_before today 18 < pr_birthdate p) (user_profile d)
        then Inl (Thrown ''User must be at least 18 years old'')
        else Inr (d\<lparr>user_profile := sql_update (\<lambda>p. pr_user_id p = u) (\<lambda>p. p\<lparr>pr_sex := None\<rparr>) (user_profile d),
             user_preferences := sql_delete (\<lambda>p. pf_user_id p = u) (user_preferences d)\<rparr>)
      else if ty = Location_consent
      then Inr (d\<lparr>user_presence := sql_delete (\<lambda>p. pe_user_id p = u) (user_presence d)\<rparr>)
      else Inr d)"

definition consent_event :: "uuid \<Rightarrow> consent_type \<Rightarrow> bool \<Rightarrow> string \<Rightarrow> pg_time \<Rightarrow> nat \<Rightarrow> consent_row" where
  "consent_event u ty granted version t n =
     \<lparr> uc_user_id = u, uc_type = ty, uc_granted = granted, uc_document_version = version,
       uc_withdrawn_at = (if granted then None else Some t), uc_granted_at = t, uc_event_sequence = n \<rparr>"

definition withdraw_consent :: "uuid \<Rightarrow> consent_type \<Rightarrow> pg_time \<Rightarrow> db \<Rightarrow> db" where
  "withdraw_consent u ty t d =
     d\<lparr>user_consent := sql_update (\<lambda>c. consent_key c = (u, ty) \<and> active_consent c)
         (\<lambda>c. c\<lparr>uc_withdrawn_at := Some t\<rparr>) (user_consent d)\<rparr>"

definition unchanged_choice :: "uuid \<Rightarrow> consent_type \<Rightarrow> bool \<Rightarrow> string \<Rightarrow> db \<Rightarrow> bool" where
  "unchanged_choice u ty granted version d =
     (case latest_consent u ty d of None \<Rightarrow> False
      | Some c \<Rightarrow> uc_granted c = granted \<and> uc_document_version c = version)"

text \<open>A change reads the clock in two statements.\<close>

record consent_change =
  ch_type :: consent_type
  ch_granted :: bool

definition record_change ::
  "uuid \<Rightarrow> pg_date \<Rightarrow> pg_time \<Rightarrow> pg_time \<Rightarrow> consent_change \<Rightarrow> string \<Rightarrow> db \<Rightarrow> sql_error + db" where
  "record_change u today t1 t2 ch version d =
     (if unchanged_choice u (ch_type ch) (ch_granted ch) version d then Inr d
      else and_then (insert_consent
             (consent_event u (ch_type ch) (ch_granted ch) version t2 (consent_next_event d))
             (withdraw_consent u (ch_type ch) t1 d))
        (\<lambda>d2. if ch_granted ch then Inr d2 else withdraw_sensitive today (ch_type ch) u d2))"

fun record_changes ::
  "uuid \<Rightarrow> pg_date \<Rightarrow> (nat \<Rightarrow> pg_time) \<Rightarrow> legal_documents \<Rightarrow> nat \<Rightarrow> consent_change list \<Rightarrow> db \<Rightarrow> sql_error + db" where
  "record_changes u today clk v n [] d = Inr d"
| "record_changes u today clk v n (ch # chs) d =
     and_then (record_change u today (clk (2 * n)) (clk (2 * n + 1)) ch (legal_document_version (ch_type ch) v) d)
       (record_changes u today clk v (n + 1) chs)"

definition record_consents ::
  "uuid \<Rightarrow> pg_date \<Rightarrow> (nat \<Rightarrow> pg_time) \<Rightarrow> legal_documents \<Rightarrow> consent_change list \<Rightarrow> db \<Rightarrow> sql_error + bool \<times> db" where
  "record_consents u today clk v chs d =
     (if \<not> is_live u d then Inr (False, d)
      else and_then (record_changes u today clk v 0 chs d) (\<lambda>d2. Inr (True, d2)))"

section \<open>Writes that need consents\<close>

record profile_input =
  in_firstname :: string
  in_birthdate :: pg_date
  in_sex :: "sex option"
  in_bio :: "string option"

text \<open>The moderation case of the biography: dropped with the text, decided anew when the text changed.\<close>

definition is_bio_case :: "uuid \<Rightarrow> text_case_row \<Rightarrow> bool" where
  "is_bio_case u c \<longleftrightarrow> tm_user_id c = u \<and> tm_source c = Bio_text"

definition new_text_case :: "uuid \<Rightarrow> text_source \<Rightarrow> text_moderation \<Rightarrow> pg_time \<Rightarrow> text_case_row" where
  "new_text_case u src m t =
     \<lparr> tm_user_id = u, tm_source = src, tm_status = td_status m, tm_reasons = td_reasons m,
       tm_policy_version = td_policy_version m, tm_version = 1, tm_reviewed_by = None,
       tm_reviewed_at = None, tm_review_reason = None, tm_updated_at = t \<rparr>"

definition decide_bio :: "uuid \<Rightarrow> text_moderation \<Rightarrow> pg_time \<Rightarrow> db \<Rightarrow> db" where
  "decide_bio u m t d =
     (if sql_exists (is_bio_case u) (text_moderation_case d)
      then d\<lparr>text_moderation_case := sql_update (is_bio_case u)
        (\<lambda>c. (new_text_case u Bio_text m t)\<lparr>tm_version := tm_version c + 1\<rparr>) (text_moderation_case d)\<rparr>
      else d\<lparr>text_moderation_case := text_moderation_case d @ [new_text_case u Bio_text m t]\<rparr>)"

definition profile_of_input :: "uuid \<Rightarrow> profile_input \<Rightarrow> profile_row" where
  "profile_of_input u i = \<lparr> pr_user_id = u, pr_firstname = in_firstname i, pr_birthdate = in_birthdate i,
     pr_sex = in_sex i, pr_bio = in_bio i \<rparr>"

definition upsert_profile ::
  "uuid \<Rightarrow> pg_date \<Rightarrow> pg_time \<Rightarrow> profile_input \<Rightarrow> text_moderation \<Rightarrow> legal_documents \<Rightarrow> db \<Rightarrow> sql_error + bool \<times> db" where
  "upsert_profile u today clk i m v d =
     and_then (lock_legal_choices u (if in_sex i = None then None else Some Sensitive_data_consent) v d)
       (\<lambda>ok. if \<not> ok then Inr (False, d)
         else let current = sql_first (\<lambda>p. pr_user_id p = u) (user_profile d)
           in and_then (write_profile today (profile_of_input u i) d)
             (\<lambda>d1. if in_bio i = None \<or> in_bio i = Some []
               then Inr (True, d1\<lparr>text_moderation_case := sql_delete (is_bio_case u) (text_moderation_case d1)\<rparr>)
               else if (case current of None \<Rightarrow> True | Some p \<Rightarrow> pr_bio p \<noteq> in_bio i)
               then Inr (True, decide_bio u m clk d1)
               else Inr (True, d1)))"

definition upsert_preferences :: "uuid \<Rightarrow> preferences_row \<Rightarrow> legal_documents \<Rightarrow> db \<Rightarrow> sql_error + bool \<times> db" where
  "upsert_preferences u r v d =
     and_then (lock_legal_choices u (Some Sensitive_data_consent) v d)
       (\<lambda>ok. if \<not> ok then Inr (False, d)
         else and_then (write_preferences (r\<lparr>pf_user_id := u\<rparr>) d) (\<lambda>d1. Inr (True, d1)))"

definition upsert_presence ::
  "uuid \<Rightarrow> real \<Rightarrow> real \<Rightarrow> js_time \<Rightarrow> legal_documents \<Rightarrow> db \<Rightarrow> sql_error + bool \<times> db" where
  "upsert_presence u lat lon now v d =
     and_then (lock_legal_choices u (Some Location_consent) v d)
       (\<lambda>ok. if \<not> ok then Inr (False, d)
         else and_then (write_presence \<lparr> pe_user_id = u, pe_latitude = Some (numeric_6 lat),
             pe_longitude = Some (numeric_6 lon), pe_location_fresh = True, pe_updated_at = pg_of_js now \<rparr> d)
           (\<lambda>d1. Inr (True, d1)))"

definition find_preferences :: "uuid \<Rightarrow> db \<Rightarrow> preferences_row option" where
  "find_preferences u d = (if is_live u d then sql_first (\<lambda>p. pf_user_id p = u) (user_preferences d) else None)"

definition replace_deletion_token :: "uuid \<Rightarrow> uuid \<Rightarrow> string \<Rightarrow> js_time \<Rightarrow> db \<Rightarrow> bool \<times> db" where
  "replace_deletion_token u i hash expires d =
     (if \<not> is_live u d then (False, d)
      else (True, d\<lparr>account_deletion_token := sql_delete (\<lambda>t. dk_user_id t = u) (account_deletion_token d)
        @ [\<lparr> dk_id = i, dk_user_id = u, dk_token_hash = hash, dk_expires_at = pg_of_js expires \<rparr>]\<rparr>))"

end
