(* ===== verification/Discovery.thy ===== *)
theory Discovery
  imports Users Match_Service
begin

text \<open>
  \<open>src/discovery\<close>: who can be shown to whom (\<open>discovery.repository.ts\<close>), the swipes
  (\<open>discovery.store.ts\<close>) and the service. Distances are real numbers: the rounding of double precision is
  not modelled. The traits and answers that the page query joins to its rows are left out.
\<close>

section \<open>Readiness\<close>

definition document_consented :: "consent_type \<Rightarrow> string \<Rightarrow> uuid \<Rightarrow> db \<Rightarrow> bool" where
  "document_consented ty version u d = sql_exists (\<lambda>c. uc_user_id c = u \<and> uc_type c = ty \<and> uc_granted c \<and>
     uc_withdrawn_at c = None \<and> uc_document_version c = version) (user_consent d)"

definition fresh_presence :: "pg_time \<Rightarrow> presence_row \<Rightarrow> bool" where
  "fresh_presence now p \<longleftrightarrow> pe_location_fresh p \<and> now - 3600000000 < pe_updated_at p"

record discovery_status_row =
  dr_has_profile :: bool
  dr_has_sex :: bool
  dr_has_preferences :: bool
  dr_has_sensitive_consent :: bool
  dr_has_location_consent :: bool
  dr_has_fresh_presence :: bool
  dr_presence_expires_at :: "pg_time option"

definition discovery_status :: "string \<Rightarrow> string \<Rightarrow> pg_time \<Rightarrow> uuid \<Rightarrow> db \<Rightarrow> discovery_status_row" where
  "discovery_status sv lv now u d =
     \<lparr> dr_has_profile = sql_exists (\<lambda>p. pr_user_id p = u) (user_profile d),
       dr_has_sex = sql_exists (\<lambda>p. pr_user_id p = u \<and> pr_sex p \<noteq> None) (user_profile d),
       dr_has_preferences = sql_exists (\<lambda>p. pf_user_id p = u) (user_preferences d),
       dr_has_sensitive_consent = document_consented Sensitive_data_consent sv u d,
       dr_has_location_consent = document_consented Location_consent lv u d,
       dr_has_fresh_presence = sql_exists (\<lambda>p. pe_user_id p = u \<and> fresh_presence now p) (user_presence d),
       dr_presence_expires_at = map_option (\<lambda>p. pe_updated_at p + 3600000000)
         (sql_first (\<lambda>p. pe_user_id p = u) (user_presence d)) \<rparr>"

definition is_discovery_ready :: "string \<Rightarrow> string \<Rightarrow> pg_time \<Rightarrow> uuid \<Rightarrow> db \<Rightarrow> bool" where
  "is_discovery_ready sv lv now u d \<longleftrightarrow>
     sql_exists (\<lambda>a. ua_id a = u \<and> active_account a) (user_account d) \<and>
     sql_exists (\<lambda>p. pr_user_id p = u \<and> pr_sex p \<noteq> None) (user_profile d) \<and>
     sql_exists (\<lambda>p. pf_user_id p = u) (user_preferences d) \<and>
     sql_exists (\<lambda>p. pe_user_id p = u \<and> fresh_presence now p) (user_presence d) \<and>
     document_consented Sensitive_data_consent sv u d \<and> document_consented Location_consent lv u d"

section \<open>Candidates\<close>

record viewer =
  vw_sex :: sex
  vw_age :: int
  vw_min_age :: int
  vw_max_age :: int
  vw_max_distance_km :: int
  vw_looking_for :: looking_for
  vw_latitude :: "real option"
  vw_longitude :: "real option"

definition viewer_row :: "string \<Rightarrow> string \<Rightarrow> pg_date \<Rightarrow> pg_time \<Rightarrow> uuid \<Rightarrow> db \<Rightarrow> viewer option" where
  "viewer_row sv lv today now u d =
     (if sql_exists (\<lambda>a. ua_id a = u \<and> active_account a) (user_account d) \<and>
         document_consented Sensitive_data_consent sv u d \<and> document_consented Location_consent lv u d
      then case (sql_first (\<lambda>p. pr_user_id p = u \<and> pr_sex p \<noteq> None) (user_profile d),
             sql_first (\<lambda>p. pf_user_id p = u) (user_preferences d),
             sql_first (\<lambda>p. pe_user_id p = u \<and> fresh_presence now p) (user_presence d)) of
          (Some p, Some f, Some e) \<Rightarrow>
            Some \<lparr> vw_sex = the (pr_sex p), vw_age = full_years today (pr_birthdate p),
              vw_min_age = pf_min_age f, vw_max_age = pf_max_age f, vw_max_distance_km = pf_max_distance_km f,
              vw_looking_for = pf_looking_for f, vw_latitude = pe_latitude e, vw_longitude = pe_longitude e \<rparr>
        | _ \<Rightarrow> None
      else None)"

definition radians :: "real \<Rightarrow> real" where
  "radians x = x * pi / 180"

definition haversine_km :: "real \<Rightarrow> real \<Rightarrow> real \<Rightarrow> real \<Rightarrow> real" where
  "haversine_km lat1 lon1 lat2 lon2 =
     6371.0088 * 2 * arcsin (sqrt (min 1 (max 0
       (sin (radians ((lat2 - lat1) / 2)) ^ 2
        + cos (radians lat1) * cos (radians lat2) * sin (radians ((lon2 - lon1) / 2)) ^ 2))))"

text \<open>The box that the indexes search before the distance is computed.\<close>

definition latitude_delta :: "viewer \<Rightarrow> real" where
  "latitude_delta w = of_int (vw_max_distance_km w) / 111"

definition longitude_delta :: "viewer \<Rightarrow> real \<Rightarrow> real" where
  "longitude_delta w lat = of_int (vw_max_distance_km w) / (111 * max \<bar>cos (radians lat)\<bar> 0.01)"

definition in_box :: "viewer \<Rightarrow> real \<Rightarrow> real \<Rightarrow> real \<Rightarrow> real \<Rightarrow> bool" where
  "in_box w lat lon lat' lon' \<longleftrightarrow>
     lat - latitude_delta w \<le> lat' \<and> lat' \<le> lat + latitude_delta w \<and>
     (\<bar>lon' - lon\<bar> \<le> longitude_delta w lat \<or> 360 - longitude_delta w lat \<le> \<bar>lon' - lon\<bar>)"

definition interested_in :: "looking_for \<Rightarrow> sex \<Rightarrow> bool" where
  "interested_in l s \<longleftrightarrow> l = Looking_for s \<or> l = Both \<and> s \<in> {Male, Female}"

text \<open>The birthdates of the ages from \<open>lo\<close> to \<open>hi\<close>.\<close>

definition birthdate_between :: "pg_date \<Rightarrow> int \<Rightarrow> int \<Rightarrow> pg_date \<Rightarrow> bool" where
  "birthdate_between today lo hi b \<longleftrightarrow> years_before today (hi + 1) < b \<and> b \<le> years_before today lo"

record discovery_candidate =
  cd_user_id :: uuid
  cd_firstname :: string
  cd_age :: int
  cd_sex :: sex
  cd_bio :: "string option"
  cd_distance_km :: real

text \<open>NULL coordinates make the conditions on the box NULL: no row.\<close>

definition position_in_box :: "viewer \<Rightarrow> presence_row \<Rightarrow> bool" where
  "position_in_box w e \<longleftrightarrow>
     (case (vw_latitude w, vw_longitude w, pe_latitude e, pe_longitude e) of
        (Some lat, Some lon, Some lat', Some lon') \<Rightarrow> in_box w lat lon lat' lon'
      | _ \<Rightarrow> False)"

definition distance_to :: "viewer \<Rightarrow> presence_row \<Rightarrow> real" where
  "distance_to w e = haversine_km (the (vw_latitude w)) (the (vw_longitude w)) (the (pe_latitude e)) (the (pe_longitude e))"

definition unmatched :: "uuid \<Rightarrow> uuid \<Rightarrow> db \<Rightarrow> bool" where
  "unmatched u v d \<longleftrightarrow> \<not> sql_exists (\<lambda>m. mi_user1 m = u \<and> mi_user2 m = v \<or> mi_user1 m = v \<and> mi_user2 m = u) (match_init d)"

definition eligible_profile :: "pg_date \<Rightarrow> viewer \<Rightarrow> uuid option \<Rightarrow> uuid \<Rightarrow> profile_row \<Rightarrow> bool" where
  "eligible_profile today w target v p \<longleftrightarrow> pr_user_id p = v \<and>
     (case pr_sex p of None \<Rightarrow> False | Some s \<Rightarrow> interested_in (vw_looking_for w) s) \<and>
     birthdate_between today (vw_min_age w) (vw_max_age w) (pr_birthdate p) \<and>
     (case target of None \<Rightarrow> True | Some t \<Rightarrow> v = t)"

definition eligible_preferences :: "viewer \<Rightarrow> uuid \<Rightarrow> preferences_row \<Rightarrow> bool" where
  "eligible_preferences w v f \<longleftrightarrow> pf_user_id f = v \<and> pf_min_age f \<le> vw_age w \<and> vw_age w \<le> pf_max_age f \<and>
     interested_in (pf_looking_for f) (vw_sex w)"

text \<open>A biography is shown once it is approved.\<close>

definition visible_bio :: "profile_row \<Rightarrow> db \<Rightarrow> string option" where
  "visible_bio p d = (if sql_exists (\<lambda>c. is_bio_case (pr_user_id p) c \<and> tm_status c = Mod_approved) (text_moderation_case d)
     then pr_bio p else None)"

definition eligible_row ::
  "string \<Rightarrow> string \<Rightarrow> pg_date \<Rightarrow> pg_time \<Rightarrow> uuid \<Rightarrow> uuid option \<Rightarrow> viewer \<Rightarrow> presence_row \<Rightarrow> db \<Rightarrow> (discovery_candidate \<times> int) option" where
  "eligible_row sv lv today now u target w e d =
     (let v = pe_user_id e in
      if v \<noteq> u \<and> fresh_presence now e \<and> position_in_box w e \<and>
         sql_exists (\<lambda>a. ua_id a = v \<and> active_account a) (user_account d) \<and>
         document_consented Sensitive_data_consent sv v d \<and> document_consented Location_consent lv v d \<and>
         \<not> blocked_pair u v d \<and> unmatched u v d
      then case (sql_first (eligible_profile today w target v) (user_profile d),
             sql_first (eligible_preferences w v) (user_preferences d)) of
          (Some p, Some f) \<Rightarrow>
            Some (\<lparr> cd_user_id = v, cd_firstname = pr_firstname p, cd_age = full_years today (pr_birthdate p),
              cd_sex = the (pr_sex p), cd_bio = visible_bio p d, cd_distance_km = distance_to w e \<rparr>, pf_max_distance_km f)
        | _ \<Rightarrow> None
      else None)"

definition eligible ::
  "string \<Rightarrow> string \<Rightarrow> pg_date \<Rightarrow> pg_time \<Rightarrow> uuid \<Rightarrow> uuid option \<Rightarrow> db \<Rightarrow> discovery_candidate list" where
  "eligible sv lv today now u target d =
     (case viewer_row sv lv today now u d of
        None \<Rightarrow> []
      | Some w \<Rightarrow> map fst (filter (\<lambda>(c, m). cd_distance_km c \<le> of_int (min (vw_max_distance_km w) m))
          (List.map_filter (\<lambda>e. eligible_row sv lv today now u target w e d) (user_presence d))))"

record discovery_cursor =
  dc_distance_km :: real
  dc_id :: string

definition candidate_key :: "discovery_candidate \<Rightarrow> real \<times> uuid" where
  "candidate_key c = (cd_distance_km c, cd_user_id c)"

definition beyond :: "discovery_cursor option \<Rightarrow> discovery_candidate \<Rightarrow> bool" where
  "beyond cursor c \<longleftrightarrow> (case cursor of None \<Rightarrow> True | Some b \<Rightarrow> (dc_distance_km b, pg_uuid (dc_id b)) < candidate_key c)"

definition candidate_batch ::
  "string \<Rightarrow> string \<Rightarrow> pg_date \<Rightarrow> pg_time \<Rightarrow> uuid \<Rightarrow> nat \<Rightarrow> discovery_cursor option \<Rightarrow> uuid option \<Rightarrow> db \<Rightarrow> discovery_candidate list" where
  "candidate_batch sv lv today now u n cursor target d =
     sql_page candidate_key n (filter (beyond cursor) (eligible sv lv today now u target d))"

definition is_swipe_target_available :: "string \<Rightarrow> string \<Rightarrow> pg_date \<Rightarrow> pg_time \<Rightarrow> uuid \<Rightarrow> uuid \<Rightarrow> db \<Rightarrow> bool" where
  "is_swipe_target_available sv lv today now u v d \<longleftrightarrow>
     length (candidate_batch sv lv today now u 1 None (Some v) d) = 1"

section \<open>Swipes\<close>

definition swipe_key :: "uuid \<Rightarrow> uuid \<Rightarrow> swipe_row \<Rightarrow> bool" where
  "swipe_key u v s \<longleftrightarrow> sd_actor s = u \<and> sd_target s = v"

definition new_swipe :: "uuid \<Rightarrow> uuid \<Rightarrow> swipe_choice \<Rightarrow> pg_time \<Rightarrow> swipe_row" where
  "new_swipe u v c t = \<lparr> sd_actor = u, sd_target = v, sd_decision = c, sd_swiped_at = t,
     sd_expires_at = t + 365 * 86400000000 \<rparr>"

text \<open>The live-account trigger runs before the conflict is seen; then the foreign keys and the CHECK.\<close>

definition record_swipe ::
  "uuid \<Rightarrow> uuid \<Rightarrow> swipe_choice \<Rightarrow> js_time \<Rightarrow> db \<Rightarrow> sql_error + (bool \<times> swipe_choice) \<times> db" where
  "record_swipe u v c now d =
     (let t = pg_of_js now; key = swipe_key u v in
      if account_deleted u d \<or> account_deleted v d then Inl Live_account_trigger
      else if u = v then Inl Check_violation
      else case sql_first key (swipe_decision d) of
        None \<Rightarrow>
          if sql_exists (\<lambda>a. ua_id a = u) (user_account d) \<and> sql_exists (\<lambda>a. ua_id a = v) (user_account d)
          then Inr ((True, c), d\<lparr>swipe_decision := swipe_decision d @ [new_swipe u v c t]\<rparr>)
          else Inl Foreign_key_violation
      | Some s \<Rightarrow>
          if now < js_of_pg (sd_expires_at s) then Inr ((False, sd_decision s), d)
          else Inr ((True, c), d\<lparr>swipe_decision := sql_update key (\<lambda>_. new_swipe u v c t) (swipe_decision d)\<rparr>))"

definition find_swipe :: "pg_time \<Rightarrow> uuid \<Rightarrow> uuid \<Rightarrow> db \<Rightarrow> swipe_row option" where
  "find_swipe now u v d = sql_first (\<lambda>s. swipe_key u v s \<and> now < sd_expires_at s) (swipe_decision d)"

definition swiped_target_ids :: "pg_time \<Rightarrow> uuid \<Rightarrow> uuid list \<Rightarrow> db \<Rightarrow> uuid list" where
  "swiped_target_ids now u targets d =
     (if targets = [] then [] else map sd_target (filter (\<lambda>s. sd_actor s = u \<and> sd_target s \<in> set targets \<and>
        now < sd_expires_at s) (swipe_decision d)))"

end
