(* ===== verification/Discovery_Service.thy ===== *)
theory Discovery_Service
  imports Discovery Encoding
begin

text \<open>
  \<open>src/discovery/discovery.service.ts\<close>: the status, the feed and the swipes of a user. A statement reads the
  clock on its own: \<open>clk\<close> gives the reading of each. The text of a number, \<open>JSON.parse\<close> and
  \<open>isUUID\<close> are the library's and parameters.
\<close>

datatype discovery_action =
    Need_profile | Need_sex | Need_preferences | Need_sensitive_consent | Need_location_consent | Need_fresh_presence

record discovery_state =
  di_ready :: bool
  di_required_actions :: "discovery_action list"
  di_presence_expires_at :: "pg_time option"

definition status :: "string \<Rightarrow> string \<Rightarrow> pg_time \<Rightarrow> uuid \<Rightarrow> db \<Rightarrow> discovery_state" where
  "status sv lv now u d =
     (let r = discovery_status sv lv now u d;
          actions = (if \<not> dr_has_profile r then [Need_profile] else if \<not> dr_has_sex r then [Need_sex] else [])
            @ (if \<not> dr_has_preferences r then [Need_preferences] else [])
            @ (if \<not> dr_has_sensitive_consent r then [Need_sensitive_consent] else [])
            @ (if \<not> dr_has_location_consent r then [Need_location_consent] else [])
            @ (if \<not> dr_has_fresh_presence r then [Need_fresh_presence] else [])
      in \<lparr> di_ready = (actions = []), di_required_actions = actions,
           di_presence_expires_at = dr_presence_expires_at r \<rparr>)"

section \<open>The cursor\<close>

record number_library =
  show_number :: "real \<Rightarrow> string"
  parse_json :: "string \<Rightarrow> json option"
  is_uuid :: "string \<Rightarrow> bool"

definition discovery_cursor_json :: "number_library \<Rightarrow> discovery_cursor \<Rightarrow> string" where
  "discovery_cursor_json lib c = ''{\"distance_km\":'' @ show_number lib (dc_distance_km c) @ '',\"id\":\"'' @ dc_id c @ ''\"}''"

definition encode_discovery_cursor :: "number_library \<Rightarrow> real \<Rightarrow> string \<Rightarrow> string" where
  "encode_discovery_cursor lib x i =
     base64url_encode (discovery_cursor_json lib \<lparr> dc_distance_km = x, dc_id = i \<rparr>)"

definition decode_discovery_cursor :: "number_library \<Rightarrow> string option \<Rightarrow> api_error + discovery_cursor option" where
  "decode_discovery_cursor lib value =
     (case value of
        None \<Rightarrow> Inr None
      | Some [] \<Rightarrow> Inr None
      | Some text \<Rightarrow>
          (case parse_json lib (base64_decode text) of
             Some (Json_object fs) \<Rightarrow>
               (case (map_of fs ''distance_km'', map_of fs ''id'') of
                  (Some (Json_number (Some x)), Some (Json_string i)) \<Rightarrow>
                    if 0 \<le> x \<and> is_uuid lib i then Inr (Some \<lparr> dc_distance_km = x, dc_id = i \<rparr>)
                    else Inl (api_error 400 ''invalid_cursor'')
                | _ \<Rightarrow> Inl (api_error 400 ''invalid_cursor''))
           | _ \<Rightarrow> Inl (api_error 400 ''invalid_cursor'')))"

section \<open>The feed\<close>

definition max_feed_batches :: nat where
  "max_feed_batches = 20"

definition cursor_of :: "discovery_candidate \<Rightarrow> discovery_cursor" where
  "cursor_of c = \<lparr> dc_distance_km = cd_distance_km c, dc_id = cd_user_id c \<rparr>"

text \<open>
  Batches of candidates are read until one more than the page is visible, the candidates end, or the number of
  batches is spent: the visible ones, the cursor, and whether the candidates have ended.
\<close>

fun feed_loop ::
  "(nat \<Rightarrow> discovery_cursor option \<Rightarrow> discovery_candidate list) \<Rightarrow> (nat \<Rightarrow> uuid list \<Rightarrow> uuid list) \<Rightarrow> nat \<Rightarrow> nat \<Rightarrow>
    nat \<Rightarrow> nat \<Rightarrow> discovery_cursor option \<Rightarrow> discovery_candidate list \<Rightarrow> discovery_candidate list \<times> discovery_cursor option \<times> bool" where
  "feed_loop batch swiped limit batch_size 0 k cursor visible = (visible, cursor, False)"
| "feed_loop batch swiped limit batch_size (Suc n) k cursor visible =
     (if limit + 1 \<le> length visible then (visible, cursor, False)
      else let cs = batch k cursor in
        if cs = [] then (visible, cursor, True)
        else let gone = swiped k (map cd_user_id cs);
                 visible' = visible @ filter (\<lambda>c. cd_user_id c \<notin> set gone) cs;
                 cursor' = Some (cursor_of (last cs))
          in if length cs < batch_size then (visible', cursor', True)
             else feed_loop batch swiped limit batch_size n (k + 1) cursor' visible')"

definition to_feed_candidate :: "discovery_candidate \<Rightarrow> discovery_candidate" where
  "to_feed_candidate c = c\<lparr>cd_distance_km := of_int \<lfloor>cd_distance_km c * 10 + 1 / 2\<rfloor> / 10\<rparr>"

definition feed_answer ::
  "nat \<Rightarrow> discovery_candidate list \<times> discovery_cursor option \<times> bool \<Rightarrow> discovery_candidate list \<times> discovery_cursor option" where
  "feed_answer limit = (\<lambda>(visible, cursor, exhausted).
     (let has_more = limit < length visible \<or> \<not> exhausted; page = take limit visible in
      (page, if \<not> has_more then None
        else if limit < length visible \<and> page \<noteq> [] then Some (cursor_of (last page))
        else cursor)))"

definition feed ::
  "number_library \<Rightarrow> string \<Rightarrow> string \<Rightarrow> pg_date \<Rightarrow> (nat \<Rightarrow> pg_time) \<Rightarrow> uuid \<Rightarrow> nat \<Rightarrow> string option \<Rightarrow> db \<Rightarrow>
    api_error + discovery_candidate list \<times> string option" where
  "feed lib sv lv today clk u limit raw d =
     (if limit < 1 \<or> 100 < limit then Inl (api_error 400 ''invalid_feed_request'')
      else if \<not> is_discovery_ready sv lv (clk 0) u d then Inl (api_error 409 ''discovery_not_ready'')
      else case decode_discovery_cursor lib raw of
        Inl e \<Rightarrow> Inl e
      | Inr cursor \<Rightarrow>
          let batch_size = max 50 ((limit + 1) * 4);
              (page, next) = feed_answer limit (feed_loop
                (\<lambda>k c. candidate_batch sv lv today (clk (2 * k + 1)) u batch_size c None d)
                (\<lambda>k ids. swiped_target_ids (clk (2 * k + 2)) u ids d)
                limit batch_size max_feed_batches 0 cursor [])
          in Inr (map to_feed_candidate page,
               map_option (\<lambda>c. encode_discovery_cursor lib (dc_distance_km c) (dc_id c)) next))"

section \<open>Swipes\<close>

record swipe_answer =
  sw_decision :: swipe_choice
  sw_matched :: bool
  sw_match :: "public_match option"

text \<open>
  \<open>recordSwipe\<close> under the activity locks of both accounts: \<open>acquired\<close> when no erasure holds one,
  \<open>held\<close> when the connection of the locks survives. A failure of the write is a persistence error.
\<close>

definition persistence_error :: failure where
  "persistence_error = Api (api_error 503 ''discovery_unavailable'')"

definition record_swipe_active ::
  "bool \<Rightarrow> bool \<Rightarrow> uuid \<Rightarrow> uuid \<Rightarrow> swipe_choice \<Rightarrow> js_time \<Rightarrow> db \<Rightarrow> (failure + bool \<times> swipe_choice) \<times> db" where
  "record_swipe_active acquired held u v c now d =
     (if \<not> acquired \<or> \<not> list_all (\<lambda>i. has_active_account i d) [u, v]
      then (Inl (Api (api_error 409 ''account_unavailable'')), d)
      else case record_swipe u v c now d of
        Inl e \<Rightarrow> (Inl persistence_error, d)
      | Inr (r, d') \<Rightarrow>
          if held then (Inr r, d') else (Inl (Api (api_error 503 ''account_activity_unavailable'')), d'))"

definition swipe ::
  "number_library \<Rightarrow> string \<Rightarrow> string \<Rightarrow> (uuid \<Rightarrow> notify_env) \<Rightarrow> bool \<times> bool \<Rightarrow> pg_date \<Rightarrow> (nat \<Rightarrow> pg_time) \<Rightarrow> js_time \<Rightarrow> js_time \<Rightarrow>
    uuid \<Rightarrow> uuid \<Rightarrow> string \<Rightarrow> swipe_choice \<Rightarrow> db \<Rightarrow> swipe_answer served" where
  "swipe lib sv lv v locks today clk now now' i u target c d =
     (if u = target \<or> \<not> is_uuid lib target then refuse d 400 ''invalid_swipe_request''
      else if \<not> is_discovery_ready sv lv (clk 0) u d then refuse d 409 ''discovery_not_ready''
      else if \<not> is_swipe_target_available sv lv today (clk 1) u (pg_uuid target) d
      then refuse d 404 ''discovery_candidate_not_found''
      else case record_swipe_active (fst locks) (snd locks) u (pg_uuid target) c now d of
        (Inl f, d1) \<Rightarrow> (d1, Inl f, [])
      | (Inr (created, recorded), d1) \<Rightarrow>
          if \<not> created \<and> recorded \<noteq> c then refuse d1 409 ''swipe_already_recorded''
          else if c = Pass then (d1, Inr \<lparr> sw_decision = c, sw_matched = False, sw_match = None \<rparr>, [])
          else if (case find_swipe (clk 2) (pg_uuid target) u d1 of None \<Rightarrow> True | Some s \<Rightarrow> sd_decision s \<noteq> Like)
          then (d1, Inr \<lparr> sw_decision = c, sw_matched = False, sw_match = None \<rparr>, [])
          else (case create_from_mutual_like v i now' u target d1 of
              (d2, Inr m, ds) \<Rightarrow> (d2, Inr \<lparr> sw_decision = c, sw_matched = True, sw_match = Some m \<rparr>, ds)
            | (d2, Inl f, ds) \<Rightarrow> (d2, Inl f, ds)))"

end
