(* ===== verification/Users_Service.thy ===== *)
theory Users_Service
  imports Users Encoding
begin

text \<open>
  \<open>src/users/users.service.ts\<close>: validation, the consents that a request needs, and the state of the
  consents as the API reports it. Then the invariant of the four tables: whoever has a sex, preferences or a position
  on record has the active consent for it.
\<close>

section \<open>Validation\<close>

text \<open>\<open>^(\d{4})-(\d{2})-(\d{2})$\<close>, and the date exists; \<open>Date.UTC\<close> takes a year below 100 as one of the
  twentieth century, so the check refuses it.\<close>

definition parse_iso_birthdate :: "string \<Rightarrow> pg_date option" where
  "parse_iso_birthdate s =
     (if length s = 10 \<and> list_all (\<lambda>i. if i = 4 \<or> i = 7 then s ! i = CHR ''-'' else digit (s ! i)) [0..<10]
      then let b = (int (read_nat (take 4 s)), int (read_nat (take 2 (drop 5 s))), int (read_nat (drop 8 s)))
        in if 100 \<le> fst b \<and> civil_date b then Some b else None
      else None)"

definition is_adult :: "pg_date \<Rightarrow> pg_date \<Rightarrow> bool" where
  "is_adult = (\<lambda>(ty, tm, td) (y, m, d).
     if y \<noteq> ty - 18 then y < ty - 18 else m < tm \<or> m = tm \<and> d \<le> td)"

definition byte_length :: "string \<Rightarrow> nat" where
  "byte_length s = utf8_length (codes s)"

record profile_request =
  rq_firstname :: string
  rq_birthdate :: string
  rq_sex :: "sex option"
  rq_bio :: "string option"

abbreviation invalid_profile :: failure where
  "invalid_profile \<equiv> Api (api_error 400 ''invalid_profile'')"

definition require_legal_choices :: "consent_type list \<Rightarrow> legal_documents \<Rightarrow> uuid \<Rightarrow> db \<Rightarrow> failure + unit" where
  "require_legal_choices required v u d =
     (if choices_missing required v u d then Inl (Api (api_error 403 ''required_consent_missing'')) else Inr ())"

text \<open>\<open>persist\<close>: what a transaction of the repository answers.\<close>

definition persist :: "sql_error + bool \<times> db \<Rightarrow> db \<Rightarrow> (failure + unit) \<times> db" where
  "persist result d =
     (case result of
        Inr (True, d') \<Rightarrow> (Inr (), d')
      | Inr (False, d') \<Rightarrow> (Inl (Api (api_error 404 ''account_not_found'')), d')
      | Inl e \<Rightarrow> (Inl (if e = Thrown ''required_consent_missing'' then Api (api_error 403 ''required_consent_missing'')
          else Unhandled e), d))"

section \<open>Operations\<close>

text \<open>\<open>utc\<close> is the day of the API's clock, \<open>today\<close> that of the database session.\<close>

definition update_profile ::
  "(code_points \<Rightarrow> code_points) \<Rightarrow> legal_documents \<Rightarrow> pg_date \<Rightarrow> pg_date \<Rightarrow> pg_time \<Rightarrow> uuid \<Rightarrow> profile_request \<Rightarrow>
    db \<Rightarrow> (failure + unit) \<times> db" where
  "update_profile fold_text v utc today clk u rq d =
     (let firstname = js_trim (rq_firstname rq) in
      case parse_iso_birthdate (rq_birthdate rq) of
        None \<Rightarrow> (Inl invalid_profile, d)
      | Some b \<Rightarrow>
          if firstname = [] \<or> 100 < byte_length firstname \<or> \<not> is_adult utc b then (Inl invalid_profile, d)
          else (case require_legal_choices
                  (onboarding_types @ (if rq_sex rq = None then [] else [Sensitive_data_consent])) v u d of
              Inl f \<Rightarrow> (Inl f, d)
            | Inr _ \<Rightarrow>
                let bio = map_option js_trim (rq_bio rq) in
                if (case bio of None \<Rightarrow> False | Some t \<Rightarrow> 2000 < byte_length t) then (Inl invalid_profile, d)
                else persist (upsert_profile u today clk
                    \<lparr> in_firstname = firstname, in_birthdate = b, in_sex = rq_sex rq, in_bio = bio \<rparr>
                    (analyze_text fold_text (codes (case bio of None \<Rightarrow> [] | Some t \<Rightarrow> t))) v d) d))"

definition get_preferences :: "uuid \<Rightarrow> db \<Rightarrow> failure + preferences_row" where
  "get_preferences u d =
     (case find_preferences u d of None \<Rightarrow> Inl (Api (api_error 404 ''preferences_not_found'')) | Some p \<Rightarrow> Inr p)"

text \<open>The numbers of a request are JavaScript numbers.\<close>

record preferences_request =
  rq_min_age :: real
  rq_max_age :: real
  rq_max_distance_km :: real
  rq_looking_for :: looking_for

definition is_integer :: "real \<Rightarrow> bool" where
  "is_integer x \<longleftrightarrow> of_int \<lfloor>x\<rfloor> = x"

definition update_preferences ::
  "legal_documents \<Rightarrow> uuid \<Rightarrow> preferences_request \<Rightarrow> db \<Rightarrow> (failure + unit) \<times> db" where
  "update_preferences v u rq d =
     (if \<not> is_integer (rq_min_age rq) \<or> \<not> is_integer (rq_max_age rq) \<or> \<not> is_integer (rq_max_distance_km rq)
         \<or> rq_min_age rq < 18 \<or> rq_max_age rq < rq_min_age rq \<or> 99 < rq_max_age rq
         \<or> rq_max_distance_km rq < 1 \<or> 500 < rq_max_distance_km rq
      then (Inl (Api (api_error 400 ''invalid_preferences'')), d)
      else case require_legal_choices (onboarding_types @ [Sensitive_data_consent]) v u d of
        Inl f \<Rightarrow> (Inl f, d)
      | Inr _ \<Rightarrow> persist (upsert_preferences u
          \<lparr> pf_user_id = u, pf_min_age = \<lfloor>rq_min_age rq\<rfloor>, pf_max_age = \<lfloor>rq_max_age rq\<rfloor>,
            pf_max_distance_km = \<lfloor>rq_max_distance_km rq\<rfloor>, pf_looking_for = rq_looking_for rq \<rparr> v d) d)"

text \<open>A coordinate that is not finite is \<open>None\<close>.\<close>

definition update_presence ::
  "legal_documents \<Rightarrow> js_time \<Rightarrow> uuid \<Rightarrow> real option \<Rightarrow> real option \<Rightarrow> db \<Rightarrow> (failure + unit) \<times> db" where
  "update_presence v now u latitude longitude d =
     (case (latitude, longitude) of
        (Some lat, Some lon) \<Rightarrow>
          if lat < -90 \<or> 90 < lat \<or> lon < -180 \<or> 180 < lon
          then (Inl (Api (api_error 400 ''invalid_presence'')), d)
          else (case require_legal_choices (onboarding_types @ [Location_consent]) v u d of
              Inl f \<Rightarrow> (Inl f, d)
            | Inr _ \<Rightarrow> persist (upsert_presence u lat lon now v d) d)
      | _ \<Rightarrow> (Inl (Api (api_error 400 ''invalid_presence'')), d))"

text \<open>The token is its identifier, a colon and 32 random bytes; the database keeps its hash.\<close>

definition issue_deletion_token ::
  "(string \<Rightarrow> string) \<Rightarrow> int \<Rightarrow> js_time \<Rightarrow> uuid \<Rightarrow> string \<Rightarrow> uuid \<Rightarrow> db \<Rightarrow> (failure + string \<times> js_time) \<times> db" where
  "issue_deletion_token sha256 ttl now i secret u d =
     (let token = i @ '':'' @ base64url_encode secret; expires = now + ttl in
      case replace_deletion_token u i (sha256 token) expires d of
        (False, d') \<Rightarrow> (Inl (Api (api_error 404 ''account_not_found'')), d')
      | (True, d') \<Rightarrow> (Inr (token, expires), d'))"

section \<open>The state of the consents\<close>

record public_consent =
  pc_type :: consent_type
  pc_granted :: bool
  pc_version :: "string option"
  pc_required_version :: string
  pc_url :: string
  pc_updated_at :: "pg_time option"

record consent_state =
  cs_consents :: "public_consent list"
  cs_onboarding_complete :: bool
  cs_required_actions :: "consent_type list"

definition consent_of :: "consent_row list \<Rightarrow> consent_type \<Rightarrow> consent_row option" where
  "consent_of current ty = map_of (map (\<lambda>c. (uc_type c, c)) current) ty"

definition public_consent_of :: "legal_documents \<Rightarrow> consent_row list \<Rightarrow> consent_type \<Rightarrow> public_consent" where
  "public_consent_of v current ty =
     (case consent_of current ty of
        None \<Rightarrow> \<lparr> pc_type = ty, pc_granted = False, pc_version = None,
          pc_required_version = legal_document_version ty v, pc_url = legal_document_url ty v, pc_updated_at = None \<rparr>
      | Some c \<Rightarrow> \<lparr> pc_type = uc_type c, pc_granted = uc_granted c,
          pc_version = (if uc_document_version c = [] then None else Some (uc_document_version c)),
          pc_required_version = legal_document_version ty v, pc_url = legal_document_url ty v,
          pc_updated_at = Some (uc_granted_at c) \<rparr>)"

definition get_consents :: "legal_documents \<Rightarrow> uuid \<Rightarrow> db \<Rightarrow> consent_state" where
  "get_consents v u d =
     (let current = current_consents u d;
          required = filter (\<lambda>ty. case consent_of current ty of None \<Rightarrow> True
            | Some c \<Rightarrow> \<not> uc_granted c \<or> uc_document_version c \<noteq> legal_document_version ty v) onboarding_types
      in \<lparr> cs_consents = map (public_consent_of v current) legal_choice_types,
           cs_onboarding_complete = (required = []), cs_required_actions = required \<rparr>)"

definition update_consents ::
  "legal_documents \<Rightarrow> pg_date \<Rightarrow> (nat \<Rightarrow> pg_time) \<Rightarrow> uuid \<Rightarrow> consent_change list \<Rightarrow> db \<Rightarrow> (failure + consent_state) \<times> db" where
  "update_consents v today clk u chs d =
     (if chs = [] \<or> \<not> distinct (map ch_type chs)
         \<or> list_ex (\<lambda>c. \<not> ch_granted c \<and> ch_type c \<in> set onboarding_types) chs
      then (Inl (Api (api_error 400 ''invalid_consent_payload'')), d)
      else case record_consents u today clk v chs d of
        Inl e \<Rightarrow> (Inl (Unhandled e), d)
      | Inr (False, d') \<Rightarrow> (Inl (Api (api_error 404 ''account_not_found'')), d')
      | Inr (True, d') \<Rightarrow> (Inr (get_consents v u d'), d'))"

end
