(* ===== verification/Users_Lifecycle.thy ===== *)
theory Users_Lifecycle
  imports Users_Service
begin

text \<open>
  The invariant of profiles and consents: one active consent per user and type, always the latest event; whoever
  has a sex, preferences or a position on record has the active consent for it. Every transaction of the users
  component keeps it.
\<close>

section \<open>The invariant\<close>

definition has_consent :: "uuid \<Rightarrow> consent_type \<Rightarrow> db \<Rightarrow> bool" where
  "has_consent u ty d = sql_exists (\<lambda>c. consent_key c = (u, ty) \<and> active_consent c) (user_consent d)"

definition later_event :: "consent_row list \<Rightarrow> consent_row \<Rightarrow> bool" where
  "later_event t c \<longleftrightarrow> sql_exists (\<lambda>c'. consent_key c' = consent_key c \<and> uc_event_sequence c < uc_event_sequence c') t"

definition consents_ok :: "nat \<Rightarrow> consent_row list \<Rightarrow> bool" where
  "consents_ok n t \<longleftrightarrow> unique_where active_consent consent_key t \<and> distinct (map uc_event_sequence t) \<and>
     (\<forall>c \<in> set t. uc_event_sequence c < n \<and> (active_consent c \<longrightarrow> \<not> later_event t c) \<and>
       (uc_granted c \<and> uc_withdrawn_at c \<noteq> None \<longrightarrow> later_event t c))"

definition sensitive_data_ok :: "db \<Rightarrow> bool" where
  "sensitive_data_ok d \<longleftrightarrow>
     (\<forall>p \<in> set (user_profile d). pr_sex p \<noteq> None \<longrightarrow> has_consent (pr_user_id p) Sensitive_data_consent d) \<and>
     (\<forall>p \<in> set (user_preferences d). has_consent (pf_user_id p) Sensitive_data_consent d) \<and>
     (\<forall>p \<in> set (user_presence d). has_consent (pe_user_id p) Location_consent d)"

definition users_inv :: "db \<Rightarrow> bool" where
  "users_inv d \<longleftrightarrow> consents_ok (consent_next_event d) (user_consent d) \<and> sensitive_data_ok d \<and>
     distinct (map pr_user_id (user_profile d)) \<and> distinct (map pf_user_id (user_preferences d)) \<and>
     distinct (map pe_user_id (user_presence d))"

section \<open>Upserts\<close>

lemma set_upsert: "set (upsert key r t) \<subseteq> insert r {x \<in> set t. key x \<noteq> key r}"
  by (auto simp: upsert_def sql_exists_iff set_sql_update)

lemma distinct_upsert: "distinct (map key t) \<Longrightarrow> distinct (map key (upsert key r t))"
proof -
  assume d: "distinct (map key t)"
  have "map key (sql_update (\<lambda>x. key x = key r) (\<lambda>_. r) t) = map key t"
    by (simp add: sql_update_def)
  with d show ?thesis by (auto simp: upsert_def sql_exists_iff)
qed

section \<open>Consents\<close>

lemma lock_legal_choices_consent:
  assumes "lock_legal_choices u (Some ty) v d = Inr True"
  shows "has_consent u ty d"
proof -
  have "map_of (rev (active_legal_choices u (onboarding_types @ [ty]) d)) ty = Some (legal_document_version ty v)"
    using assms by (auto simp: lock_legal_choices_def choices_missing_def split: if_splits)
  from map_of_SomeD [OF this] show ?thesis
    by (auto simp: active_legal_choices_def has_consent_def sql_exists_iff consent_key_def)
qed

text \<open>The table after a change that is recorded: the active consent of the key is withdrawn, the event added.\<close>

abbreviation withdrawn :: "uuid \<Rightarrow> consent_type \<Rightarrow> pg_time \<Rightarrow> consent_row list \<Rightarrow> consent_row list" where
  "withdrawn u ty t \<equiv> sql_update (\<lambda>c. consent_key c = (u, ty) \<and> active_consent c) (\<lambda>c. c\<lparr>uc_withdrawn_at := Some t\<rparr>)"

lemma withdraw_fields [simp]:
  "consent_key (c\<lparr>uc_withdrawn_at := w\<rparr>) = consent_key c"
  "\<not> active_consent (c\<lparr>uc_withdrawn_at := Some t\<rparr>)"
  by (simp_all add: consent_key_def active_consent_def)

lemma event_fields [simp]:
  "consent_key (consent_event u ty g v t n) = (u, ty)"
  "active_consent (consent_event u ty g v t n) = g"
  "uc_event_sequence (consent_event u ty g v t n) = n"
  "uc_granted (consent_event u ty g v t n) = g"
  by (simp_all add: consent_event_def consent_key_def active_consent_def)

lemma none_active_withdrawn: "\<not> sql_exists (\<lambda>c. active_consent c \<and> consent_key c = (u, ty)) (withdrawn u ty t cs)"
  by (auto simp: sql_exists_iff set_sql_update)

lemma later_event_append: "later_event (t @ [e]) c \<longleftrightarrow>
    later_event t c \<or> consent_key e = consent_key c \<and> uc_event_sequence c < uc_event_sequence e"
  by (simp add: later_event_def)

lemma later_event_withdrawn: "later_event (withdrawn u ty t cs) c = later_event cs c"
  unfolding later_event_def sql_exists_sql_update by (rule arg_cong [where f = "\<lambda>p. sql_exists p cs"]) auto

lemma consents_ok_event:
  assumes "consents_ok n cs"
  shows "consents_ok (n + 1) (withdrawn u ty t1 cs @ [consent_event u ty g v t2 n])"
proof -
  let ?w = "withdrawn u ty t1 cs"
  let ?e = "consent_event u ty g v t2 n"
  have cs: "unique_where active_consent consent_key cs" "distinct (map uc_event_sequence cs)"
    "\<And>c. c \<in> set cs \<Longrightarrow> uc_event_sequence c < n" "\<And>c. c \<in> set cs \<Longrightarrow> active_consent c \<Longrightarrow> \<not> later_event cs c"
    "\<And>c. c \<in> set cs \<Longrightarrow> uc_granted c \<Longrightarrow> uc_withdrawn_at c \<noteq> None \<Longrightarrow> later_event cs c"
    using assms by (auto simp: consents_ok_def)
  have seqs: "map uc_event_sequence ?w = map uc_event_sequence cs" by (rule map_sql_update) simp
  have uniq: "unique_where active_consent consent_key ?w"
  proof -
    have "filter active_consent ?w = filter (\<lambda>c. active_consent c \<and> consent_key c \<noteq> (u, ty)) cs"
      by (induction cs) auto
    moreover have "distinct (map consent_key (filter (\<lambda>c. active_consent c \<and> consent_key c \<noteq> (u, ty)) cs))"
      using distinct_map_filter [OF cs(1) [unfolded unique_where_def], of "\<lambda>c. consent_key c \<noteq> (u, ty)"]
      by (simp only: filter_filter)
    ultimately show ?thesis by (simp add: unique_where_def)
  qed
  have row: "\<exists>c \<in> set cs. x = (if consent_key c = (u, ty) \<and> active_consent c then c\<lparr>uc_withdrawn_at := Some t1\<rparr> else c)"
    if "x \<in> set ?w" for x using that by (auto simp: set_sql_update)
  have "uc_event_sequence x < n + 1 \<and> (active_consent x \<longrightarrow> \<not> later_event (?w @ [?e]) x) \<and>
      (uc_granted x \<and> uc_withdrawn_at x \<noteq> None \<longrightarrow> later_event (?w @ [?e]) x)" if x: "x \<in> set ?w" for x
  proof -
    obtain c where c: "c \<in> set cs"
      "x = (if consent_key c = (u, ty) \<and> active_consent c then c\<lparr>uc_withdrawn_at := Some t1\<rparr> else c)"
      using row [OF x] by blast
    have same: "later_event cs x = later_event cs c" "consent_key x = consent_key c" "uc_event_sequence x = uc_event_sequence c"
      using c(2) by (auto simp: later_event_def)
    have later: "later_event (?w @ [?e]) x \<longleftrightarrow> later_event cs c \<or> (u, ty) = consent_key c \<and> uc_event_sequence c < n"
      by (simp add: later_event_append later_event_withdrawn same)
    show ?thesis
      unfolding later same(3)
      using cs(3-5) [OF c(1)] by (simp add: c(2)) (auto simp: active_consent_def)
  qed
  moreover have "\<not> later_event (?w @ [?e]) ?e"
    by (auto simp: later_event_def sql_exists_iff set_sql_update dest: cs(3))
  moreover have "n \<notin> set (map uc_event_sequence ?w)" unfolding seqs using cs(3) by auto
  moreover have "unique_where active_consent consent_key (?w @ [?e])"
    using uniq none_active_withdrawn [of u ty t1 cs] by (auto simp: unique_where_def sql_exists_iff)
  ultimately show ?thesis
    using cs(2) seqs unfolding consents_ok_def
    by (auto simp: consent_event_def)
qed

lemma has_consent_frame [simp]:
  "has_consent w ty (d\<lparr>user_profile := x\<rparr>) = has_consent w ty d"
  "has_consent w ty (d\<lparr>user_preferences := y\<rparr>) = has_consent w ty d"
  "has_consent w ty (d\<lparr>user_presence := z\<rparr>) = has_consent w ty d"
  "has_consent w ty (d\<lparr>text_moderation_case := m\<rparr>) = has_consent w ty d"
  by (simp_all add: has_consent_def)

lemma exists_withdrawn:
  "sql_exists (\<lambda>c. consent_key c = (w, ty') \<and> active_consent c) (withdrawn u ty t1 cs) \<longleftrightarrow>
    (w, ty') \<noteq> (u, ty) \<and> sql_exists (\<lambda>c. consent_key c = (w, ty') \<and> active_consent c) cs"
  by (induction cs) auto

lemma has_consent_event:
  "has_consent w ty' (d\<lparr>user_consent := withdrawn u ty t1 (user_consent d) @ [consent_event u ty g v t2 n],
      consent_next_event := m\<rparr>)
    \<longleftrightarrow> (if w = u \<and> ty' = ty then g else has_consent w ty' d)"
  by (auto simp: has_consent_def exists_withdrawn)

lemma sorted_last: "sorted (map k xs) \<Longrightarrow> x \<in> set xs \<Longrightarrow> k x \<le> k (last xs)"
  by (induction xs rule: rev_induct) (auto simp: sorted_append)

text \<open>The latest event of a key is the one no other follows.\<close>

lemma latest_consent_iff:
  assumes "distinct (map uc_event_sequence (user_consent d))"
  shows "latest_consent u ty d = Some c \<longleftrightarrow>
    c \<in> set (user_consent d) \<and> consent_key c = (u, ty) \<and> \<not> later_event (user_consent d) c"
proof -
  let ?L = "filter (\<lambda>c. uc_user_id c = u \<and> uc_type c = ty) (user_consent d)"
  let ?S = "sort_key uc_event_sequence ?L"
  have first: "sql_first (\<lambda>_. True) (rev xs) = (if xs = [] then None else Some (last xs))" for xs :: "consent_row list"
    by (cases xs rule: rev_cases) simp_all
  have mem: "x \<in> set ?S \<longleftrightarrow> x \<in> set (user_consent d) \<and> consent_key x = (u, ty)" for x
    by (auto simp: consent_key_def)
  have greatest: "uc_event_sequence x \<le> uc_event_sequence (last ?S)" if "x \<in> set ?S" for x
    by (rule sorted_last [OF _ that]) simp
  have inj: "x = y" if "x \<in> set (user_consent d)" "y \<in> set (user_consent d)" "uc_event_sequence x = uc_event_sequence y" for x y
    using assms that by (auto simp: distinct_map inj_on_def)
  show ?thesis
  proof
    assume "latest_consent u ty d = Some c"
    then have c: "c = last ?S" "?S \<noteq> []" by (auto simp: latest_consent_def first split: if_splits)
    have "c \<in> set ?S" unfolding c(1) by (rule last_in_set [OF c(2)])
    moreover have "\<not> later_event (user_consent d) c"
    proof
      assume "later_event (user_consent d) c"
      then obtain c' where c': "c' \<in> set (user_consent d)" "consent_key c' = consent_key c" "uc_event_sequence c < uc_event_sequence c'"
        unfolding later_event_def sql_exists_iff by blast
      moreover have "consent_key c = (u, ty)" using \<open>c \<in> set ?S\<close> mem by blast
      ultimately have "c' \<in> set ?S" using mem by simp
      from greatest [OF this] c'(3) show False unfolding c(1) by (rule leD [THEN notE])
    qed
    ultimately show "c \<in> set (user_consent d) \<and> consent_key c = (u, ty) \<and> \<not> later_event (user_consent d) c"
      using mem by blast
  next
    assume c: "c \<in> set (user_consent d) \<and> consent_key c = (u, ty) \<and> \<not> later_event (user_consent d) c"
    then have "c \<in> set ?S" using mem by blast
    then have ne: "?S \<noteq> []" by (metis empty_iff empty_set)
    then have l: "last ?S \<in> set (user_consent d)" "consent_key (last ?S) = (u, ty)" using mem last_in_set by blast+
    then have "\<not> uc_event_sequence c < uc_event_sequence (last ?S)"
      using c unfolding later_event_def sql_exists_iff by metis
    with greatest [OF \<open>c \<in> set ?S\<close>] have "last ?S = c" using inj l(1) c by (metis le_neq_implies_less)
    with ne show "latest_consent u ty d = Some c" by (simp add: latest_consent_def first)
  qed
qed

text \<open>What the API reports as granted is what the other components act on.\<close>

lemma latest_granted:
  assumes "consents_ok n (user_consent d)"
  shows "(\<exists>c. latest_consent u ty d = Some c \<and> uc_granted c) \<longleftrightarrow> has_consent u ty d"
  using assms unfolding consents_ok_def latest_consent_iff [OF assms [unfolded consents_ok_def, THEN conjunct2, THEN conjunct1]]
    has_consent_def sql_exists_iff active_consent_def
  by blast

section \<open>The transactions\<close>

lemma users_inv_profile:
  assumes "users_inv d" "write_profile today r d = Inr d'" "pr_sex r \<noteq> None \<Longrightarrow> has_consent (pr_user_id r) Sensitive_data_consent d"
  shows "users_inv d'"
  using assms set_upsert [of pr_user_id r "user_profile d"] distinct_upsert [of pr_user_id "user_profile d" r]
  by (auto simp: users_inv_def sensitive_data_ok_def write_profile_def has_consent_def split: if_splits)

lemma users_inv_preferences:
  assumes "users_inv d" "write_preferences r d = Inr d'" "has_consent (pf_user_id r) Sensitive_data_consent d"
  shows "users_inv d'"
  using assms set_upsert [of pf_user_id r "user_preferences d"] distinct_upsert [of pf_user_id "user_preferences d" r]
  by (auto simp: users_inv_def sensitive_data_ok_def write_preferences_def has_consent_def split: if_splits)

lemma users_inv_presence:
  assumes "users_inv d" "write_presence r d = Inr d'" "has_consent (pe_user_id r) Location_consent d"
  shows "users_inv d'"
  using assms set_upsert [of pe_user_id r "user_presence d"] distinct_upsert [of pe_user_id "user_presence d" r]
  by (auto simp: users_inv_def sensitive_data_ok_def write_presence_def has_consent_def split: if_splits)

lemma users_inv_change:
  assumes "users_inv d" "record_change u today t1 t2 ch v d = Inr d'"
  shows "users_inv d'"
proof (cases "unchanged_choice u (ch_type ch) (ch_granted ch) v d")
  case True
  with assms show ?thesis by (simp add: record_change_def)
next
  case False
  let ?n = "consent_next_event d"
  let ?d = "d\<lparr>user_consent := withdrawn u (ch_type ch) t1 (user_consent d)
    @ [consent_event u (ch_type ch) (ch_granted ch) v t2 ?n], consent_next_event := ?n + 1\<rparr>"
  have "insert_consent (consent_event u (ch_type ch) (ch_granted ch) v t2 ?n) (withdraw_consent u (ch_type ch) t1 d) = Inr ?d
    \<or> account_deleted u (withdraw_consent u (ch_type ch) t1 d)"
    using none_active_withdrawn [of u "ch_type ch" t1 "user_consent d"]
    by (auto simp: insert_consent_def withdraw_consent_def consent_event_def [of u "ch_type ch"] active_consent_def consent_key_def)
  then have d': "if ch_granted ch then d' = ?d else withdraw_sensitive today (ch_type ch) u ?d = Inr d'"
    using assms(2) False by (auto simp: record_change_def insert_consent_def consent_event_def split: if_splits)
  have ok: "consents_ok (consent_next_event ?d) (user_consent ?d)"
    using assms(1) consents_ok_event by (simp add: users_inv_def)
  show ?thesis
  proof (cases "ch_granted ch")
    case True
    with d' have d': "d' = ?d" by simp
    show ?thesis
      using assms(1) ok unfolding d' users_inv_def sensitive_data_ok_def has_consent_event by (auto simp: True)
  next
    case False
    with d' have "withdraw_sensitive today (ch_type ch) u ?d = Inr d'" by simp
    then show ?thesis
      using assms(1) ok False has_consent_event [where d = d and u = u and ty = "ch_type ch" and ?t1.0 = t1 and g = False
          and v = v and ?t2.0 = t2 and n = ?n and m = "?n + 1"]
      unfolding users_inv_def sensitive_data_ok_def withdraw_sensitive_def
      by (auto simp: map_sql_update distinct_map_sql_delete set_sql_update split: if_splits)
  qed
qed

text \<open>Any transaction of the component. The statements of others keep these tables, or erase an account whole.\<close>

inductive users_step :: "db \<Rightarrow> db \<Rightarrow> bool" where
  profile: "upsert_profile u today clk i m v d = Inr (b, d') \<Longrightarrow> users_step d d'"
| preferences: "upsert_preferences u r v d = Inr (b, d') \<Longrightarrow> users_step d d'"
| presence: "upsert_presence u lat lon now v d = Inr (b, d') \<Longrightarrow> users_step d d'"
| consents: "record_consents u today clks v chs d = Inr (b, d') \<Longrightarrow> users_step d d'"
| token: "replace_deletion_token u i hash expires d = (b, d') \<Longrightarrow> users_step d d'"

lemma users_inv_frame:
  "users_inv (d\<lparr>text_moderation_case := x\<rparr>) = users_inv d"
  "users_inv (d\<lparr>account_deletion_token := y\<rparr>) = users_inv d"
  by (simp_all add: users_inv_def sensitive_data_ok_def has_consent_def)

lemma users_inv_changes:
  "record_changes u today clk v n chs d = Inr d' \<Longrightarrow> users_inv d \<Longrightarrow> users_inv d'"
proof (induction chs arbitrary: n d)
  case (Cons ch chs)
  then obtain d1 where "record_change u today (clk (2 * n)) (clk (2 * n + 1)) ch (legal_document_version (ch_type ch) v) d = Inr d1"
    "record_changes u today clk v (n + 1) chs d1 = Inr d'"
    by (auto simp: and_then_Inr_iff)
  with Cons.IH users_inv_change [OF Cons.prems(2)] show ?case by blast
qed simp

lemma lock_consent_cases:
  assumes "lock_legal_choices u (if s = None then None else Some ty) v d = Inr True" "s \<noteq> None"
  shows "has_consent u ty d"
  using assms lock_legal_choices_consent by (auto split: if_splits)

lemma users_inv_step: "users_step d d' \<Longrightarrow> users_inv d \<Longrightarrow> users_inv d'"
proof (induction rule: users_step.induct)
  case (profile u today clk i m v d b d')
  show ?case
  proof (cases b)
    case False
    with profile show ?thesis by (auto simp: upsert_profile_def and_then_Inr_iff Let_def split: if_splits)
  next
    case True
    then obtain d1 where d1: "lock_legal_choices u (if in_sex i = None then None else Some Sensitive_data_consent) v d = Inr True"
      "write_profile today (profile_of_input u i) d = Inr d1" "\<exists>x. d' = d1\<lparr>text_moderation_case := x\<rparr>"
    proof -
      from profile(1) True obtain ok d1 where a: "lock_legal_choices u (if in_sex i = None then None else Some Sensitive_data_consent) v d = Inr ok"
        "ok" "write_profile today (profile_of_input u i) d = Inr d1" "d' = d1 \<or> (\<exists>x. d' = d1\<lparr>text_moderation_case := x\<rparr>)"
        by (auto simp: upsert_profile_def and_then_Inr_iff Let_def decide_bio_def split: if_splits)
      have "d1 = d1\<lparr>text_moderation_case := text_moderation_case d1\<rparr>" by simp
      with a(4) have "\<exists>x. d' = d1\<lparr>text_moderation_case := x\<rparr>" by metis
      with a that show ?thesis by simp
    qed
    have "users_inv d1"
      by (rule users_inv_profile [OF profile(2) d1(2)])
        (use lock_consent_cases [OF d1(1)] in \<open>simp add: profile_of_input_def\<close>)
    with d1(3) show ?thesis by (auto simp: users_inv_frame)
  qed
next
  case (preferences u r v d b d')
  then consider "d' = d" | "lock_legal_choices u (Some Sensitive_data_consent) v d = Inr True"
      "write_preferences (r\<lparr>pf_user_id := u\<rparr>) d = Inr d'"
    by (auto simp: upsert_preferences_def and_then_Inr_iff split: if_splits)
  then show ?case
  proof cases
    case 2
    show ?thesis
      by (rule users_inv_preferences [OF preferences(2) 2(2)]) (use lock_legal_choices_consent [OF 2(1)] in simp)
  qed (use preferences(2) in simp)
next
  case (presence u lat lon now v d b d')
  then consider "d' = d" | r where "lock_legal_choices u (Some Location_consent) v d = Inr True"
      "write_presence r d = Inr d'" "pe_user_id r = u"
    by (auto simp: upsert_presence_def and_then_Inr_iff split: if_splits)
  then show ?case
  proof cases
    case 2
    show ?thesis
      by (rule users_inv_presence [OF presence(2) 2(2)]) (use lock_legal_choices_consent [OF 2(1)] 2(3) in simp)
  qed (use presence(2) in simp)
next
  case (consents u today clks v chs d b d')
  then show ?case
    by (auto simp: record_consents_def and_then_Inr_iff split: if_splits intro: users_inv_changes)
next
  case (token u i hash expires d b d')
  then show ?case by (auto simp: replace_deletion_token_def users_inv_frame split: if_splits)
qed

lemma latest_consent_type: "latest_consent u ty d = Some c \<Longrightarrow> uc_type c = ty"
  by (auto simp: latest_consent_def dest!: sql_first_SomeD)

lemma consent_of_current: "consent_of (current_consents u d) ty = latest_consent u ty d"
proof -
  have step: "map_of (map (\<lambda>c. (uc_type c, c)) (List.map_filter (\<lambda>ty. latest_consent u ty d) tys)) ty =
      (if ty \<in> set tys then latest_consent u ty d else None)" for tys
    by (induction tys) (auto simp: List.map_filter_simps dest: latest_consent_type split: option.splits)
  show ?thesis unfolding consent_of_def current_consents_def step by (cases ty) simp_all
qed

text \<open>C28. Whatever transactions of the users component run, in whatever order: a profile has a sex, and a user has
  preferences, only while the consent to sensitive data is active, and a position only while the consent to location
  is; and what the API reports as granted is exactly what is active.\<close>

theorem sensitive_data_needs_consent:
  assumes "users_step\<^sup>*\<^sup>* d d'" "users_inv d"
  shows "(\<forall>p \<in> set (user_profile d'). pr_sex p \<noteq> None \<longrightarrow> has_consent (pr_user_id p) Sensitive_data_consent d') \<and>
     (\<forall>p \<in> set (user_preferences d'). has_consent (pf_user_id p) Sensitive_data_consent d') \<and>
     (\<forall>p \<in> set (user_presence d'). has_consent (pe_user_id p) Location_consent d') \<and>
     (\<forall>v u ty. pc_granted (public_consent_of v (current_consents u d') ty) \<longleftrightarrow> has_consent u ty d')"
proof -
  have inv: "users_inv d'" using assms by (induction rule: rtranclp_induct) (auto intro: users_inv_step)
  then have ok: "consents_ok (consent_next_event d') (user_consent d')" by (simp add: users_inv_def)
  have "pc_granted (public_consent_of v (current_consents u d') ty) \<longleftrightarrow> has_consent u ty d'" for v u ty
    using latest_granted [OF ok, of u ty] by (auto simp: public_consent_of_def consent_of_current split: option.splits)
  with inv show ?thesis by (simp add: users_inv_def sensitive_data_ok_def)
qed

text \<open>A user who accepted everything sets preferences and a profile with a sex, then withdraws.\<close>

definition sample_documents :: legal_documents where
  "sample_documents = \<lparr> ld_terms = ''t1'', ld_privacy = ''p1'', ld_sensitive = ''s1'', ld_location = ''l1'',
     ld_terms_url = [], ld_privacy_url = [], ld_sensitive_url = [], ld_location_url = [] \<rparr>"

definition new_user :: db where
  "new_user = empty_db\<lparr>user_account := [\<lparr> ua_id = ''u'', ua_role = User, ua_phone_hash = ''h'',
     ua_phone_encrypted = ''e'', ua_banned = False, ua_deleted_at = None \<rparr>]\<rparr>"

definition all_granted :: "consent_change list" where
  "all_granted = map (\<lambda>ty. \<lparr> ch_type = ty, ch_granted = True \<rparr>) legal_choice_types"

definition ada :: profile_input where
  "ada = \<lparr> in_firstname = ''Ada'', in_birthdate = (1990, 5, 17), in_sex = Some Female, in_bio = None \<rparr>"

definition run_ada :: "consent_change list \<Rightarrow> sql_error + db" where
  "run_ada chs =
     and_then (record_consents ''u'' (2026, 1, 1) int sample_documents all_granted new_user) (\<lambda>(_, d1).
     and_then (upsert_profile ''u'' (2026, 1, 1) 9 ada (analyze_text id []) sample_documents d1) (\<lambda>(_, d2).
     and_then (record_consents ''u'' (2026, 1, 2) int sample_documents chs d2) (\<lambda>(_, d3). Inr d3)))"

lemma run_ada_steps: "run_ada chs = Inr d' \<Longrightarrow> users_step\<^sup>*\<^sup>* new_user d'"
  unfolding run_ada_def and_then_Inr_iff
  by (auto simp: and_then_Inr_iff) (meson converse_rtranclp_into_rtranclp r_into_rtranclp users_step.intros)

lemma new_user_inv: "users_inv new_user"
  by (simp add: users_inv_def consents_ok_def sensitive_data_ok_def new_user_def empty_db_def)

lemma ada_keeps: "map_option (map pr_sex \<circ> user_profile) (case run_ada [] of Inr d \<Rightarrow> Some d | Inl _ \<Rightarrow> None) = Some [Some Female]"
  by code_simp

lemma ada_withdraws:
  "map_option (map pr_sex \<circ> user_profile)
     (case run_ada [\<lparr> ch_type = Sensitive_data_consent, ch_granted = False \<rparr>] of Inr d \<Rightarrow> Some d | Inl _ \<Rightarrow> None) = Some [None]"
  by code_simp

theorem sensitive_data_needs_consent_witness:
  "\<exists>d'. run_ada [] = Inr d' \<and> map pr_sex (user_profile d') = [Some Female] \<and> has_consent ''u'' Sensitive_data_consent d'"
proof -
  obtain d' where d': "run_ada [] = Inr d'" "map pr_sex (user_profile d') = [Some Female]"
    using ada_keeps by (auto split: sum.splits)
  have "map pr_user_id (user_profile d') = [''u'']"
  proof -
    have "map_option (map pr_user_id \<circ> user_profile) (case run_ada [] of Inr d \<Rightarrow> Some d | Inl _ \<Rightarrow> None) = Some [''u'']"
      by code_simp
    with d'(1) show ?thesis by simp
  qed
  with d'(2) obtain p where p: "p \<in> set (user_profile d')" "pr_user_id p = ''u''" "pr_sex p = Some Female" by auto
  have "has_consent (pr_user_id p) Sensitive_data_consent d'"
    using sensitive_data_needs_consent [OF run_ada_steps [OF d'(1)] new_user_inv] p(1,3) by auto
  with d' p(2) show ?thesis by auto
qed

end
