(* ===== verification/Discovery_Walk.thy ===== *)
theory Discovery_Walk
  imports Discovery_Service Users_Lifecycle
begin

text \<open>
  A client that follows the feed's cursor to its end, and the symmetry of the candidates. While nobody moves and
  nobody is swiped, the walk ends and lists every candidate not swiped yet exactly once, the nearest first.
\<close>

section \<open>Positions in the sorted candidates\<close>

definition sorted_candidates :: "discovery_candidate list \<Rightarrow> bool" where
  "sorted_candidates L \<longleftrightarrow> sorted_wrt (\<lambda>a b. candidate_key a < candidate_key b) L \<and>
     (\<forall>c \<in> set L. pg_uuid (cd_user_id c) = cd_user_id c)"

text \<open>The cursor was made from a candidate and stands after the first \<open>i\<close> of them.\<close>

definition stands_at :: "discovery_candidate list \<Rightarrow> discovery_cursor option \<Rightarrow> nat \<Rightarrow> bool" where
  "stands_at L cursor i \<longleftrightarrow> i \<le> length L \<and> filter (beyond cursor) L = drop i L \<and>
     (\<forall>b. cursor = Some b \<longrightarrow> b \<in> cursor_of ` set L)"

lemma stands_at_start: "stands_at L None 0"
  by (simp add: stands_at_def beyond_def)

lemma beyond_cursor_of: "pg_uuid (cd_user_id a) = cd_user_id a \<Longrightarrow> beyond (Some (cursor_of a)) c \<longleftrightarrow> candidate_key a < candidate_key c"
  by (simp add: beyond_def cursor_of_def candidate_key_def)

lemma stands_at_cursor:
  assumes "sorted_candidates L" "i < length L"
  shows "stands_at L (Some (cursor_of (L ! i))) (Suc i)"
proof -
  have wrt: "sorted_wrt (\<lambda>a b. candidate_key a < candidate_key b) L" and
    id: "pg_uuid (cd_user_id (L ! i)) = cd_user_id (L ! i)"
    using assms by (auto simp: sorted_candidates_def)
  have split: "L = take i L @ L ! i # drop (Suc i) L" by (rule id_take_nth_drop [OF assms(2)])
  from wrt have "sorted_wrt (\<lambda>a b. candidate_key a < candidate_key b) (take i L @ L ! i # drop (Suc i) L)"
    using split by simp
  then have before: "\<forall>a \<in> set (take i L). candidate_key a < candidate_key (L ! i)"
    and after: "\<forall>b \<in> set (drop (Suc i) L). candidate_key (L ! i) < candidate_key b"
    by (auto simp: sorted_wrt_append)
  have "filter (\<lambda>c. candidate_key (L ! i) < candidate_key c) (take i L @ L ! i # drop (Suc i) L) = drop (Suc i) L"
    using before after by (auto simp: filter_empty_conv filter_id_conv intro: less_asym)
  then have "filter (\<lambda>c. candidate_key (L ! i) < candidate_key c) L = drop (Suc i) L"
    using split by simp
  then show ?thesis using assms(2) by (simp add: stands_at_def beyond_cursor_of [OF id, abs_def])
qed

text \<open>The first hits of a filter come from a prefix that ends with the last of them.\<close>

lemma take_filter_position:
  "0 < n \<Longrightarrow> n \<le> length (filter p xs) \<Longrightarrow>
    \<exists>m < length xs. take n (filter p xs) = filter p (take (Suc m) xs) \<and> last (take n (filter p xs)) = xs ! m"
proof (induction xs arbitrary: n)
  case (Cons x xs)
  show ?case
  proof (cases "p x")
    case False
    with Cons.IH [OF Cons.prems(1)] Cons.prems(2) obtain m where
      "m < length xs" "take n (filter p xs) = filter p (take (Suc m) xs)" "last (take n (filter p xs)) = xs ! m"
      by auto
    with False show ?thesis by (intro exI [of _ "Suc m"]) simp
  next
    case True
    show ?thesis
    proof (cases "n = 1")
      case True
      with \<open>p x\<close> show ?thesis by (intro exI [of _ 0]) simp
    next
      case False
      with Cons.prems have n: "0 < n - 1" "n - 1 \<le> length (filter p xs)" using True by auto
      from Cons.IH [OF n] obtain m where m: "m < length xs"
        "take (n - 1) (filter p xs) = filter p (take (Suc m) xs)" "last (take (n - 1) (filter p xs)) = xs ! m" by blast
      have "take (n - 1) (filter p xs) \<noteq> []" using n by auto
      with m True n show ?thesis by (intro exI [of _ "Suc m"]) (auto simp: take_Cons' split: if_splits)
    qed
  qed
qed simp

section \<open>One request\<close>

locale stable_feed =
  fixes L :: "discovery_candidate list" and gone :: "uuid set"
    and batch :: "nat \<Rightarrow> discovery_cursor option \<Rightarrow> discovery_candidate list" and swiped :: "nat \<Rightarrow> uuid list \<Rightarrow> uuid list"
    and limit batch_size :: nat
  assumes batch: "batch k cursor = take batch_size (filter (beyond cursor) L)"
    and swiped: "ids \<subseteq> set is \<Longrightarrow> v \<in> ids \<Longrightarrow> v \<in> set (swiped k is) \<longleftrightarrow> v \<in> gone"
    and sizes: "0 < limit" "0 < batch_size"
begin

abbreviation visible_in :: "discovery_candidate list \<Rightarrow> discovery_candidate list" where
  "visible_in \<equiv> filter (\<lambda>c. cd_user_id c \<notin> gone)"

lemma loop_progress:
  assumes sorted: "sorted_candidates L" and "stands_at L cursor i"
  shows "\<exists>j cursor' ended. feed_loop batch swiped limit batch_size n k cursor shown
      = (shown @ visible_in (take (j - i) (drop i L)), cursor', ended)
    \<and> stands_at L cursor' j \<and> i \<le> j \<and> (ended \<longrightarrow> j = length L)
    \<and> (cursor \<noteq> None \<longrightarrow> cursor' \<noteq> None)
    \<and> (0 < n \<and> length shown < limit + 1 \<and> \<not> ended \<longrightarrow> i < j \<and> cursor' \<noteq> None)"
  using assms(2)
proof (induction n arbitrary: k cursor i shown)
  case 0
  then show ?case by (intro exI [of _ i] exI [of _ cursor] exI [of _ False]) simp
next
  case (Suc n)
  have cs: "batch k cursor = take batch_size (drop i L)" using Suc.prems by (simp add: batch stands_at_def)
  consider (enough) "limit + 1 \<le> length shown" | (none) "\<not> limit + 1 \<le> length shown" "batch k cursor = []"
    | (some) "\<not> limit + 1 \<le> length shown" "batch k cursor \<noteq> []" by blast
  then show ?case
  proof cases
    case enough
    with Suc.prems show ?thesis by (intro exI [of _ i] exI [of _ cursor] exI [of _ False]) simp
  next
    case none
    with cs sizes(2) Suc.prems have "i = length L" by (auto simp: stands_at_def)
    with none Suc.prems show ?thesis by (intro exI [of _ i] exI [of _ cursor] exI [of _ True]) simp
  next
    case some
    let ?j = "i + length (batch k cursor)"
    have len: "length (batch k cursor) = min batch_size (length L - i)" by (simp add: cs)
    have ne: "0 < length (batch k cursor)" using some by simp
    then have j: "?j \<le> length L" using len by auto
    have last: "last (batch k cursor) = L ! (?j - 1)"
    proof -
      have "last (batch k cursor) = batch k cursor ! (length (batch k cursor) - 1)" by (rule last_conv_nth) fact
      also have "\<dots> = drop i L ! (length (batch k cursor) - 1)" using ne len sizes(2) unfolding cs by (intro nth_take) (simp add: min_def split: if_splits)
      also have "\<dots> = L ! (?j - 1)" using ne j by (simp add: nth_drop Nat.add_diff_assoc Suc_leI)
      finally show ?thesis .
    qed
    have prev: "?j - 1 < length L" "Suc (?j - 1) = ?j" using ne j by linarith+
    have at: "stands_at L (Some (cursor_of (last (batch k cursor)))) ?j"
      using stands_at_cursor [OF sorted prev(1)] unfolding last prev(2) .
    have shown: "filter (\<lambda>c. cd_user_id c \<notin> set (swiped k (map cd_user_id (batch k cursor)))) (batch k cursor)
        = visible_in (take (?j - i) (drop i L))"
    proof -
      have "batch k cursor = take (?j - i) (drop i L)" using len by (simp add: cs min_def)
      then have "visible_in (take (?j - i) (drop i L)) = visible_in (batch k cursor)" by simp
      also have "\<dots> = filter (\<lambda>c. cd_user_id c \<notin> set (swiped k (map cd_user_id (batch k cursor)))) (batch k cursor)"
        by (rule filter_cong) (auto simp: swiped [of "cd_user_id ` set (batch k cursor)"])
      finally show ?thesis by simp
    qed
    show ?thesis
    proof (cases "length (batch k cursor) < batch_size")
      case True
      with len j have "?j = length L" by auto
      with some True shown at j ne show ?thesis
        by (intro exI [of _ ?j] exI [of _ "Some (cursor_of (last (batch k cursor)))"] exI [of _ True]) (simp add: Let_def)
    next
      case False
      let ?shown = "shown @ visible_in (take (?j - i) (drop i L))"
      have step: "feed_loop batch swiped limit batch_size (Suc n) k cursor shown
          = feed_loop batch swiped limit batch_size n (k + 1) (Some (cursor_of (last (batch k cursor)))) ?shown"
        using some False shown by (simp add: Let_def)
      obtain j' cursor' ended where IH: "feed_loop batch swiped limit batch_size n (k + 1)
            (Some (cursor_of (last (batch k cursor)))) ?shown = (?shown @ visible_in (take (j' - ?j) (drop ?j L)), cursor', ended)"
        "stands_at L cursor' j'" "?j \<le> j'" "ended \<longrightarrow> j' = length L"
        "cursor' \<noteq> None"
        using Suc.IH [OF at, of "k + 1" ?shown] by blast
      have "j' - i = (?j - i) + (j' - ?j)" using IH(3) by simp
      then have "take (j' - i) (drop i L) = take (?j - i) (drop i L) @ take (j' - ?j) (drop ?j L)"
        by (simp only: take_add drop_drop) (simp add: add.commute)
      moreover have "i < j'" using ne IH(3) by linarith
      ultimately show ?thesis
        using IH unfolding step
        by (intro exI [of _ j'] exI [of _ cursor'] exI [of _ ended]) simp
    qed
  qed
qed

text \<open>One request lists the visible candidates up to a position and hands out the cursor there, or ends.\<close>

lemma answer_progress:
  assumes sorted: "sorted_candidates L" and at: "stands_at L cursor i" and n: "0 < n"
  shows "\<exists>j page next. feed_answer limit (feed_loop batch swiped limit batch_size n 0 cursor []) = (page, next)
    \<and> page = visible_in (take (j - i) (drop i L)) \<and> i \<le> j
    \<and> (next = None \<longrightarrow> visible_in (drop j L) = [])
    \<and> (next \<noteq> None \<longrightarrow> i < j \<and> stands_at L next j)"
proof -
  obtain j cursor' ended where loop: "feed_loop batch swiped limit batch_size n 0 cursor [] =
      (visible_in (take (j - i) (drop i L)), cursor', ended)"
    and j: "stands_at L cursor' j" "i \<le> j" "ended \<longrightarrow> j = length L" "\<not> ended \<longrightarrow> i < j \<and> cursor' \<noteq> None"
    using loop_progress [OF sorted at, of n 0 "[]"] n by auto
  let ?V = "visible_in (take (j - i) (drop i L))"
  show ?thesis
  proof (cases "limit < length ?V")
    case False
    then have "feed_answer limit (?V, cursor', ended) = (?V, if ended then None else cursor')"
      by (simp add: feed_answer_def Let_def)
    with loop j show ?thesis by (intro exI [of _ j]) auto
  next
    case True
    obtain m where m: "m < length (take (j - i) (drop i L))"
      "take limit ?V = visible_in (take (Suc m) (take (j - i) (drop i L)))"
      "last (take limit ?V) = take (j - i) (drop i L) ! m"
      using take_filter_position [OF sizes(1), of "\<lambda>c. cd_user_id c \<notin> gone" "take (j - i) (drop i L)"] True by auto
    have ne: "take limit ?V \<noteq> []" using True sizes(1) by (metis length_greater_0_conv less_zeroE not_gr_zero take_eq_Nil)
    let ?l = "i + Suc m"
    have l: "last (take limit ?V) = L ! (i + m)" "i + m < length L" using m(1,3) by auto
    have page: "take limit ?V = visible_in (take (?l - i) (drop i L))"
      using m(1,2) by (auto simp: min_def take_take split: if_splits)
    have "feed_answer limit (?V, cursor', ended) = (take limit ?V, Some (cursor_of (L ! (i + m))))"
      using True ne l(1) by (simp add: feed_answer_def Let_def)
    moreover have "stands_at L (Some (cursor_of (L ! (i + m)))) ?l" using stands_at_cursor [OF sorted l(2)] by simp
    ultimately show ?thesis using loop page by (intro exI [of _ ?l]) simp
  qed
qed

end

text \<open>A request whose statements all read at one instant satisfies the laws, whatever the database holds.\<close>

interpretation one_instant: stable_feed "sort_key candidate_key (eligible sv lv today t u None d)"
    "{sd_target s |s. s \<in> set (swipe_decision d) \<and> sd_actor s = u \<and> t < sd_expires_at s}"
    "\<lambda>k cursor. candidate_batch sv lv today t u (max 50 ((Suc l + 1) * 4)) cursor None d"
    "\<lambda>k ids. swiped_target_ids t u ids d" "Suc l" "max 50 ((Suc l + 1) * 4)"
  for sv lv today t u d l
  by unfold_locales (auto simp: candidate_batch_def sql_page_def filter_sort swiped_target_ids_def)

text \<open>Statements at other instants that read the same candidates and swipes give the same answer.\<close>

lemma feed_loop_cong:
  assumes "\<And>k c. batch k c = batch' k c" "\<And>k ids v. v \<in> set ids \<Longrightarrow> v \<in> set (swiped k ids) \<longleftrightarrow> v \<in> set (swiped' k ids)"
  shows "feed_loop batch swiped limit bs n k c shown = feed_loop batch' swiped' limit bs n k c shown"
proof (induction n arbitrary: k c shown)
  case (Suc n)
  have "filter (\<lambda>c. cd_user_id c \<notin> set (swiped k (map cd_user_id b))) b
      = filter (\<lambda>c. cd_user_id c \<notin> set (swiped' k (map cd_user_id b))) b" for b :: "discovery_candidate list"
    by (rule filter_cong) (use assms(2) in auto)
  moreover have "batch = batch'" using assms(1) by (intro ext)
  ultimately show ?case using Suc.IH by (simp add: Let_def)
qed simp

section \<open>The walk\<close>

text \<open>A client that asks for the next page as long as it gets a cursor; \<open>None\<close> when a request fails or the
  number of requests does not suffice.\<close>

fun feed_walk :: "(nat \<Rightarrow> string option \<Rightarrow> api_error + 'c list \<times> string option) \<Rightarrow> nat \<Rightarrow> nat \<Rightarrow> string option \<Rightarrow> 'c list option" where
  "feed_walk ask 0 r raw = None"
| "feed_walk ask (Suc n) r raw =
     (case ask r raw of
        Inl _ \<Rightarrow> None
      | Inr (page, None) \<Rightarrow> Some page
      | Inr (page, Some c) \<Rightarrow> map_option ((@) page) (feed_walk ask n (r + 1) (Some c)))"

definition reads_discovery_cursor :: "number_library \<Rightarrow> discovery_candidate \<Rightarrow> bool" where
  "reads_discovery_cursor lib c \<longleftrightarrow> is_uuid lib (cd_user_id c) \<and>
     parse_json lib (discovery_cursor_json lib (cursor_of c)) =
       Some (Json_object [(''distance_km'', Json_number (Some (cd_distance_km c))), (''id'', Json_string (cd_user_id c))])"

lemma haversine_nonneg: "0 \<le> haversine_km a b c e"
proof -
  have "0 \<le> arcsin (sqrt (min 1 (max 0 x)))" for x
    using arcsin_le_arcsin [of 0 "sqrt (min 1 (max 0 x))"] by simp
  then show ?thesis by (simp add: haversine_km_def)
qed

lemma decode_encode_cursor:
  assumes "reads_discovery_cursor lib c" "0 \<le> cd_distance_km c"
  shows "decode_discovery_cursor lib (Some (encode_discovery_cursor lib (cd_distance_km c) (cd_user_id c))) = Inr (Some (cursor_of c))"
proof -
  let ?j = "discovery_cursor_json lib (cursor_of c)"
  have enc: "encode_discovery_cursor lib (cd_distance_km c) (cd_user_id c) = base64url_encode ?j"
    by (simp add: encode_discovery_cursor_def cursor_of_def)
  have "base64url_encode ?j \<noteq> []"
    by (auto simp: base64url_encode_def bytes_of_def discovery_cursor_json_def)
  then obtain x xs where cons: "base64url_encode ?j = x # xs" by (cases "base64url_encode ?j") auto
  have "base64_decode (x # xs) = ?j" unfolding cons [symmetric] by (rule base64url_round_trip)
  then show ?thesis
    using assms unfolding enc cons
    by (simp add: decode_discovery_cursor_def reads_discovery_cursor_def) (simp add: cursor_of_def)
qed

lemma eligible_row_fields:
  "eligible_row sv lv today now u target w e d = Some (c, m) \<Longrightarrow> cd_user_id c = pe_user_id e \<and> cd_distance_km c = distance_to w e"
  by (auto simp: eligible_row_def Let_def split: if_splits option.splits)

lemma set_map_filter: "set (List.map_filter f xs) = {y. \<exists>x \<in> set xs. f x = Some y}"
  by (induction xs) (auto simp: List.map_filter_simps split: option.splits)

lemma eligible_from: "c \<in> set (eligible sv lv today now u target d) \<Longrightarrow>
    0 \<le> cd_distance_km c \<and> cd_user_id c \<in> pe_user_id ` set (user_presence d)"
  by (auto simp: eligible_def set_map_filter distance_to_def haversine_nonneg dest!: eligible_row_fields split: option.splits)

lemma distinct_map_filter_ids:
  assumes "distinct (map key xs)" "\<And>x y. f x = Some y \<Longrightarrow> key' y = key x"
  shows "distinct (map key' (List.map_filter f xs))"
proof -
  have ids: "key' ` set (List.map_filter f xs) \<subseteq> key ` set xs" for xs
    using assms(2) by (auto simp: set_map_filter)
  show ?thesis
    using assms(1)
  proof (induction xs)
    case (Cons x xs)
    then show ?case
      using ids [of xs] assms(2) [of x] by (cases "f x") (auto simp: List.map_filter_simps)
  qed (simp add: List.map_filter_simps)
qed

lemma eligible_distinct:
  assumes "distinct (map pe_user_id (user_presence d))"
  shows "distinct (map cd_user_id (eligible sv lv today now u target d))"
proof (cases "viewer_row sv lv today now u d")
  case (Some w)
  have "distinct (map (cd_user_id \<circ> fst) (List.map_filter (\<lambda>e. eligible_row sv lv today now u target w e d) (user_presence d)))"
    by (rule distinct_map_filter_ids [OF assms]) (auto dest: eligible_row_fields)
  then show ?thesis
    by (simp add: eligible_def Some distinct_map_filter)
qed (simp add: eligible_def)

lemma sorted_candidates_sort:
  assumes "distinct (map cd_user_id E)" "\<forall>c \<in> set E. pg_uuid (cd_user_id c) = cd_user_id c"
  shows "sorted_candidates (sort_key candidate_key E)"
proof -
  have "distinct (map candidate_key E)"
    using assms(1) by (auto simp: distinct_map inj_on_def candidate_key_def)
  then have "distinct (map candidate_key (sort_key candidate_key E))" by (simp add: distinct_map)
  then have "sorted_wrt (<) (map candidate_key (sort_key candidate_key E))" by (simp add: strict_sorted_iff)
  with assms(2) show ?thesis by (simp add: sorted_candidates_def sorted_wrt_map)
qed

text \<open>While the walk lasts, the same candidates are eligible and the same swipes are in force.\<close>

definition steady ::
  "string \<Rightarrow> string \<Rightarrow> pg_date \<Rightarrow> (nat \<Rightarrow> nat \<Rightarrow> pg_time) \<Rightarrow> uuid \<Rightarrow> discovery_candidate list \<Rightarrow> uuid set \<Rightarrow> db \<Rightarrow> bool" where
  "steady sv lv today clk u E gone d \<longleftrightarrow>
     (\<forall>r k. is_discovery_ready sv lv (clk r 0) u d \<and>
       eligible sv lv today (clk r k) u None d = E \<and>
       {sd_target s |s. s \<in> set (swipe_decision d) \<and> sd_actor s = u \<and> clk r k < sd_expires_at s} = gone)"

lemma steady_swiped:
  assumes "steady sv lv today clk u E gone d" "v \<in> set ids"
  shows "v \<in> set (swiped_target_ids (clk r k) u ids d) \<longleftrightarrow> v \<in> gone"
proof -
  have "gone = {sd_target s |s. s \<in> set (swipe_decision d) \<and> sd_actor s = u \<and> clk r k < sd_expires_at s}"
    using assms(1) by (simp add: steady_def)
  then show ?thesis using assms(2) by (auto simp: swiped_target_ids_def)
qed

lemma feed_progress:
  assumes "steady sv lv today clk u E gone d" "distinct (map pe_user_id (user_presence d))"
    and "\<forall>e \<in> set (user_presence d). pg_uuid (pe_user_id e) = pe_user_id e"
    and "\<forall>c \<in> set E. reads_discovery_cursor lib c" "0 < limit" "limit \<le> 100"
    and "decode_discovery_cursor lib raw = Inr cursor" "stands_at (sort_key candidate_key E) cursor i"
  shows "\<exists>j next. feed lib sv lv today (clk r) u limit raw d
      = Inr (map to_feed_candidate (filter (\<lambda>c. cd_user_id c \<notin> gone) (take (j - i) (drop i (sort_key candidate_key E)))), next)
    \<and> i \<le> j \<and> (next = None \<longrightarrow> filter (\<lambda>c. cd_user_id c \<notin> gone) (drop j (sort_key candidate_key E)) = [])
    \<and> (\<forall>t. next = Some t \<longrightarrow> i < j \<and>
        (\<exists>b. decode_discovery_cursor lib (Some t) = Inr (Some b) \<and> stands_at (sort_key candidate_key E) (Some b) j))"
proof -
  let ?L = "sort_key candidate_key E"
  let ?size = "max 50 ((limit + 1) * 4)"
  let ?batch = "\<lambda>k c. candidate_batch sv lv today (clk r (2 * k + 1)) u ?size c None d"
  let ?swiped = "\<lambda>k ids. swiped_target_ids (clk r (2 * k + 2)) u ids d"
  have E: "eligible sv lv today (clk r k) u None d = E" for k using assms(1) by (simp add: steady_def)
  have ids: "distinct (map cd_user_id E)" "\<forall>c \<in> set E. 0 \<le> cd_distance_km c \<and> cd_user_id c \<in> pe_user_id ` set (user_presence d)"
    using eligible_distinct [OF assms(2)] eligible_from E [of 0] by metis+
  have sorted: "sorted_candidates ?L"
    by (rule sorted_candidates_sort [OF ids(1)]) (use ids(2) assms(3) in auto)
  have "feed_loop ?batch ?swiped limit ?size n 0 cursor []
      = feed_loop (\<lambda>k c. candidate_batch sv lv today (clk r 0) u ?size c None d) (\<lambda>k ids. swiped_target_ids (clk r 0) u ids d)
          limit ?size n 0 cursor []" for n
    by (rule feed_loop_cong) (simp_all add: candidate_batch_def E steady_swiped [OF assms(1)])
  note same = this [of max_feed_batches]
  have gone: "gone = {sd_target s |s. s \<in> set (swipe_decision d) \<and> sd_actor s = u \<and> clk r 0 < sd_expires_at s}"
    using assms(1) by (simp add: steady_def)
  obtain j page nxt where a: "feed_answer limit (feed_loop ?batch ?swiped limit ?size max_feed_batches 0 cursor []) = (page, nxt)"
    "page = filter (\<lambda>c. cd_user_id c \<notin> gone) (take (j - i) (drop i ?L))" "i \<le> j"
    "nxt = None \<longrightarrow> filter (\<lambda>c. cd_user_id c \<notin> gone) (drop j ?L) = []" "nxt \<noteq> None \<longrightarrow> i < j \<and> stands_at ?L nxt j"
    using one_instant.answer_progress [of sv lv today "clk r 0" u d cursor i max_feed_batches "limit - 1"] sorted assms(5,8)
    unfolding same E gone by (auto simp: max_feed_batches_def)
  have ready: "is_discovery_ready sv lv (clk r 0) u d" using assms(1) by (simp add: steady_def)
  have "feed lib sv lv today (clk r) u limit raw d = Inr (map to_feed_candidate page,
      map_option (\<lambda>c. encode_discovery_cursor lib (dc_distance_km c) (dc_id c)) nxt)"
    using assms(5-7) ready a(1) by (simp add: feed_def Let_def)
  moreover have "\<exists>b. decode_discovery_cursor lib (Some t) = Inr (Some b) \<and> stands_at ?L (Some b) j"
    if t: "map_option (\<lambda>c. encode_discovery_cursor lib (dc_distance_km c) (dc_id c)) nxt = Some t" for t
  proof -
    obtain b where b: "nxt = Some b" "t = encode_discovery_cursor lib (dc_distance_km b) (dc_id b)" using t by auto
    then have st: "stands_at ?L (Some b) j" using a(5) by simp
    then obtain c where c: "c \<in> set E" "b = cursor_of c" by (auto simp: stands_at_def)
    have "decode_discovery_cursor lib (Some t) = Inr (Some b)"
      using decode_encode_cursor [of lib c] c assms(4) ids(2) b(2) by (simp add: cursor_of_def)
    with st show ?thesis by blast
  qed
  ultimately show ?thesis
    using a by (intro exI [of _ j] exI [of _ "map_option (\<lambda>c. encode_discovery_cursor lib (dc_distance_km c) (dc_id c)) nxt"]) auto
qed

text \<open>C29. While the candidates and the swipes stay as they are, a client that follows the feed's cursor from the start
  comes to its end after at most one request more than there are candidates, without an error, and has then been
  shown every candidate it has not swiped exactly once, in the order of distance.\<close>

theorem feed_walk_complete:
  assumes "steady sv lv today clk u E gone d" "distinct (map pe_user_id (user_presence d))"
    and "\<forall>e \<in> set (user_presence d). pg_uuid (pe_user_id e) = pe_user_id e"
    and "\<forall>c \<in> set E. reads_discovery_cursor lib c" "0 < limit" "limit \<le> 100"
  shows "feed_walk (\<lambda>r raw. feed lib sv lv today (clk r) u limit raw d) (length E + 1) 0 None
    = Some (map to_feed_candidate (filter (\<lambda>c. cd_user_id c \<notin> gone) (sort_key candidate_key E)))"
proof -
  let ?L = "sort_key candidate_key E"
  let ?seen = "filter (\<lambda>c. cd_user_id c \<notin> gone)"
  let ?ask = "\<lambda>r raw. feed lib sv lv today (clk r) u limit raw d"
  have "feed_walk ?ask n r raw = Some (map to_feed_candidate (?seen (drop i ?L)))"
    if "length ?L - i < n" "decode_discovery_cursor lib raw = Inr cursor" "stands_at ?L cursor i" for n r raw cursor i
    using that
  proof (induction n arbitrary: r raw cursor i)
    case (Suc n)
    obtain j nxt where f: "?ask r raw = Inr (map to_feed_candidate (?seen (take (j - i) (drop i ?L))), nxt)"
      "i \<le> j" "nxt = None \<longrightarrow> ?seen (drop j ?L) = []"
      "\<forall>t. nxt = Some t \<longrightarrow> i < j \<and> (\<exists>b. decode_discovery_cursor lib (Some t) = Inr (Some b) \<and> stands_at ?L (Some b) j)"
      using feed_progress [OF assms Suc.prems(2,3)] by blast
    have split: "?seen (drop i ?L) = ?seen (take (j - i) (drop i ?L)) @ ?seen (drop j ?L)"
    proof -
      have "drop i ?L = take (j - i) (drop i ?L) @ drop (j - i) (drop i ?L)" by (rule append_take_drop_id [symmetric])
      moreover have "drop (j - i) (drop i ?L) = drop j ?L" using f(2) by simp
      ultimately show ?thesis by (metis filter_append)
    qed
    show ?case
    proof (cases nxt)
      case None
      with f split show ?thesis by simp
    next
      case (Some t)
      with f(4) obtain b where b: "i < j" "decode_discovery_cursor lib (Some t) = Inr (Some b)" "stands_at ?L (Some b) j" by blast
      have "length ?L - j < n" using Suc.prems(1) b(1,3) by (auto simp: stands_at_def)
      from Suc.IH [OF this b(2,3), of "r + 1"] show ?thesis using f(1) Some split by simp
    qed
  qed simp
  from this [of 0 "length E + 1" None None 0] stands_at_start show ?thesis
    by (simp add: decode_discovery_cursor_def)
qed

text \<open>Three candidates in one place, one of them swiped, and pages of one profile.\<close>

definition meet_db :: db where
  "meet_db =
     (let us = [''u'', ''a'', ''b'', ''c''] in empty_db\<lparr>
       user_account := map (\<lambda>i. \<lparr> ua_id = i, ua_role = User, ua_phone_hash = i, ua_phone_encrypted = i,
         ua_banned = False, ua_deleted_at = None \<rparr>) us,
       user_consent := concat (map (\<lambda>i. map (\<lambda>(ty, v). \<lparr> uc_user_id = i, uc_type = ty, uc_granted = True,
         uc_document_version = v, uc_withdrawn_at = None, uc_granted_at = 0, uc_event_sequence = 0 \<rparr>)
         [(Sensitive_data_consent, ''s''), (Location_consent, ''l'')]) us),
       user_profile := map (\<lambda>i. \<lparr> pr_user_id = i, pr_firstname = i, pr_birthdate = (1990, 1, 1),
         pr_sex = Some Male, pr_bio = None \<rparr>) us,
       user_preferences := map (\<lambda>i. \<lparr> pf_user_id = i, pf_min_age = 18, pf_max_age = 40,
         pf_max_distance_km = 10, pf_looking_for = Both \<rparr>) us,
       user_presence := map (\<lambda>i. \<lparr> pe_user_id = i, pe_latitude = Some 0, pe_longitude = Some 0,
         pe_location_fresh = True, pe_updated_at = 7 \<rparr>) us,
       swipe_decision := [new_swipe ''u'' ''b'' Pass 0]\<rparr>)"

definition meet_candidate :: "uuid \<Rightarrow> discovery_candidate" where
  "meet_candidate i = \<lparr> cd_user_id = i, cd_firstname = i, cd_age = 36, cd_sex = Male, cd_bio = None, cd_distance_km = 0 \<rparr>"

definition zero_library :: number_library where
  "zero_library = \<lparr> show_number = (\<lambda>_. ''0''),
     parse_json = (\<lambda>s. Some (Json_object [(''distance_km'', Json_number (Some 0)),
       (''id'', Json_string (takeWhile (\<lambda>c. c \<noteq> CHR 0x22) (drop 23 s)))])),
     is_uuid = (\<lambda>_. True) \<rparr>"

lemma same_place: "haversine_km 0 0 0 0 = 0"
  by (simp add: haversine_km_def radians_def)

lemma meet_eligible: "eligible ''s'' ''l'' (2026, 6, 1) 8 ''u'' None meet_db = map meet_candidate [''a'', ''b'', ''c'']"
  by (simp add: eligible_def viewer_row_def eligible_row_def meet_db_def meet_candidate_def empty_db_def Let_def
      active_account_def document_consented_def fresh_presence_def eligible_profile_def eligible_preferences_def
      interested_in_def birthdate_between_def years_before_def days_in_month_def full_years_def position_in_box_def
      in_box_def latitude_delta_def longitude_delta_def radians_def distance_to_def same_place blocked_pair_def
      unmatched_def visible_bio_def List.map_filter_simps)

lemma meet_steady: "steady ''s'' ''l'' (2026, 6, 1) (\<lambda>_ _. 8) ''u'' (map meet_candidate [''a'', ''b'', ''c'']) {''b''} meet_db"
proof -
  have "is_discovery_ready ''s'' ''l'' 8 ''u'' meet_db"
    by (simp add: is_discovery_ready_def meet_db_def empty_db_def Let_def active_account_def document_consented_def fresh_presence_def)
  moreover have "swipe_decision meet_db = [new_swipe ''u'' ''b'' Pass 0]" by (simp add: meet_db_def Let_def)
  ultimately show ?thesis using meet_eligible by (auto simp: steady_def new_swipe_def)
qed

theorem feed_walk_complete_witness:
  "feed_walk (\<lambda>r raw. feed zero_library ''s'' ''l'' (2026, 6, 1) (\<lambda>_. 8) ''u'' 1 raw meet_db) 4 0 None
    = Some [meet_candidate ''a'', meet_candidate ''c'']"
proof -
  let ?E = "map meet_candidate [''a'', ''b'', ''c'']"
  have "feed_walk (\<lambda>r raw. feed zero_library ''s'' ''l'' (2026, 6, 1) ((\<lambda>_ _. 8) r) ''u'' 1 raw meet_db) (length ?E + 1) 0 None
      = Some (map to_feed_candidate (filter (\<lambda>c. cd_user_id c \<notin> {''b''}) (sort_key candidate_key ?E)))"
  proof (rule feed_walk_complete [OF meet_steady])
    show "\<forall>c \<in> set ?E. reads_discovery_cursor zero_library c"
      by (simp add: reads_discovery_cursor_def zero_library_def discovery_cursor_json_def cursor_of_def meet_candidate_def)
    show "\<forall>e \<in> set (user_presence meet_db). pg_uuid (pe_user_id e) = pe_user_id e"
      by (simp add: meet_db_def Let_def pg_uuid_def to_lower_def lower_char_def)
  qed (simp_all add: meet_db_def Let_def)
  moreover have "length ?E + 1 = 4" by simp
  moreover have sorted: "sort_key candidate_key ?E = ?E"
    by (simp add: meet_candidate_def candidate_key_def)
  have "map to_feed_candidate (filter (\<lambda>c. cd_user_id c \<notin> {''b''}) (sort_key candidate_key ?E)) = [meet_candidate ''a'', meet_candidate ''c'']"
    unfolding sorted by (simp add: to_feed_candidate_def meet_candidate_def)
  ultimately show ?thesis by (simp only:)
qed

section \<open>Who sees whom\<close>

text \<open>The window of birthdates is the range of ages, and the age that the API asks for is the one the trigger asks for.\<close>

lemma days_in_month_bounds: "28 \<le> days_in_month y m" "days_in_month y m \<le> 31"
  by (simp_all add: days_in_month_def)

lemma days_in_month_other: "m \<noteq> 2 \<Longrightarrow> days_in_month y m = days_in_month y' m"
  by (simp add: days_in_month_def)

lemma born_by_iff:
  assumes "civil_date today" "civil_date b"
  shows "b \<le> years_before today n \<longleftrightarrow> n \<le> full_years today b"
proof -
  obtain y m d where today: "today = (y, m, d)" by (cases today)
  obtain by' bm bd where b: "b = (by', bm, bd)" by (cases b)
  have valid: "1 \<le> d" "d \<le> days_in_month y m" "1 \<le> bd" "bd \<le> days_in_month by' bm"
    using assms by (auto simp: today b civil_date_def)
  consider (less) "by' < y - n" | (greater) "y - n < by'" | (same) "by' = y - n" by linarith
  then show ?thesis
  proof cases
    case same
    then show ?thesis
      using valid by (auto simp: today b years_before_def full_years_def less_eq_prod_def less_prod_def)
  qed (auto simp: today b years_before_def full_years_def less_eq_prod_def less_prod_def)
qed

lemma birthdate_between_iff:
  "civil_date today \<Longrightarrow> civil_date b \<Longrightarrow> birthdate_between today lo hi b \<longleftrightarrow> lo \<le> full_years today b \<and> full_years today b \<le> hi"
  using born_by_iff [of today b lo] born_by_iff [of today b "hi + 1"] by (auto simp: birthdate_between_def not_le [symmetric])

text \<open>The rows of a user who takes part in discovery.\<close>

definition party :: "string \<Rightarrow> string \<Rightarrow> pg_time \<Rightarrow> db \<Rightarrow> uuid \<Rightarrow> profile_row \<times> preferences_row \<times> presence_row \<Rightarrow> bool" where
  "party sv lv now d u = (\<lambda>(p, f, e).
     sql_exists (\<lambda>a. ua_id a = u \<and> active_account a) (user_account d) \<and>
     document_consented Sensitive_data_consent sv u d \<and> document_consented Location_consent lv u d \<and>
     p \<in> set (user_profile d) \<and> pr_user_id p = u \<and> pr_sex p \<noteq> None \<and>
     f \<in> set (user_preferences d) \<and> pf_user_id f = u \<and>
     e \<in> set (user_presence d) \<and> pe_user_id e = u \<and> fresh_presence now e)"

definition viewer_of :: "pg_date \<Rightarrow> profile_row \<times> preferences_row \<times> presence_row \<Rightarrow> viewer" where
  "viewer_of today = (\<lambda>(p, f, e). \<lparr> vw_sex = the (pr_sex p), vw_age = full_years today (pr_birthdate p),
     vw_min_age = pf_min_age f, vw_max_age = pf_max_age f, vw_max_distance_km = pf_max_distance_km f,
     vw_looking_for = pf_looking_for f, vw_latitude = pe_latitude e, vw_longitude = pe_longitude e \<rparr>)"

definition discovery_keys_ok :: "db \<Rightarrow> bool" where
  "discovery_keys_ok d \<longleftrightarrow> distinct (map pr_user_id (user_profile d)) \<and>
     distinct (map pf_user_id (user_preferences d)) \<and> distinct (map pe_user_id (user_presence d))"

lemma viewer_row_iff:
  assumes "discovery_keys_ok d"
  shows "viewer_row sv lv today now u d = Some w \<longleftrightarrow> (\<exists>r. party sv lv now d u r \<and> w = viewer_of today r)"
proof
  assume "viewer_row sv lv today now u d = Some w"
  then obtain p f e where "sql_first (\<lambda>p. pr_user_id p = u \<and> pr_sex p \<noteq> None) (user_profile d) = Some p"
    "sql_first (\<lambda>p. pf_user_id p = u) (user_preferences d) = Some f"
    "sql_first (\<lambda>p. pe_user_id p = u \<and> fresh_presence now p) (user_presence d) = Some e"
    "w = viewer_of today (p, f, e)" "sql_exists (\<lambda>a. ua_id a = u \<and> active_account a) (user_account d)"
    "document_consented Sensitive_data_consent sv u d" "document_consented Location_consent lv u d"
    by (auto simp: viewer_row_def viewer_of_def split: if_splits option.splits)
  then show "\<exists>r. party sv lv now d u r \<and> w = viewer_of today r"
    by (intro exI [of _ "(p, f, e)"]) (auto simp: party_def dest!: sql_first_SomeD)
next
  assume "\<exists>r. party sv lv now d u r \<and> w = viewer_of today r"
  then obtain p f e where r: "party sv lv now d u (p, f, e)" "w = viewer_of today (p, f, e)" by auto
  then have "sql_first (\<lambda>p. pr_user_id p = u \<and> pr_sex p \<noteq> None) (user_profile d) = Some p"
    "sql_first (\<lambda>p. pf_user_id p = u) (user_preferences d) = Some f"
    "sql_first (\<lambda>p. pe_user_id p = u \<and> fresh_presence now p) (user_presence d) = Some e"
    using assms unfolding discovery_keys_ok_def
    by (auto simp: party_def intro: sql_first_key)
  with r show "viewer_row sv lv today now u d = Some w"
    by (simp add: viewer_row_def viewer_of_def party_def)
qed

text \<open>Both sides of a meeting: everything but the box of the one who looks is symmetric.\<close>

definition meeting :: "pg_date \<Rightarrow> db \<Rightarrow> viewer \<Rightarrow> uuid \<Rightarrow> viewer \<Rightarrow> uuid \<Rightarrow> bool" where
  "meeting today d w u x v \<longleftrightarrow> u \<noteq> v \<and> \<not> blocked_pair u v d \<and> unmatched u v d \<and>
     interested_in (vw_looking_for w) (vw_sex x) \<and> interested_in (vw_looking_for x) (vw_sex w) \<and>
     vw_min_age w \<le> vw_age x \<and> vw_age x \<le> vw_max_age w \<and> vw_min_age x \<le> vw_age w \<and> vw_age w \<le> vw_max_age x"

lemma meeting_sym: "meeting today d w u x v \<Longrightarrow> meeting today d x v w u"
  by (auto simp: meeting_def blocked_pair_def unmatched_def sql_exists_iff)

lemma eligible_iff:
  assumes "discovery_keys_ok d" "civil_date today" "\<forall>p \<in> set (user_profile d). civil_date (pr_birthdate p)"
  shows "c \<in> set (eligible sv lv today now u None d) \<longleftrightarrow>
    (\<exists>r s. party sv lv now d u r \<and> party sv lv now d (cd_user_id c) s \<and>
       meeting today d (viewer_of today r) u (viewer_of today s) (cd_user_id c) \<and>
       position_in_box (viewer_of today r) (snd (snd s)) \<and>
       c = \<lparr> cd_user_id = cd_user_id c, cd_firstname = pr_firstname (fst s), cd_age = vw_age (viewer_of today s),
         cd_sex = vw_sex (viewer_of today s), cd_bio = visible_bio (fst s) d, cd_distance_km = distance_to (viewer_of today r) (snd (snd s)) \<rparr> \<and>
       cd_distance_km c \<le> of_int (min (vw_max_distance_km (viewer_of today r)) (vw_max_distance_km (viewer_of today s))))"
    (is "?l \<longleftrightarrow> (\<exists>r s. ?p r s)")
proof
  assume ?l
  then obtain w e m where w: "viewer_row sv lv today now u d = Some w" and e: "e \<in> set (user_presence d)"
    "eligible_row sv lv today now u None w e d = Some (c, m)" "cd_distance_km c \<le> of_int (min (vw_max_distance_km w) m)"
    by (auto simp: eligible_def set_map_filter split: option.splits) metis
  from w obtain r where r: "party sv lv now d u r" "w = viewer_of today r" using viewer_row_iff [OF assms(1)] by auto
  from e obtain p f where pf: "sql_first (eligible_profile today w None (pe_user_id e)) (user_profile d) = Some p"
    "sql_first (eligible_preferences w (pe_user_id e)) (user_preferences d) = Some f"
    "c = \<lparr> cd_user_id = pe_user_id e, cd_firstname = pr_firstname p, cd_age = full_years today (pr_birthdate p),
       cd_sex = the (pr_sex p), cd_bio = visible_bio p d, cd_distance_km = distance_to w e \<rparr>" "m = pf_max_distance_km f"
    "pe_user_id e \<noteq> u \<and> fresh_presence now e \<and> position_in_box w e \<and>
      sql_exists (\<lambda>a. ua_id a = pe_user_id e \<and> active_account a) (user_account d) \<and>
      document_consented Sensitive_data_consent sv (pe_user_id e) d \<and> document_consented Location_consent lv (pe_user_id e) d \<and>
      \<not> blocked_pair u (pe_user_id e) d \<and> unmatched u (pe_user_id e) d"
    by (auto simp: eligible_row_def Let_def split: if_splits option.splits)
  from sql_first_SomeD [OF pf(1)] sql_first_SomeD [OF pf(2)]
  have rows: "p \<in> set (user_profile d)" "eligible_profile today w None (pe_user_id e) p"
    "f \<in> set (user_preferences d)" "eligible_preferences w (pe_user_id e) f" by blast+
  then have "?p r (p, f, e)"
    using r pf(3-5) e(1,3) birthdate_between_iff [OF assms(2) bspec [OF assms(3) rows(1)]]
    by (auto simp: party_def meeting_def viewer_of_def eligible_profile_def eligible_preferences_def split: option.splits)
  then show "\<exists>r s. ?p r s" by blast
next
  assume "\<exists>r s. ?p r s"
  then obtain r s where rs: "?p r s" by blast
  obtain p f e where s: "s = (p, f, e)" by (cases s)
  let ?v = "cd_user_id c" and ?w = "viewer_of today r"
  have row: "p \<in> set (user_profile d)" "f \<in> set (user_preferences d)" "e \<in> set (user_presence d)" "pe_user_id e = ?v"
    using rs by (auto simp: s party_def)
  have w: "viewer_row sv lv today now u d = Some ?w" using viewer_row_iff [OF assms(1)] rs by blast
  have "eligible_profile today ?w None ?v p" "eligible_preferences ?w ?v f"
    using rs birthdate_between_iff [OF assms(2) bspec [OF assms(3) row(1)]]
    by (auto simp: s party_def meeting_def viewer_of_def eligible_profile_def eligible_preferences_def split: option.splits)
  with row assms(1) have "sql_first (eligible_profile today ?w None ?v) (user_profile d) = Some p"
    "sql_first (eligible_preferences ?w ?v) (user_preferences d) = Some f"
    by (auto simp: discovery_keys_ok_def eligible_profile_def eligible_preferences_def intro: sql_first_key)
  then have "eligible_row sv lv today now u None ?w e d = Some (c, pf_max_distance_km f)"
    using rs row(4) by (auto simp: s eligible_row_def Let_def party_def meeting_def viewer_of_def)
  with w row(3) rs show ?l
    by (auto simp: eligible_def set_map_filter s viewer_of_def intro!: image_eqI [of _ _ "(c, pf_max_distance_km f)"])
qed

lemma haversine_sym: "haversine_km a b c e = haversine_km c e a b"
proof -
  have flip: "sin (radians ((x - y) / 2)) ^ 2 = sin (radians ((y - x) / 2)) ^ 2" for x y
  proof -
    have "radians ((x - y) / 2) = - radians ((y - x) / 2)" by (simp add: radians_def field_simps)
    then show ?thesis by simp
  qed
  show ?thesis unfolding haversine_km_def flip [of a c] flip [of b e] by (simp only: mult.commute mult.left_commute)
qed

text \<open>C30. Discovery is mutual: when the feed can show a candidate to a user, it can show the user to the candidate at
  the same distance, unless the box that the candidate's query searches cuts the user off. Blocks, matches, ages,
  sexes, consents, freshness and both distance limits weigh the same from either side.\<close>

theorem candidates_are_mutual:
  assumes "discovery_keys_ok d" "civil_date today" "\<forall>p \<in> set (user_profile d). civil_date (pr_birthdate p)"
    and "c \<in> set (eligible sv lv today now u None d)"
    and "\<forall>w e. viewer_row sv lv today now (cd_user_id c) d = Some w \<and> e \<in> set (user_presence d) \<and> pe_user_id e = u
      \<longrightarrow> position_in_box w e"
  shows "\<exists>c' \<in> set (eligible sv lv today now (cd_user_id c) None d).
    cd_user_id c' = u \<and> cd_distance_km c' = cd_distance_km c"
proof -
  let ?v = "cd_user_id c"
  obtain r s where rs: "party sv lv now d u r" "party sv lv now d ?v s"
      "meeting today d (viewer_of today r) u (viewer_of today s) ?v"
      "cd_distance_km c = distance_to (viewer_of today r) (snd (snd s))"
      "cd_distance_km c \<le> of_int (min (vw_max_distance_km (viewer_of today r)) (vw_max_distance_km (viewer_of today s)))"
    using assms(4) unfolding eligible_iff [OF assms(1-3)] by (metis discovery_candidate.select_convs(6))
  let ?c = "\<lparr> cd_user_id = u, cd_firstname = pr_firstname (fst r), cd_age = vw_age (viewer_of today r),
    cd_sex = vw_sex (viewer_of today r), cd_bio = visible_bio (fst r) d, cd_distance_km = cd_distance_km c \<rparr>"
  have dist: "distance_to (viewer_of today s) (snd (snd r)) = cd_distance_km c"
    unfolding rs(4) distance_to_def using haversine_sym by (simp add: viewer_of_def split: prod.splits)
  have "viewer_row sv lv today now ?v d = Some (viewer_of today s)"
    using viewer_row_iff [OF assms(1)] rs(2) by blast
  moreover have "snd (snd r) \<in> set (user_presence d)" "pe_user_id (snd (snd r)) = u"
    using rs(1) by (auto simp: party_def)
  ultimately have "position_in_box (viewer_of today s) (snd (snd r))" using assms(5) by blast
  with rs dist meeting_sym [OF rs(3)] have "?c \<in> set (eligible sv lv today now ?v None d)"
    unfolding eligible_iff [OF assms(1-3)] by (intro exI [of _ s] exI [of _ r]) (simp add: min.commute)
  then show ?thesis by (rule bexI [rotated]) simp
qed

theorem candidates_are_mutual_witness:
  "\<exists>c' \<in> set (eligible ''s'' ''l'' (2026, 6, 1) 8 ''a'' None meet_db). cd_user_id c' = ''u'' \<and> cd_distance_km c' = 0"
proof -
  have "\<exists>c' \<in> set (eligible ''s'' ''l'' (2026, 6, 1) 8 (cd_user_id (meet_candidate ''a'')) None meet_db).
      cd_user_id c' = ''u'' \<and> cd_distance_km c' = cd_distance_km (meet_candidate ''a'')"
  proof (rule candidates_are_mutual)
    show "meet_candidate ''a'' \<in> set (eligible ''s'' ''l'' (2026, 6, 1) 8 ''u'' None meet_db)" by (simp add: meet_eligible)
    show "\<forall>w e. viewer_row ''s'' ''l'' (2026, 6, 1) 8 (cd_user_id (meet_candidate ''a'')) meet_db = Some w \<and>
        e \<in> set (user_presence meet_db) \<and> pe_user_id e = ''u'' \<longrightarrow> position_in_box w e"
      by (auto simp: viewer_row_def meet_db_def meet_candidate_def empty_db_def Let_def fresh_presence_def position_in_box_def
          in_box_def latitude_delta_def longitude_delta_def radians_def split: if_splits)
  qed (simp_all add: discovery_keys_ok_def meet_db_def Let_def civil_date_def days_in_month_def)
  then show ?thesis by (simp add: meet_candidate_def)
qed

text \<open>
  The box is too narrow near a pole: at 89 degrees north, two users on opposite meridians are less than 300 km apart,
  and neither is in the box of the other although both accept 300 km.
\<close>

lemma sin_multiple: "\<bar>sin (real n * x)\<bar> \<le> real n * \<bar>sin x\<bar>"
proof (induction n)
  case (Suc n)
  have "\<bar>sin (real (Suc n) * x)\<bar> \<le> \<bar>sin (real n * x)\<bar> * \<bar>cos x\<bar> + \<bar>cos (real n * x)\<bar> * \<bar>sin x\<bar>"
  proof -
    have "real (Suc n) * x = real n * x + x" by (simp add: algebra_simps)
    then show ?thesis
      using abs_triangle_ineq [of "sin (real n * x) * cos x" "cos (real n * x) * sin x"] by (simp only: sin_add abs_mult)
  qed
  also have "\<dots> \<le> \<bar>sin (real n * x)\<bar> * 1 + 1 * \<bar>sin x\<bar>"
    by (intro add_mono mult_left_mono mult_right_mono) simp_all
  finally show ?case using Suc by (simp add: distrib_right)
qed simp

lemma cos_89: "cos (radians 89) = sin (pi / 180)" "1 / 60 \<le> cos (radians 89)"
proof -
  show eq: "cos (radians 89) = sin (pi / 180)"
    by (simp add: radians_def cos_sin_eq field_simps)
  have "real 30 * (pi / 180) = pi / 6" by simp
  then have "1 / 2 \<le> 30 * \<bar>sin (pi / 180)\<bar>" using sin_multiple [of 30 "pi / 180"] by (simp add: sin_30)
  moreover have "0 \<le> sin (pi / 180)" by (rule sin_ge_zero) simp_all
  ultimately show "1 / 60 \<le> cos (radians 89)" unfolding eq by simp
qed

lemma pole_box_cuts:
  assumes "vw_max_distance_km w = 300"
  shows "haversine_km 89 0 89 180 \<le> 300 \<and> \<not> in_box w 89 0 89 180"
proof
  have c: "0 \<le> cos (radians 89)" using cos_89(2) by linarith
  have "haversine_km 89 0 89 180 = 6371.0088 * 2 * arcsin (sqrt (min 1 (max 0 (cos (radians 89) * cos (radians 89)))))"
    by (simp add: haversine_km_def) (simp add: radians_def)
  also have "min 1 (max 0 (cos (radians 89) * cos (radians 89))) = cos (radians 89) ^ 2"
  proof -
    have "cos (radians 89) * cos (radians 89) \<le> 1" using c by (intro mult_le_one) simp_all
    with c show ?thesis by (simp add: power2_eq_square)
  qed
  also have "sqrt (cos (radians 89) ^ 2) = sin (pi / 180)" using c cos_89(1) by simp
  also have "arcsin (sin (pi / 180)) = pi / 180" using pi_gt_zero by (intro arcsin_sin) (simp_all add: field_simps)
  also have "6371.0088 * 2 * (pi / 180) \<le> 300" using pi_less_4 by simp
  finally show "haversine_km 89 0 89 180 \<le> 300" .
  have "longitude_delta w 89 \<le> 300 / (111 / 60)"
    using assms cos_89(2) unfolding longitude_delta_def by (intro frac_le) (simp_all add: le_max_iff_disj)
  also have "300 / (111 / 60) < (180 :: real)" by simp
  finally show "\<not> in_box w 89 0 89 180" by (simp add: in_box_def)
qed

end
