(* ===== verification/Billing.thy ===== *)
theory Billing
  imports Outbox Common
begin

text \<open>
  \<open>src/billing/billing.repository.ts\<close>: checkouts, the Stripe customer of an account, and the projection
  of Stripe's events on subscriptions and invoices. The formats that the CHECK constraints ask of Stripe's identifiers
  and addresses are Stripe's and not modelled; the unique indexes, foreign keys and triggers are.
\<close>

section \<open>The tables\<close>

abbreviation customers :: "db \<Rightarrow> billing_customer_row list" where
  "customers d \<equiv> billing_customer (stripe d)"

abbreviation checkouts :: "db \<Rightarrow> checkout_row list" where
  "checkouts d \<equiv> billing_checkout_session (stripe d)"

definition live_checkout :: "checkout_row \<Rightarrow> bool" where
  "live_checkout c \<longleftrightarrow> bs_status c \<in> {Ck_creating, Ck_open}"

text \<open>\<open>idx_billing_checkout_one_live_per_user\<close>, the two unique keys and the primary key.\<close>

definition checkout_table_ok :: "checkout_row list \<Rightarrow> bool" where
  "checkout_table_ok t \<longleftrightarrow> distinct (map bs_id t) \<and> distinct (map (\<lambda>c. (bs_user_id c, bs_idempotency_key c)) t) \<and>
     unique_where (\<lambda>c. bs_stripe_session_id c \<noteq> None) bs_stripe_session_id t \<and>
     unique_where live_checkout bs_user_id t"

definition put_checkouts :: "checkout_row list \<Rightarrow> db \<Rightarrow> db" where
  "put_checkouts t d = d\<lparr>stripe := (stripe d)\<lparr>billing_checkout_session := t\<rparr>\<rparr>"

definition write_checkouts :: "checkout_row list \<Rightarrow> db \<Rightarrow> sql_error + db" where
  "write_checkouts t d = (if checkout_table_ok t then Inr (put_checkouts t d) else Inl Unique_violation)"

definition put_customers :: "billing_customer_row list \<Rightarrow> db \<Rightarrow> db" where
  "put_customers t d = d\<lparr>stripe := (stripe d)\<lparr>billing_customer := t\<rparr>\<rparr>"

text \<open>\<open>trg_live_billing_customer\<close> guards the rows that are not deleted at Stripe.\<close>

definition customer_keys_ok :: "billing_customer_row list \<Rightarrow> bool" where
  "customer_keys_ok t \<longleftrightarrow> distinct (map bc_user_id t) \<and> distinct (map bc_stripe_customer_id t)"

definition write_customer :: "billing_customer_row \<Rightarrow> billing_customer_row list \<Rightarrow> db \<Rightarrow> sql_error + db" where
  "write_customer r t d =
     (if bc_deleted_at r = None \<and> account_deleted (bc_user_id r) d then Inl Live_account_trigger
      else if \<not> customer_keys_ok t then Inl Unique_violation
      else Inr (put_customers t d))"

text \<open>\<open>trg_live_subscription\<close> and the unique key of the provider's subscription.\<close>

definition write_subscription :: "subscription_row \<Rightarrow> subscription_row list \<Rightarrow> db \<Rightarrow> sql_error + db" where
  "write_subscription r t d =
     (if account_deleted (us_user_id r) d then Inl Live_account_trigger
      else if \<not> unique_where (\<lambda>s. us_provider_subscription_id s \<noteq> None) us_provider_subscription_id t
      then Inl Unique_violation
      else Inr (d\<lparr>user_subscription := t\<rparr>))"

section \<open>Reading\<close>

definition subscription_for_user :: "uuid \<Rightarrow> db \<Rightarrow> subscription_row option" where
  "subscription_for_user u d = sql_first (\<lambda>s. us_user_id s = u) (user_subscription d)"

definition mapped_customer :: "uuid \<Rightarrow> billing_customer_row \<Rightarrow> bool" where
  "mapped_customer u c \<longleftrightarrow> bc_user_id c = u \<and> bc_deleted_at c = None"

definition customer_for_user :: "uuid \<Rightarrow> db \<Rightarrow> string option" where
  "customer_for_user u d = map_option bc_stripe_customer_id (sql_first (mapped_customer u) (customers d))"

definition within_period :: "pg_time option \<Rightarrow> pg_time \<Rightarrow> bool" where
  "within_period ends now = (case ends of None \<Rightarrow> True | Some t \<Rightarrow> now < t)"

definition has_active_subscription :: "uuid \<Rightarrow> js_time \<Rightarrow> db \<Rightarrow> bool" where
  "has_active_subscription u now d =
     sql_exists (\<lambda>s. us_user_id s = u \<and> us_plan s = ''premium'' \<and>
       (us_provider s = None \<and> within_period (us_period_ends_at s) (pg_of_js now) \<or>
        us_provider s = Some ''stripe'' \<and> us_status s \<in> {Some Trialing, Some Sub_active, Some Past_due} \<and>
          within_period (us_period_ends_at s) (pg_of_js now))) (user_subscription d)"

record checkout_context =
  cx_stripe_customer_id :: "string option"
  cx_trial_days :: nat
  cx_trial_used :: bool

definition checkout_context_of :: "uuid \<Rightarrow> db \<Rightarrow> checkout_context option" where
  "checkout_context_of u d =
     (case sql_first (\<lambda>p. pl_code p = ''premium'' \<and> pl_active p) (subscription_plan d) of
        None \<Rightarrow> None
      | Some p \<Rightarrow>
          let c = sql_first (\<lambda>c. bc_user_id c = u) (customers d) in
          Some \<lparr> cx_stripe_customer_id = (case c of None \<Rightarrow> None
               | Some r \<Rightarrow> if bc_deleted_at r = None then Some (bc_stripe_customer_id r) else None),
             cx_trial_days = pl_trial_days p,
             cx_trial_used = (case c of None \<Rightarrow> False | Some r \<Rightarrow> bc_trial_used_at r \<noteq> None) \<rparr>)"

section \<open>Checkouts\<close>

record checkout_session_view =
  cv_session_id :: string
  cv_url :: string
  cv_expires_at :: js_time

datatype begin_checkout_result =
    Checkout_created uuid checkout_context
  | Checkout_retry uuid checkout_context
  | Checkout_replay checkout_session_view
  | Checkout_not_found
  | Already_subscribed
  | Checkout_in_progress
  | Customer_reconciliation_required
  | Checkout_key_conflict
  | Checkout_key_consumed

definition attempt_of :: "uuid \<Rightarrow> uuid \<Rightarrow> checkout_row \<Rightarrow> bool" where
  "attempt_of u key c \<longleftrightarrow> bs_user_id c = u \<and> bs_idempotency_key c = key"

text \<open>What an earlier attempt under the same key answers; \<open>None\<close>: the attempt goes on.\<close>

definition answer_of_attempt ::
  "billing_period \<Rightarrow> js_time \<Rightarrow> js_time \<Rightarrow> checkout_row \<Rightarrow> begin_checkout_result option" where
  "answer_of_attempt period now stale_before c =
     (if bs_billing_period c \<noteq> period then Some Checkout_key_conflict
      else case (bs_status c, bs_stripe_session_id c, bs_checkout_url c) of
        (Ck_open, Some session, Some url) \<Rightarrow>
          if now < js_of_pg (bs_expires_at c) \<and> session \<noteq> [] \<and> url \<noteq> []
          then Some (Checkout_replay \<lparr> cv_session_id = session, cv_url = url, cv_expires_at = js_of_pg (bs_expires_at c) \<rparr>)
          else None
      | (Ck_completed, _, _) \<Rightarrow> Some Checkout_key_consumed
      | (Ck_expired, _, _) \<Rightarrow> Some Checkout_key_consumed
      | (Ck_creating, _, _) \<Rightarrow> if stale_before < js_of_pg (bs_updated_at c) then Some Checkout_in_progress else None
      | _ \<Rightarrow> None)"

text \<open>Sessions past their expiry and creations given up are closed first.\<close>

definition close_expired :: "uuid \<Rightarrow> js_time \<Rightarrow> pg_time \<Rightarrow> checkout_row list \<Rightarrow> checkout_row list" where
  "close_expired u now clk =
     sql_update (\<lambda>c. bs_user_id c = u \<and> bs_status c = Ck_open \<and> bs_expires_at c \<le> pg_of_js now)
       (\<lambda>c. c\<lparr>bs_status := Ck_expired, bs_checkout_url := None, bs_updated_at := clk\<rparr>)"

definition close_stale :: "uuid \<Rightarrow> js_time \<Rightarrow> pg_time \<Rightarrow> checkout_row list \<Rightarrow> checkout_row list" where
  "close_stale u stale_before clk =
     sql_update (\<lambda>c. bs_user_id c = u \<and> bs_status c = Ck_creating \<and> bs_updated_at c \<le> pg_of_js stale_before)
       (\<lambda>c. c\<lparr>bs_status := Ck_failed, bs_updated_at := clk\<rparr>)"

definition customer_unresolved :: "uuid \<Rightarrow> uuid option \<Rightarrow> db \<Rightarrow> bool" where
  "customer_unresolved u previous d \<longleftrightarrow>
     sql_exists (\<lambda>c. bs_user_id c = u \<and> bs_creation_started_at c \<noteq> None \<and> bs_customer_erased_at c = None \<and>
       (previous = None \<or> Some (bs_id c) \<noteq> previous)) (checkouts d) \<and>
     \<not> sql_exists (mapped_customer u) (customers d)"

definition new_checkout :: "uuid \<Rightarrow> uuid \<Rightarrow> uuid \<Rightarrow> billing_period \<Rightarrow> js_time \<Rightarrow> pg_time \<Rightarrow> checkout_row" where
  "new_checkout i u key period expires clk =
     \<lparr> bs_id = i, bs_user_id = u, bs_idempotency_key = key, bs_billing_period = period,
       bs_stripe_session_id = None, bs_checkout_url = None, bs_status = Ck_creating,
       bs_expires_at = pg_of_js expires, bs_updated_at = clk, bs_creation_started_at = None,
       bs_created_customer_id = None, bs_customer_erased_at = None \<rparr>"

definition reopen_checkout :: "js_time \<Rightarrow> pg_time \<Rightarrow> checkout_row \<Rightarrow> checkout_row" where
  "reopen_checkout expires clk c = c\<lparr>bs_status := Ck_creating, bs_stripe_session_id := None,
     bs_checkout_url := None, bs_expires_at := pg_of_js expires, bs_updated_at := clk\<rparr>"

text \<open>\<open>clk\<close> are the clock readings of the statements, \<open>txn\<close> the start of the transaction.\<close>

definition begin_checkout ::
  "uuid \<Rightarrow> uuid \<Rightarrow> billing_period \<Rightarrow> uuid \<Rightarrow> js_time \<Rightarrow> js_time \<Rightarrow> js_time \<Rightarrow> pg_time \<Rightarrow> (nat \<Rightarrow> pg_time) \<Rightarrow> db \<Rightarrow>
    sql_error + begin_checkout_result \<times> db" where
  "begin_checkout u key period i now expires stale_before txn clk d =
     (if \<not> sql_exists (\<lambda>a. ua_id a = u \<and> live_account a) (user_account d) then Inr (Checkout_not_found, d)
      else
        let previous = sql_first (attempt_of u key) (checkouts d) in
        case Option.bind previous (answer_of_attempt period now stale_before) of
          Some r \<Rightarrow> Inr (r, d)
        | None \<Rightarrow>
            and_then (write_checkouts (close_expired u now (clk 0) (checkouts d)) d) (\<lambda>d1.
            and_then (write_checkouts (close_stale u stale_before (clk 1) (checkouts d1)) d1) (\<lambda>d2.
              if has_active_subscription u now d2 then Inr (Already_subscribed, d2)
              else if sql_exists (\<lambda>c. bs_user_id c = u \<and> live_checkout c) (checkouts d2) then Inr (Checkout_in_progress, d2)
              else if customer_unresolved u (map_option bs_id previous) d2 then Inr (Customer_reconciliation_required, d2)
              else case checkout_context_of u d2 of
                None \<Rightarrow> Inl (Thrown ''active Premium subscription plan is missing'')
              | Some cx \<Rightarrow>
                  (case previous of
                     Some p \<Rightarrow>
                       and_then (write_checkouts (sql_update (\<lambda>c. bs_user_id c = u \<and> bs_id c = bs_id p)
                           (reopen_checkout expires (clk 2)) (checkouts d2)) d2)
                         (\<lambda>d3. Inr (Checkout_retry (bs_id p) cx, d3))
                   | None \<Rightarrow>
                       if account_deleted u d2 then Inl Live_account_trigger
                       else and_then (write_checkouts (checkouts d2 @ [new_checkout i u key period expires txn]) d2)
                         (\<lambda>d3. Inr (Checkout_created i cx, d3))))))"

definition mark_checkout_open :: "uuid \<Rightarrow> checkout_session_view \<Rightarrow> pg_time \<Rightarrow> db \<Rightarrow> sql_error + bool \<times> db" where
  "mark_checkout_open i v clk d =
     (let p = (\<lambda>c. bs_id c = i \<and> bs_status c = Ck_creating) in
      and_then (write_checkouts (sql_update p (\<lambda>c. c\<lparr>bs_stripe_session_id := Some (cv_session_id v),
          bs_checkout_url := Some (cv_url v), bs_status := Ck_open, bs_expires_at := pg_of_js (cv_expires_at v),
          bs_updated_at := clk\<rparr>) (checkouts d)) d)
        (\<lambda>d'. Inr (sql_count p (checkouts d) = 1, d')))"

definition mark_checkout_failed :: "uuid \<Rightarrow> pg_time \<Rightarrow> db \<Rightarrow> sql_error + db" where
  "mark_checkout_failed i clk d =
     write_checkouts (sql_update (\<lambda>c. bs_id c = i \<and> bs_status c = Ck_creating)
       (\<lambda>c. c\<lparr>bs_status := Ck_failed, bs_checkout_url := None, bs_updated_at := clk\<rparr>) (checkouts d)) d"

definition mark_checkout_from_webhook :: "string \<Rightarrow> checkout_status \<Rightarrow> pg_time \<Rightarrow> db \<Rightarrow> sql_error + uuid option \<times> db" where
  "mark_checkout_from_webhook session st clk d =
     (let p = (\<lambda>c. bs_stripe_session_id c = Some session \<and> live_checkout c) in
      and_then (write_checkouts (sql_update p (\<lambda>c. c\<lparr>bs_status := st, bs_checkout_url := None, bs_updated_at := clk\<rparr>)
          (checkouts d)) d)
        (\<lambda>d'. Inr (map_option bs_user_id (sql_first p (checkouts d)), d')))"

section \<open>The Stripe customer of an account\<close>

definition new_customer :: "uuid \<Rightarrow> string \<Rightarrow> pg_time \<Rightarrow> billing_customer_row" where
  "new_customer u i clk = \<lparr> bc_user_id = u, bc_stripe_customer_id = i, bc_deleted_at = None,
     bc_trial_used_at = None, bc_reconciliation_due_at = clk, bc_reconciled_at = None \<rparr>"

definition restore_customer :: "string \<Rightarrow> pg_time \<Rightarrow> billing_customer_row \<Rightarrow> billing_customer_row" where
  "restore_customer i clk c = c\<lparr>bc_stripe_customer_id := i, bc_deleted_at := None, bc_reconciliation_due_at := clk\<rparr>"

text \<open>INSERT .. ON CONFLICT (user_id) DO UPDATE .. WHERE the mapping is the same or was deleted; the value is whether
  a row was written.\<close>

definition map_customer :: "uuid \<Rightarrow> string \<Rightarrow> pg_time \<Rightarrow> db \<Rightarrow> sql_error + bool \<times> db" where
  "map_customer u i clk d =
     (case sql_first (\<lambda>c. bc_user_id c = u) (customers d) of
        None \<Rightarrow> and_then (write_customer (new_customer u i clk) (customers d @ [new_customer u i clk]) d) (\<lambda>d'. Inr (True, d'))
      | Some c \<Rightarrow>
          if bc_stripe_customer_id c = i \<or> bc_deleted_at c \<noteq> None
          then and_then (write_customer (restore_customer i clk c)
              (sql_update (\<lambda>c. bc_user_id c = u) (restore_customer i clk) (customers d)) d) (\<lambda>d'. Inr (True, d'))
          else Inr (False, d))"

definition save_customer :: "uuid \<Rightarrow> string \<Rightarrow> pg_time \<Rightarrow> db \<Rightarrow> sql_error + bool \<times> db" where
  "save_customer u i clk d =
     (if \<not> sql_exists (\<lambda>a. ua_id a = u \<and> live_account a) (user_account d) then Inr (False, d)
      else and_then (map_customer u i clk d) (\<lambda>(saved, d1).
        if \<not> saved then Inr (False, d1)
        else Inr (True, delete_outbox (\<lambda>e. oe_event_type e = Billing_customer_reconcile \<and>
          oe_status e \<in> {Oe_pending, Oe_completed, Oe_discarded} \<and>
          sql_exists (\<lambda>c. bs_id c = oe_aggregate_id e \<and> bs_user_id c = u \<and> bs_created_customer_id c = Some i) (checkouts d1)) d1)))"

text \<open>23 hours: Stripe keeps the answers to idempotent requests for 24.\<close>

definition idempotency_safety :: pg_time where
  "idempotency_safety = 23 * 3600000000"

definition customer_event :: "uuid \<Rightarrow> new_outbox_event" where
  "customer_event i = \<lparr> ne_event_type = Billing_customer_reconcile, ne_aggregate_id = i, ne_payload = None \<rparr>"

definition schedule_reconciliation :: "uuid \<Rightarrow> new_outbox_event \<Rightarrow> pg_time \<Rightarrow> pg_time \<Rightarrow> db \<Rightarrow> sql_error + db" where
  "schedule_reconciliation oid ev available txn d =
     (if sql_exists (outbox_conflict ev) (outbox_event d)
      then write_outbox (sql_update (\<lambda>e. outbox_conflict ev e \<and> oe_status e \<in> {Oe_completed, Oe_discarded})
        (reset_outbox_row available) (outbox_event d)) d
      else write_outbox (outbox_event d @ [(new_outbox_row oid ev txn)\<lparr>oe_available_at := available\<rparr>]) d)"

definition begin_customer_creation ::
  "uuid \<Rightarrow> uuid \<Rightarrow> pg_time \<Rightarrow> pg_time \<Rightarrow> db \<Rightarrow> sql_error + checkout_row \<times> db" where
  "begin_customer_creation i oid clk txn d =
     (let start = (\<lambda>c. c\<lparr>bs_creation_started_at := Some (case bs_creation_started_at c of None \<Rightarrow> clk | Some t \<Rightarrow> t)\<rparr>) in
      and_then (write_checkouts (sql_update (\<lambda>c. bs_id c = i) start (checkouts d)) d) (\<lambda>d1.
        case sql_first (\<lambda>c. bs_id c = i) (checkouts d1) of
          None \<Rightarrow> Inl (Thrown ''checkout_attempt_missing'')
        | Some c \<Rightarrow>
            and_then (schedule_reconciliation oid (customer_event i) (the (bs_creation_started_at c) + idempotency_safety) txn d1)
              (\<lambda>d2. Inr (c, d2))))"

definition record_created_customer :: "uuid \<Rightarrow> string \<Rightarrow> pg_time \<Rightarrow> db \<Rightarrow> sql_error + db" where
  "record_created_customer i customer clk d =
     (let p = (\<lambda>c. bs_id c = i \<and> (bs_created_customer_id c = None \<or> bs_created_customer_id c = Some customer)) in
      if sql_count p (checkouts d) \<noteq> 1 then Inl (Thrown ''checkout_customer_conflict'')
      else and_then (write_checkouts (sql_update p (\<lambda>c. c\<lparr>bs_created_customer_id := Some customer\<rparr>) (checkouts d)) d)
        (\<lambda>d1. write_outbox (sql_update (\<lambda>e. oe_event_type e = Billing_customer_reconcile \<and> oe_aggregate_id e = i \<and>
           oe_status e = Oe_pending) (\<lambda>e. e\<lparr>oe_available_at := clk\<rparr>) (outbox_event d1)) d1))"

definition customer_creations_for_erasure :: "uuid \<Rightarrow> db \<Rightarrow> checkout_row list" where
  "customer_creations_for_erasure u d =
     sql_page bs_id 50 (filter (\<lambda>c. bs_user_id c = u \<and> bs_creation_started_at c \<noteq> None \<and> bs_customer_erased_at c = None)
       (checkouts d))"

definition mark_created_customer_erased :: "uuid \<Rightarrow> pg_time \<Rightarrow> db \<Rightarrow> sql_error + db" where
  "mark_created_customer_erased i clk d =
     write_checkouts (sql_update (\<lambda>c. bs_id c = i) (\<lambda>c. c\<lparr>bs_customer_erased_at := Some clk\<rparr>) (checkouts d)) d"

section \<open>Webhooks\<close>

record webhook_metadata =
  wm_id :: string
  wm_type :: string
  wm_object_id :: "string option"
  wm_livemode :: bool
  wm_created_at :: js_time

definition webhook_processed :: "string \<Rightarrow> db \<Rightarrow> bool" where
  "webhook_processed i d = sql_exists (\<lambda>w. we_id w = i) (stripe_webhook_event (stripe d))"

text \<open>The receipt and the work are one transaction: \<open>None\<close> for a duplicate.\<close>

definition process_webhook ::
  "webhook_metadata \<Rightarrow> (db \<Rightarrow> sql_error + 'a \<times> db) \<Rightarrow> db \<Rightarrow> sql_error + 'a option \<times> db" where
  "process_webhook m work d =
     (if webhook_processed (wm_id m) d then Inr (None, d)
      else and_then (work (d\<lparr>stripe := (stripe d)\<lparr>stripe_webhook_event := stripe_webhook_event (stripe d) @
          [\<lparr> we_id = wm_id m, we_type = wm_type m, we_object_id = wm_object_id m, we_livemode = wm_livemode m,
             we_created_at = pg_of_js (wm_created_at m) \<rparr>]\<rparr>\<rparr>))
        (\<lambda>(r, d'). Inr (Some r, d')))"

text \<open>\<open>BillingMappingError\<close> and \<open>BillingAccountInactiveError\<close>.\<close>

abbreviation mapping_error :: sql_error where
  "mapping_error \<equiv> Thrown ''billing_mapping''"

abbreviation account_inactive :: sql_error where
  "account_inactive \<equiv> Thrown ''billing_account_inactive''"

definition require_active_billing_account :: "uuid \<Rightarrow> db \<Rightarrow> sql_error + unit" where
  "require_active_billing_account u d =
     (case sql_first (\<lambda>a. ua_id a = u) (user_account d) of
        None \<Rightarrow> Inl mapping_error
      | Some a \<Rightarrow> if ua_deleted_at a \<noteq> None then Inl account_inactive else Inr ())"

definition lock_customer_mapping :: "string \<Rightarrow> uuid \<Rightarrow> db \<Rightarrow> sql_error + unit" where
  "lock_customer_mapping i u d =
     (if sql_exists (\<lambda>c. bc_stripe_customer_id c = i \<and> bc_user_id c = u) (customers d) then Inr () else Inl mapping_error)"

definition resolve_billing_user ::
  "string \<Rightarrow> uuid option \<Rightarrow> pg_time \<Rightarrow> db \<Rightarrow> sql_error + uuid option \<times> db" where
  "resolve_billing_user i metadata clk d =
     (let mapped = map_option bc_user_id (sql_first (\<lambda>c. bc_stripe_customer_id c = i) (customers d));
          owner = (case mapped of Some u \<Rightarrow> Some u | None \<Rightarrow> metadata) in
      and_then (case owner of None \<Rightarrow> Inr () | Some u \<Rightarrow> require_active_billing_account u d) (\<lambda>_.
        case mapped of
          Some u \<Rightarrow>
            if (case metadata of None \<Rightarrow> False | Some m \<Rightarrow> m \<noteq> u) then Inl mapping_error
            else and_then (lock_customer_mapping i u d) (\<lambda>_. Inr (Some u, d))
        | None \<Rightarrow>
            (case metadata of
               None \<Rightarrow> Inr (None, d)
             | Some u \<Rightarrow>
                 (case sql_first (\<lambda>c. bc_user_id c = u) (customers d) of
                    None \<Rightarrow> and_then (write_customer (new_customer u i clk) (customers d @ [new_customer u i clk]) d)
                      (\<lambda>d'. Inr (Some u, d'))
                  | Some c \<Rightarrow> if bc_stripe_customer_id c = i then Inr (Some u, d) else Inl mapping_error))))"

record subscription_projection =
  sp_stripe_customer_id :: string
  sp_subscription_id :: string
  sp_price_id :: string
  sp_billing_period :: billing_period
  sp_status :: subscription_status
  sp_cancel_at_period_end :: bool
  sp_period_starts_at :: js_time
  sp_period_ends_at :: js_time
  sp_trial_starts_at :: "js_time option"
  sp_trial_ends_at :: "js_time option"
  sp_canceled_at :: "js_time option"

definition projected_row :: "uuid \<Rightarrow> subscription_projection \<Rightarrow> pg_time option \<Rightarrow> nat \<Rightarrow> pg_time option \<Rightarrow> subscription_row" where
  "projected_row u p event version snapshot =
     \<lparr> us_user_id = u, us_plan = ''premium'', us_provider = Some ''stripe'',
       us_provider_subscription_id = Some (sp_subscription_id p), us_status = Some (sp_status p),
       us_period_ends_at = Some (pg_of_js (sp_period_ends_at p)), us_trial_ends_at = map_option pg_of_js (sp_trial_ends_at p),
       us_provider_price_id = Some (sp_price_id p), us_billing_period = Some (sp_billing_period p),
       us_cancel_at_period_end = sp_cancel_at_period_end p,
       us_period_starts_at = Some (pg_of_js (sp_period_starts_at p)),
       us_canceled_at = map_option pg_of_js (sp_canceled_at p), us_event_created_at = event,
       us_projection_version = version, us_snapshot_at = snapshot \<rparr>"

definition ended_status :: "subscription_status \<Rightarrow> bool" where
  "ended_status s \<longleftrightarrow> s \<in> {Canceled, Unpaid, Incomplete_expired}"

definition entitled_status :: "subscription_status \<Rightarrow> bool" where
  "entitled_status s \<longleftrightarrow> s \<in> {Trialing, Sub_active, Past_due}"

text \<open>
  SQL's three-valued logic: \<open>NOT IN\<close> over a NULL status is NULL, and the row is not updated on its account.
\<close>

definition accepts_projection :: "subscription_projection \<Rightarrow> pg_time \<Rightarrow> subscription_row \<Rightarrow> bool" where
  "accepts_projection p t s \<longleftrightarrow>
     (us_provider_subscription_id s = None \<or> us_provider_subscription_id s = Some (sp_subscription_id p) \<or>
      (case us_status s of None \<Rightarrow> False | Some st \<Rightarrow> \<not> entitled_status st)) \<and>
     (case us_event_created_at s of
        None \<Rightarrow> True
      | Some e \<Rightarrow> e < t \<or> e = t \<and>
          ((case us_status s of None \<Rightarrow> False | Some st \<Rightarrow> \<not> ended_status st) \<or> ended_status (sp_status p))) \<and>
     (case us_snapshot_at s of None \<Rightarrow> True | Some n \<Rightarrow> n \<le> t)"

definition greatest :: "pg_time option \<Rightarrow> pg_time \<Rightarrow> pg_time option" where
  "greatest a t = Some (case a of None \<Rightarrow> t | Some x \<Rightarrow> max x t)"

definition project_onto :: "uuid \<Rightarrow> subscription_projection \<Rightarrow> pg_time \<Rightarrow> subscription_row \<Rightarrow> subscription_row" where
  "project_onto u p t s =
     projected_row u p (Some t) (us_projection_version s + 1) (greatest (us_snapshot_at s) t)"

definition use_trial :: "uuid \<Rightarrow> subscription_projection \<Rightarrow> db \<Rightarrow> sql_error + db" where
  "use_trial u p d =
     (case sp_trial_starts_at p of
        None \<Rightarrow> Inr d
      | Some t \<Rightarrow>
          let q = (\<lambda>c. bc_user_id c = u \<and> bc_stripe_customer_id c = sp_stripe_customer_id p);
              f = (\<lambda>c. c\<lparr>bc_trial_used_at := Some (case bc_trial_used_at c of None \<Rightarrow> pg_of_js t | Some x \<Rightarrow> x)\<rparr>)
          in case sql_first q (customers d) of
               None \<Rightarrow> Inr d
             | Some c \<Rightarrow> write_customer (f c) (sql_update q f (customers d)) d)"

definition upsert_subscription :: "uuid \<Rightarrow> subscription_projection \<Rightarrow> js_time \<Rightarrow> db \<Rightarrow> sql_error + db" where
  "upsert_subscription u p event d =
     (let t = pg_of_js event; own = (\<lambda>s. us_user_id s = u) in
      case sql_first own (user_subscription d) of
        None \<Rightarrow>
          and_then (write_subscription (projected_row u p (Some t) 1 (Some t))
            (user_subscription d @ [projected_row u p (Some t) 1 (Some t)]) d) (use_trial u p)
      | Some s \<Rightarrow>
          if account_deleted u d then Inl Live_account_trigger
          else if accepts_projection p t s
          then and_then (write_subscription (project_onto u p t s) (sql_update own (project_onto u p t) (user_subscription d)) d)
            (use_trial u p)
          else if us_provider_subscription_id s = Some (sp_subscription_id p) \<and>
            (case us_event_created_at s of None \<Rightarrow> False | Some e \<Rightarrow> event \<le> js_of_pg e)
          then Inr d
          else Inl mapping_error)"

record invoice_projection =
  ip_invoice_id :: string
  ip_stripe_customer_id :: string
  ip_subscription_id :: "string option"
  ip_status :: "invoice_status option"
  ip_currency :: string
  ip_amount_due :: int
  ip_amount_paid :: int
  ip_amount_remaining :: int
  ip_period_starts_at :: js_time
  ip_period_ends_at :: js_time
  ip_paid_at :: "js_time option"
  ip_created_at :: js_time

definition invoice_row_of :: "uuid \<Rightarrow> invoice_projection \<Rightarrow> js_time \<Rightarrow> invoice_row" where
  "invoice_row_of u i event =
     \<lparr> bi_invoice_id = ip_invoice_id i, bi_user_id = Some u, bi_status = ip_status i,
       bi_amount_remaining = ip_amount_remaining i, bi_stripe_customer_id = ip_stripe_customer_id i,
       bi_stripe_subscription_id = ip_subscription_id i, bi_currency = ip_currency i,
       bi_amount_due = ip_amount_due i, bi_amount_paid = ip_amount_paid i,
       bi_period_starts_at = pg_of_js (ip_period_starts_at i), bi_period_ends_at = pg_of_js (ip_period_ends_at i),
       bi_paid_at = map_option pg_of_js (ip_paid_at i), bi_created_at = pg_of_js (ip_created_at i),
       bi_event_created_at = Some (pg_of_js event) \<rparr>"

definition settled_invoice :: "invoice_status \<Rightarrow> bool" where
  "settled_invoice s \<longleftrightarrow> s \<in> {Inv_paid, Inv_void, Inv_uncollectible}"

definition accepts_invoice :: "invoice_projection \<Rightarrow> pg_time \<Rightarrow> invoice_row \<Rightarrow> bool" where
  "accepts_invoice i t r \<longleftrightarrow>
     (case bi_event_created_at r of
        None \<Rightarrow> True
      | Some e \<Rightarrow> e < t \<or> e = t \<and>
          ((case bi_status r of None \<Rightarrow> False | Some s \<Rightarrow> \<not> settled_invoice s) \<or>
           (case ip_status i of None \<Rightarrow> False | Some s \<Rightarrow> settled_invoice s)))"

definition upsert_invoice :: "uuid \<Rightarrow> invoice_projection \<Rightarrow> js_time \<Rightarrow> db \<Rightarrow> sql_error + db" where
  "upsert_invoice u i event d =
     (let own = (\<lambda>r. bi_invoice_id r = ip_invoice_id i); t = pg_of_js event in
      if ip_amount_due i < 0 \<or> ip_amount_paid i < 0 \<or> ip_amount_remaining i < 0 then Inl Check_violation
      else case sql_first own (billing_invoice d) of
        None \<Rightarrow> Inr (d\<lparr>billing_invoice := billing_invoice d @ [invoice_row_of u i event]\<rparr>)
      | Some r \<Rightarrow> Inr (d\<lparr>billing_invoice := sql_update (\<lambda>r. own r \<and> accepts_invoice i t r)
          (\<lambda>_. invoice_row_of u i event) (billing_invoice d)\<rparr>))"

definition mark_customer_deleted :: "string \<Rightarrow> js_time \<Rightarrow> (nat \<Rightarrow> pg_time) \<Rightarrow> db \<Rightarrow> sql_error + uuid option \<times> db" where
  "mark_customer_deleted i event clk d =
     (let t = pg_of_js event in
      case map_option bc_user_id (sql_first (\<lambda>c. bc_stripe_customer_id c = i) (customers d)) of
        None \<Rightarrow> Inr (None, d)
      | Some u \<Rightarrow>
          and_then (require_active_billing_account u d) (\<lambda>_.
          and_then (lock_customer_mapping i u d) (\<lambda>_.
            let d1 = d\<lparr>user_subscription := sql_update (\<lambda>s. us_user_id s = u \<and> us_provider s = Some ''stripe'' \<and>
                   (case us_snapshot_at s of None \<Rightarrow> True | Some n \<Rightarrow> n \<le> t))
                 (\<lambda>s. s\<lparr>us_status := Some Canceled, us_cancel_at_period_end := False,
                   us_canceled_at := Some (case us_canceled_at s of None \<Rightarrow> t | Some x \<Rightarrow> x),
                   us_event_created_at := greatest (us_event_created_at s) t,
                   us_snapshot_at := greatest (us_snapshot_at s) t,
                   us_projection_version := us_projection_version s + 1\<rparr>) (user_subscription d)\<rparr>
            in and_then (write_checkouts (sql_update (\<lambda>c. bs_user_id c = u \<and> live_checkout c)
                 (\<lambda>c. c\<lparr>bs_status := Ck_failed, bs_checkout_url := None, bs_updated_at := clk 0\<rparr>) (checkouts d1)) d1)
               (\<lambda>d2. Inr (Some u, put_customers (sql_update (\<lambda>c. bc_user_id c = u)
                 (\<lambda>c. c\<lparr>bc_deleted_at := Some (clk 1)\<rparr>) (customers d2)) d2)))))"

end
