(* ===== verification/Billing_Projection.thy ===== *)
theory Billing_Projection
  imports Billing
begin

text \<open>
  What the projection of Stripe's events promises: the events of one subscription may arrive in any order and several
  times, and the row ends as the newest event describes it; a webhook that Stripe delivers twice is processed once.
\<close>

section \<open>The row of an account\<close>

definition subscription_table_ok :: "subscription_row list \<Rightarrow> bool" where
  "subscription_table_ok t \<longleftrightarrow> distinct (map us_user_id t) \<and>
     unique_where (\<lambda>s. us_provider_subscription_id s \<noteq> None) us_provider_subscription_id t"

text \<open>No other account holds the subscription.\<close>

definition free_for :: "uuid \<Rightarrow> string \<Rightarrow> subscription_row list \<Rightarrow> bool" where
  "free_for u x t \<longleftrightarrow> (\<forall>s \<in> set t. us_provider_subscription_id s = Some x \<longrightarrow> us_user_id s = u)"

definition billing_ready :: "uuid \<Rightarrow> string \<Rightarrow> db \<Rightarrow> bool" where
  "billing_ready u x d \<longleftrightarrow> \<not> account_deleted u d \<and> customer_keys_ok (customers d) \<and>
     subscription_table_ok (user_subscription d) \<and> free_for u x (user_subscription d)"

lemma subscription_table_put:
  assumes "subscription_table_ok t" "free_for u x t" "us_user_id r = u" "us_provider_subscription_id r = Some x"
    "sql_exists (\<lambda>s. us_user_id s = u) t"
  shows "subscription_table_ok (sql_update (\<lambda>s. us_user_id s = u) (\<lambda>_. r) t)"
    "free_for u x (sql_update (\<lambda>s. us_user_id s = u) (\<lambda>_. r) t)"
proof -
  let ?t = "sql_update (\<lambda>s. us_user_id s = u) (\<lambda>_. r) t"
  have keys: "map us_user_id ?t = map us_user_id t"
    using assms(3) by (induction t) auto
  have d: "distinct (map us_user_id t)" using assms(1) by (simp add: subscription_table_ok_def)
  show free: "free_for u x ?t" using assms(2,3) by (auto simp: free_for_def ball_sql_update)
  have "us_user_id y = us_user_id z"
    if y: "y \<in> set ?t" and z: "z \<in> set ?t" and p: "us_provider_subscription_id y \<noteq> None"
      and eq: "us_provider_subscription_id y = us_provider_subscription_id z" for y z
  proof (cases "us_provider_subscription_id y = Some x")
    case True
    then show ?thesis using free y z eq by (simp add: free_for_def)
  next
    case False
    from y obtain y' where y': "y' \<in> set t" "y = (if us_user_id y' = u then r else y')" by (elim in_sql_updateE)
    from z obtain z' where z': "z' \<in> set t" "z = (if us_user_id z' = u then r else z')" by (elim in_sql_updateE)
    have "y = y'" "z = z'" using y'(2) z'(2) False eq assms(4) by (auto split: if_splits)
    have "unique_where (\<lambda>s. us_provider_subscription_id s \<noteq> None) us_provider_subscription_id t"
      using assms(1) by (simp add: subscription_table_ok_def)
    from unique_whereD [OF this y'(1) z'(1)] show ?thesis
      using \<open>y = y'\<close> \<open>z = z'\<close> p eq by simp
  qed
  then have "unique_where (\<lambda>s. us_provider_subscription_id s \<noteq> None) us_provider_subscription_id ?t"
    unfolding unique_where_iff [where i = us_user_id, OF d [folded keys]] by blast
  then show "subscription_table_ok ?t"
    using d keys by (simp add: subscription_table_ok_def)
qed

lemma subscription_table_add:
  assumes "subscription_table_ok t" "free_for u x t" "us_user_id r = u" "us_provider_subscription_id r = Some x"
    "\<not> sql_exists (\<lambda>s. us_user_id s = u) t"
  shows "subscription_table_ok (t @ [r])" "free_for u x (t @ [r])"
  using assms by (auto simp: subscription_table_ok_def free_for_def unique_where_append sql_exists_iff image_iff)

lemma sql_first_update_own:
  "us_user_id r = u \<Longrightarrow> sql_exists (\<lambda>s. us_user_id s = u) t \<Longrightarrow>
    sql_first (\<lambda>s. us_user_id s = u) (sql_update (\<lambda>s. us_user_id s = u) (\<lambda>_. r) t) = Some r"
  by (induction t) auto

lemma projected_row_sel [simp]:
  "us_user_id (projected_row u p e v n) = u"
  "us_provider_subscription_id (projected_row u p e v n) = Some (sp_subscription_id p)"
  "us_status (projected_row u p e v n) = Some (sp_status p)"
  "us_event_created_at (projected_row u p e v n) = e"
  "us_snapshot_at (projected_row u p e v n) = n"
  "us_projection_version (projected_row u p e v n) = v"
  by (simp_all add: projected_row_def)

lemma use_trial_ok:
  assumes "\<not> account_deleted u d" "customer_keys_ok (customers d)"
  obtains d' where "use_trial u p d = Inr d'" "user_subscription d' = user_subscription d"
    "user_account d' = user_account d" "customer_keys_ok (customers d')"
proof -
  define f where "f t = (\<lambda>c :: billing_customer_row.
    c\<lparr>bc_trial_used_at := Some (case bc_trial_used_at c of None \<Rightarrow> pg_of_js t | Some y \<Rightarrow> y)\<rparr>)" for t
  define q where "q = (\<lambda>c :: billing_customer_row. bc_user_id c = u \<and> bc_stripe_customer_id c = sp_stripe_customer_id p)"
  have k: "map bc_user_id (sql_update q (f t) (customers d)) = map bc_user_id (customers d)"
    "map bc_stripe_customer_id (sql_update q (f t) (customers d)) = map bc_stripe_customer_id (customers d)" for t
    by (simp_all add: map_sql_update f_def)
  have w: "write_customer (f t c) (sql_update q (f t) (customers d)) d = Inr (put_customers (sql_update q (f t) (customers d)) d)"
    if "sql_first q (customers d) = Some c" for t c
    using assms sql_first_SomeD [OF that] k unfolding write_customer_def customer_keys_ok_def
    by (simp add: q_def f_def)
  show thesis
  proof (cases "sp_trial_starts_at p")
    case None
    then show thesis using that [of d] assms by (simp add: use_trial_def)
  next
    case (Some t)
    show thesis
    proof (cases "sql_first q (customers d)")
      case None
      then show thesis using that [of d] assms Some by (simp add: use_trial_def q_def)
    next
      case c: (Some c)
      have "use_trial u p d = Inr (put_customers (sql_update q (f t) (customers d)) d)"
        using w [OF c, of t] c unfolding use_trial_def Some q_def f_def by simp
      moreover have "customer_keys_ok (customers (put_customers (sql_update q (f t) (customers d)) d))"
        using assms(2) k unfolding customer_keys_ok_def put_customers_def by simp
      ultimately show thesis using that by (simp add: put_customers_def)
    qed
  qed
qed

section \<open>The newest event wins\<close>

text \<open>What a row that came from an event remembers, and how the next event competes with it. Stripe's clock has
  seconds: of two events of one second, one that ends the subscription wins.\<close>

definition row_holds :: "uuid \<Rightarrow> db \<Rightarrow> (subscription_projection \<times> js_time) option \<Rightarrow> bool" where
  "row_holds u d h \<longleftrightarrow>
     (case (sql_first (\<lambda>s. us_user_id s = u) (user_subscription d), h) of
        (None, h) \<Rightarrow> h = None
      | (Some s, None) \<Rightarrow> us_provider_subscription_id s = None \<and> us_event_created_at s = None \<and> us_snapshot_at s = None
      | (Some s, Some (p, t)) \<Rightarrow> \<exists>v. s = projected_row u p (Some (pg_of_js t)) v (Some (pg_of_js t)))"

definition beats :: "subscription_projection \<times> js_time \<Rightarrow> subscription_projection \<times> js_time \<Rightarrow> bool" where
  "beats e h \<longleftrightarrow> snd h < snd e \<or> snd h = snd e \<and> (ended_status (sp_status (fst h)) \<longrightarrow> ended_status (sp_status (fst e)))"

definition newer ::
  "subscription_projection \<times> js_time \<Rightarrow> (subscription_projection \<times> js_time) option \<Rightarrow> subscription_projection \<times> js_time" where
  "newer e h = (case h of None \<Rightarrow> e | Some h \<Rightarrow> if beats e h then e else h)"

lemma upsert_subscription_newer:
  assumes "billing_ready u x d" "row_holds u d h" "sp_subscription_id p = x"
    "\<And>h'. h = Some h' \<Longrightarrow> sp_subscription_id (fst h') = x"
  obtains d' where "upsert_subscription u p t d = Inr d'" "billing_ready u x d'" "row_holds u d' (Some (newer (p, t) h))"
proof -
  let ?own = "\<lambda>s. us_user_id s = u"
  note fin = that
  have live: "\<not> account_deleted u d" and ck: "customer_keys_ok (customers d)"
    and tab: "subscription_table_ok (user_subscription d)" and free: "free_for u x (user_subscription d)"
    using assms(1) by (auto simp: billing_ready_def)
  have wr: thesis if r: "us_user_id r = u" "us_provider_subscription_id r = Some x"
    and ok: "subscription_table_ok tt" "free_for u x tt" "sql_first ?own tt = Some r"
    and up: "upsert_subscription u p t d = and_then (write_subscription r tt d) (use_trial u p)"
    and new: "\<exists>v. r = projected_row u (fst (newer (p, t) h)) (Some (pg_of_js (snd (newer (p, t) h)))) v
       (Some (pg_of_js (snd (newer (p, t) h))))" for r tt
  proof -
    define d1 where "d1 = d\<lparr>user_subscription := tt\<rparr>"
    have d1: "write_subscription r tt d = Inr d1"
      using r ok(1) live unfolding write_subscription_def d1_def subscription_table_ok_def by simp
    have 1: "user_subscription d1 = tt" "user_account d1 = user_account d" "customers d1 = customers d"
      by (simp_all add: d1_def)
    have "\<not> account_deleted u d1" "customer_keys_ok (customers d1)" using live ck 1 by (simp_all add: account_deleted_def)
    then obtain d2 where d2: "use_trial u p d1 = Inr d2" "user_subscription d2 = user_subscription d1"
      "user_account d2 = user_account d1" "customer_keys_ok (customers d2)" by (rule use_trial_ok)
    have "billing_ready u x d2" using d2 1 ok live by (simp add: billing_ready_def account_deleted_def)
    moreover have "row_holds u d2 (Some (newer (p, t) h))"
      using d2(2) 1 ok(3) new unfolding row_holds_def by (cases "newer (p, t) h") simp
    ultimately show thesis using fin [of d2] d1 d2(1) up by simp
  qed
  show thesis
  proof (cases "sql_first ?own (user_subscription d)")
    case None
    then have h: "h = None" using assms(2) by (cases h) (auto simp: row_holds_def)
    let ?r = "projected_row u p (Some (pg_of_js t)) 1 (Some (pg_of_js t))"
    have no: "\<not> sql_exists ?own (user_subscription d)" using None by (simp add: sql_first_None_iff sql_exists_iff)
    have r: "us_user_id ?r = u" "us_provider_subscription_id ?r = Some x" by (simp_all add: assms(3))
    show thesis
    proof (rule wr [OF r subscription_table_add [OF tab free r no]])
      show "sql_first ?own (user_subscription d @ [?r]) = Some ?r" using None by (simp add: sql_first_append)
      show "upsert_subscription u p t d = and_then (write_subscription ?r (user_subscription d @ [?r]) d) (use_trial u p)"
        using None unfolding upsert_subscription_def Let_def by simp
      show "\<exists>v. ?r = projected_row u (fst (newer (p, t) h)) (Some (pg_of_js (snd (newer (p, t) h)))) v
          (Some (pg_of_js (snd (newer (p, t) h))))" using h by (auto simp: newer_def)
    qed
  next
    case (Some s)
    have s: "us_user_id s = u" "s \<in> set (user_subscription d)" using sql_first_SomeD [OF Some] by auto
    have some: "sql_exists ?own (user_subscription d)" using Some sql_first_Some_iff_exists [of ?own "user_subscription d"] by simp
    have dk: "distinct (map us_user_id (user_subscription d))" using tab by (simp add: subscription_table_ok_def)
    have eq: "y = s" if "y \<in> set (user_subscription d)" "us_user_id y = u" for y
      by (rule distinct_keyD [OF dk that(1) s(2)]) (simp add: that(2) s(1))
    let ?r = "project_onto u p (pg_of_js t) s"
    have upd: "sql_update ?own (project_onto u p (pg_of_js t)) (user_subscription d) = sql_update ?own (\<lambda>_. ?r) (user_subscription d)"
      unfolding sql_update_def by (rule map_cong [OF refl]) (metis eq)
    have r: "us_user_id ?r = u" "us_provider_subscription_id ?r = Some x" using assms(3) by (simp_all add: project_onto_def)
    have first: "sql_first ?own (sql_update ?own (\<lambda>_. ?r) (user_subscription d)) = Some ?r"
      using sql_first_update_own [OF r(1) some] .
    show thesis
    proof (cases "accepts_projection p (pg_of_js t) s")
      case True
      have "?r = projected_row u p (Some (pg_of_js t)) (us_projection_version s + 1) (Some (pg_of_js t)) \<and> newer (p, t) h = (p, t)"
      proof (cases h)
        case None
        then show ?thesis using Some assms(2) by (simp add: row_holds_def project_onto_def greatest_def newer_def)
      next
        case (Some h')
        then obtain v where "s = projected_row u (fst h') (Some (pg_of_js (snd h'))) v (Some (pg_of_js (snd h')))"
          using \<open>sql_first ?own (user_subscription d) = Some s\<close> assms(2) by (cases h') (auto simp: row_holds_def)
        then show ?thesis using True Some
          by (auto simp: accepts_projection_def project_onto_def greatest_def newer_def beats_def)
      qed
      then have new: "\<exists>v. ?r = projected_row u (fst (newer (p, t) h)) (Some (pg_of_js (snd (newer (p, t) h)))) v
          (Some (pg_of_js (snd (newer (p, t) h))))" by (metis fst_conv snd_conv)
      have "upsert_subscription u p t d =
          and_then (write_subscription ?r (sql_update ?own (\<lambda>_. ?r) (user_subscription d)) d) (use_trial u p)"
        using True Some live unfolding upsert_subscription_def Let_def upd by simp
      from wr [OF r subscription_table_put [OF tab free r some] first this new] show thesis .
    next
      case False
      obtain p0 t0 v where h: "h = Some (p0, t0)"
        and sv: "s = projected_row u p0 (Some (pg_of_js t0)) v (Some (pg_of_js t0))"
        using Some assms(2) False by (cases h) (auto simp: row_holds_def accepts_projection_def)
      have x: "sp_subscription_id p0 = x" using assms(4) [OF h] by simp
      have "\<not> beats (p, t) (p0, t0)" and le: "t \<le> t0"
        using False sv x assms(3) by (auto simp: accepts_projection_def beats_def)
      then have "newer (p, t) h = (p0, t0)" by (simp add: newer_def h)
      moreover have "upsert_subscription u p t d = Inr d"
        using Some False live sv x le assms(3) unfolding upsert_subscription_def Let_def by simp
      ultimately show thesis using that [of d] assms(1,2) h by simp
    qed
  qed
qed

text \<open>The events of a subscription in the order in which they are processed.\<close>

fun project_all :: "uuid \<Rightarrow> (subscription_projection \<times> js_time) list \<Rightarrow> db \<Rightarrow> sql_error + db" where
  "project_all u [] d = Inr d"
| "project_all u ((p, t) # evs) d = and_then (upsert_subscription u p t d) (project_all u evs)"

fun newest :: "(subscription_projection \<times> js_time) list \<Rightarrow> (subscription_projection \<times> js_time) option
    \<Rightarrow> (subscription_projection \<times> js_time) option" where
  "newest [] h = h"
| "newest (e # evs) h = newest evs (Some (newer e h))"

lemma project_all_newest:
  assumes "billing_ready u x d" "row_holds u d h" "list_all (\<lambda>e. sp_subscription_id (fst e) = x) evs"
    "\<And>h'. h = Some h' \<Longrightarrow> sp_subscription_id (fst h') = x"
  shows "\<exists>d'. project_all u evs d = Inr d' \<and> billing_ready u x d' \<and> row_holds u d' (newest evs h)"
  using assms
proof (induction evs arbitrary: d h)
  case (Cons e evs)
  obtain p t where e: "e = (p, t)" by (cases e)
  have p: "sp_subscription_id p = x" using Cons.prems(3) e by simp
  obtain d1 where d1: "upsert_subscription u p t d = Inr d1" "billing_ready u x d1"
    "row_holds u d1 (Some (newer (p, t) h))"
    using upsert_subscription_newer [OF Cons.prems(1,2) p Cons.prems(4)] by blast
  have "sp_subscription_id (fst (newer (p, t) h)) = x"
    using p Cons.prems(4) by (auto simp: newer_def split: option.split)
  then show ?case
    using Cons.IH [OF d1(2,3)] Cons.prems(3) d1(1) e by simp
qed simp

definition no_newer :: "subscription_projection \<times> js_time \<Rightarrow> (subscription_projection \<times> js_time) \<Rightarrow> bool" where
  "no_newer m e \<longleftrightarrow> snd e \<le> snd m \<and> (snd e = snd m \<longrightarrow> ended_status (sp_status (fst e)) \<longrightarrow> ended_status (sp_status (fst m)))"

lemma no_newer_newer: "no_newer (newer e (Some h)) e" "no_newer (newer e (Some h)) h" "no_newer e e"
  by (auto simp: no_newer_def newer_def beats_def)

lemma no_newer_trans: "no_newer a b \<Longrightarrow> no_newer b c \<Longrightarrow> no_newer a c"
  by (auto simp: no_newer_def)

lemma newest_Some:
  "\<exists>m. newest evs (Some h) = Some m \<and> m \<in> insert h (set evs) \<and> no_newer m h \<and> (\<forall>e \<in> set evs. no_newer m e)"
proof (induction evs arbitrary: h)
  case Nil
  show ?case using no_newer_newer(3) by auto
next
  case (Cons e evs)
  let ?n = "newer e (Some h)"
  obtain m where m: "newest evs (Some ?n) = Some m" "m \<in> insert ?n (set evs)" "no_newer m ?n"
    "\<forall>e \<in> set evs. no_newer m e" using Cons.IH [of ?n] by blast
  have "?n = e \<or> ?n = h" by (auto simp: newer_def)
  then have "m \<in> insert h (set (e # evs))" using m(2) by auto
  moreover have "no_newer m e" "no_newer m h"
    using no_newer_trans [OF m(3) no_newer_newer(1)] no_newer_trans [OF m(3) no_newer_newer(2)] by auto
  ultimately show ?case using m(1,4) by (intro exI [of _ m]) auto
qed

lemma newest_None:
  assumes "evs \<noteq> []"
  obtains m where "newest evs None = Some m" "m \<in> set evs" "\<And>e. e \<in> set evs \<Longrightarrow> no_newer m e"
proof (cases evs)
  case (Cons e es)
  then have "newest evs None = newest es (Some e)" by (simp add: newer_def)
  then show thesis using newest_Some [of es e] that Cons by fastforce
qed (use assms in simp)


text \<open>Four events, the newest two of one second, arrive out of order.\<close>

definition stripe_event :: "subscription_status \<Rightarrow> subscription_projection" where
  "stripe_event st = \<lparr> sp_stripe_customer_id = ''cus_1'', sp_subscription_id = ''sub_1'', sp_price_id = ''price_1'',
     sp_billing_period = Monthly, sp_status = st, sp_cancel_at_period_end = False, sp_period_starts_at = 0,
     sp_period_ends_at = 2592000000, sp_trial_starts_at = Some 0, sp_trial_ends_at = Some 604800000,
     sp_canceled_at = None \<rparr>"

definition sample_events :: "(subscription_projection \<times> js_time) list" where
  "sample_events = [(stripe_event Sub_active, 20000), (stripe_event Canceled, 30000), (stripe_event Trialing, 10000),
     (stripe_event Past_due, 30000)]"

definition paying_user :: db where
  "paying_user = empty_db\<lparr>user_account := [\<lparr> ua_id = ''u'', ua_role = User, ua_phone_hash = ''h'',
     ua_phone_encrypted = ''e'', ua_banned = False, ua_deleted_at = None \<rparr>],
     stripe := (stripe empty_db)\<lparr>billing_customer := [\<lparr> bc_user_id = ''u'', bc_stripe_customer_id = ''cus_1'',
       bc_deleted_at = None, bc_trial_used_at = None, bc_reconciliation_due_at = 0, bc_reconciled_at = None \<rparr>]\<rparr>\<rparr>"


end
