(* ===== verification/Billing_Checkout.thy ===== *)
theory Billing_Checkout
  imports Billing
begin

text \<open>
  Beginning a checkout never runs into an index: whatever earlier attempts left behind, the transaction commits, the
  account has no live checkout but the one it was given, and a request that is answered changes no live checkout.
\<close>

section \<open>The table of checkouts\<close>

lemma put_checkouts_sel [simp]:
  "checkouts (put_checkouts t d) = t"
  "customers (put_checkouts t d) = customers d"
  "user_account (put_checkouts t d) = user_account d"
  "subscription_plan (put_checkouts t d) = subscription_plan d"
  "user_subscription (put_checkouts t d) = user_subscription d"
  "outbox_event (put_checkouts t d) = outbox_event d"
  by (simp_all add: put_checkouts_def)

text \<open>An update that keeps the keys of a row, and neither revives it nor gives it another session, is accepted.\<close>

definition closes :: "checkout_row \<Rightarrow> checkout_row \<Rightarrow> bool" where
  "closes c c' \<longleftrightarrow> bs_id c' = bs_id c \<and> bs_user_id c' = bs_user_id c \<and> bs_idempotency_key c' = bs_idempotency_key c \<and>
     bs_stripe_session_id c' \<in> {None, bs_stripe_session_id c} \<and> (live_checkout c' \<longrightarrow> live_checkout c)"

lemma checkout_table_update:
  assumes "checkout_table_ok t" "\<And>c. bs_id (f c) = bs_id c" "\<And>c. bs_user_id (f c) = bs_user_id c"
    "\<And>c. bs_idempotency_key (f c) = bs_idempotency_key c"
    "\<And>c. bs_stripe_session_id (f c) \<in> {None, bs_stripe_session_id c}"
    "unique_where live_checkout bs_user_id (sql_update q f t)"
  shows "checkout_table_ok (sql_update q f t)"
proof -
  have "map bs_id (sql_update q f t) = map bs_id t"
    "map (\<lambda>c. (bs_user_id c, bs_idempotency_key c)) (sql_update q f t) = map (\<lambda>c. (bs_user_id c, bs_idempotency_key c)) t"
    by (simp_all add: map_sql_update assms)
  moreover have "unique_where (\<lambda>c. bs_stripe_session_id c \<noteq> None) bs_stripe_session_id (sql_update q f t)"
  proof (rule unique_where_sql_update_shrink)
    show "unique_where (\<lambda>c. bs_stripe_session_id c \<noteq> None) bs_stripe_session_id t"
      using assms(1) by (simp add: checkout_table_ok_def)
    show "bs_stripe_session_id r \<noteq> None \<and> bs_stripe_session_id (f r) = bs_stripe_session_id r"
      if "bs_stripe_session_id (f r) \<noteq> None" for r
      using assms(5) [of r] that by auto
  qed
  ultimately show ?thesis using assms(1,6) by (simp add: checkout_table_ok_def)
qed

lemma checkout_table_close:
  assumes "checkout_table_ok t" "\<And>c. q c \<Longrightarrow> closes c (f c)"
  shows "checkout_table_ok (sql_update q f t)"
proof -
  have eq: "sql_update q f t = sql_update q (\<lambda>c. if q c then f c else c) t"
    by (simp add: sql_update_def)
  have c: "closes c (if q c then f c else c)" for c using assms(2) [of c] by (simp add: closes_def)
  have "unique_where live_checkout bs_user_id (sql_update q (\<lambda>c. if q c then f c else c) t)"
  proof (rule unique_where_sql_update_shrink)
    show "unique_where live_checkout bs_user_id t" using assms(1) by (simp add: checkout_table_ok_def)
    show "live_checkout r \<and> bs_user_id (if q r then f r else r) = bs_user_id r"
      if "live_checkout (if q r then f r else r)" for r
      using c [of r] that unfolding closes_def by blast
  qed
  then show ?thesis
    unfolding eq using c by (intro checkout_table_update [OF assms(1)]) (auto simp: closes_def)
qed

lemma closed_tables:
  assumes "checkout_table_ok t"
  shows "checkout_table_ok (close_expired u now clk t)" "checkout_table_ok (close_stale u stale clk t)"
  unfolding close_expired_def close_stale_def
  by (rule checkout_table_close [OF assms], simp add: closes_def live_checkout_def)+

lemma closed_ids: "map bs_id (close_expired u now clk t) = map bs_id t" "map bs_id (close_stale u stale clk t) = map bs_id t"
  by (simp_all add: close_expired_def close_stale_def map_sql_update)

lemma closed_attempt:
  assumes "p \<in> set t"
  shows "\<exists>c \<in> set (close_stale u stale k2 (close_expired u now k1 t)). bs_id c = bs_id p \<and> bs_user_id c = bs_user_id p"
  using assms unfolding close_stale_def close_expired_def bex_sql_update by (intro bexI [of _ p]) simp_all

definition live_ids :: "uuid \<Rightarrow> checkout_row list \<Rightarrow> uuid list" where
  "live_ids u t = map bs_id (filter (\<lambda>c. bs_user_id c = u \<and> live_checkout c) t)"

definition live_attempts :: "uuid \<Rightarrow> checkout_row list \<Rightarrow> (uuid \<times> checkout_status) list" where
  "live_attempts u t = map (\<lambda>c. (bs_id c, bs_status c)) (filter (\<lambda>c. bs_user_id c = u \<and> live_checkout c) t)"

lemma live_ids_attempts: "live_ids u t = map fst (live_attempts u t)"
  by (simp add: live_ids_def live_attempts_def)

lemma live_ids_close:
  assumes "\<And>c. q c \<Longrightarrow> closes c (f c)"
  shows "set (live_ids u (sql_update q f t)) \<subseteq> set (live_ids u t)"
proof
  fix i assume "i \<in> set (live_ids u (sql_update q f t))"
  then obtain c where c: "c \<in> set t" "i = bs_id (if q c then f c else c)" "bs_user_id (if q c then f c else c) = u"
    "live_checkout (if q c then f c else c)" by (auto simp: live_ids_def set_sql_update)
  moreover have "closes c (if q c then f c else c)" using assms [of c] by (simp add: closes_def)
  ultimately show "i \<in> set (live_ids u t)" unfolding live_ids_def closes_def by auto
qed

lemma live_ids_closed:
  "set (live_ids u (close_stale u' stale k2 (close_expired u' now k1 t))) \<subseteq> set (live_ids u t)"
proof -
  have "set (live_ids u (close_stale u' stale k2 s)) \<subseteq> set (live_ids u s)" for s
    unfolding close_stale_def by (rule live_ids_close) (simp add: closes_def live_checkout_def)
  moreover have "set (live_ids u (close_expired u' now k1 s)) \<subseteq> set (live_ids u s)" for s
    unfolding close_expired_def by (rule live_ids_close) (simp add: closes_def live_checkout_def)
  ultimately show ?thesis by blast
qed

text \<open>Reopening the row of an earlier attempt, when nothing of the account is live.\<close>

lemma reopened_table:
  assumes "checkout_table_ok t" "\<not> sql_exists (\<lambda>c. bs_user_id c = u \<and> live_checkout c) t"
    "c \<in> set t" "bs_id c = j" "bs_user_id c = u"
  shows "checkout_table_ok (sql_update (\<lambda>c. bs_user_id c = u \<and> bs_id c = j) (reopen_checkout expires clk) t)"
    "live_attempts u (sql_update (\<lambda>c. bs_user_id c = u \<and> bs_id c = j) (reopen_checkout expires clk) t) = [(j, Ck_creating)]"
proof -
  let ?q = "\<lambda>c. bs_user_id c = u \<and> bs_id c = j"
  let ?t = "sql_update ?q (reopen_checkout expires clk) t"
  have ids: "distinct (map bs_id t)" using assms(1) by (simp add: checkout_table_ok_def)
  have f: "bs_id (reopen_checkout expires clk c) = bs_id c" "bs_user_id (reopen_checkout expires clk c) = bs_user_id c"
    "bs_idempotency_key (reopen_checkout expires clk c) = bs_idempotency_key c"
    "bs_stripe_session_id (reopen_checkout expires clk c) = None" "live_checkout (reopen_checkout expires clk c)" for c
    by (simp_all add: reopen_checkout_def live_checkout_def)
  have live: "filter (\<lambda>c. bs_user_id c = u \<and> live_checkout c) ?t = [reopen_checkout expires clk c]"
    using assms(2-5) ids
  proof (induction t)
    case (Cons r t)
    show ?case
    proof (cases "?q r")
      case True
      then have "c = r" using Cons.prems by (auto simp: image_iff)
      moreover have "sql_update ?q (reopen_checkout expires clk) t = t"
        using Cons.prems(5) True by (intro sql_update_id) (auto simp: image_iff)
      moreover have "filter (\<lambda>c. bs_user_id c = u \<and> live_checkout c) t = []"
        using Cons.prems(1) by (auto simp: filter_empty_conv sql_exists_iff)
      ultimately show ?thesis using True f by simp
    next
      case False
      then show ?thesis using Cons by auto
    qed
  qed simp
  then show "live_attempts u ?t = [(j, Ck_creating)]" by (simp add: live_attempts_def reopen_checkout_def assms(4))
  have ids': "distinct (map bs_id ?t)" using ids by (simp add: map_sql_update f)
  have "bs_id y = bs_id z" if yz: "y \<in> set ?t" "z \<in> set ?t" "live_checkout y" "live_checkout z"
    "bs_user_id y = bs_user_id z" for y z
  proof (cases "bs_user_id y = u")
    case True
    then have "y \<in> set [reopen_checkout expires clk c]" "z \<in> set [reopen_checkout expires clk c]"
      unfolding live [symmetric] using yz by auto
    then show ?thesis by simp
  next
    case False
    obtain y' z' where y': "y' \<in> set t" "y = (if ?q y' then reopen_checkout expires clk y' else y')"
      and z': "z' \<in> set t" "z = (if ?q z' then reopen_checkout expires clk z' else z')"
      using in_sql_updateE [OF yz(1)] in_sql_updateE [OF yz(2)] by metis
    then have "y = y'" "z = z'" using False yz(5) f by (auto split: if_splits)
    moreover have "unique_where live_checkout bs_user_id t" using assms(1) by (simp add: checkout_table_ok_def)
    ultimately show ?thesis using unique_whereD [OF _ y'(1) z'(1)] yz by metis
  qed
  then have "unique_where live_checkout bs_user_id ?t"
    unfolding unique_where_iff [where i = bs_id, OF ids'] by blast
  then show "checkout_table_ok ?t"
    by (intro checkout_table_update [OF assms(1)]) (simp_all add: f)
qed

lemma added_table:
  assumes "checkout_table_ok t" "\<not> sql_exists (\<lambda>c. bs_user_id c = u \<and> live_checkout c) t"
    "i \<notin> set (map bs_id t)" "sql_first (attempt_of u key) t = None"
  shows "checkout_table_ok (t @ [new_checkout i u key period expires clk])"
    "live_attempts u (t @ [new_checkout i u key period expires clk]) = [(i, Ck_creating)]"
proof -
  have "filter (\<lambda>c. bs_user_id c = u \<and> live_checkout c) t = []"
    using assms(2) by (auto simp: filter_empty_conv sql_exists_iff)
  then show "live_attempts u (t @ [new_checkout i u key period expires clk]) = [(i, Ck_creating)]"
    by (simp add: live_attempts_def new_checkout_def live_checkout_def)
  have "(u, key) \<notin> (\<lambda>c. (bs_user_id c, bs_idempotency_key c)) ` set t"
    using assms(4) by (auto simp: sql_first_None_iff attempt_of_def)
  then show "checkout_table_ok (t @ [new_checkout i u key period expires clk])"
    using assms(1,2,3) by (auto simp: checkout_table_ok_def unique_where_append new_checkout_def sql_exists_iff)
qed

section \<open>Beginning a checkout\<close>

definition plan_on_sale :: "db \<Rightarrow> bool" where
  "plan_on_sale d \<longleftrightarrow> sql_exists (\<lambda>p. pl_code p = ''premium'' \<and> pl_active p) (subscription_plan d)"

lemma checkout_context_of_on_sale:
  "plan_on_sale d \<Longrightarrow> \<exists>cx. checkout_context_of u (put_checkouts t d) = Some cx"
  using sql_first_Some_iff_exists [of "\<lambda>p. pl_code p = ''premium'' \<and> pl_active p" "subscription_plan d"]
  by (auto simp: plan_on_sale_def checkout_context_of_def Let_def)

lemma put_checkouts_twice [simp]: "put_checkouts t (put_checkouts s d) = put_checkouts t d"
  by (simp add: put_checkouts_def)

definition begun_well :: "uuid \<Rightarrow> uuid \<Rightarrow> checkout_row option \<Rightarrow> db \<Rightarrow> begin_checkout_result \<times> db \<Rightarrow> bool" where
  "begun_well u i previous d x \<longleftrightarrow>
     (case fst x of
        Checkout_created k _ \<Rightarrow> k = i \<and> live_attempts u (checkouts (snd x)) = [(i, Ck_creating)]
      | Checkout_retry k _ \<Rightarrow> map_option bs_id previous = Some k \<and>
          live_attempts u (checkouts (snd x)) = [(k, Ck_creating)]
      | Checkout_replay v \<Rightarrow> snd x = d
      | _ \<Rightarrow> set (live_ids u (checkouts (snd x))) \<subseteq> set (live_ids u (checkouts d))) \<and>
     checkout_table_ok (checkouts (snd x))"

lemma begin_checkout_cases:
  fixes clk :: "nat \<Rightarrow> pg_time" and now stale :: js_time
  assumes ok: "checkout_table_ok (checkouts d)" and new: "i \<notin> set (map bs_id (checkouts d))"
    and sale: "plan_on_sale d" and live: "\<not> account_deleted u d"
    and prev: "sql_first (attempt_of u key) (checkouts d) = previous"
    and go: "sql_exists (\<lambda>a. ua_id a = u \<and> live_account a) (user_account d)"
      "Option.bind previous (answer_of_attempt period now stale) = None"
  defines "t1 \<equiv> close_expired u now (clk 0) (checkouts d)"
  defines "t2 \<equiv> close_stale u stale (clk 1) t1"
  shows "\<exists>x. begin_checkout u key period i now expires stale txn clk d = Inr x \<and>
    begun_well u i previous d x"
proof -
  let ?d2 = "put_checkouts t2 d"
  have t1: "checkout_table_ok t1" and t2: "checkout_table_ok t2"
    using closed_tables [OF ok] closed_tables(2) unfolding t1_def t2_def by blast+
  have ids: "set (map bs_id t2) = set (map bs_id (checkouts d))" by (simp only: t1_def t2_def closed_ids)
  have run: "begin_checkout u key period i now expires stale txn clk d =
      (if has_active_subscription u now ?d2 then Inr (Already_subscribed, ?d2)
       else if sql_exists (\<lambda>c. bs_user_id c = u \<and> live_checkout c) t2 then Inr (Checkout_in_progress, ?d2)
       else if customer_unresolved u (map_option bs_id previous) ?d2 then Inr (Customer_reconciliation_required, ?d2)
       else case checkout_context_of u ?d2 of
         None \<Rightarrow> Inl (Thrown ''active Premium subscription plan is missing'')
       | Some cx \<Rightarrow>
           (case previous of
              Some p \<Rightarrow>
                and_then (write_checkouts (sql_update (\<lambda>c. bs_user_id c = u \<and> bs_id c = bs_id p)
                    (reopen_checkout expires (clk 2)) (checkouts ?d2)) ?d2)
                  (\<lambda>d3. Inr (Checkout_retry (bs_id p) cx, d3))
            | None \<Rightarrow>
                if account_deleted u ?d2 then Inl Live_account_trigger
                else and_then (write_checkouts (checkouts ?d2 @ [new_checkout i u key period expires txn]) ?d2)
                  (\<lambda>d3. Inr (Checkout_created i cx, d3))))"
    using go t1 t2 unfolding begin_checkout_def prev Let_def
    by (simp add: write_checkouts_def t1_def [symmetric] t2_def [symmetric] del: One_nat_def)
  obtain cx where cx: "checkout_context_of u ?d2 = Some cx" using checkout_context_of_on_sale [OF sale] by blast
  show ?thesis
  proof (cases "has_active_subscription u now ?d2 \<or> sql_exists (\<lambda>c. bs_user_id c = u \<and> live_checkout c) t2 \<or>
      customer_unresolved u (map_option bs_id previous) ?d2")
    case True
    moreover have "set (live_ids u t2) \<subseteq> set (live_ids u (checkouts d))"
      unfolding t1_def t2_def by (rule live_ids_closed)
    ultimately show ?thesis unfolding run begun_well_def using t2 by auto
  next
    case False
    then have idle: "\<not> sql_exists (\<lambda>c. bs_user_id c = u \<and> live_checkout c) t2" by blast
    show ?thesis
    proof (cases previous)
      case None
      have "sql_first (attempt_of u key) t2 = None"
        using prev unfolding None t1_def t2_def close_stale_def close_expired_def
        by (simp add: sql_first_None_iff ball_sql_update attempt_of_def)
      note a = added_table [OF t2 idle _ this, of i period expires txn]
      have "\<not> account_deleted u ?d2" using live by (simp add: account_deleted_def)
      then show ?thesis unfolding run using False None cx a ids new by (simp add: write_checkouts_def begun_well_def)
    next
      case (Some p)
      then have p: "p \<in> set (checkouts d)" "bs_user_id p = u" using prev sql_first_SomeD by (fastforce simp: attempt_of_def)+
      obtain c where "c \<in> set t2" "bs_id c = bs_id p" "bs_user_id c = u"
        using closed_attempt [OF p(1)] p(2) unfolding t1_def t2_def by metis
      note r = reopened_table [OF t2 idle this, of expires "clk 2"]
      then show ?thesis unfolding run using False Some cx by (simp add: write_checkouts_def begun_well_def)
    qed
  qed
qed

lemma begin_checkout_well:
  assumes "checkout_table_ok (checkouts d)" "i \<notin> set (map bs_id (checkouts d))" "plan_on_sale d"
    "sql_exists (\<lambda>a. ua_id a = u \<and> live_account a) (user_account d)" "\<not> account_deleted u d"
  shows "\<exists>r d'. begin_checkout u key period i now expires stale txn clk d = Inr (r, d') \<and>
    begun_well u i (sql_first (attempt_of u key) (checkouts d)) d (r, d')"
proof (cases "Option.bind (sql_first (attempt_of u key) (checkouts d)) (answer_of_attempt period now stale)")
  case (Some r)
  have "begin_checkout u key period i now expires stale txn clk d = Inr (r, d)"
    using assms(4) Some by (simp add: begin_checkout_def)
  moreover have "case r of Checkout_created j _ \<Rightarrow> False | Checkout_retry j _ \<Rightarrow> False | _ \<Rightarrow> True"
    using Some by (auto simp: answer_of_attempt_def bind_eq_Some_conv
      split: if_splits checkout_status.splits option.splits)
  ultimately show ?thesis using assms(1) by (cases r) (auto simp: begun_well_def)
next
  case None
  obtain x where x: "begin_checkout u key period i now expires stale txn clk d = Inr x"
    "begun_well u i (sql_first (attempt_of u key) (checkouts d)) d x"
    using begin_checkout_cases [OF assms(1-3,5) refl assms(4) None] by blast
  then show ?thesis by (cases x) auto
qed

text \<open>C32. While Premium is on sale, beginning a checkout for a live account always commits, whatever earlier attempts
  left in the table: no unique index is violated. The account then has exactly one live checkout if one was created
  or taken up again, the one that is handed out; a replay changes nothing; and the table stays well-formed, so an
  account never has two live checkouts.\<close>

lemma one_live_checkout:
  assumes "checkout_table_ok (checkouts d)" "i \<notin> set (map bs_id (checkouts d))" "plan_on_sale d"
    "sql_exists (\<lambda>a. ua_id a = u \<and> live_account a) (user_account d)" "\<not> account_deleted u d"
  shows "\<exists>r d'. begin_checkout u key period i now expires stale txn clk d = Inr (r, d') \<and>
    checkout_table_ok (checkouts d') \<and>
    (case r of
       Checkout_created j _ \<Rightarrow> j = i \<and> live_ids u (checkouts d') = [j]
     | Checkout_retry j _ \<Rightarrow> map_option bs_id (sql_first (attempt_of u key) (checkouts d)) = Some j \<and>
         live_ids u (checkouts d') = [j]
     | Checkout_replay v \<Rightarrow> d' = d
     | _ \<Rightarrow> True)"
proof -
  obtain r d' where x: "begin_checkout u key period i now expires stale txn clk d = Inr (r, d')"
    "begun_well u i (sql_first (attempt_of u key) (checkouts d)) d (r, d')"
    using begin_checkout_well [OF assms] by blast
  then show ?thesis by (cases r) (auto simp: begun_well_def live_ids_attempts)
qed

text \<open>An account whose earlier attempt under the same key expired unpaid, and another attempt that was left open.\<close>

definition shopper :: db where
  "shopper = empty_db\<lparr>user_account := [\<lparr> ua_id = ''u'', ua_role = User, ua_phone_hash = ''h'',
       ua_phone_encrypted = ''e'', ua_banned = False, ua_deleted_at = None \<rparr>],
     subscription_plan := [\<lparr> pl_code = ''premium'', pl_weekly_limit = None, pl_trial_days = 7, pl_active = True \<rparr>],
     stripe := (stripe empty_db)\<lparr>billing_checkout_session :=
       [(new_checkout ''a'' ''u'' ''k'' Monthly 0 0)\<lparr>bs_status := Ck_failed\<rparr>,
        (new_checkout ''b'' ''u'' ''l'' Monthly 60000 0)\<lparr>bs_status := Ck_open, bs_stripe_session_id := Some ''cs_1'',
          bs_checkout_url := Some ''https''\<rparr>]\<rparr>\<rparr>"

lemma one_live_checkout_witness:
  "\<exists>r d'. begin_checkout ''u'' ''k'' Monthly ''i'' 90000 1890000 30000 90000000 (\<lambda>_. 90000000) shopper = Inr (r, d') \<and>
     live_ids ''u'' (checkouts shopper) = [''b''] \<and> live_ids ''u'' (checkouts d') = [''a'']"
proof -
  have pre: "checkout_table_ok (checkouts shopper)" "''i'' \<notin> set (map bs_id (checkouts shopper))" "plan_on_sale shopper"
    "sql_exists (\<lambda>a. ua_id a = ''u'' \<and> live_account a) (user_account shopper)" "\<not> account_deleted ''u'' shopper"
    by code_simp+
  have retry: "map_option fst (case begin_checkout ''u'' ''k'' Monthly ''i'' 90000 1890000 30000 90000000 (\<lambda>_. 90000000) shopper
      of Inl _ \<Rightarrow> None | Inr x \<Rightarrow> Some x) =
    Some (Checkout_retry ''a'' \<lparr> cx_stripe_customer_id = None, cx_trial_days = 7, cx_trial_used = False \<rparr>)"
    by code_simp
  from one_live_checkout [OF pre, of "''k''" Monthly 90000 1890000 30000 90000000 "\<lambda>_. 90000000"]
  obtain r d' where r: "begin_checkout ''u'' ''k'' Monthly ''i'' 90000 1890000 30000 90000000 (\<lambda>_. 90000000) shopper = Inr (r, d')"
    and c: "case r of
       Checkout_created j _ \<Rightarrow> j = ''i'' \<and> live_ids ''u'' (checkouts d') = [j]
     | Checkout_retry j _ \<Rightarrow> map_option bs_id (sql_first (attempt_of ''u'' ''k'') (checkouts shopper)) = Some j \<and>
         live_ids ''u'' (checkouts d') = [j]
     | Checkout_replay v \<Rightarrow> d' = shopper
     | _ \<Rightarrow> True" by (elim exE conjE)
  have "r = Checkout_retry ''a'' \<lparr> cx_stripe_customer_id = None, cx_trial_days = 7, cx_trial_used = False \<rparr>"
    using retry unfolding r by simp
  with c have "live_ids ''u'' (checkouts d') = [''a'']" by simp
  moreover have "live_ids ''u'' (checkouts shopper) = [''b'']" by code_simp
  ultimately show ?thesis using r by blast
qed

end
