(* ===== verification/Billing_Service.thy ===== *)
theory Billing_Service
  imports Billing_Checkout
begin

text \<open>
  \<open>src/billing/billing.service.ts\<close>: what a user sees of the subscription, the checkout, the customer portal and the
  deletion of the Stripe customers of an account. Stripe is a parameter: each call of \<open>stripe.gateway.ts\<close> is a
  function from its arguments to its answer, \<open>None\<close> when it throws. The calls made are part of the state.
\<close>

section \<open>Stripe\<close>

record checkout_params =
  kp_user_id :: uuid
  kp_customer_id :: string
  kp_price_id :: string
  kp_billing_period :: billing_period
  kp_trial_days :: nat
  kp_expires_at :: js_time
  kp_idempotency_key :: string

record stripe_session =
  ss_id :: string
  ss_url :: "string option"
  ss_expires_at :: int

datatype stripe_call =
    Create_customer uuid uuid string
  | Create_session checkout_params
  | Expire_session string
  | Delete_customer string string
  | Retrieve_customer string
  | Create_portal string string

record stripe_answers =
  sa_create_customer :: "uuid \<Rightarrow> uuid \<Rightarrow> string \<Rightarrow> string option"
  sa_create_session :: "checkout_params \<Rightarrow> stripe_session option"
  sa_delete_customer :: "string \<Rightarrow> string \<Rightarrow> bool"
  sa_retrieve_customer :: "string \<Rightarrow> (string \<times> bool) option"
  sa_portal :: "string \<Rightarrow> string \<Rightarrow> string option"

record billing_config =
  bg_enabled :: bool
  bg_monthly_price :: string
  bg_annual_price :: string
  bg_product :: string
  bg_live_key :: bool

record billing_world =
  bw_db :: db
  bw_calls :: "stripe_call list"

definition bw_call :: "stripe_call \<Rightarrow> billing_world \<Rightarrow> billing_world" where
  "bw_call c w = w\<lparr>bw_calls := bw_calls w @ [c]\<rparr>"

definition bw_set :: "billing_world \<Rightarrow> db \<Rightarrow> billing_world" where
  "bw_set w d = w\<lparr>bw_db := d\<rparr>"

section \<open>The subscription of a user\<close>

record subscription_view =
  sw_premium :: bool
  sw_provider :: "string option"
  sw_status :: "subscription_status option"
  sw_access_granted :: bool
  sw_billing_period :: "billing_period option"
  sw_cancel_at_period_end :: bool
  sw_period_starts_at :: "js_time option"
  sw_period_ends_at :: "js_time option"
  sw_trial_ends_at :: "js_time option"
  sw_canceled_at :: "js_time option"
  sw_portal_available :: bool

definition access_granted :: "js_time \<Rightarrow> subscription_row \<Rightarrow> bool" where
  "access_granted now s \<longleftrightarrow>
     us_plan s = ''premium'' \<and>
     (case us_period_ends_at s of None \<Rightarrow> True | Some t \<Rightarrow> now < js_of_pg t) \<and>
     (us_provider s = None \<or> (case us_status s of None \<Rightarrow> False | Some st \<Rightarrow> st \<in> {Trialing, Sub_active, Past_due}))"

definition subscription_of :: "billing_config \<Rightarrow> uuid \<Rightarrow> js_time \<Rightarrow> db \<Rightarrow> subscription_view" where
  "subscription_of cfg u now d =
     (let portal = bg_enabled cfg \<and> customer_for_user u d \<noteq> None in
      case subscription_for_user u d of
        None \<Rightarrow> \<lparr> sw_premium = False, sw_provider = None, sw_status = None, sw_access_granted = False,
          sw_billing_period = None, sw_cancel_at_period_end = False, sw_period_starts_at = None,
          sw_period_ends_at = None, sw_trial_ends_at = None, sw_canceled_at = None, sw_portal_available = portal \<rparr>
      | Some s \<Rightarrow> \<lparr> sw_premium = access_granted now s, sw_provider = us_provider s, sw_status = us_status s,
          sw_access_granted = access_granted now s, sw_billing_period = us_billing_period s,
          sw_cancel_at_period_end = us_cancel_at_period_end s,
          sw_period_starts_at = map_option js_of_pg (us_period_starts_at s),
          sw_period_ends_at = map_option js_of_pg (us_period_ends_at s),
          sw_trial_ends_at = map_option js_of_pg (us_trial_ends_at s),
          sw_canceled_at = map_option js_of_pg (us_canceled_at s), sw_portal_available = portal \<rparr>)"

section \<open>Customers at Stripe\<close>

definition idempotency_safety_millis :: int where "idempotency_safety_millis = 23 * 3600000"

definition billing_unavailable :: failure where
  "billing_unavailable = Api (api_error 503 ''billing_unavailable'')"

definition provider_error :: failure where
  "provider_error = Api (api_error 503 ''stripe_request_failed'')"

definition stripe_throws :: failure where
  "stripe_throws = Unhandled (Thrown ''stripe'')"

text \<open>
  A customer is created at most once per attempt: Stripe answers a repeated request under the same idempotency key
  with the first customer, but only for a day; after 23 hours the request is no longer sent.
\<close>

definition resolve_customer_creation ::
  "stripe_answers \<Rightarrow> js_time \<Rightarrow> pg_time \<Rightarrow> uuid \<Rightarrow> checkout_row \<Rightarrow> billing_world \<Rightarrow> (failure + string) \<times> billing_world" where
  "resolve_customer_creation sa now clk u c w =
     (if bs_customer_erased_at c \<noteq> None then (Inl (Api (api_error 409 ''idempotency_key_consumed'')), w)
      else case bs_created_customer_id c of
        Some i \<Rightarrow> (Inr i, w)
      | None \<Rightarrow>
          if idempotency_safety_millis \<le> now - js_of_pg (the (bs_creation_started_at c))
          then (Inl (Api (api_error 503 ''erasure_stripe_reconciliation_required'')), w)
          else
            let key = ''histae-customer-'' @ bs_id c; w1 = bw_call (Create_customer u (bs_id c) key) w in
            case sa_create_customer sa u (bs_id c) key of
              None \<Rightarrow> (Inl stripe_throws, w1)
            | Some i \<Rightarrow>
                (case record_created_customer (bs_id c) i clk (bw_db w1) of
                   Inl e \<Rightarrow> (Inl (Unhandled e), w1)
                 | Inr d \<Rightarrow> (Inr i, bw_set w1 d)))"

text \<open>A failed deletion counts as done only if Stripe shows the customer as deleted.\<close>

definition delete_customer_confirmed :: "stripe_answers \<Rightarrow> string \<Rightarrow> string \<Rightarrow> billing_world \<Rightarrow> bool \<times> billing_world" where
  "delete_customer_confirmed sa i key w =
     (let w1 = bw_call (Delete_customer i key) w in
      if sa_delete_customer sa i key then (True, w1)
      else (sa_retrieve_customer sa i = Some (i, True), bw_call (Retrieve_customer i) w1))"

text \<open>Failures of a best effort are swallowed.\<close>

definition delete_customer_best_effort :: "stripe_answers \<Rightarrow> string \<Rightarrow> uuid \<Rightarrow> pg_time \<Rightarrow> billing_world \<Rightarrow> billing_world" where
  "delete_customer_best_effort sa i attempt clk w =
     (let (ok, w1) = delete_customer_confirmed sa i (''histae-delete-orphan-'' @ attempt) w in
      if ok then (case mark_created_customer_erased attempt clk (bw_db w1) of Inl e \<Rightarrow> w1 | Inr d \<Rightarrow> bw_set w1 d)
      else w1)"

section \<open>Checkout\<close>

text \<open>What the call meets: its ids and clock readings, and whether the account guard is still held.\<close>

record checkout_env =
  ke_attempt_id :: uuid
  ke_outbox_id :: uuid
  ke_now :: js_time
  ke_resolve_now :: js_time
  ke_begin_txn :: pg_time
  ke_begin_clock :: "nat \<Rightarrow> pg_time"
  ke_creation_txn :: pg_time
  ke_clock :: "nat \<Rightarrow> pg_time"
  ke_held :: "nat \<Rightarrow> bool"

definition activity_lost :: failure where
  "activity_lost = Api (api_error 503 ''account_activity_unavailable'')"

text \<open>The customer of the account: the one on record, or a new one that is saved. The middle value is a customer that
  exists at Stripe but could not be attached.\<close>

definition attach_customer ::
  "stripe_answers \<Rightarrow> checkout_env \<Rightarrow> uuid \<Rightarrow> uuid \<Rightarrow> checkout_context \<Rightarrow> billing_world
    \<Rightarrow> (failure + string) \<times> string option \<times> billing_world" where
  "attach_customer sa env u attempt cx w =
     (case cx_stripe_customer_id cx of
        Some i \<Rightarrow> (Inr i, None, w)
      | None \<Rightarrow>
          (case begin_customer_creation attempt (ke_outbox_id env) (ke_clock env 0) (ke_creation_txn env) (bw_db w) of
             Inl e \<Rightarrow> (Inl (Unhandled e), None, w)
           | Inr (c, d) \<Rightarrow>
               if \<not> ke_held env 0 then (Inl activity_lost, None, bw_set w d)
               else case resolve_customer_creation sa (ke_resolve_now env) (ke_clock env 1) u c (bw_set w d) of
                 (Inl e, w1) \<Rightarrow> (Inl e, None, w1)
               | (Inr i, w1) \<Rightarrow>
                   (case save_customer u i (ke_clock env 2) (bw_db w1) of
                      Inl e \<Rightarrow> (Inl (Unhandled e), Some i, w1)
                    | Inr (False, d') \<Rightarrow> (Inl (Api (api_error 409 ''billing_customer_conflict'')), Some i, bw_set w1 d')
                    | Inr (True, d') \<Rightarrow> (Inr i, None, bw_set w1 d'))))"

definition session_params ::
  "billing_config \<Rightarrow> uuid \<Rightarrow> string \<Rightarrow> billing_period \<Rightarrow> checkout_context \<Rightarrow> js_time \<Rightarrow> uuid \<Rightarrow> checkout_params" where
  "session_params cfg u customer period cx expires attempt =
     \<lparr> kp_user_id = u, kp_customer_id = customer,
       kp_price_id = (case period of Monthly \<Rightarrow> bg_monthly_price cfg | Annual \<Rightarrow> bg_annual_price cfg),
       kp_billing_period = period, kp_trial_days = (if cx_trial_used cx then 0 else cx_trial_days cx),
       kp_expires_at = expires, kp_idempotency_key = ''histae-checkout-'' @ attempt \<rparr>"

text \<open>The body of the try block: the result, and the session and the customer that a failure leaves behind.\<close>

definition open_session ::
  "stripe_answers \<Rightarrow> billing_config \<Rightarrow> checkout_env \<Rightarrow> uuid \<Rightarrow> billing_period \<Rightarrow> uuid \<Rightarrow> checkout_context \<Rightarrow> js_time
    \<Rightarrow> billing_world \<Rightarrow> (failure + checkout_session_view) \<times> string option \<times> string option \<times> billing_world" where
  "open_session sa cfg env u period attempt cx expires w =
     (case attach_customer sa env u attempt cx w of
        (Inl e, orphan, w1) \<Rightarrow> (Inl e, None, orphan, w1)
      | (Inr customer, orphan, w1) \<Rightarrow>
          if \<not> ke_held env 1 then (Inl activity_lost, None, orphan, w1)
          else
            let kp = session_params cfg u customer period cx expires attempt; w2 = bw_call (Create_session kp) w1 in
            case sa_create_session sa kp of
              None \<Rightarrow> (Inl stripe_throws, None, orphan, w2)
            | Some s \<Rightarrow>
                (case ss_url s of
                   None \<Rightarrow> (Inl (Api (api_error 502 ''stripe_checkout_unavailable'')), Some (ss_id s), orphan, w2)
                 | Some url \<Rightarrow>
                     let v = \<lparr> cv_session_id = ss_id s, cv_url = url, cv_expires_at = ss_expires_at s * 1000 \<rparr> in
                     if url = [] then (Inl (Api (api_error 502 ''stripe_checkout_unavailable'')), Some (ss_id s), orphan, w2)
                     else case mark_checkout_open attempt v (ke_clock env 3) (bw_db w2) of
                       Inl e \<Rightarrow> (Inl (Unhandled e), Some (ss_id s), orphan, w2)
                     | Inr (True, d) \<Rightarrow> (Inr v, Some (ss_id s), orphan, bw_set w2 d)
                     | Inr (False, d) \<Rightarrow>
                         (Inl (Api (api_error 409 ''checkout_state_conflict'')), Some (ss_id s), orphan,
                          bw_call (Expire_session (ss_id s)) (bw_set w2 d))))"

text \<open>The catch block. An error that is not an \<open>ApiError\<close> becomes \<open>stripe_request_failed\<close>.\<close>

definition recover_checkout ::
  "stripe_answers \<Rightarrow> checkout_env \<Rightarrow> uuid \<Rightarrow> failure \<Rightarrow> string option \<Rightarrow> string option \<Rightarrow> billing_world
    \<Rightarrow> failure \<times> billing_world" where
  "recover_checkout sa env attempt e session orphan w =
     (case mark_checkout_failed attempt (ke_clock env 4) (bw_db w) of
        Inl e' \<Rightarrow> (Unhandled e', w)
      | Inr d \<Rightarrow>
          let w1 = (case session of None \<Rightarrow> bw_set w d | Some s \<Rightarrow> bw_call (Expire_session s) (bw_set w d));
              w2 = (case orphan of None \<Rightarrow> w1 | Some i \<Rightarrow> delete_customer_best_effort sa i attempt (ke_clock env 5) w1)
          in (case e of Api x \<Rightarrow> Api x | Unhandled _ \<Rightarrow> provider_error, w2))"

definition checkout_ttl_millis :: int where "checkout_ttl_millis = 30 * 60000"
definition creation_stale_millis :: int where "creation_stale_millis = 60000"

definition attempt_refused :: "begin_checkout_result \<Rightarrow> api_error option" where
  "attempt_refused r =
     (case r of
        Checkout_not_found \<Rightarrow> Some (api_error 404 ''account_not_found'')
      | Already_subscribed \<Rightarrow> Some (api_error 409 ''subscription_already_active'')
      | Checkout_in_progress \<Rightarrow> Some (api_error 409 ''checkout_already_in_progress'')
      | Customer_reconciliation_required \<Rightarrow> Some (api_error 409 ''billing_customer_reconciliation_required'')
      | Checkout_key_conflict \<Rightarrow> Some (api_error 409 ''idempotency_key_reused'')
      | Checkout_key_consumed \<Rightarrow> Some (api_error 409 ''idempotency_key_consumed'')
      | _ \<Rightarrow> None)"

definition continue_checkout ::
  "stripe_answers \<Rightarrow> billing_config \<Rightarrow> checkout_env \<Rightarrow> uuid \<Rightarrow> billing_period \<Rightarrow> uuid \<Rightarrow> checkout_context \<Rightarrow> js_time
    \<Rightarrow> billing_world \<Rightarrow> (failure + checkout_session_view) \<times> billing_world" where
  "continue_checkout sa cfg env u period attempt cx expires w =
     (case open_session sa cfg env u period attempt cx expires w of
        (Inr v, _, _, w1) \<Rightarrow> (Inr v, w1)
      | (Inl e, session, orphan, w1) \<Rightarrow>
          let (e', w2) = recover_checkout sa env attempt e session orphan w1 in (Inl e', w2))"

definition create_checkout_while_active ::
  "stripe_answers \<Rightarrow> billing_config \<Rightarrow> checkout_env \<Rightarrow> uuid \<Rightarrow> billing_period \<Rightarrow> string option \<Rightarrow> billing_world
    \<Rightarrow> (failure + checkout_session_view) \<times> billing_world" where
  "create_checkout_while_active sa cfg env u period key_input w =
     (if \<not> bg_enabled cfg then (Inl billing_unavailable, w)
      else case normalize_idempotency_key key_input of
        Inl e \<Rightarrow> (Inl (Api e), w)
      | Inr key \<Rightarrow>
          let expires = ke_now env + checkout_ttl_millis in
          case begin_checkout u key period (ke_attempt_id env) (ke_now env) expires (ke_now env - creation_stale_millis)
              (ke_begin_txn env) (ke_begin_clock env) (bw_db w) of
            Inl e \<Rightarrow> (Inl (Unhandled e), w)
          | Inr (Checkout_replay v, d) \<Rightarrow> (Inr v, bw_set w d)
          | Inr (Checkout_created attempt cx, d) \<Rightarrow> continue_checkout sa cfg env u period attempt cx expires (bw_set w d)
          | Inr (Checkout_retry attempt cx, d) \<Rightarrow> continue_checkout sa cfg env u period attempt cx expires (bw_set w d)
          | Inr (r, d) \<Rightarrow>
              (Inl (Api (case attempt_refused r of Some e \<Rightarrow> e | None \<Rightarrow> api_error 500 ''internal_error'')), bw_set w d))"

section \<open>Portal and erasure\<close>

definition create_portal ::
  "stripe_answers \<Rightarrow> billing_config \<Rightarrow> uuid \<Rightarrow> uuid \<Rightarrow> billing_world \<Rightarrow> (failure + string) \<times> billing_world" where
  "create_portal sa cfg u random w =
     (if \<not> bg_enabled cfg then (Inl billing_unavailable, w)
      else case customer_for_user u (bw_db w) of
        None \<Rightarrow> (Inl (Api (api_error 409 ''billing_customer_not_found'')), w)
      | Some i \<Rightarrow>
          let key = ''histae-portal-'' @ random; w1 = bw_call (Create_portal i key) w in
          case sa_portal sa i key of None \<Rightarrow> (Inl provider_error, w1) | Some url \<Rightarrow> (Inr url, w1))"

text \<open>The pending creations of the account, one after the other.\<close>

fun erase_creations ::
  "stripe_answers \<Rightarrow> js_time \<Rightarrow> pg_time \<Rightarrow> uuid \<Rightarrow> checkout_row list \<Rightarrow> billing_world \<Rightarrow> (failure + unit) \<times> billing_world" where
  "erase_creations sa now clk u [] w = (Inr (), w)"
| "erase_creations sa now clk u (c # cs) w =
     (case resolve_customer_creation sa now clk u c w of
        (Inl e, w1) \<Rightarrow> (Inl e, w1)
      | (Inr i, w1) \<Rightarrow>
          let (ok, w2) = delete_customer_confirmed sa i (''histae-delete-orphan-'' @ bs_id c) w1 in
          if \<not> ok then (Inl stripe_throws, w2)
          else case mark_created_customer_erased (bs_id c) clk (bw_db w2) of
            Inl e \<Rightarrow> (Inl (Unhandled e), w2)
          | Inr d \<Rightarrow> erase_creations sa now clk u cs (bw_set w2 d))"

text \<open>The answer says whether nothing is left to delete; more than a batch is left for the next call.\<close>

definition delete_customer_for_account ::
  "stripe_answers \<Rightarrow> billing_config \<Rightarrow> js_time \<Rightarrow> pg_time \<Rightarrow> uuid \<Rightarrow> billing_world \<Rightarrow> (failure + bool) \<times> billing_world" where
  "delete_customer_for_account sa cfg now clk u w =
     (let creations = customer_creations_for_erasure u (bw_db w); customer = customer_for_user u (bw_db w);
          unavailable = Api (api_error 503 ''data_erasure_unavailable'');
          reconcile = Api (api_error 503 ''erasure_stripe_reconciliation_required'') in
      if customer = None \<and> creations = [] then (Inr True, w)
      else if \<not> bg_enabled cfg then (Inl billing_unavailable, w)
      else case erase_creations sa now clk u creations w of
        (Inl e, w1) \<Rightarrow> (Inl (if e = reconcile then reconcile else unavailable), w1)
      | (Inr _, w1) \<Rightarrow>
          if length creations = 50 then (Inr False, w1)
          else case customer of
            None \<Rightarrow> (Inr True, w1)
          | Some i \<Rightarrow>
              let (ok, w2) = delete_customer_confirmed sa i (''histae-delete-customer-'' @ u) w1 in
              if ok then (Inr True, w2) else (Inl unavailable, w2))"

end
