(* ===== verification/Stripe_Webhook.thy ===== *)
theory Stripe_Webhook
  imports Billing_Projection Billing_Service Notifications
begin

text \<open>
  Stripe's webhook: the reading of Stripe's objects (\<open>src/billing/stripe-projection.mapper.ts\<close>) and the handler
  (\<open>src/billing/stripe-webhook.service.ts\<close>). The verification of the signature and the retrieval of a subscription
  are Stripe's library and are parameters. An object that Stripe may send by id or in full is a \<open>stripe_ref\<close>; user ids
  in the metadata are those this server wrote, in canonical form.
\<close>

section \<open>Stripe's objects\<close>

datatype stripe_ref = Ref_id string | Ref_object "string option" | Ref_other

fun stripe_object_id :: "stripe_ref \<Rightarrow> string option" where
  "stripe_object_id (Ref_id i) = Some i"
| "stripe_object_id (Ref_object i) = i"
| "stripe_object_id Ref_other = None"

record stripe_item =
  si_product :: stripe_ref
  si_price_id :: string
  si_period_start :: int
  si_period_end :: int

record stripe_subscription =
  sb_id :: string
  sb_status :: string
  sb_items :: "stripe_item list"
  sb_customer :: stripe_ref
  sb_metadata_user :: "string option"
  sb_cancel_at_period_end :: bool
  sb_trial_start :: "int option"
  sb_trial_end :: "int option"
  sb_canceled_at :: "int option"

record stripe_invoice =
  iv_id :: string
  iv_customer :: stripe_ref
  iv_subscription :: stripe_ref
  iv_status :: "invoice_status option"
  iv_currency :: string
  iv_amount_due :: int
  iv_amount_paid :: int
  iv_amount_remaining :: int
  iv_period_start :: int
  iv_period_end :: int
  iv_paid_at :: "int option"
  iv_created :: int

datatype stripe_object =
    Subscription_object stripe_subscription
  | Invoice_object stripe_invoice
  | Checkout_object string
  | Other_object stripe_ref

record stripe_event =
  ev_id :: string
  ev_type :: string
  ev_livemode :: bool
  ev_created :: int
  ev_object :: stripe_object

section \<open>The mapper\<close>

definition unix_date :: "int \<Rightarrow> js_time" where
  "unix_date n = n * 1000"

definition status_of_text :: "string \<Rightarrow> subscription_status option" where
  "status_of_text s = map_of
     [(''incomplete'', Incomplete), (''incomplete_expired'', Incomplete_expired), (''trialing'', Trialing),
      (''active'', Sub_active), (''past_due'', Past_due), (''canceled'', Canceled), (''unpaid'', Unpaid),
      (''paused'', Paused)] s"

definition period_for_price :: "billing_config \<Rightarrow> string \<Rightarrow> sql_error + billing_period" where
  "period_for_price cfg price =
     (if price = bg_monthly_price cfg then Inr Monthly
      else if price = bg_annual_price cfg then Inr Annual
      else Inl mapping_error)"

definition stripe_customer_id :: "stripe_ref \<Rightarrow> sql_error + string" where
  "stripe_customer_id r =
     (case stripe_object_id r of None \<Rightarrow> Inl mapping_error | Some i \<Rightarrow> if i = [] then Inl mapping_error else Inr i)"

text \<open>The user named by the metadata, and the projection. \<open>is_uuid\<close> is that of class-validator.\<close>

definition parse_subscription ::
  "(string \<Rightarrow> bool) \<Rightarrow> billing_config \<Rightarrow> stripe_subscription \<Rightarrow> sql_error + uuid option \<times> subscription_projection" where
  "parse_subscription is_uuid cfg s =
     (case (status_of_text (sb_status s), sb_items s) of
        (Some st, [item]) \<Rightarrow>
          if stripe_object_id (si_product item) \<noteq> Some (bg_product cfg) then Inl mapping_error
          else and_then (stripe_customer_id (sb_customer s)) (\<lambda>customer.
            and_then (period_for_price cfg (si_price_id item)) (\<lambda>period.
              Inr (case sb_metadata_user s of Some u \<Rightarrow> (if is_uuid u then Some u else None) | None \<Rightarrow> None,
                \<lparr> sp_stripe_customer_id = customer, sp_subscription_id = sb_id s, sp_price_id = si_price_id item,
                  sp_billing_period = period, sp_status = st, sp_cancel_at_period_end = sb_cancel_at_period_end s,
                  sp_period_starts_at = unix_date (si_period_start item), sp_period_ends_at = unix_date (si_period_end item),
                  sp_trial_starts_at = map_option unix_date (sb_trial_start s),
                  sp_trial_ends_at = map_option unix_date (sb_trial_end s),
                  sp_canceled_at = map_option unix_date (sb_canceled_at s) \<rparr>)))
      | _ \<Rightarrow> Inl mapping_error)"

text \<open>\<open>toUpperCase\<close> on the letters of a currency code.\<close>

definition upper_ascii :: "string \<Rightarrow> string" where
  "upper_ascii = map (\<lambda>c. let n = of_char c :: nat in if 97 \<le> n \<and> n \<le> 122 then char_of (n - 32) else c)"

definition parse_invoice :: "stripe_invoice \<Rightarrow> sql_error + invoice_projection" where
  "parse_invoice i =
     and_then (stripe_customer_id (iv_customer i)) (\<lambda>customer.
       Inr \<lparr> ip_invoice_id = iv_id i, ip_stripe_customer_id = customer,
         ip_subscription_id = stripe_object_id (iv_subscription i), ip_status = iv_status i,
         ip_currency = upper_ascii (iv_currency i), ip_amount_due = iv_amount_due i, ip_amount_paid = iv_amount_paid i,
         ip_amount_remaining = iv_amount_remaining i, ip_period_starts_at = unix_date (iv_period_start i),
         ip_period_ends_at = unix_date (iv_period_end i), ip_paid_at = map_option unix_date (iv_paid_at i),
         ip_created_at = unix_date (iv_created i) \<rparr>)"

section \<open>The events\<close>

definition subscription_event_types :: "string list" where
  "subscription_event_types = [''customer.subscription.created'', ''customer.subscription.updated'',
     ''customer.subscription.deleted'', ''customer.subscription.paused'', ''customer.subscription.resumed'',
     ''customer.subscription.trial_will_end'']"

definition invoice_event_types :: "string list" where
  "invoice_event_types = [''invoice.paid'', ''invoice.payment_failed'', ''invoice.payment_action_required'',
     ''invoice.finalization_failed'']"

definition checkout_event_types :: "string list" where
  "checkout_event_types = [''checkout.session.completed'', ''checkout.session.expired'']"

definition supported_event :: "string \<Rightarrow> bool" where
  "supported_event ty \<longleftrightarrow> ty \<in> set subscription_event_types \<or> ty \<in> set invoice_event_types \<or>
     ty \<in> set checkout_event_types \<or> ty = ''customer.deleted''"

record webhook_effect =
  we_user :: uuid
  we_notification :: "notification_intent option"
  we_subscription_status :: "subscription_status option"

text \<open>What the call meets: the libraries and the clock readings of its statements.\<close>

record webhook_env =
  wv_construct :: "string \<Rightarrow> string \<Rightarrow> stripe_event option"
  wv_retrieve :: "string \<Rightarrow> stripe_subscription option"
  wv_is_uuid :: "string \<Rightarrow> bool"
  wv_clock :: "nat \<Rightarrow> pg_time"
  wv_notify :: notify_env

definition verified_event ::
  "webhook_env \<Rightarrow> billing_config \<Rightarrow> string option \<Rightarrow> string option \<Rightarrow> api_error + stripe_event" where
  "verified_event v cfg body signature =
     (if \<not> bg_enabled cfg then Inl (api_error 503 ''billing_unavailable'')
      else case (body, signature) of
        (Some b, Some s) \<Rightarrow>
          if s = [] then Inl (api_error 400 ''invalid_stripe_signature'')
          else (case wv_construct v b s of
             None \<Rightarrow> Inl (api_error 400 ''invalid_stripe_signature'')
           | Some e \<Rightarrow> if ev_livemode e \<noteq> bg_live_key cfg then Inl (api_error 400 ''stripe_mode_mismatch'') else Inr e)
      | _ \<Rightarrow> Inl (api_error 400 ''invalid_stripe_signature''))"

definition invalid_event :: failure where
  "invalid_event = Api (api_error 400 ''invalid_stripe_event'')"

text \<open>The subscription of an invoice is fetched before the transaction.\<close>

definition subscription_for_invoice ::
  "webhook_env \<Rightarrow> billing_config \<Rightarrow> stripe_invoice \<Rightarrow> failure + (uuid option \<times> subscription_projection) option" where
  "subscription_for_invoice v cfg i =
     (case stripe_object_id (iv_subscription i) of
        None \<Rightarrow> Inr None
      | Some x \<Rightarrow>
          if x = [] then Inr None
          else case wv_retrieve v x of
            None \<Rightarrow> Inl provider_error
          | Some s \<Rightarrow> (case parse_subscription (wv_is_uuid v) cfg s of Inl _ \<Rightarrow> Inl invalid_event | Inr r \<Rightarrow> Inr (Some r)))"

definition resolve_user ::
  "webhook_env \<Rightarrow> uuid option \<times> subscription_projection \<Rightarrow> db \<Rightarrow> sql_error + uuid \<times> db" where
  "resolve_user v parsed d =
     and_then (resolve_billing_user (sp_stripe_customer_id (snd parsed)) (fst parsed) (wv_clock v 0) d) (\<lambda>(u, d1).
       case u of None \<Rightarrow> Inl mapping_error | Some u \<Rightarrow> Inr (u, d1))"

text \<open>An object of another kind than the event names is the TypeError that its properties raise.\<close>

definition process_stripe_event ::
  "webhook_env \<Rightarrow> billing_config \<Rightarrow> stripe_event \<Rightarrow> (uuid option \<times> subscription_projection) option \<Rightarrow> db
    \<Rightarrow> sql_error + webhook_effect option \<times> db" where
  "process_stripe_event v cfg e prefetched d =
     (let created = unix_date (ev_created e); ty = ev_type e in
      if ty \<in> set subscription_event_types then
        (case ev_object e of
           Subscription_object s \<Rightarrow>
             and_then (parse_subscription (wv_is_uuid v) cfg s) (\<lambda>parsed.
             and_then (resolve_user v parsed d) (\<lambda>(u, d1).
             and_then (upsert_subscription u (snd parsed) created d1) (\<lambda>d2.
               Inr (Some \<lparr> we_user = u,
                 we_notification = (if ty = ''customer.subscription.trial_will_end''
                   then map_option (Intent_trial_ending (sp_subscription_id (snd parsed))) (sp_trial_ends_at (snd parsed))
                   else None),
                 we_subscription_status = Some (sp_status (snd parsed)) \<rparr>, d2))))
         | _ \<Rightarrow> Inl (Thrown ''type_error''))
      else case (ev_object e, prefetched) of
        (Invoice_object i, Some parsed) \<Rightarrow>
          and_then (stripe_customer_id (iv_customer i)) (\<lambda>customer.
          if sp_stripe_customer_id (snd parsed) \<noteq> customer then Inl mapping_error
          else and_then (resolve_user v parsed d) (\<lambda>(u, d1).
          and_then (upsert_subscription u (snd parsed) created d1) (\<lambda>d2.
          and_then (parse_invoice i) (\<lambda>ip.
          and_then (upsert_invoice u ip created d2) (\<lambda>d3.
            Inr (Some \<lparr> we_user = u,
              we_notification = (if ty = ''invoice.payment_failed'' \<or> ty = ''invoice.payment_action_required''
                then Some (Intent_payment_failed (iv_id i)) else None),
              we_subscription_status = Some (sp_status (snd parsed)) \<rparr>, d3))))))
      | _ \<Rightarrow>
        if ty \<in> set checkout_event_types then
          (case ev_object e of
             Checkout_object session \<Rightarrow>
               and_then (mark_checkout_from_webhook session
                   (if ty = ''checkout.session.completed'' then Ck_completed else Ck_expired) (wv_clock v 1) d) (\<lambda>(u, d1).
                 Inr (map_option (\<lambda>u. \<lparr> we_user = u, we_notification = None, we_subscription_status = None \<rparr>) u, d1))
           | _ \<Rightarrow> Inl (Thrown ''type_error''))
        else if ty = ''customer.deleted'' then
          (case ev_object e of
             Other_object r \<Rightarrow>
               and_then (stripe_customer_id r) (\<lambda>i.
               and_then (mark_customer_deleted i created (\<lambda>n. wv_clock v (n + 1)) d) (\<lambda>(u, d1).
                 Inr (map_option (\<lambda>u. \<lparr> we_user = u, we_notification = None,
                   we_subscription_status = Some Canceled \<rparr>) u, d1)))
           | _ \<Rightarrow> Inl (Thrown ''type_error''))
        else Inr (None, d))"

text \<open>The transaction: an erased account leaves the receipt and nothing else.\<close>

definition webhook_work ::
  "webhook_env \<Rightarrow> billing_config \<Rightarrow> stripe_event \<Rightarrow> (uuid option \<times> subscription_projection) option \<Rightarrow> db
    \<Rightarrow> sql_error + webhook_effect option \<times> db" where
  "webhook_work v cfg e prefetched d =
     (case process_stripe_event v cfg e prefetched d of
        Inl x \<Rightarrow> if x = account_inactive then Inr (None, d) else Inl x
      | Inr (Some f, d1) \<Rightarrow>
          (case we_notification f of
             None \<Rightarrow> Inr (Some f, d1)
           | Some n \<Rightarrow> and_then (enqueue_notification (wv_notify v) (we_user f) (ev_id e) n d1) (\<lambda>d2. Inr (Some f, d2)))
      | Inr (None, d1) \<Rightarrow> Inr (None, d1))"

fun object_id_of :: "stripe_object \<Rightarrow> string option" where
  "object_id_of (Subscription_object s) = Some (sb_id s)"
| "object_id_of (Invoice_object i) = Some (iv_id i)"
| "object_id_of (Checkout_object i) = Some i"
| "object_id_of (Other_object r) = stripe_object_id r"

definition webhook_metadata_of :: "stripe_event \<Rightarrow> webhook_metadata" where
  "webhook_metadata_of e =
     \<lparr> wm_id = ev_id e, wm_type = ev_type e, wm_object_id = object_id_of (ev_object e), wm_livemode = ev_livemode e,
       wm_created_at = unix_date (ev_created e) \<rparr>"

definition webhook_prefetch ::
  "webhook_env \<Rightarrow> billing_config \<Rightarrow> stripe_event \<Rightarrow> failure + (uuid option \<times> subscription_projection) option" where
  "webhook_prefetch v cfg e =
     (if ev_type e \<in> set invoice_event_types
      then (case ev_object e of Invoice_object i \<Rightarrow> subscription_for_invoice v cfg i | _ \<Rightarrow> Inl (Unhandled (Thrown ''type_error'')))
      else Inr None)"

text \<open>The answer of the handler: the subscription status that is pushed to the user's open connections.\<close>

definition stripe_handle ::
  "webhook_env \<Rightarrow> billing_config \<Rightarrow> string option \<Rightarrow> string option \<Rightarrow> db
    \<Rightarrow> (failure + (uuid \<times> subscription_status) option) \<times> db" where
  "stripe_handle v cfg body signature d =
     (case verified_event v cfg body signature of
        Inl x \<Rightarrow> (Inl (Api x), d)
      | Inr e \<Rightarrow>
          if \<not> supported_event (ev_type e) \<or> webhook_processed (ev_id e) d then (Inr None, d)
          else case webhook_prefetch v cfg e of
            Inl x \<Rightarrow> (Inl x, d)
          | Inr prefetched \<Rightarrow>
              (case process_webhook (webhook_metadata_of e) (webhook_work v cfg e prefetched) d of
                 Inl x \<Rightarrow> (Inl (if x = mapping_error then invalid_event else Unhandled x), d)
               | Inr (Some (Some f), d1) \<Rightarrow>
                   (Inr (map_option (\<lambda>st. (we_user f, st)) (we_subscription_status f)), d1)
               | Inr (_, d1) \<Rightarrow> (Inr None, d1)))"

end
