(* ===== verification/Stripe_Delivery.thy ===== *)
theory Stripe_Delivery
  imports Stripe_Webhook
begin

text \<open>
  What the webhook promises to Stripe, which delivers an event until it is acknowledged: an event takes effect exactly
  once, and nothing is recreated for an account that was erased.
\<close>

section \<open>Receipts survive the work\<close>

abbreviation receipts :: "db \<Rightarrow> webhook_row list" where
  "receipts d \<equiv> stripe_webhook_event (stripe d)"

lemma put_receipts [simp]: "receipts (put_customers t d) = receipts d" "receipts (put_checkouts c d) = receipts d"
  by (simp_all add: put_customers_def put_checkouts_def)

lemma write_customer_receipts: "write_customer r t d = Inr d' \<Longrightarrow> receipts d' = receipts d"
  by (auto simp: write_customer_def split: if_splits)

lemma write_subscription_receipts: "write_subscription r t d = Inr d' \<Longrightarrow> receipts d' = receipts d"
  by (auto simp: write_subscription_def split: if_splits)

lemma write_checkouts_receipts: "write_checkouts t d = Inr d' \<Longrightarrow> receipts d' = receipts d"
  by (auto simp: write_checkouts_def split: if_splits)

lemma write_outbox_receipts: "write_outbox t d = Inr d' \<Longrightarrow> receipts d' = receipts d"
  by (auto simp: write_outbox_def split: if_splits)

lemma use_trial_receipts: "use_trial u p d = Inr d' \<Longrightarrow> receipts d' = receipts d"
  by (auto simp: use_trial_def Let_def dest: write_customer_receipts split: option.splits)

lemma resolve_user_receipts: "resolve_user v parsed d = Inr (u, d') \<Longrightarrow> receipts d' = receipts d"
  by (auto simp: resolve_user_def resolve_billing_user_def Let_def and_then_Inr_iff
    dest: write_customer_receipts split: option.splits if_splits)

lemma upsert_subscription_receipts: "upsert_subscription u p t d = Inr d' \<Longrightarrow> receipts d' = receipts d"
  by (auto simp: upsert_subscription_def Let_def and_then_Inr_iff
    dest!: write_subscription_receipts use_trial_receipts split: option.splits if_splits)

lemma upsert_invoice_receipts: "upsert_invoice u i t d = Inr d' \<Longrightarrow> receipts d' = receipts d"
  by (auto simp: upsert_invoice_def Let_def split: option.splits if_splits)

lemma mark_checkout_receipts: "mark_checkout_from_webhook s st clk d = Inr (u, d') \<Longrightarrow> receipts d' = receipts d"
  by (auto simp: mark_checkout_from_webhook_def Let_def and_then_Inr_iff dest: write_checkouts_receipts)

lemma mark_deleted_receipts: "mark_customer_deleted i t clk d = Inr (u, d') \<Longrightarrow> receipts d' = receipts d"
  by (auto simp: mark_customer_deleted_def Let_def and_then_Inr_iff
    dest!: write_checkouts_receipts split: option.splits)

lemma enqueue_receipts: "enqueue_notification v u s n d = Inr d' \<Longrightarrow> receipts d' = receipts d"
  by (auto simp: enqueue_notification_def Let_def and_then_Inr_iff
    dest!: write_outbox_receipts split: if_splits)

lemmas step_receipts = resolve_user_receipts upsert_subscription_receipts upsert_invoice_receipts
  mark_checkout_receipts mark_deleted_receipts

lemma process_stripe_event_receipts: "process_stripe_event v cfg e pre d = Inr (f, d') \<Longrightarrow> receipts d' = receipts d"
  unfolding process_stripe_event_def Let_def
  by (auto simp: and_then_Inr_iff dest!: step_receipts split: if_splits stripe_object.splits option.splits)

lemma webhook_work_receipts: "webhook_work v cfg e pre d = Inr (f, d') \<Longrightarrow> receipts d' = receipts d"
  unfolding webhook_work_def
  by (auto simp: and_then_Inr_iff dest!: process_stripe_event_receipts enqueue_receipts
    split: sum.splits prod.splits option.splits if_splits)

section \<open>Exactly once\<close>

definition with_receipt :: "webhook_metadata \<Rightarrow> db \<Rightarrow> db" where
  "with_receipt m d = d\<lparr>stripe := (stripe d)\<lparr>stripe_webhook_event := receipts d @
     [\<lparr> we_id = wm_id m, we_type = wm_type m, we_object_id = wm_object_id m, we_livemode = wm_livemode m,
        we_created_at = pg_of_js (wm_created_at m) \<rparr>]\<rparr>\<rparr>"

lemma process_webhook_first:
  "\<not> webhook_processed (wm_id m) d \<Longrightarrow>
    process_webhook m work d = and_then (work (with_receipt m d)) (\<lambda>(r, d'). Inr (Some r, d'))"
  by (simp add: process_webhook_def with_receipt_def)

lemma with_receipt_processed: "receipts d' = receipts (with_receipt m d) \<Longrightarrow> webhook_processed (wm_id m) d'"
  by (simp add: webhook_processed_def with_receipt_def)

lemma metadata_id [simp]: "wm_id (webhook_metadata_of e) = ev_id e"
  by (simp add: webhook_metadata_of_def)

text \<open>C33. Stripe repeats an event until it is acknowledged. A delivery that fails leaves the database as it was, so
  the next one starts afresh; a delivery that is acknowledged leaves a receipt, after which the same event is
  acknowledged again without any effect.\<close>

theorem webhook_exactly_once:
  assumes "verified_event v cfg body signature = Inr e" "supported_event (ev_type e)"
  shows "case stripe_handle v cfg body signature d of
      (Inl x, d') \<Rightarrow> d' = d
    | (Inr r, d') \<Rightarrow> webhook_processed (ev_id e) d' \<and> stripe_handle v cfg body signature d' = (Inr None, d')"
proof (cases "webhook_processed (ev_id e) d")
  case True
  then show ?thesis using assms by (simp add: stripe_handle_def)
next
  case False
  let ?m = "webhook_metadata_of e"
  have again: "stripe_handle v cfg body signature d' = (Inr None, d')" if "webhook_processed (ev_id e) d'" for d'
    using assms that by (simp add: stripe_handle_def)
  show ?thesis
  proof (cases "webhook_prefetch v cfg e")
    case (Inl x)
    then show ?thesis using assms False by (simp add: stripe_handle_def)
  next
    case (Inr pre)
    show ?thesis
    proof (cases "webhook_work v cfg e pre (with_receipt ?m d)")
      case Inl': (Inl x)
      then show ?thesis using assms False Inr by (simp add: stripe_handle_def process_webhook_first)
    next
      case Inr': (Inr r)
      obtain f d' where r: "r = (f, d')" by (cases r)
      have "receipts d' = receipts (with_receipt ?m d)" using webhook_work_receipts Inr' r by blast
      then have "webhook_processed (ev_id e) d'" using with_receipt_processed [of d' ?m d] by simp
      then show ?thesis
        using assms False Inr Inr' r again [of d'] by (cases f) (simp_all add: stripe_handle_def process_webhook_first)
    qed
  qed
qed

section \<open>Erased accounts\<close>

text \<open>The account the event belongs to: the owner of the customer on record, else the one named by the metadata.\<close>

definition billing_owner :: "uuid option \<times> subscription_projection \<Rightarrow> db \<Rightarrow> uuid option" where
  "billing_owner parsed d =
     (case sql_first (\<lambda>c. bc_stripe_customer_id c = sp_stripe_customer_id (snd parsed)) (customers d) of
        Some c \<Rightarrow> Some (bc_user_id c)
      | None \<Rightarrow> fst parsed)"

lemma resolve_user_erased:
  assumes "billing_owner parsed d = Some u" "sql_first (\<lambda>a. ua_id a = u) (user_account d) = Some a" "ua_deleted_at a \<noteq> None"
  shows "resolve_user v parsed d = Inl account_inactive"
  using assms
  by (auto simp: resolve_user_def resolve_billing_user_def billing_owner_def require_active_billing_account_def Let_def
    split: option.splits)

text \<open>Whatever Stripe still reports of the subscription of an erased account is acknowledged, and nothing but the
  receipt of the event is stored.\<close>

lemma erased_account_stays_erased:
  assumes "verified_event v cfg body signature = Inr e" "ev_type e \<in> set subscription_event_types"
    "ev_object e = Subscription_object s" "parse_subscription (wv_is_uuid v) cfg s = Inr parsed"
    "billing_owner parsed d = Some u" "sql_first (\<lambda>a. ua_id a = u) (user_account d) = Some a" "ua_deleted_at a \<noteq> None"
    "\<not> webhook_processed (ev_id e) d"
  shows "stripe_handle v cfg body signature d = (Inr None, with_receipt (webhook_metadata_of e) d)"
proof -
  let ?d = "with_receipt (webhook_metadata_of e) d"
  have "billing_owner parsed ?d = Some u" "sql_first (\<lambda>a. ua_id a = u) (user_account ?d) = Some a"
    using assms(5,6) by (simp_all add: billing_owner_def with_receipt_def)
  then have "resolve_user v parsed ?d = Inl account_inactive" using assms(7) by (rule resolve_user_erased)
  then have work: "webhook_work v cfg e pre ?d = Inr (None, ?d)" for pre
    using assms(2-4) by (simp add: webhook_work_def process_stripe_event_def)
  have "supported_event (ev_type e)" using assms(2) by (simp add: supported_event_def)
  moreover have "webhook_prefetch v cfg e = Inr None"
    using assms(2) by (auto simp: webhook_prefetch_def subscription_event_types_def invoice_event_types_def)
  ultimately show ?thesis using assms(1,8) work by (simp add: stripe_handle_def process_webhook_first)
qed

section \<open>An instance\<close>

definition sample_billing :: billing_config where
  "sample_billing = \<lparr> bg_enabled = True, bg_monthly_price = ''price_1'', bg_annual_price = ''price_2'',
     bg_product = ''prod_1'', bg_live_key = False \<rparr>"

definition sample_stripe_event :: stripe_event where
  "sample_stripe_event = \<lparr> ev_id = ''evt_1'', ev_type = ''customer.subscription.created'', ev_livemode = False, ev_created = 20,
     ev_object = Subscription_object \<lparr> sb_id = ''sub_1'', sb_status = ''active'',
       sb_items = [\<lparr> si_product = Ref_id ''prod_1'', si_price_id = ''price_1'', si_period_start = 0, si_period_end = 2592000 \<rparr>],
       sb_customer = Ref_id ''cus_1'', sb_metadata_user = None, sb_cancel_at_period_end = False, sb_trial_start = None,
       sb_trial_end = None, sb_canceled_at = None \<rparr> \<rparr>"

definition sample_webhook_env :: webhook_env where
  "sample_webhook_env = \<lparr> wv_construct = (\<lambda>b s. if s = ''ok'' then Some sample_stripe_event else None), wv_retrieve = (\<lambda>_. None),
     wv_is_uuid = (\<lambda>_. False), wv_clock = (\<lambda>_. 0),
     wv_notify = \<lparr> nv_sha256_hex = id, nv_id = ''n'', nv_job_id = (\<lambda>_. ''j''), nv_now = 0, nv_clock = 0 \<rparr> \<rparr>"

lemma sample_webhook_acknowledged:
  "case stripe_handle sample_webhook_env sample_billing (Some []) (Some ''ok'') paying_user of
     (r, d) \<Rightarrow> r = Inr (Some (''u'', Sub_active)) \<and> map us_user_id (user_subscription d) = [''u'']"
  by code_simp

theorem webhook_exactly_once_witness:
  "\<exists>d'. stripe_handle sample_webhook_env sample_billing (Some []) (Some ''ok'') paying_user = (Inr (Some (''u'', Sub_active)), d') \<and>
     stripe_handle sample_webhook_env sample_billing (Some []) (Some ''ok'') d' = (Inr None, d')"
proof -
  obtain r d' where h: "stripe_handle sample_webhook_env sample_billing (Some []) (Some ''ok'') paying_user = (r, d')" by fastforce
  then have r: "r = Inr (Some (''u'', Sub_active))" using sample_webhook_acknowledged by simp
  have pre: "verified_event sample_webhook_env sample_billing (Some []) (Some ''ok'') = Inr sample_stripe_event"
    by (simp add: verified_event_def sample_webhook_env_def sample_billing_def sample_stripe_event_def)
  have "supported_event (ev_type sample_stripe_event)" by code_simp
  from webhook_exactly_once [OF pre this, of paying_user] h r show ?thesis by simp
qed

end
