(* ===== verification/Billing_Access.thy ===== *)
theory Billing_Access
  imports Billing_Service
begin

text \<open>
  What the billing service promises to a user: the access shown is the access that the checkout checks, and a checkout
  that fails, at whatever call of Stripe or of the database, does not block the next one.
\<close>

section \<open>Access\<close>

definition whole_millis :: "pg_time \<Rightarrow> bool" where
  "whole_millis t \<longleftrightarrow> t = pg_of_js (js_of_pg t)"

text \<open>The reading side compares milliseconds, the statement of \<open>hasActiveSubscription\<close> microseconds: they agree on the
  whole seconds that Stripe reports: the user sees access exactly while a checkout would answer that a subscription is active.\<close>

lemma access_granted_is_active:
  assumes "distinct (map us_user_id (user_subscription d))"
    "list_all (\<lambda>s. us_provider s \<in> {None, Some ''stripe''} \<and> (case us_period_ends_at s of None \<Rightarrow> True | Some t \<Rightarrow> whole_millis t))
      (user_subscription d)"
  shows "sw_access_granted (subscription_of cfg u now d) = has_active_subscription u now d"
proof (cases "subscription_for_user u d")
  case None
  then have "sw_access_granted (subscription_of cfg u now d) = False" by (simp add: subscription_of_def Let_def)
  moreover have "\<not> has_active_subscription u now d"
    using None by (auto simp: subscription_for_user_def has_active_subscription_def sql_first_None_iff sql_exists_iff)
  ultimately show ?thesis by simp
next
  case (Some s)
  then have s: "s \<in> set (user_subscription d)" "us_user_id s = u"
    using sql_first_SomeD by (fastforce simp: subscription_for_user_def)+
  have only: "y = s" if "y \<in> set (user_subscription d)" "us_user_id y = u" for y
    by (rule distinct_keyD [OF assms(1) that(1) s(1)]) (simp add: that(2) s(2))
  have one: "sql_exists (\<lambda>s. us_user_id s = u \<and> Q s) (user_subscription d) = Q s" for Q
    unfolding sql_exists_iff using only s by blast
  have p: "us_provider s \<in> {None, Some ''stripe''}"
    "case us_period_ends_at s of None \<Rightarrow> True | Some t \<Rightarrow> whole_millis t"
    using assms(2) s(1) by (auto simp: list_all_iff)
  have ms: "pg_of_js now < t \<longleftrightarrow> now < js_of_pg t" if "whole_millis t" for t
    by (metis that whole_millis_def pg_of_js_less_iff)
  have w: "within_period (us_period_ends_at s) (pg_of_js now) =
      (case us_period_ends_at s of None \<Rightarrow> True | Some t \<Rightarrow> now < js_of_pg t)"
    using p(2) by (cases "us_period_ends_at s") (simp_all add: within_period_def ms)
  have "sw_access_granted (subscription_of cfg u now d) = access_granted now s"
    using Some by (simp add: subscription_of_def Let_def)
  moreover have "has_active_subscription u now d = access_granted now s"
    unfolding has_active_subscription_def one access_granted_def w using p(1)
    by (cases "us_status s") auto
  ultimately show ?thesis by simp
qed

section \<open>What a step leaves of the checkouts\<close>

definition checkout_frame :: "checkout_row list \<Rightarrow> checkout_row list \<Rightarrow> bool" where
  "checkout_frame t t' \<longleftrightarrow> map (\<lambda>c. (bs_id c, bs_user_id c, bs_status c)) t' = map (\<lambda>c. (bs_id c, bs_user_id c, bs_status c)) t \<and>
     (checkout_table_ok t \<longrightarrow> checkout_table_ok t')"

lemma checkout_frame_refl [simp]: "checkout_frame t t"
  by (simp add: checkout_frame_def)

lemma checkout_frame_trans: "checkout_frame s t \<Longrightarrow> checkout_frame t v \<Longrightarrow> checkout_frame s v"
  by (simp add: checkout_frame_def)

lemma checkout_frame_live: "checkout_frame t t' \<Longrightarrow> live_attempts u t' = live_attempts u t"
proof -
  have "live_attempts u t = map (\<lambda>(i, _, st). (i, st)) (filter (\<lambda>(_, v, st). v = u \<and> st \<in> {Ck_creating, Ck_open})
      (map (\<lambda>c. (bs_id c, bs_user_id c, bs_status c)) t))" for t
    by (induction t) (auto simp: live_attempts_def live_checkout_def)
  then show "checkout_frame t t' \<Longrightarrow> live_attempts u t' = live_attempts u t" by (simp add: checkout_frame_def)
qed

lemma write_checkouts_frame:
  assumes "write_checkouts (sql_update q f (checkouts d)) d = Inr d'"
    "\<And>c. bs_id (f c) = bs_id c" "\<And>c. bs_user_id (f c) = bs_user_id c" "\<And>c. bs_status (f c) = bs_status c"
  shows "checkout_frame (checkouts d) (checkouts d')"
  using assms by (auto simp: write_checkouts_def checkout_frame_def map_sql_update split: if_splits)

lemma write_outbox_checkouts: "write_outbox t d = Inr d' \<Longrightarrow> checkouts d' = checkouts d"
  by (auto simp: write_outbox_def split: if_splits)

lemma write_customer_checkouts: "write_customer r t d = Inr d' \<Longrightarrow> checkouts d' = checkouts d"
  by (auto simp: write_customer_def put_customers_def split: if_splits)

lemma schedule_checkouts: "schedule_reconciliation oid ev t txn d = Inr d' \<Longrightarrow> checkouts d' = checkouts d"
  unfolding schedule_reconciliation_def by (auto dest: write_outbox_checkouts split: if_splits)

lemma begin_creation_frame:
  assumes "begin_customer_creation i oid clk txn d = Inr (c, d')"
  shows "checkout_frame (checkouts d) (checkouts d')"
proof -
  obtain d1 f ev t where w: "write_checkouts (sql_update (\<lambda>c. bs_id c = i) f (checkouts d)) d = Inr d1"
    and f: "f = (\<lambda>c. c\<lparr>bs_creation_started_at := Some (case bs_creation_started_at c of None \<Rightarrow> clk | Some t \<Rightarrow> t)\<rparr>)"
    and r: "schedule_reconciliation oid ev t txn d1 = Inr d'"
    using assms unfolding begin_customer_creation_def Let_def
    by (elim and_then_InrE) (auto simp: and_then_Inr_iff split: option.splits)
  have "checkout_frame (checkouts d) (checkouts d1)" by (rule write_checkouts_frame [OF w]) (simp_all add: f)
  moreover have "checkouts d' = checkouts d1" using r schedule_checkouts by blast
  ultimately show ?thesis by simp
qed

lemma record_created_frame:
  assumes "record_created_customer i x clk d = Inr d'"
  shows "checkout_frame (checkouts d) (checkouts d')"
proof -
  obtain d1 q where w: "write_checkouts (sql_update q (\<lambda>c. c\<lparr>bs_created_customer_id := Some x\<rparr>) (checkouts d)) d = Inr d1"
    and r: "\<exists>t. write_outbox t d1 = Inr d'"
    using assms unfolding record_created_customer_def Let_def by (auto simp: and_then_Inr_iff split: if_splits)
  have "checkout_frame (checkouts d) (checkouts d1)" by (rule write_checkouts_frame [OF w]) simp_all
  moreover have "checkouts d' = checkouts d1" using r write_outbox_checkouts by blast
  ultimately show ?thesis by simp
qed

lemma save_customer_frame: "save_customer u i clk d = Inr (b, d') \<Longrightarrow> checkouts d' = checkouts d"
  by (auto simp: save_customer_def map_customer_def and_then_Inr_iff delete_outbox_def
    dest!: write_customer_checkouts split: option.splits if_splits)

lemma mark_erased_frame: "mark_created_customer_erased i clk d = Inr d' \<Longrightarrow> checkout_frame (checkouts d) (checkouts d')"
  unfolding mark_created_customer_erased_def by (erule write_checkouts_frame) simp_all

section \<open>A failed checkout\<close>

abbreviation world_checkouts :: "billing_world \<Rightarrow> checkout_row list" where
  "world_checkouts w \<equiv> checkouts (bw_db w)"

lemma world_simps [simp]:
  "bw_db (bw_call c w) = bw_db w" "bw_db (bw_set w d) = d"
  by (simp_all add: bw_call_def bw_set_def)

lemma resolve_creation_frame:
  "resolve_customer_creation sa now clk u c w = (r, w') \<Longrightarrow> checkout_frame (world_checkouts w) (world_checkouts w')"
  unfolding resolve_customer_creation_def Let_def
  by (auto dest: record_created_frame split: if_splits option.splits sum.splits)

lemma delete_confirmed_db: "delete_customer_confirmed sa i key w = (ok, w') \<Longrightarrow> bw_db w' = bw_db w"
  by (auto simp: delete_customer_confirmed_def Let_def split: if_splits)

lemma best_effort_frame:
  "checkout_frame (world_checkouts w) (world_checkouts (delete_customer_best_effort sa i attempt clk w))"
  unfolding delete_customer_best_effort_def Let_def
  by (auto dest: delete_confirmed_db mark_erased_frame split: prod.splits sum.splits) (metis delete_confirmed_db mark_erased_frame)

lemma attach_customer_frame:
  assumes "attach_customer sa env u attempt cx w = (r, orphan, w')"
  shows "checkout_frame (world_checkouts w) (world_checkouts w')"
proof (cases "cx_stripe_customer_id cx")
  case (Some i)
  then show ?thesis using assms by (auto simp: attach_customer_def)
next
  case None
  show ?thesis
  proof (cases "begin_customer_creation attempt (ke_outbox_id env) (ke_clock env 0) (ke_creation_txn env) (bw_db w)")
    case (Inl e)
    then show ?thesis using assms None by (auto simp: attach_customer_def)
  next
    case (Inr x)
    obtain c d where x: "x = (c, d)" by (cases x)
    have 1: "checkout_frame (world_checkouts w) (checkouts d)" using begin_creation_frame Inr x by blast
    obtain r1 w1 where r1: "resolve_customer_creation sa (ke_resolve_now env) (ke_clock env 1) u c (bw_set w d) = (r1, w1)"
      by fastforce
    have 2: "checkout_frame (checkouts d) (world_checkouts w1)" using resolve_creation_frame [OF r1] by simp
    have saved: "save_customer v i clk (bw_db w1) = Inr (b, d') \<Longrightarrow> checkouts d' = world_checkouts w1" for v i clk b d'
      by (rule save_customer_frame)
    have "world_checkouts w' = checkouts d \<or> world_checkouts w' = world_checkouts w1"
      using assms None Inr x r1 unfolding attach_customer_def
      by (auto simp: saved split: if_splits sum.splits bool.splits)
    then show ?thesis using 1 checkout_frame_trans [OF 1 2] by auto
  qed
qed

text \<open>The customer is on record, or the failure happens before the session: then the session only adds its mark.\<close>

lemma open_session_cases:
  assumes "open_session sa cfg env u period attempt cx expires w = (r, session, orphan, w')"
  shows "case r of
      Inl e \<Rightarrow> checkout_frame (world_checkouts w) (world_checkouts w') \<or>
        (\<exists>w1 v d. checkout_frame (world_checkouts w) (world_checkouts w1) \<and> world_checkouts w' = checkouts d \<and>
          mark_checkout_open attempt v (ke_clock env 3) (bw_db w1) = Inr (False, d))
    | Inr v \<Rightarrow> \<exists>w1 d. checkout_frame (world_checkouts w) (world_checkouts w1) \<and> world_checkouts w' = checkouts d \<and>
        mark_checkout_open attempt v (ke_clock env 3) (bw_db w1) = Inr (True, d)"
proof -
  obtain r1 orph w1 where a: "attach_customer sa env u attempt cx w = (r1, orph, w1)" by (metis prod_cases3)
  have fr: "checkout_frame (world_checkouts w) (world_checkouts w1)" using attach_customer_frame [OF a] .
  have fr2: "checkout_frame (world_checkouts w) (world_checkouts (bw_call c w1))" for c using fr by simp
  show ?thesis
  proof (cases r1)
    case (Inl e)
    then show ?thesis using assms a fr by (auto simp: open_session_def)
  next
    case (Inr customer)
    let ?kp = "session_params cfg u customer period cx expires attempt"
    show ?thesis
    proof (cases "ke_held env 1")
      case False
      then show ?thesis using assms a fr Inr by (auto simp: open_session_def)
    next
      case held: True
      show ?thesis
      proof (cases "sa_create_session sa ?kp")
        case None
        then show ?thesis using assms a fr Inr held by (auto simp: open_session_def Let_def)
      next
        case (Some s)
        show ?thesis
        proof (cases "ss_url s")
          case None
          then show ?thesis using assms a fr Inr held Some by (auto simp: open_session_def Let_def)
        next
          case url: (Some url)
          let ?v = "\<lparr> cv_session_id = ss_id s, cv_url = url, cv_expires_at = ss_expires_at s * 1000 \<rparr>"
          show ?thesis
          proof (cases "url = []")
            case True
            then show ?thesis using assms a fr Inr held Some url by (auto simp: open_session_def Let_def)
          next
            case ne: False
            let ?m = "mark_checkout_open attempt ?v (ke_clock env 3) (bw_db w1)"
            have res: "(r, session, orphan, w') =
              (case ?m of
                 Inl e \<Rightarrow> (Inl (Unhandled e), Some (ss_id s), orph, bw_call (Create_session ?kp) w1)
               | Inr (True, d) \<Rightarrow> (Inr ?v, Some (ss_id s), orph, bw_set (bw_call (Create_session ?kp) w1) d)
               | Inr (False, d) \<Rightarrow> (Inl (Api (api_error 409 ''checkout_state_conflict'')), Some (ss_id s), orph,
                    bw_call (Expire_session (ss_id s)) (bw_set (bw_call (Create_session ?kp) w1) d)))"
              using assms a Inr held Some url ne by (simp add: open_session_def Let_def)
            show ?thesis
            proof (cases ?m)
              case (Inl e)
              then show ?thesis using res fr by simp
            next
              case m: (Inr x)
              obtain b d where x: "x = (b, d)" by (cases x)
              show ?thesis using res fr m x by (cases b) (auto intro!: exI [of _ w1] exI [of _ d])
            qed
          qed
        qed
      qed
    qed
  qed
qed

lemma handed_out_row:
  assumes "live_attempts u t = [(j, Ck_creating)]"
  obtains c where "c \<in> set t" "bs_id c = j" "bs_user_id c = u" "bs_status c = Ck_creating"
proof -
  have "(j, Ck_creating) \<in> set (live_attempts u t)" using assms by simp
  then show thesis using that by (auto simp: live_attempts_def)
qed

lemma mark_open_handed_out:
  assumes "checkout_table_ok (checkouts d)" "live_attempts u (checkouts d) = [(j, Ck_creating)]"
    "mark_checkout_open j v clk d = Inr (b, d')"
  shows "b" "\<exists>c \<in> set (checkouts d'). bs_user_id c = u \<and> bs_status c = Ck_open \<and>
    bs_stripe_session_id c = Some (cv_session_id v) \<and> bs_checkout_url c = Some (cv_url v)"
proof -
  let ?p = "\<lambda>c. bs_id c = j \<and> bs_status c = Ck_creating"
  obtain c where c: "c \<in> set (checkouts d)" "bs_id c = j" "bs_user_id c = u" "bs_status c = Ck_creating"
    using handed_out_row [OF assms(2)] .
  have "distinct (map bs_id (checkouts d))" using assms(1) by (simp add: checkout_table_ok_def)
  then have "sql_count ?p (checkouts d) = 1 \<longleftrightarrow> sql_exists ?p (checkouts d)" by (rule sql_count_1_iff_exists) simp
  then have "sql_count ?p (checkouts d) = 1" using c by (auto simp: sql_exists_iff)
  then show b using assms(3) by (auto simp: mark_checkout_open_def Let_def and_then_Inr_iff)
  define f where "f = (\<lambda>c :: checkout_row. c\<lparr>bs_stripe_session_id := Some (cv_session_id v), bs_checkout_url := Some (cv_url v),
    bs_status := Ck_open, bs_expires_at := pg_of_js (cv_expires_at v), bs_updated_at := clk\<rparr>)"
  have "checkouts d' = sql_update ?p f (checkouts d)"
    using assms(3) by (auto simp: mark_checkout_open_def Let_def and_then_Inr_iff write_checkouts_def f_def split: if_splits)
  then have "f c \<in> set (checkouts d')" using c by (auto simp: set_sql_update)
  then show "\<exists>c \<in> set (checkouts d'). bs_user_id c = u \<and> bs_status c = Ck_open \<and>
      bs_stripe_session_id c = Some (cv_session_id v) \<and> bs_checkout_url c = Some (cv_url v)"
    by (rule bexI [rotated]) (simp add: f_def c(3))
qed

lemma mark_failed_handed_out:
  assumes "checkout_table_ok (checkouts d)" "live_attempts u (checkouts d) = [(j, Ck_creating)]"
  obtains d' where "mark_checkout_failed j clk d = Inr d'" "live_ids u (checkouts d') = []"
proof -
  let ?p = "\<lambda>c. bs_id c = j \<and> bs_status c = Ck_creating"
  define f where "f = (\<lambda>c :: checkout_row. c\<lparr>bs_status := Ck_failed, bs_checkout_url := None, bs_updated_at := clk\<rparr>)"
  have closes: "closes c (f c)" for c by (simp add: closes_def f_def live_checkout_def)
  have ok: "checkout_table_ok (sql_update ?p f (checkouts d))" by (rule checkout_table_close [OF assms(1) closes])
  have "live_ids u (sql_update ?p f (checkouts d)) = []"
  proof (rule ccontr)
    assume "live_ids u (sql_update ?p f (checkouts d)) \<noteq> []"
    then obtain c where c: "c \<in> set (checkouts d)" "bs_user_id (if ?p c then f c else c) = u"
      "live_checkout (if ?p c then f c else c)" by (auto simp: live_ids_def filter_empty_conv set_sql_update)
    then have "\<not> ?p c" "bs_user_id c = u" "live_checkout c" by (auto simp: f_def live_checkout_def split: if_splits)
    then have "(bs_id c, bs_status c) \<in> set (live_attempts u (checkouts d))" using c(1) by (auto simp: live_attempts_def)
    then show False using assms(2) \<open>\<not> ?p c\<close> by simp
  qed
  then show thesis
    using that [of "put_checkouts (sql_update ?p f (checkouts d)) d"] ok
    by (simp add: mark_checkout_failed_def write_checkouts_def f_def)
qed

lemma begin_checkout_replay:
  "begin_checkout u key period i now expires stale txn clk d = Inr (Checkout_replay v, d') \<Longrightarrow>
    Option.bind (sql_first (attempt_of u key) (checkouts d)) (answer_of_attempt period now stale) = Some (Checkout_replay v)"
  unfolding begin_checkout_def Let_def
  by (auto simp: and_then_Inr_iff split: if_splits option.splits)

definition settled :: "uuid \<Rightarrow> checkout_row list \<Rightarrow> (failure + checkout_session_view) \<times> billing_world \<Rightarrow> bool" where
  "settled u t x \<longleftrightarrow>
     (case x of
        (Inr v, w') \<Rightarrow> \<exists>c \<in> set (world_checkouts w'). bs_user_id c = u \<and> bs_status c = Ck_open \<and>
          bs_stripe_session_id c = Some (cv_session_id v) \<and> bs_checkout_url c = Some (cv_url v)
      | (Inl f, w') \<Rightarrow> (\<exists>e. f = Api e) \<and> set (live_ids u (world_checkouts w')) \<subseteq> set (live_ids u t))"

lemma recover_settles:
  assumes "checkout_table_ok (world_checkouts w)" "live_attempts u (world_checkouts w) = [(j, Ck_creating)]"
    "recover_checkout sa env j e session orphan w = (e', w')"
  shows "(\<exists>x. e' = Api x) \<and> live_ids u (world_checkouts w') = []"
proof -
  obtain d where d: "mark_checkout_failed j (ke_clock env 4) (bw_db w) = Inr d" "live_ids u (checkouts d) = []"
    using mark_failed_handed_out [OF assms(1,2)] .
  define w1 where "w1 = (case session of None \<Rightarrow> bw_set w d | Some s \<Rightarrow> bw_call (Expire_session s) (bw_set w d))"
  have w1: "bw_db w1 = d" by (cases session) (simp_all add: w1_def)
  have w': "w' = (case orphan of None \<Rightarrow> w1 | Some i \<Rightarrow> delete_customer_best_effort sa i j (ke_clock env 5) w1)"
    and e': "e' = (case e of Api x \<Rightarrow> Api x | Unhandled _ \<Rightarrow> provider_error)"
    using assms(3) d(1) unfolding w1_def recover_checkout_def Let_def by simp_all
  have "checkout_frame (checkouts d) (world_checkouts w')"
    using best_effort_frame [of w1] w1 w' by (cases orphan) auto
  then have "live_attempts u (world_checkouts w') = live_attempts u (checkouts d)" by (rule checkout_frame_live)
  then have "live_ids u (world_checkouts w') = []" using d(2) by (simp add: live_ids_attempts)
  moreover have "\<exists>x. e' = Api x" using e' by (cases e) (auto simp: provider_error_def)
  ultimately show ?thesis by blast
qed

lemma continue_settles:
  assumes "checkout_table_ok (world_checkouts w)" "live_attempts u (world_checkouts w) = [(j, Ck_creating)]"
  shows "settled u t (continue_checkout sa cfg env u period j cx expires w)"
proof -
  obtain r session orphan w1 where os: "open_session sa cfg env u period j cx expires w = (r, session, orphan, w1)"
    by (metis prod_cases4)
  note cases = open_session_cases [OF os]
  have step: "checkout_table_ok (world_checkouts w2)" "live_attempts u (world_checkouts w2) = [(j, Ck_creating)]"
    if "checkout_frame (world_checkouts w) (world_checkouts w2)" for w2
    using that assms checkout_frame_live [OF that] by (simp_all add: checkout_frame_def)
  show ?thesis
  proof (cases r)
    case (Inr v)
    then obtain w2 d where w2: "checkout_frame (world_checkouts w) (world_checkouts w2)" "world_checkouts w1 = checkouts d"
      "mark_checkout_open j v (ke_clock env 3) (bw_db w2) = Inr (True, d)" using cases by auto
    show ?thesis
      using mark_open_handed_out(2) [OF step [OF w2(1)] w2(3)] os Inr w2(2)
      by (simp add: continue_checkout_def settled_def)
  next
    case (Inl e)
    have fr: "checkout_frame (world_checkouts w) (world_checkouts w1)"
      using cases Inl mark_open_handed_out(1) step by fastforce
    obtain e' w2 where r: "recover_checkout sa env j e session orphan w1 = (e', w2)" by fastforce
    have "(\<exists>x. e' = Api x) \<and> live_ids u (world_checkouts w2) = []" using recover_settles [OF step [OF fr] r] .
    then show ?thesis using os Inl r by (simp add: continue_checkout_def settled_def)
  qed
qed


text \<open>Stripe creates the customer and refuses the session.\<close>

definition refusing_stripe :: stripe_answers where
  "refusing_stripe = \<lparr> sa_create_customer = (\<lambda>u i k. Some ''cus_1''), sa_create_session = (\<lambda>_. None),
     sa_delete_customer = (\<lambda>_ _. True), sa_retrieve_customer = (\<lambda>_. None), sa_portal = (\<lambda>_ _. None) \<rparr>"

definition sample_checkout_env :: checkout_env where
  "sample_checkout_env = \<lparr> ke_attempt_id = ''i'', ke_outbox_id = ''o'', ke_now = 90000, ke_resolve_now = 90000, ke_begin_txn = 0,
     ke_begin_clock = (\<lambda>_. 90000000), ke_creation_txn = 90000000, ke_clock = (\<lambda>_. 90000000), ke_held = (\<lambda>_. True) \<rparr>"

definition sample_prices :: billing_config where
  "sample_prices = \<lparr> bg_enabled = True, bg_monthly_price = ''price_1'', bg_annual_price = ''price_2'', bg_product = ''prod_1'',
     bg_live_key = False \<rparr>"

definition shopping :: billing_world where
  "shopping = \<lparr> bw_db = shopper, bw_calls = [] \<rparr>"

definition refused_checkout :: "(failure + checkout_session_view) \<times> billing_world" where
  "refused_checkout = create_checkout_while_active refusing_stripe sample_prices sample_checkout_env ''u'' Monthly
     (Some ''0a0a0a0a-0a0a-4a0a-8a0a-0a0a0a0a0a0a'') shopping"

lemma refused_checkout_answer: "fst refused_checkout = Inl provider_error" by code_simp


definition subscriber :: db where
  "subscriber = empty_db\<lparr>user_subscription := [\<lparr> us_user_id = ''u'', us_plan = ''premium'', us_provider = Some ''stripe'',
     us_provider_subscription_id = Some ''sub_1'', us_status = Some Past_due, us_period_ends_at = Some 90000000,
     us_trial_ends_at = None, us_provider_price_id = None, us_billing_period = Some Monthly,
     us_cancel_at_period_end = False, us_period_starts_at = None, us_canceled_at = None, us_event_created_at = None,
     us_projection_version = 1, us_snapshot_at = None \<rparr>]\<rparr>"

lemma access_granted_is_active_witness:
  "sw_access_granted (subscription_of sample_prices ''u'' 89999 subscriber) \<and> has_active_subscription ''u'' 89999 subscriber \<and>
   \<not> sw_access_granted (subscription_of sample_prices ''u'' 90000 subscriber)"
proof -
  have pre: "distinct (map us_user_id (user_subscription subscriber))"
    "list_all (\<lambda>s. us_provider s \<in> {None, Some ''stripe''} \<and> (case us_period_ends_at s of None \<Rightarrow> True | Some t \<Rightarrow> whole_millis t))
      (user_subscription subscriber)" by code_simp+
  have "has_active_subscription ''u'' 89999 subscriber" "\<not> has_active_subscription ''u'' 90000 subscriber" by code_simp+
  then show ?thesis
    using access_granted_is_active [OF pre, of sample_prices "''u''" 89999]
      access_granted_is_active [OF pre, of sample_prices "''u''" 90000] by simp
qed

end
