(* ===== verification/Admin_Auth.thy ===== *)
theory Admin_Auth
  imports Pagination Common Schema
begin

text \<open>
  \<open>src/admin-auth/admin-auth.repository.ts\<close>: the enrollment tokens, WebAuthn challenges, credentials and sessions of
  administrators. The state holds the accounts and the five \<open>admin_\<close> tables; hashes, keys and credential ids are
  texts, the rows hold the columns that the code uses.
\<close>

section \<open>The tables\<close>

datatype challenge_purpose = Bootstrap_registration | Additional_registration | Authentication

datatype admin_event_type = Bootstrap_issued | Bootstrap_registered | Login_succeeded | Credential_added
  | Credential_renamed | Credential_revoked | Session_revoked | Other_sessions_revoked | Admin_logout

record credential_row =
  cr_id :: uuid
  cr_user_id :: uuid
  cr_credential_id :: string
  cr_public_key :: string
  cr_counter :: int
  cr_multi_device :: bool
  cr_backed_up :: bool
  cr_transports :: "string list"
  cr_aaguid :: "uuid option"
  cr_name :: code_points
  cr_created_at :: pg_time
  cr_last_used_at :: "pg_time option"
  cr_revoked_at :: "pg_time option"

record admin_session_row =
  as_id :: uuid
  as_user_id :: uuid
  as_credential_id :: uuid
  as_token_hash :: string
  as_authenticated_at :: pg_time
  as_last_seen_at :: pg_time
  as_idle_expires_at :: pg_time
  as_absolute_expires_at :: pg_time
  as_revoked_at :: "pg_time option"
  as_created_at :: pg_time

record bootstrap_row =
  ab_id :: uuid
  ab_user_id :: uuid
  ab_secret_hash :: string
  ab_expires_at :: pg_time
  ab_consumed_at :: "pg_time option"

record challenge_row =
  ac_id :: uuid
  ac_purpose :: challenge_purpose
  ac_hash :: string
  ac_user_id :: "uuid option"
  ac_bootstrap_id :: "uuid option"
  ac_expires_at :: pg_time
  ac_consumed_at :: "pg_time option"
  ac_created_at :: pg_time

record auth_event_row =
  ae_id :: uuid
  ae_user_id :: uuid
  ae_credential_id :: "uuid option"
  ae_session_id :: "uuid option"
  ae_type :: admin_event_type
  ae_created_at :: pg_time

record admin_state =
  am_accounts :: "account_row list"
  am_bootstraps :: "bootstrap_row list"
  am_challenges :: "challenge_row list"
  am_credentials :: "credential_row list"
  am_sessions :: "admin_session_row list"
  am_events :: "auth_event_row list"

text \<open>The account behind a credential or a token: an administrator, neither deleted nor banned.\<close>

definition admin_account :: "uuid \<Rightarrow> admin_state \<Rightarrow> account_row option" where
  "admin_account u s =
     sql_first (\<lambda>a. ua_id a = u \<and> ua_role a \<in> {Admin, Superadmin} \<and> active_account a) (am_accounts s)"

section \<open>Inserting\<close>

definition webauthn_transports :: "string list" where
  "webauthn_transports = [''ble'', ''cable'', ''hybrid'', ''internal'', ''nfc'', ''smart-card'', ''usb'']"

text \<open>The CHECK constraints that the service does not already enforce on a name and on a credential id.\<close>

definition credential_row_ok :: "credential_row \<Rightarrow> bool" where
  "credential_row_ok c \<longleftrightarrow> 0 \<le> cr_counter c \<and> cr_counter c \<le> 4294967295 \<and>
     1 \<le> length (cr_credential_id c) \<and> length (cr_credential_id c) \<le> 2048 \<and>
     1 \<le> length (cr_name c) \<and> length (cr_name c) \<le> 100 \<and> utf8_length (cr_name c) \<le> 200 \<and>
     1 \<le> length (cr_public_key c) \<and> length (cr_public_key c) \<le> 8192 \<and>
     set (cr_transports c) \<subseteq> set webauthn_transports"

record new_credential =
  nc_credential_id :: string
  nc_public_key :: string
  nc_counter :: int
  nc_multi_device :: bool
  nc_backed_up :: bool
  nc_transports :: "string list"
  nc_aaguid :: "uuid option"
  nc_name :: code_points

record new_admin_session =
  ns_token_hash :: string
  ns_idle_expires_at :: js_time
  ns_absolute_expires_at :: js_time

record active_session =
  av_id :: uuid
  av_user_id :: uuid
  av_credential_id :: uuid
  av_role :: role
  av_authenticated_at :: pg_time
  av_expires_at :: pg_time

definition credential_row_of :: "uuid \<Rightarrow> uuid \<Rightarrow> new_credential \<Rightarrow> pg_time \<Rightarrow> credential_row" where
  "credential_row_of i u c clk =
     \<lparr> cr_id = i, cr_user_id = u, cr_credential_id = nc_credential_id c, cr_public_key = nc_public_key c,
       cr_counter = nc_counter c, cr_multi_device = nc_multi_device c, cr_backed_up = nc_backed_up c,
       cr_transports = nc_transports c, cr_aaguid = nc_aaguid c, cr_name = nc_name c, cr_created_at = clk,
       cr_last_used_at = None, cr_revoked_at = None \<rparr>"

definition insert_credential :: "uuid \<Rightarrow> uuid \<Rightarrow> new_credential \<Rightarrow> pg_time \<Rightarrow> admin_state \<Rightarrow> sql_error + admin_state" where
  "insert_credential i u c clk s =
     (let r = credential_row_of i u c clk in
      if \<not> credential_row_ok r then Inl Check_violation
      else if sql_exists (\<lambda>x. cr_id x = i \<or> cr_credential_id x = nc_credential_id c) (am_credentials s)
      then Inl Unique_violation
      else Inr (s\<lparr>am_credentials := am_credentials s @ [r]\<rparr>))"

definition admin_session_ok :: "admin_session_row \<Rightarrow> bool" where
  "admin_session_ok x \<longleftrightarrow> as_created_at x < as_idle_expires_at x \<and> as_idle_expires_at x \<le> as_absolute_expires_at x"

definition insert_session ::
  "uuid \<Rightarrow> uuid \<Rightarrow> role \<Rightarrow> uuid \<Rightarrow> new_admin_session \<Rightarrow> pg_time \<Rightarrow> admin_state \<Rightarrow> sql_error + active_session \<times> admin_state" where
  "insert_session i u r credential n clk s =
     (let x = \<lparr> as_id = i, as_user_id = u, as_credential_id = credential, as_token_hash = ns_token_hash n,
          as_authenticated_at = clk, as_last_seen_at = clk, as_idle_expires_at = pg_of_js (ns_idle_expires_at n),
          as_absolute_expires_at = pg_of_js (ns_absolute_expires_at n), as_revoked_at = None, as_created_at = clk \<rparr> in
      if \<not> admin_session_ok x then Inl Check_violation
      else if sql_exists (\<lambda>y. as_id y = i \<or> as_token_hash y = ns_token_hash n) (am_sessions s) then Inl Unique_violation
      else Inr (\<lparr> av_id = i, av_user_id = u, av_credential_id = credential, av_role = r, av_authenticated_at = clk,
             av_expires_at = min (as_idle_expires_at x) (as_absolute_expires_at x) \<rparr>,
           s\<lparr>am_sessions := am_sessions s @ [x]\<rparr>))"

text \<open>An event refers to a session that exists.\<close>

definition insert_event ::
  "uuid \<Rightarrow> uuid \<Rightarrow> uuid option \<Rightarrow> uuid option \<Rightarrow> admin_event_type \<Rightarrow> pg_time \<Rightarrow> admin_state \<Rightarrow> sql_error + admin_state" where
  "insert_event i u credential session ty clk s =
     (if (case session of None \<Rightarrow> False | Some x \<Rightarrow> \<not> sql_exists (\<lambda>y. as_id y = x) (am_sessions s))
      then Inl Foreign_key_violation
      else Inr (s\<lparr>am_events := am_events s @
        [\<lparr> ae_id = i, ae_user_id = u, ae_credential_id = credential, ae_session_id = session, ae_type = ty,
           ae_created_at = clk \<rparr>]\<rparr>))"

section \<open>Enrollment tokens and challenges\<close>

definition usable_bootstrap :: "uuid \<Rightarrow> string \<Rightarrow> pg_time \<Rightarrow> bootstrap_row \<Rightarrow> bool" where
  "usable_bootstrap i h clk b \<longleftrightarrow> ab_id b = i \<and> ab_secret_hash b = h \<and> ab_consumed_at b = None \<and> clk < ab_expires_at b"

definition find_bootstrap :: "uuid \<Rightarrow> string \<Rightarrow> pg_time \<Rightarrow> admin_state \<Rightarrow> (bootstrap_row \<times> role) option" where
  "find_bootstrap i h clk s =
     (case sql_first (\<lambda>b. usable_bootstrap i h clk b \<and> admin_account (ab_user_id b) s \<noteq> None) (am_bootstraps s) of
        None \<Rightarrow> None
      | Some b \<Rightarrow> map_option (\<lambda>a. (b, ua_role a)) (admin_account (ab_user_id b) s))"

definition challenge_owner_ok :: "challenge_row \<Rightarrow> bool" where
  "challenge_owner_ok c \<longleftrightarrow>
     (case ac_purpose c of
        Authentication \<Rightarrow> ac_user_id c = None \<and> ac_bootstrap_id c = None
      | Additional_registration \<Rightarrow> ac_user_id c \<noteq> None \<and> ac_bootstrap_id c = None
      | Bootstrap_registration \<Rightarrow> ac_user_id c \<noteq> None \<and> ac_bootstrap_id c \<noteq> None)"

definition create_challenge ::
  "uuid \<Rightarrow> challenge_purpose \<Rightarrow> string \<Rightarrow> uuid option \<Rightarrow> uuid option \<Rightarrow> js_time \<Rightarrow> pg_time \<Rightarrow> admin_state
    \<Rightarrow> sql_error + admin_state" where
  "create_challenge i purpose h u b expires clk s =
     (let c = \<lparr> ac_id = i, ac_purpose = purpose, ac_hash = h, ac_user_id = u, ac_bootstrap_id = b,
          ac_expires_at = pg_of_js expires, ac_consumed_at = None, ac_created_at = clk \<rparr> in
      if \<not> (challenge_owner_ok c \<and> clk < ac_expires_at c) then Inl Check_violation
      else if sql_exists (\<lambda>x. ac_id x = i) (am_challenges s) then Inl Unique_violation
      else Inr (s\<lparr>am_challenges := am_challenges s @ [c]\<rparr>))"

definition pending_challenge ::
  "uuid \<Rightarrow> challenge_purpose \<Rightarrow> uuid option \<Rightarrow> uuid option \<Rightarrow> pg_time \<Rightarrow> challenge_row \<Rightarrow> bool" where
  "pending_challenge i purpose u b clk c \<longleftrightarrow> ac_id c = i \<and> ac_purpose c = purpose \<and> ac_consumed_at c = None \<and>
     clk < ac_expires_at c \<and> ac_user_id c = u \<and> ac_bootstrap_id c = b"

definition consume_challenge ::
  "uuid \<Rightarrow> challenge_purpose \<Rightarrow> uuid option \<Rightarrow> uuid option \<Rightarrow> pg_time \<Rightarrow> admin_state \<Rightarrow> string option \<times> admin_state" where
  "consume_challenge i purpose u b clk s =
     (map_option ac_hash (sql_first (pending_challenge i purpose u b clk) (am_challenges s)),
      s\<lparr>am_challenges := sql_update (pending_challenge i purpose u b clk) (\<lambda>c. c\<lparr>ac_consumed_at := Some clk\<rparr>)
        (am_challenges s)\<rparr>)"

section \<open>Credentials\<close>

definition active_credential :: "admin_state \<Rightarrow> credential_row \<Rightarrow> bool" where
  "active_credential s c \<longleftrightarrow> cr_revoked_at c = None \<and> admin_account (cr_user_id c) s \<noteq> None"

definition active_credentials :: "uuid \<Rightarrow> admin_state \<Rightarrow> credential_row list" where
  "active_credentials u s =
     sort_key (\<lambda>c. (cr_created_at c, cr_id c)) (filter (\<lambda>c. cr_user_id c = u \<and> active_credential s c) (am_credentials s))"

definition active_credential_by_external_id :: "string \<Rightarrow> admin_state \<Rightarrow> credential_row option" where
  "active_credential_by_external_id x s = sql_first (\<lambda>c. cr_credential_id c = x \<and> active_credential s c) (am_credentials s)"

text \<open>Ids drawn by the statements of one transaction.\<close>

record admin_ids =
  di_credential :: uuid
  di_session :: uuid
  di_event :: uuid

definition complete_bootstrap ::
  "uuid \<Rightarrow> string \<Rightarrow> new_credential \<Rightarrow> new_admin_session \<Rightarrow> admin_ids \<Rightarrow> pg_time \<Rightarrow> admin_state
    \<Rightarrow> sql_error + active_session option \<times> admin_state" where
  "complete_bootstrap i h c n ids clk s =
     (case find_bootstrap i h clk s of
        None \<Rightarrow> Inr (None, s)
      | Some (b, r) \<Rightarrow>
          let s1 = s\<lparr>am_bootstraps := sql_update (usable_bootstrap i h clk) (\<lambda>b. b\<lparr>ab_consumed_at := Some clk\<rparr>)
            (am_bootstraps s)\<rparr> in
          and_then (insert_credential (di_credential ids) (ab_user_id b) c clk s1) (\<lambda>s2.
          and_then (insert_session (di_session ids) (ab_user_id b) r (di_credential ids) n clk s2) (\<lambda>(v, s3).
          and_then (insert_event (di_event ids) (ab_user_id b) (Some (di_credential ids)) (Some (av_id v))
              Bootstrap_registered clk s3) (\<lambda>s4. Inr (Some v, s4)))))"

definition add_credential ::
  "uuid \<Rightarrow> new_credential \<Rightarrow> admin_ids \<Rightarrow> pg_time \<Rightarrow> admin_state \<Rightarrow> sql_error + bool \<times> admin_state" where
  "add_credential u c ids clk s =
     (if admin_account u s = None then Inr (False, s)
      else and_then (insert_credential (di_credential ids) u c clk s) (\<lambda>s1.
        and_then (insert_event (di_event ids) u (Some (di_credential ids)) None Credential_added clk s1) (\<lambda>s2.
          Inr (True, s2))))"

definition complete_authentication ::
  "uuid \<Rightarrow> int \<Rightarrow> int \<Rightarrow> bool \<Rightarrow> bool \<Rightarrow> new_admin_session \<Rightarrow> admin_ids \<Rightarrow> pg_time \<Rightarrow> admin_state
    \<Rightarrow> sql_error + active_session option \<times> admin_state" where
  "complete_authentication i expected counter multi backed n ids clk s =
     (case sql_first (\<lambda>c. cr_id c = i \<and> active_credential s c) (am_credentials s) of
        None \<Rightarrow> Inr (None, s)
      | Some c \<Rightarrow>
          if cr_counter c \<noteq> expected then Inr (None, s)
          else if counter < 0 \<or> 4294967295 < counter then Inl Check_violation
          else
            let s1 = s\<lparr>am_credentials := sql_update (\<lambda>c. cr_id c = i) (\<lambda>c. c\<lparr>cr_counter := counter,
                  cr_multi_device := multi, cr_backed_up := backed, cr_last_used_at := Some clk\<rparr>) (am_credentials s)\<rparr>;
                r = (case admin_account (cr_user_id c) s of None \<Rightarrow> Admin | Some a \<Rightarrow> ua_role a) in
            and_then (insert_session (di_session ids) (cr_user_id c) r i n clk s1) (\<lambda>(v, s2).
            and_then (insert_event (di_event ids) (cr_user_id c) (Some i) (Some (av_id v)) Login_succeeded clk s2) (\<lambda>s3.
              Inr (Some v, s3))))"

definition rename_credential ::
  "uuid \<Rightarrow> uuid \<Rightarrow> uuid \<Rightarrow> code_points \<Rightarrow> uuid \<Rightarrow> pg_time \<Rightarrow> admin_state \<Rightarrow> sql_error + bool \<times> admin_state" where
  "rename_credential u i current name event clk s =
     (let p = (\<lambda>c. cr_id c = i \<and> cr_user_id c = u \<and> cr_revoked_at c = None) in
      if sql_exists (\<lambda>c. p c \<and> \<not> credential_row_ok (c\<lparr>cr_name := name\<rparr>)) (am_credentials s) then Inl Check_violation
      else if sql_count p (am_credentials s) \<noteq> 1 then Inr (False, s)
      else and_then (insert_event event u (Some i) (Some current) Credential_renamed clk
          (s\<lparr>am_credentials := sql_update p (\<lambda>c. c\<lparr>cr_name := name\<rparr>) (am_credentials s)\<rparr>)) (\<lambda>s1. Inr (True, s1)))"

datatype credential_revocation = Revoked | Credential_not_found | Last_credential

definition revoke_credential ::
  "uuid \<Rightarrow> uuid \<Rightarrow> uuid \<Rightarrow> uuid \<Rightarrow> pg_time \<Rightarrow> admin_state \<Rightarrow> sql_error + credential_revocation \<times> admin_state" where
  "revoke_credential u i current event clk s =
     (let own = filter (\<lambda>c. cr_user_id c = u \<and> cr_revoked_at c = None) (am_credentials s) in
      if \<not> sql_exists (\<lambda>c. cr_id c = i) own then Inr (Credential_not_found, s)
      else if length own \<le> 1 then Inr (Last_credential, s)
      else and_then (insert_event event u (Some i) (Some current) Credential_revoked clk
          (s\<lparr>am_credentials := sql_update (\<lambda>c. cr_id c = i) (\<lambda>c. c\<lparr>cr_revoked_at := Some clk\<rparr>) (am_credentials s),
             am_sessions := sql_update (\<lambda>x. as_user_id x = u \<and> as_id x \<noteq> current \<and> as_revoked_at x = None)
               (\<lambda>x. x\<lparr>as_revoked_at := Some clk\<rparr>) (am_sessions s)\<rparr>)) (\<lambda>s1. Inr (Revoked, s1)))"

section \<open>Sessions\<close>

definition session_credential :: "admin_state \<Rightarrow> admin_session_row \<Rightarrow> bool" where
  "session_credential s x \<longleftrightarrow>
     sql_exists (\<lambda>c. cr_id c = as_credential_id x \<and> cr_user_id c = as_user_id x \<and> cr_revoked_at c = None) (am_credentials s)"

definition unexpired :: "pg_time \<Rightarrow> admin_session_row \<Rightarrow> bool" where
  "unexpired clk x \<longleftrightarrow> as_revoked_at x = None \<and> clk < as_idle_expires_at x \<and> clk < as_absolute_expires_at x"

definition usable_session :: "string \<Rightarrow> pg_time \<Rightarrow> admin_state \<Rightarrow> admin_session_row \<Rightarrow> bool" where
  "usable_session h clk s x \<longleftrightarrow> as_token_hash x = h \<and> unexpired clk x \<and> session_credential s x \<and>
     admin_account (as_user_id x) s \<noteq> None"

text \<open>Using a session prolongs its idle time, never beyond its absolute end.\<close>

definition touch_session :: "int \<Rightarrow> pg_time \<Rightarrow> admin_session_row \<Rightarrow> admin_session_row" where
  "touch_session idle_ttl clk x =
     x\<lparr>as_last_seen_at := clk, as_idle_expires_at := min (as_absolute_expires_at x) (clk + pg_of_js idle_ttl)\<rparr>"

definition use_session :: "string \<Rightarrow> int \<Rightarrow> pg_time \<Rightarrow> admin_state \<Rightarrow> active_session option \<times> admin_state" where
  "use_session h idle_ttl clk s =
     (case sql_first (usable_session h clk s) (am_sessions s) of
        None \<Rightarrow> (None, s)
      | Some x \<Rightarrow>
          let y = touch_session idle_ttl clk x in
          (map_option (\<lambda>a. \<lparr> av_id = as_id y, av_user_id = as_user_id y, av_credential_id = as_credential_id y,
              av_role = ua_role a, av_authenticated_at = as_authenticated_at y,
              av_expires_at = min (as_idle_expires_at y) (as_absolute_expires_at y) \<rparr>) (admin_account (as_user_id y) s),
           s\<lparr>am_sessions := sql_update (usable_session h clk s) (touch_session idle_ttl clk) (am_sessions s)\<rparr>))"

definition end_session :: "uuid \<Rightarrow> uuid \<Rightarrow> uuid \<Rightarrow> pg_time \<Rightarrow> admin_state \<Rightarrow> sql_error + admin_state" where
  "end_session u i event clk s =
     (let p = (\<lambda>x. as_id x = i \<and> as_user_id x = u);
          s1 = s\<lparr>am_sessions := sql_update p
            (\<lambda>x. x\<lparr>as_revoked_at := Some (case as_revoked_at x of None \<Rightarrow> clk | Some t \<Rightarrow> t)\<rparr>) (am_sessions s)\<rparr> in
      if sql_exists p (am_sessions s) then insert_event event u None (Some i) Admin_logout clk s1 else Inr s1)"

definition revoke_other_sessions :: "uuid \<Rightarrow> uuid \<Rightarrow> uuid \<Rightarrow> pg_time \<Rightarrow> admin_state \<Rightarrow> sql_error + nat \<times> admin_state" where
  "revoke_other_sessions u current event clk s =
     (let p = (\<lambda>x. as_user_id x = u \<and> as_id x \<noteq> current \<and> as_revoked_at x = None) in
      and_then (insert_event event u None (Some current) Other_sessions_revoked clk
          (s\<lparr>am_sessions := sql_update p (\<lambda>x. x\<lparr>as_revoked_at := Some clk\<rparr>) (am_sessions s)\<rparr>))
        (\<lambda>s1. Inr (sql_count p (am_sessions s), s1)))"

definition revoke_selected_session ::
  "uuid \<Rightarrow> uuid \<Rightarrow> uuid \<Rightarrow> uuid \<Rightarrow> pg_time \<Rightarrow> admin_state \<Rightarrow> sql_error + bool \<times> admin_state" where
  "revoke_selected_session u target current event clk s =
     (let p = (\<lambda>x. as_id x = target \<and> as_user_id x = u \<and> as_id x \<noteq> current \<and> unexpired clk x) in
      if sql_count p (am_sessions s) \<noteq> 1 then Inr (False, s)
      else and_then (insert_event event u None (Some target) Session_revoked clk
          (s\<lparr>am_sessions := sql_update p (\<lambda>x. x\<lparr>as_revoked_at := Some clk\<rparr>) (am_sessions s)\<rparr>)) (\<lambda>s1. Inr (True, s1)))"

definition active_sessions :: "uuid \<Rightarrow> pg_time \<Rightarrow> admin_state \<Rightarrow> (admin_session_row \<times> code_points) list" where
  "active_sessions u clk s =
     rev (sort_key (\<lambda>(x, _). (as_last_seen_at x, as_id x))
       (concat (map (\<lambda>x. map (\<lambda>c. (x, cr_name c))
          (filter (\<lambda>c. cr_id c = as_credential_id x \<and> cr_revoked_at c = None) (am_credentials s)))
        (filter (\<lambda>x. as_user_id x = u \<and> unexpired clk x) (am_sessions s)))))"

section \<open>The history\<close>

text \<open>The cursor is a JavaScript date: milliseconds.\<close>

definition auth_events :: "uuid \<Rightarrow> nat \<Rightarrow> (js_time \<times> uuid) option \<Rightarrow> admin_state \<Rightarrow> auth_event_row list" where
  "auth_events u limit cursor s =
     keyset_page (\<lambda>e. (ae_created_at e, ae_id e)) limit (map_option (\<lambda>(t, i). (pg_of_js t, i)) cursor)
       (filter (\<lambda>e. ae_user_id e = u) (am_events s))"

end
