(* ===== verification/Admin_Service.thy ===== *)
theory Admin_Service
  imports Admin_Auth Encoding
begin

text \<open>
  \<open>src/admin-auth/admin-auth.service.ts\<close> with the reading of WebAuthn responses (\<open>webauthn-payload.ts\<close>), the session
  cookie (\<open>admin-session-cookie.ts\<close>) and the guards (\<open>admin-auth.guard.ts\<close>). The WebAuthn library, SHA-256, the
  random bytes and \<open>JSON.stringify\<close> are parameters. The challenge comparison is the function that the service hands
  to the library.
\<close>

section \<open>WebAuthn responses\<close>

definition invalid_payload :: api_error where
  "invalid_payload = api_error 400 ''invalid_webauthn_payload''"

fun json_record :: "json option \<Rightarrow> api_error + (string \<times> json) list" where
  "json_record (Some (Json_object fs)) = Inr fs"
| "json_record _ = Inl invalid_payload"

definition exact_keys :: "string list \<Rightarrow> (string \<times> json) list \<Rightarrow> api_error + unit" where
  "exact_keys allowed fs = (if set (map fst fs) \<subseteq> set allowed then Inr () else Inl invalid_payload)"

fun encoded :: "nat \<Rightarrow> json option \<Rightarrow> api_error + string" where
  "encoded max_length (Some (Json_string s)) =
     (if 1 \<le> length s \<and> length s \<le> max_length \<and> list_all (\<lambda>c. c \<in> set b64url_chars) s then Inr s else Inl invalid_payload)"
| "encoded max_length _ = Inl invalid_payload"

definition optional :: "(json option \<Rightarrow> api_error + 'a) \<Rightarrow> json option \<Rightarrow> api_error + 'a option" where
  "optional f v = (case v of None \<Rightarrow> Inr None | Some _ \<Rightarrow> and_then (f v) (\<lambda>x. Inr (Some x)))"

definition public_key_type :: "json option \<Rightarrow> api_error + unit" where
  "public_key_type v = (if v = Some (Json_string ''public-key'') then Inr () else Inl invalid_payload)"

fun attachment :: "json option \<Rightarrow> api_error + string" where
  "attachment (Some (Json_string s)) = (if s \<in> {''cross-platform'', ''platform''} then Inr s else Inl invalid_payload)"
| "attachment _ = Inl invalid_payload"

fun json_integer :: "json option \<Rightarrow> api_error + int" where
  "json_integer (Some (Json_number (Some x))) = (if x = of_int \<lfloor>x\<rfloor> then Inr \<lfloor>x\<rfloor> else Inl invalid_payload)"
| "json_integer _ = Inl invalid_payload"

text \<open>The first occurrences, as a \<open>Set\<close> keeps them.\<close>

definition js_unique :: "'a list \<Rightarrow> 'a list" where
  "js_unique xs = rev (remdups (rev xs))"

fun json_text :: "json \<Rightarrow> string option" where
  "json_text (Json_string s) = Some s"
| "json_text _ = None"

fun payload_transports :: "json option \<Rightarrow> api_error + string list" where
  "payload_transports (Some (Json_array vs)) =
     (if length vs \<le> length webauthn_transports \<and>
         list_all (\<lambda>v. case json_text v of None \<Rightarrow> False | Some s \<Rightarrow> s \<in> set webauthn_transports) vs
      then Inr (js_unique (List.map_filter json_text vs)) else Inl invalid_payload)"
| "payload_transports _ = Inl invalid_payload"

definition extension_results :: "(json \<Rightarrow> string) \<Rightarrow> json option \<Rightarrow> api_error + (string \<times> json) list" where
  "extension_results stringify v =
     and_then (json_record v) (\<lambda>fs. if 8192 < length (stringify (Json_object fs)) then Inl invalid_payload else Inr fs)"

definition credential_keys :: "string list" where
  "credential_keys = [''id'', ''rawId'', ''type'', ''response'', ''authenticatorAttachment'', ''clientExtensionResults'']"

record registration_response =
  rr_id :: string
  rr_client_data :: string
  rr_attestation :: string
  rr_authenticator_data :: "string option"
  rr_public_key :: "string option"
  rr_algorithm :: "int option"
  rr_transports :: "string list option"
  rr_extensions :: "(string \<times> json) list"
  rr_attachment :: "string option"

definition registration_credential ::
  "(json \<Rightarrow> string) \<Rightarrow> (string \<times> json) list \<Rightarrow> api_error + registration_response" where
  "registration_credential stringify v =
     and_then (exact_keys credential_keys v) (\<lambda>_.
     and_then (json_record (map_of v ''response'')) (\<lambda>r.
     and_then (exact_keys [''clientDataJSON'', ''attestationObject'', ''authenticatorData'', ''transports'',
       ''publicKeyAlgorithm'', ''publicKey''] r) (\<lambda>_.
     and_then (encoded 2048 (map_of v ''id'')) (\<lambda>i.
     and_then (encoded 2048 (map_of v ''rawId'')) (\<lambda>raw.
     and_then (public_key_type (map_of v ''type'')) (\<lambda>_.
     and_then (encoded 16384 (map_of r ''clientDataJSON'')) (\<lambda>client.
     and_then (encoded 131072 (map_of r ''attestationObject'')) (\<lambda>attestation.
     and_then (optional (encoded 16384) (map_of r ''authenticatorData'')) (\<lambda>authenticator.
     and_then (optional (encoded 16384) (map_of r ''publicKey'')) (\<lambda>key.
     and_then (optional json_integer (map_of r ''publicKeyAlgorithm'')) (\<lambda>algorithm.
     and_then (optional payload_transports (map_of r ''transports'')) (\<lambda>ts.
     and_then (extension_results stringify (map_of v ''clientExtensionResults'')) (\<lambda>ext.
     and_then (optional attachment (map_of v ''authenticatorAttachment'')) (\<lambda>att.
       if i \<noteq> raw then Inl invalid_payload
       else Inr \<lparr> rr_id = i, rr_client_data = client, rr_attestation = attestation, rr_authenticator_data = authenticator,
         rr_public_key = key, rr_algorithm = algorithm, rr_transports = ts, rr_extensions = ext,
         rr_attachment = att \<rparr>))))))))))))))"

record authentication_response =
  ar_id :: string
  ar_client_data :: string
  ar_authenticator_data :: string
  ar_signature :: string
  ar_user_handle :: "string option"
  ar_extensions :: "(string \<times> json) list"
  ar_attachment :: "string option"

definition authentication_credential ::
  "(json \<Rightarrow> string) \<Rightarrow> (string \<times> json) list \<Rightarrow> api_error + authentication_response" where
  "authentication_credential stringify v =
     and_then (exact_keys credential_keys v) (\<lambda>_.
     and_then (json_record (map_of v ''response'')) (\<lambda>r.
     and_then (exact_keys [''clientDataJSON'', ''authenticatorData'', ''signature'', ''userHandle''] r) (\<lambda>_.
     and_then (encoded 2048 (map_of v ''id'')) (\<lambda>i.
     and_then (encoded 2048 (map_of v ''rawId'')) (\<lambda>raw.
     and_then (public_key_type (map_of v ''type'')) (\<lambda>_.
     and_then (encoded 16384 (map_of r ''clientDataJSON'')) (\<lambda>client.
     and_then (encoded 16384 (map_of r ''authenticatorData'')) (\<lambda>authenticator.
     and_then (encoded 16384 (map_of r ''signature'')) (\<lambda>sig.
     and_then (if map_of r ''userHandle'' = Some Json_null then Inr None
       else optional (encoded 2048) (map_of r ''userHandle'')) (\<lambda>handle.
     and_then (extension_results stringify (map_of v ''clientExtensionResults'')) (\<lambda>ext.
     and_then (optional attachment (map_of v ''authenticatorAttachment'')) (\<lambda>att.
       if i \<noteq> raw then Inl invalid_payload
       else Inr \<lparr> ar_id = i, ar_client_data = client, ar_authenticator_data = authenticator, ar_signature = sig,
         ar_user_handle = handle, ar_extensions = ext, ar_attachment = att \<rparr>))))))))))))"

section \<open>The cookie\<close>

definition admin_token_ok :: "string \<Rightarrow> bool" where
  "admin_token_ok s \<longleftrightarrow> length s = 43 \<and> list_all (\<lambda>c. c \<in> set b64url_chars) s"

fun split_semicolon :: "string \<Rightarrow> string list" where
  "split_semicolon [] = [[]]"
| "split_semicolon (c # cs) =
     (if c = CHR '';'' then [] # split_semicolon cs
      else case split_semicolon cs of [] \<Rightarrow> [[c]] | w # ws \<Rightarrow> (c # w) # ws)"

definition starts_with :: "string \<Rightarrow> string \<Rightarrow> bool" where
  "starts_with p s \<longleftrightarrow> take (length p) s = p"

definition read_admin_session_cookie :: "string option \<Rightarrow> string \<Rightarrow> string option" where
  "read_admin_session_cookie header name =
     (case header of
        None \<Rightarrow> None
      | Some h \<Rightarrow>
          (case filter (starts_with (name @ ''='')) (map js_trim (split_semicolon h)) of
             [m] \<Rightarrow> let v = drop (length name + 1) m in if admin_token_ok v then Some v else None
           | _ \<Rightarrow> None))"

section \<open>Libraries, configuration and errors\<close>

record registration_info =
  ri_verified :: bool
  ri_user_verified :: bool
  ri_credential_id :: string
  ri_public_key :: string
  ri_counter :: int
  ri_multi_device :: bool
  ri_backed_up :: bool
  ri_transports :: "string list"
  ri_aaguid :: "uuid option"

record authentication_info =
  ai_verified :: bool
  ai_user_verified :: bool
  ai_new_counter :: int
  ai_multi_device :: bool
  ai_backed_up :: bool

record admin_library =
  al_verify_registration :: "registration_response \<Rightarrow> (string \<Rightarrow> bool) \<Rightarrow> registration_info option"
  al_verify_authentication ::
    "authentication_response \<Rightarrow> (string \<Rightarrow> bool) \<Rightarrow> credential_row \<Rightarrow> authentication_info option"
  al_challenge :: string
  al_digest :: "string \<Rightarrow> string"
  al_stringify :: "json \<Rightarrow> string"
  al_normalize :: "code_points \<Rightarrow> code_points"
  al_token_bytes :: string
  al_ids :: admin_ids
  al_now :: js_time
  al_clock :: "nat \<Rightarrow> pg_time"

record admin_auth_config =
  aa_challenge_ttl :: int
  aa_idle_ttl :: int
  aa_absolute_ttl :: int
  aa_recent :: int
  aa_origin :: string
  aa_cookie_name :: string
  aa_secure :: bool

definition session_cookie_base :: "admin_auth_config \<Rightarrow> string \<Rightarrow> string \<Rightarrow> string" where
  "session_cookie_base cfg token max_age = aa_cookie_name cfg @ ''='' @ token @ ''; Path=/; Max-Age='' @ max_age @
     ''; HttpOnly; SameSite=Strict'' @ (if aa_secure cfg then ''; Secure'' else [])"

definition expired_admin_session_cookie :: "admin_auth_config \<Rightarrow> string" where
  "expired_admin_session_cookie cfg = session_cookie_base cfg [] ''0''"

definition admin_session_cookie :: "(int \<Rightarrow> string) \<Rightarrow> admin_auth_config \<Rightarrow> string \<Rightarrow> string" where
  "admin_session_cookie show_int cfg token = session_cookie_base cfg token (show_int (aa_absolute_ttl cfg div 1000))"

abbreviation invalid_bootstrap :: failure where
  "invalid_bootstrap \<equiv> Api (api_error 401 ''invalid_or_expired_admin_bootstrap'')"
abbreviation invalid_challenge :: failure where
  "invalid_challenge \<equiv> Api (api_error 401 ''invalid_or_expired_webauthn_challenge'')"
abbreviation invalid_registration :: failure where
  "invalid_registration \<equiv> Api (api_error 401 ''webauthn_registration_failed'')"
abbreviation invalid_authentication :: failure where
  "invalid_authentication \<equiv> Api (api_error 401 ''webauthn_authentication_failed'')"
abbreviation session_invalid :: failure where
  "session_invalid \<equiv> Api (api_error 401 ''admin_session_invalid'')"

definition parse_bootstrap_token :: "string \<Rightarrow> failure + string \<times> string" where
  "parse_bootstrap_token t =
     (case split_colon t of
        [i, secret] \<Rightarrow> if i = [] \<or> secret = [] then Inl invalid_bootstrap else Inr (i, secret)
      | _ \<Rightarrow> Inl invalid_bootstrap)"

definition normalized_name :: "admin_library \<Rightarrow> code_points \<Rightarrow> failure + code_points" where
  "normalized_name lib v =
     (case normalize_printable_text (al_normalize lib) 1 100 (Some 200) v of
        None \<Rightarrow> Inl (Api (api_error 400 ''invalid_admin_credential_name''))
      | Some n \<Rightarrow> Inr n)"

definition normalized_transports :: "string list \<Rightarrow> string list" where
  "normalized_transports ts = js_unique (filter (\<lambda>t. t \<in> set webauthn_transports) ts)"

definition equal_digest :: "admin_library \<Rightarrow> string \<Rightarrow> string \<Rightarrow> bool" where
  "equal_digest lib expected candidate \<longleftrightarrow> al_digest lib candidate = expected"

definition translate_credential_conflict :: "sql_error \<Rightarrow> failure" where
  "translate_credential_conflict e =
     (if e = Unique_violation then Api (api_error 409 ''webauthn_credential_already_registered'') else Unhandled e)"

section \<open>Verifying\<close>

definition verify_registration ::
  "admin_library \<Rightarrow> registration_response \<Rightarrow> string \<Rightarrow> failure + registration_info" where
  "verify_registration lib r h =
     (case al_verify_registration lib r (equal_digest lib h) of
        None \<Rightarrow> Inl invalid_registration
      | Some i \<Rightarrow> if ri_verified i \<and> ri_user_verified i then Inr i else Inl invalid_registration)"

definition verify_authentication ::
  "admin_library \<Rightarrow> authentication_response \<Rightarrow> credential_row \<Rightarrow> string \<Rightarrow> failure + authentication_info" where
  "verify_authentication lib r stored h =
     (case al_verify_authentication lib r (equal_digest lib h) stored of
        None \<Rightarrow> Inl invalid_authentication
      | Some i \<Rightarrow> if ai_verified i \<and> ai_user_verified i then Inr i else Inl invalid_authentication)"

definition new_credential_of :: "admin_library \<Rightarrow> registration_info \<Rightarrow> code_points \<Rightarrow> failure + new_credential" where
  "new_credential_of lib r name_input =
     and_then (normalized_name lib name_input) (\<lambda>name.
       Inr \<lparr> nc_credential_id = ri_credential_id r, nc_public_key = ri_public_key r, nc_counter = ri_counter r,
         nc_multi_device = ri_multi_device r, nc_backed_up = ri_backed_up r,
         nc_transports = normalized_transports (ri_transports r),
         nc_aaguid = (if ri_aaguid r = Some [] then None else ri_aaguid r), nc_name = name \<rparr>)"

definition new_session_of :: "admin_library \<Rightarrow> admin_auth_config \<Rightarrow> string \<times> new_admin_session" where
  "new_session_of lib cfg =
     (let token = base64url_encode (al_token_bytes lib) in
      (token, \<lparr> ns_token_hash = al_digest lib token, ns_idle_expires_at = al_now lib + aa_idle_ttl cfg,
         ns_absolute_expires_at = al_now lib + aa_absolute_ttl cfg \<rparr>))"

section \<open>Enrollment\<close>

definition registration_options ::
  "admin_library \<Rightarrow> admin_auth_config \<Rightarrow> uuid \<Rightarrow> uuid \<Rightarrow> uuid option \<Rightarrow> admin_state
    \<Rightarrow> (failure + string list) \<times> admin_state" where
  "registration_options lib cfg i u bootstrap s =
     (case create_challenge i (if bootstrap = None then Additional_registration else Bootstrap_registration)
        (al_digest lib (al_challenge lib)) (Some u) bootstrap (al_now lib + aa_challenge_ttl cfg) (al_clock lib 0) s of
        Inl e \<Rightarrow> (Inl (Unhandled e), s)
      | Inr s' \<Rightarrow> (Inr (map cr_credential_id (active_credentials u s)), s'))"

definition bootstrap_registration_options ::
  "admin_library \<Rightarrow> admin_auth_config \<Rightarrow> uuid \<Rightarrow> string \<Rightarrow> admin_state \<Rightarrow> (failure + string list) \<times> admin_state" where
  "bootstrap_registration_options lib cfg i token s =
     (case parse_bootstrap_token token of
        Inl e \<Rightarrow> (Inl e, s)
      | Inr (b, secret) \<Rightarrow>
          (case find_bootstrap (pg_uuid b) (al_digest lib secret) (al_clock lib 1) s of
             None \<Rightarrow> (Inl invalid_bootstrap, s)
           | Some (row, _) \<Rightarrow> registration_options lib cfg i (ab_user_id row) (Some (ab_id row)) s))"

definition complete_bootstrap_registration ::
  "admin_library \<Rightarrow> admin_auth_config \<Rightarrow> string \<Rightarrow> uuid \<Rightarrow> (string \<times> json) list \<Rightarrow> code_points \<Rightarrow> admin_state
    \<Rightarrow> (failure + string \<times> active_session) \<times> admin_state" where
  "complete_bootstrap_registration lib cfg token challenge payload name s =
     (case parse_bootstrap_token token of
        Inl e \<Rightarrow> (Inl e, s)
      | Inr (b, secret) \<Rightarrow>
          (case find_bootstrap (pg_uuid b) (al_digest lib secret) (al_clock lib 0) s of
             None \<Rightarrow> (Inl invalid_bootstrap, s)
           | Some (row, _) \<Rightarrow>
               (case consume_challenge challenge Bootstrap_registration (Some (ab_user_id row)) (Some (ab_id row))
                    (al_clock lib 1) s of
                  (None, s1) \<Rightarrow> (Inl invalid_challenge, s1)
                | (Some h, s1) \<Rightarrow>
                    (case and_then (case registration_credential (al_stringify lib) payload of Inl e \<Rightarrow> Inl (Api e) | Inr r \<Rightarrow> Inr r)
                         (\<lambda>r. and_then (verify_registration lib r h) (\<lambda>info. new_credential_of lib info name)) of
                       Inl e \<Rightarrow> (Inl e, s1)
                     | Inr c \<Rightarrow>
                         let (text, n) = new_session_of lib cfg in
                         (case complete_bootstrap (ab_id row) (al_digest lib secret) c n (al_ids lib) (al_clock lib 2) s1 of
                            Inl e \<Rightarrow> (Inl (translate_credential_conflict e), s1)
                          | Inr (None, s2) \<Rightarrow> (Inl invalid_bootstrap, s2)
                          | Inr (Some v, s2) \<Rightarrow> (Inr (text, v), s2))))))"

definition add_credential_for ::
  "admin_library \<Rightarrow> uuid \<Rightarrow> uuid \<Rightarrow> (string \<times> json) list \<Rightarrow> code_points \<Rightarrow> admin_state \<Rightarrow> (failure + unit) \<times> admin_state" where
  "add_credential_for lib u challenge payload name s =
     (case consume_challenge challenge Additional_registration (Some u) None (al_clock lib 0) s of
        (None, s1) \<Rightarrow> (Inl invalid_challenge, s1)
      | (Some h, s1) \<Rightarrow>
          (case and_then (case registration_credential (al_stringify lib) payload of Inl e \<Rightarrow> Inl (Api e) | Inr r \<Rightarrow> Inr r)
               (\<lambda>r. and_then (verify_registration lib r h) (\<lambda>info. new_credential_of lib info name)) of
             Inl e \<Rightarrow> (Inl e, s1)
           | Inr c \<Rightarrow>
               (case add_credential u c (al_ids lib) (al_clock lib 1) s1 of
                  Inl e \<Rightarrow> (Inl (translate_credential_conflict e), s1)
                | Inr (False, s2) \<Rightarrow> (Inl session_invalid, s2)
                | Inr (True, s2) \<Rightarrow> (Inr (), s2))))"

section \<open>Signing in\<close>

definition authentication_options ::
  "admin_library \<Rightarrow> admin_auth_config \<Rightarrow> uuid \<Rightarrow> admin_state \<Rightarrow> (failure + unit) \<times> admin_state" where
  "authentication_options lib cfg i s =
     (case create_challenge i Authentication (al_digest lib (al_challenge lib)) None None
        (al_now lib + aa_challenge_ttl cfg) (al_clock lib 0) s of
        Inl e \<Rightarrow> (Inl (Unhandled e), s)
      | Inr s' \<Rightarrow> (Inr (), s'))"

definition authenticate ::
  "admin_library \<Rightarrow> admin_auth_config \<Rightarrow> uuid \<Rightarrow> (string \<times> json) list \<Rightarrow> admin_state
    \<Rightarrow> (failure + string \<times> active_session) \<times> admin_state" where
  "authenticate lib cfg challenge payload s =
     (case authentication_credential (al_stringify lib) payload of
        Inl e \<Rightarrow> (Inl (Api e), s)
      | Inr r \<Rightarrow>
          (case consume_challenge challenge Authentication None None (al_clock lib 0) s of
             (None, s1) \<Rightarrow> (Inl invalid_authentication, s1)
           | (Some h, s1) \<Rightarrow>
               (case active_credential_by_external_id (ar_id r) s1 of
                  None \<Rightarrow> (Inl invalid_authentication, s1)
                | Some stored \<Rightarrow>
                    (case verify_authentication lib r stored h of
                       Inl e \<Rightarrow> (Inl e, s1)
                     | Inr i \<Rightarrow>
                         let (text, n) = new_session_of lib cfg in
                         (case complete_authentication (cr_id stored) (cr_counter stored) (ai_new_counter i)
                              (ai_multi_device i) (ai_backed_up i) n (al_ids lib) (al_clock lib 1) s1 of
                            Inl e \<Rightarrow> (Inl (Unhandled e), s1)
                          | Inr (None, s2) \<Rightarrow> (Inl invalid_authentication, s2)
                          | Inr (Some v, s2) \<Rightarrow> (Inr (text, v), s2))))))"

section \<open>Managing credentials and sessions\<close>

definition rename_credential_for ::
  "admin_library \<Rightarrow> uuid \<Rightarrow> uuid \<Rightarrow> uuid \<Rightarrow> code_points \<Rightarrow> admin_state \<Rightarrow> (failure + unit) \<times> admin_state" where
  "rename_credential_for lib u i current name s =
     (case normalized_name lib name of
        Inl e \<Rightarrow> (Inl e, s)
      | Inr n \<Rightarrow>
          (case rename_credential u (pg_uuid i) current n (di_event (al_ids lib)) (al_clock lib 0) s of
             Inl e \<Rightarrow> (Inl (Unhandled e), s)
           | Inr (False, s') \<Rightarrow> (Inl (Api (api_error 404 ''admin_credential_not_found'')), s')
           | Inr (True, s') \<Rightarrow> (Inr (), s')))"

text \<open>The ids are compared as texts.\<close>

definition revoke_credential_for ::
  "admin_library \<Rightarrow> uuid \<Rightarrow> uuid \<Rightarrow> uuid \<Rightarrow> uuid \<Rightarrow> admin_state \<Rightarrow> (failure + unit) \<times> admin_state" where
  "revoke_credential_for lib u i current current_credential s =
     (if i = current_credential then (Inl (Api (api_error 409 ''current_admin_credential'')), s)
      else case revoke_credential u i current (di_event (al_ids lib)) (al_clock lib 0) s of
        Inl e \<Rightarrow> (Inl (Unhandled e), s)
      | Inr (Revoked, s') \<Rightarrow> (Inr (), s')
      | Inr (Credential_not_found, s') \<Rightarrow> (Inl (Api (api_error 404 ''admin_credential_not_found'')), s')
      | Inr (Last_credential, s') \<Rightarrow> (Inl (Api (api_error 409 ''last_admin_credential'')), s'))"

definition revoke_selected_session_for ::
  "admin_library \<Rightarrow> uuid \<Rightarrow> uuid \<Rightarrow> uuid \<Rightarrow> admin_state \<Rightarrow> (failure + unit) \<times> admin_state" where
  "revoke_selected_session_for lib u target current s =
     (if target = current then (Inl (Api (api_error 409 ''current_admin_session'')), s)
      else case revoke_selected_session u (pg_uuid target) current (di_event (al_ids lib)) (al_clock lib 0) s of
        Inl e \<Rightarrow> (Inl (Unhandled e), s)
      | Inr (False, s') \<Rightarrow> (Inl (Api (api_error 404 ''admin_session_not_found'')), s')
      | Inr (True, s') \<Rightarrow> (Inr (), s'))"

record admin_credential_view =
  cw_id :: uuid
  cw_name :: code_points
  cw_multi_device :: bool
  cw_backed_up :: bool
  cw_transports :: "string list"
  cw_created_at :: js_time
  cw_last_used_at :: "js_time option"
  cw_current :: bool

definition credentials_of :: "uuid \<Rightarrow> uuid \<Rightarrow> admin_state \<Rightarrow> admin_credential_view list" where
  "credentials_of u current s =
     map (\<lambda>c. \<lparr> cw_id = cr_id c, cw_name = cr_name c, cw_multi_device = cr_multi_device c, cw_backed_up = cr_backed_up c,
       cw_transports = cr_transports c, cw_created_at = js_of_pg (cr_created_at c),
       cw_last_used_at = map_option js_of_pg (cr_last_used_at c), cw_current = (cr_id c = current) \<rparr>)
       (active_credentials u s)"

record admin_session_summary =
  zs_id :: uuid
  zs_credential_id :: uuid
  zs_credential_name :: code_points
  zs_authenticated_at :: js_time
  zs_last_seen_at :: js_time
  zs_expires_at :: js_time
  zs_current :: bool

definition sessions_of :: "uuid \<Rightarrow> uuid \<Rightarrow> pg_time \<Rightarrow> admin_state \<Rightarrow> admin_session_summary list" where
  "sessions_of u current clk s =
     map (\<lambda>(x, name). \<lparr> zs_id = as_id x, zs_credential_id = as_credential_id x, zs_credential_name = name,
       zs_authenticated_at = js_of_pg (as_authenticated_at x), zs_last_seen_at = js_of_pg (as_last_seen_at x),
       zs_expires_at = js_of_pg (min (as_idle_expires_at x) (as_absolute_expires_at x)), zs_current = (as_id x = current) \<rparr>)
       (active_sessions u clk s)"

text \<open>A page of the history with its next cursor; the text of a cursor is that of the common pagination.\<close>

definition auth_events_page ::
  "uuid \<Rightarrow> int \<Rightarrow> (js_time \<times> uuid) option \<Rightarrow> admin_state \<Rightarrow> failure + auth_event_row list \<times> (js_time \<times> uuid) option" where
  "auth_events_page u limit cursor s =
     (if limit < 1 \<or> 100 < limit then Inl (Api (api_error 400 ''invalid_admin_auth_request''))
      else Inr (cursor_page (auth_events u (nat limit + 1) cursor s) (nat limit)
        (\<lambda>e. (js_of_pg (ae_created_at e), ae_id e))))"

section \<open>The guards\<close>

record admin_request =
  aq_method :: string
  aq_origin :: "string option"
  aq_cookie :: "string option"

definition mutation_origin_ok :: "admin_auth_config \<Rightarrow> admin_request \<Rightarrow> bool" where
  "mutation_origin_ok cfg q \<longleftrightarrow> aq_method q \<in> {''GET'', ''HEAD'', ''OPTIONS''} \<or> aq_origin q = Some (aa_origin cfg)"

definition admin_can_activate ::
  "(string \<Rightarrow> string) \<Rightarrow> admin_auth_config \<Rightarrow> admin_request \<Rightarrow> pg_time \<Rightarrow> admin_state
    \<Rightarrow> (failure + active_session) \<times> admin_state" where
  "admin_can_activate digest cfg q clk s =
     (if \<not> mutation_origin_ok cfg q then (Inl (Api (api_error 403 ''invalid_admin_request_origin'')), s)
      else case read_admin_session_cookie (aq_cookie q) (aa_cookie_name cfg) of
        None \<Rightarrow> (Inl session_invalid, s)
      | Some token \<Rightarrow>
          (case use_session (digest token) (aa_idle_ttl cfg) clk s of
             (None, s') \<Rightarrow> (Inl session_invalid, s')
           | (Some v, s') \<Rightarrow> (Inr v, s')))"

definition recently_authenticated :: "admin_auth_config \<Rightarrow> js_time \<Rightarrow> active_session option \<Rightarrow> failure + unit" where
  "recently_authenticated cfg now v =
     (case v of
        None \<Rightarrow> Inl (Api (api_error 401 ''admin_reauthentication_required''))
      | Some x \<Rightarrow>
          if aa_recent cfg < now - js_of_pg (av_authenticated_at x)
          then Inl (Api (api_error 401 ''admin_reauthentication_required'')) else Inr ())"

end
