(* ===== verification/Admin_Properties.thy ===== *)
theory Admin_Properties
  imports Admin_Service Auth_Properties
begin

text \<open>
  What the sign-in of administrators promises, under any interleaving of the transactions of the repository: a
  challenge is good for one attempt, a revoked credential stays out, an administrator keeps a credential, and a session
  ends at its absolute expiry however often it is used.
\<close>

section \<open>The transactions\<close>

inductive admin_step :: "admin_state \<Rightarrow> admin_state \<Rightarrow> bool" where
  do_challenge: "create_challenge i p h u b e clk s = Inr s' \<Longrightarrow> admin_step s s'"
| do_consume: "consume_challenge i p u b clk s = (r, s') \<Longrightarrow> admin_step s s'"
| do_bootstrap: "complete_bootstrap i h c n ids clk s = Inr (v, s') \<Longrightarrow> admin_step s s'"
| do_add: "add_credential u c ids clk s = Inr (r, s') \<Longrightarrow> admin_step s s'"
| do_login: "complete_authentication i k m multi backed n ids clk s = Inr (v, s') \<Longrightarrow> admin_step s s'"
| do_rename: "rename_credential u i current name e clk s = Inr (r, s') \<Longrightarrow> admin_step s s'"
| do_revoke: "revoke_credential u i current e clk s = Inr (rv, s') \<Longrightarrow> admin_step s s'"
| do_use: "use_session h ttl clk s = (v, s') \<Longrightarrow> admin_step s s'"
| do_end: "end_session u i e clk s = Inr s' \<Longrightarrow> admin_step s s'"
| do_revoke_others: "revoke_other_sessions u current e clk s = Inr (n, s') \<Longrightarrow> admin_step s s'"
| do_revoke_one: "revoke_selected_session u i current e clk s = Inr (r, s') \<Longrightarrow> admin_step s s'"

text \<open>How one transaction moves the rows: challenges and credentials keep what they lost, sessions their absolute end.\<close>

definition challenge_kept :: "challenge_row \<Rightarrow> challenge_row \<Rightarrow> bool" where
  "challenge_kept c c' \<longleftrightarrow> ac_id c' = ac_id c \<and> (ac_consumed_at c \<noteq> None \<longrightarrow> ac_consumed_at c' \<noteq> None)"

definition credential_kept :: "credential_row \<Rightarrow> credential_row \<Rightarrow> bool" where
  "credential_kept c c' \<longleftrightarrow> cr_id c' = cr_id c \<and> cr_user_id c' = cr_user_id c \<and> cr_credential_id c' = cr_credential_id c \<and>
     (cr_revoked_at c \<noteq> None \<longrightarrow> cr_revoked_at c' \<noteq> None)"

definition session_kept :: "admin_session_row \<Rightarrow> admin_session_row \<Rightarrow> bool" where
  "session_kept x x' \<longleftrightarrow> as_id x' = as_id x \<and> as_user_id x' = as_user_id x \<and> as_credential_id x' = as_credential_id x \<and>
     as_token_hash x' = as_token_hash x \<and> as_absolute_expires_at x' = as_absolute_expires_at x \<and>
     (as_revoked_at x \<noteq> None \<longrightarrow> as_revoked_at x' \<noteq> None) \<and>
     (as_idle_expires_at x \<le> as_absolute_expires_at x \<longrightarrow> as_idle_expires_at x' \<le> as_absolute_expires_at x')"

text \<open>A table is kept if its rows are, and the rows added have new keys.\<close>

definition table_kept :: "('r \<Rightarrow> 'r \<Rightarrow> bool) \<Rightarrow> ('r \<Rightarrow> 'k) \<Rightarrow> ('r \<Rightarrow> 'l) \<Rightarrow> ('r \<Rightarrow> bool) \<Rightarrow> 'r list \<Rightarrow> 'r list \<Rightarrow> bool" where
  "table_kept R k l q t t' \<longleftrightarrow> (\<exists>a b. t' = a @ b \<and> list_all2 R t a \<and>
     (\<forall>r \<in> set b. (\<forall>x \<in> set t. k x \<noteq> k r \<and> l x \<noteq> l r) \<and> q r) \<and> length b \<le> 1)"

lemma table_kept_refl: "(\<And>r. R r r) \<Longrightarrow> table_kept R k l q t t"
  unfolding table_kept_def by (intro exI [of _ t] exI [of _ "[]"]) (simp add: list.rel_refl)

lemma table_kept_update:
  "(\<And>r. r \<in> set t \<Longrightarrow> R r (if p r then f r else r)) \<Longrightarrow> table_kept R k l q t (sql_update p f t)"
  unfolding table_kept_def
  by (intro exI [of _ "sql_update p f t"] exI [of _ "[]"]) (simp add: list_all2_sql_update)

lemma table_kept_add:
  "(\<And>r. R r r) \<Longrightarrow> (\<And>x. x \<in> set t \<Longrightarrow> k x \<noteq> k r \<and> l x \<noteq> l r) \<Longrightarrow> q r \<Longrightarrow> table_kept R k l q t (t @ [r])"
  unfolding table_kept_def by (intro exI [of _ t] exI [of _ "[r]"]) (simp add: list.rel_refl)

definition admin_kept :: "admin_state \<Rightarrow> admin_state \<Rightarrow> bool" where
  "admin_kept s s' \<longleftrightarrow> am_accounts s' = am_accounts s \<and>
     table_kept challenge_kept ac_id ac_id (\<lambda>_. True) (am_challenges s) (am_challenges s') \<and>
     table_kept credential_kept cr_id cr_credential_id (\<lambda>_. True) (am_credentials s) (am_credentials s') \<and>
     table_kept session_kept as_id as_token_hash (\<lambda>x. as_idle_expires_at x \<le> as_absolute_expires_at x)
       (am_sessions s) (am_sessions s')"

lemma kept_refl [simp]: "challenge_kept c c" "credential_kept d d" "session_kept x x"
  by (simp_all add: challenge_kept_def credential_kept_def session_kept_def)

lemma insert_event_frame:
  "insert_event i u c x ty clk s = Inr s' \<Longrightarrow> am_accounts s' = am_accounts s \<and> am_challenges s' = am_challenges s \<and>
     am_credentials s' = am_credentials s \<and> am_sessions s' = am_sessions s \<and> am_bootstraps s' = am_bootstraps s"
  by (auto simp: insert_event_def split: if_splits)

lemma insert_session_kept:
  "insert_session i u r c n clk s = Inr (v, s') \<Longrightarrow> am_accounts s' = am_accounts s \<and> am_challenges s' = am_challenges s \<and>
     am_credentials s' = am_credentials s \<and>
     table_kept session_kept as_id as_token_hash (\<lambda>x. as_idle_expires_at x \<le> as_absolute_expires_at x)
       (am_sessions s) (am_sessions s')"
  unfolding insert_session_def Let_def
  by (auto simp: admin_session_ok_def sql_exists_iff intro!: table_kept_add split: if_splits)

lemma insert_credential_kept:
  "insert_credential i u c clk s = Inr s' \<Longrightarrow> am_accounts s' = am_accounts s \<and> am_challenges s' = am_challenges s \<and>
     am_sessions s' = am_sessions s \<and>
     table_kept credential_kept cr_id cr_credential_id (\<lambda>_. True) (am_credentials s) (am_credentials s')"
  unfolding insert_credential_def Let_def
  by (auto simp: credential_row_of_def sql_exists_iff intro!: table_kept_add split: if_splits)

lemma admin_kept_refl [simp]: "admin_kept s s"
  by (simp add: admin_kept_def table_kept_refl)

lemma consume_kept: "consume_challenge i p u b clk s = (r, s') \<Longrightarrow> admin_kept s s'"
  by (auto simp: consume_challenge_def admin_kept_def challenge_kept_def intro!: table_kept_refl table_kept_update)

lemma create_challenge_kept: "create_challenge i p h u b e clk s = Inr s' \<Longrightarrow> admin_kept s s'"
  unfolding create_challenge_def Let_def
  by (auto simp: admin_kept_def sql_exists_iff intro!: table_kept_refl table_kept_add split: if_splits)

lemma use_session_kept: "use_session h ttl clk s = (v, s') \<Longrightarrow> admin_kept s s'"
  unfolding use_session_def Let_def
  by (auto simp: admin_kept_def session_kept_def touch_session_def intro!: table_kept_refl table_kept_update
    split: option.splits)

lemma session_update_kept:
  assumes "insert_event e u c x ty clk (s\<lparr>am_sessions := sql_update p f (am_sessions s)\<rparr>) = Inr s'"
    "\<And>x. session_kept x (f x)"
  shows "admin_kept s s'"
  using insert_event_frame [OF assms(1)] assms(2)
  by (simp add: admin_kept_def table_kept_refl table_kept_update)


lemma bootstrap_kept: "complete_bootstrap i h c n ids clk s = Inr (v, s') \<Longrightarrow> admin_kept s s'"
  unfolding complete_bootstrap_def Let_def
  by (auto simp: and_then_Inr_iff admin_kept_def table_kept_refl dest!: insert_credential_kept insert_session_kept
    insert_event_frame split: option.splits prod.splits)

lemma add_credential_kept: "add_credential u c ids clk s = Inr (r, s') \<Longrightarrow> admin_kept s s'"
  unfolding add_credential_def
  by (auto simp: and_then_Inr_iff admin_kept_def table_kept_refl dest!: insert_credential_kept insert_event_frame
    split: if_splits)

lemma credential_update_kept:
  "(\<And>c. credential_kept c (f c)) \<Longrightarrow>
    table_kept credential_kept cr_id cr_credential_id (\<lambda>_. True) t (sql_update p f t)"
  by (rule table_kept_update) simp

lemma login_kept: "complete_authentication i k m multi backed n ids clk s = Inr (v, s') \<Longrightarrow> admin_kept s s'"
  unfolding complete_authentication_def Let_def
  by (auto simp: and_then_Inr_iff admin_kept_def table_kept_refl credential_update_kept credential_kept_def
    dest!: insert_session_kept insert_event_frame split: option.splits if_splits prod.splits)

lemma rename_kept: "rename_credential u i current name e clk s = Inr (r, s') \<Longrightarrow> admin_kept s s'"
  unfolding rename_credential_def Let_def
  by (auto simp: and_then_Inr_iff admin_kept_def table_kept_refl credential_update_kept credential_kept_def
    dest!: insert_event_frame split: if_splits)

lemma revoke_kept: "revoke_credential u i current e clk s = Inr (rv, s') \<Longrightarrow> admin_kept s s'"
  unfolding revoke_credential_def Let_def
  by (auto simp: and_then_Inr_iff admin_kept_def table_kept_refl credential_update_kept credential_kept_def
    session_kept_def intro!: table_kept_update dest!: insert_event_frame split: if_splits)

lemma end_kept: "end_session u i e clk s = Inr s' \<Longrightarrow> admin_kept s s'"
  unfolding end_session_def Let_def
  by (auto simp: admin_kept_def table_kept_refl session_kept_def intro!: table_kept_update
    dest!: insert_event_frame split: if_splits)

lemma others_kept: "revoke_other_sessions u current e clk s = Inr (n, s') \<Longrightarrow> admin_kept s s'"
  unfolding revoke_other_sessions_def Let_def
  by (auto simp: and_then_Inr_iff session_kept_def intro: session_update_kept)

lemma selected_kept: "revoke_selected_session u i current e clk s = Inr (r, s') \<Longrightarrow> admin_kept s s'"
  unfolding revoke_selected_session_def Let_def
  by (auto simp: and_then_Inr_iff session_kept_def intro: session_update_kept split: if_splits)

lemma admin_step_kept: "admin_step s s' \<Longrightarrow> admin_kept s s'"
  by (induction rule: admin_step.induct)
    (fact create_challenge_kept consume_kept bootstrap_kept add_credential_kept login_kept rename_kept revoke_kept
      use_session_kept end_kept others_kept selected_kept)+

section \<open>What lasts\<close>

text \<open>What all rows of an existing key have in common lasts if every row keeps it.\<close>

definition all_with :: "('r \<Rightarrow> 'k) \<Rightarrow> 'k \<Rightarrow> ('r \<Rightarrow> bool) \<Rightarrow> 'r list \<Rightarrow> bool" where
  "all_with k x P t \<longleftrightarrow> (\<exists>r \<in> set t. k r = x) \<and> (\<forall>r \<in> set t. k r = x \<longrightarrow> P r)"

lemma all_with_kept:
  assumes "table_kept R k l q t t'" "all_with k x P t" "\<And>r r'. R r r' \<Longrightarrow> k r' = k r" "\<And>r r'. R r r' \<Longrightarrow> P r \<Longrightarrow> P r'"
  shows "all_with k x P t'"
proof -
  obtain a b where ab: "t' = a @ b" "list_all2 R t a" "\<And>r y. r \<in> set b \<Longrightarrow> y \<in> set t \<Longrightarrow> k y \<noteq> k r"
    using assms(1) by (auto simp: table_kept_def)
  obtain r where r: "r \<in> set t" "k r = x" using assms(2) by (auto simp: all_with_def)
  obtain r' where "r' \<in> set a" "R r r'" using list_all2_setD1 [OF ab(2) r(1)] by blast
  then have "\<exists>r \<in> set t'. k r = x" using assms(3) r(2) ab(1) by force
  moreover have "P y" if y: "y \<in> set t'" "k y = x" for y
  proof -
    have "y \<in> set a" using y ab(1) ab(3) [of y r] r by auto
    then obtain z where "z \<in> set t" "R z y" using list_all2_setD2 [OF ab(2)] by blast
    then show ?thesis using assms(2-4) y(2) by (metis all_with_def)
  qed
  ultimately show ?thesis by (simp add: all_with_def)
qed

lemma table_kept_swap: "table_kept R k l q t t' \<Longrightarrow> table_kept R l k q t t'"
  unfolding table_kept_def by blast

lemma admin_steps_kept:
  assumes "admin_step\<^sup>*\<^sup>* s s'" "\<And>s s'. admin_kept s s' \<Longrightarrow> Q s \<Longrightarrow> Q s'" "Q s"
  shows "Q s'"
  using assms(1,3) by (induction rule: rtranclp_induct) (auto intro: assms(2) admin_step_kept)

definition admin_ok :: "admin_state \<Rightarrow> bool" where
  "admin_ok s \<longleftrightarrow> distinct (map ac_id (am_challenges s)) \<and> distinct (map cr_id (am_credentials s)) \<and>
     distinct (map cr_credential_id (am_credentials s)) \<and> distinct (map as_id (am_sessions s)) \<and>
     distinct (map as_token_hash (am_sessions s)) \<and>
     list_all (\<lambda>x. as_idle_expires_at x \<le> as_absolute_expires_at x) (am_sessions s)"

lemma table_kept_distinct:
  assumes "table_kept R k l q t t'" "\<And>r r'. R r r' \<Longrightarrow> k r' = k r" "distinct (map k t)"
  shows "distinct (map k t')"
proof -
  obtain a b where ab: "t' = a @ b" "list_all2 R t a" "\<And>r y. r \<in> set b \<Longrightarrow> y \<in> set t \<Longrightarrow> k y \<noteq> k r" "length b \<le> 1"
    using assms(1) by (auto simp: table_kept_def)
  have "map k t = map k a" by (rule list_all2_map_eq [OF ab(2)]) (simp add: assms(2))
  moreover from this have "k ` set a = k ` set t" by (metis list.set_map)
  moreover have "distinct (map k b)" using ab(4) by (cases b) auto
  ultimately show ?thesis using assms(3) ab(1,3) by (auto simp: image_iff)
qed

lemma admin_ok_kept:
  assumes "admin_kept s s'" "admin_ok s"
  shows "admin_ok s'"
proof -
  have c: "table_kept challenge_kept ac_id ac_id (\<lambda>_. True) (am_challenges s) (am_challenges s')"
    and d: "table_kept credential_kept cr_id cr_credential_id (\<lambda>_. True) (am_credentials s) (am_credentials s')"
    and x: "table_kept session_kept as_id as_token_hash (\<lambda>x. as_idle_expires_at x \<le> as_absolute_expires_at x)
       (am_sessions s) (am_sessions s')" using assms(1) by (auto simp: admin_kept_def)
  have "list_all (\<lambda>x. as_idle_expires_at x \<le> as_absolute_expires_at x) (am_sessions s')"
  proof -
    obtain a b where ab: "am_sessions s' = a @ b" "list_all2 session_kept (am_sessions s) a"
      "\<forall>r \<in> set b. as_idle_expires_at r \<le> as_absolute_expires_at r" using x by (auto simp: table_kept_def)
    have "as_idle_expires_at y \<le> as_absolute_expires_at y" if "y \<in> set a" for y
      using list_all2_setD2 [OF ab(2) that] assms(2) by (auto simp: session_kept_def admin_ok_def list_all_iff)
    then show ?thesis using ab(1,3) by (auto simp: list_all_iff)
  qed
  moreover have "distinct (map ac_id (am_challenges s'))"
    by (rule table_kept_distinct [OF c]) (use assms(2) in \<open>simp_all add: challenge_kept_def admin_ok_def\<close>)
  moreover have "distinct (map cr_id (am_credentials s'))"
    by (rule table_kept_distinct [OF d]) (use assms(2) in \<open>simp_all add: credential_kept_def admin_ok_def\<close>)
  moreover have "distinct (map cr_credential_id (am_credentials s'))"
    by (rule table_kept_distinct [OF table_kept_swap [OF d]]) (use assms(2) in \<open>simp_all add: credential_kept_def admin_ok_def\<close>)
  moreover have "distinct (map as_id (am_sessions s'))"
    by (rule table_kept_distinct [OF x]) (use assms(2) in \<open>simp_all add: session_kept_def admin_ok_def\<close>)
  moreover have "distinct (map as_token_hash (am_sessions s'))"
    by (rule table_kept_distinct [OF table_kept_swap [OF x]]) (use assms(2) in \<open>simp_all add: session_kept_def admin_ok_def\<close>)
  ultimately show ?thesis by (simp add: admin_ok_def)
qed

section \<open>Challenges and credentials\<close>

definition spent :: "uuid \<Rightarrow> admin_state \<Rightarrow> bool" where
  "spent i s \<longleftrightarrow> all_with ac_id i (\<lambda>c. ac_consumed_at c \<noteq> None) (am_challenges s)"

lemma spent_kept: "admin_kept s s' \<Longrightarrow> spent i s \<Longrightarrow> spent i s'"
  unfolding spent_def admin_kept_def
  by (elim conjE, erule all_with_kept [where R = challenge_kept]) (auto simp: challenge_kept_def)

lemma consume_spends:
  assumes "consume_challenge i p u b clk s = (Some h, s1)" "admin_ok s"
  shows "spent i s1"
proof -
  let ?p = "pending_challenge i p u b clk"
  obtain c where c: "sql_first ?p (am_challenges s) = Some c" using assms(1) by (auto simp: consume_challenge_def)
  have d: "c \<in> set (am_challenges s)" "?p c" using sql_first_SomeD [OF c] by auto
  have only: "x = c" if "x \<in> set (am_challenges s)" "ac_id x = i" for x
    by (rule distinct_keyD [of ac_id "am_challenges s"])
      (use assms(2) d that in \<open>auto simp: admin_ok_def pending_challenge_def\<close>)
  have s1: "am_challenges s1 = sql_update ?p (\<lambda>c. c\<lparr>ac_consumed_at := Some clk\<rparr>) (am_challenges s)"
    using assms(1) by (auto simp: consume_challenge_def)
  show ?thesis unfolding spent_def all_with_def s1 bex_sql_update ball_sql_update
  proof (intro conjI ballI impI)
    show "\<exists>r \<in> set (am_challenges s). ac_id (if ?p r then r\<lparr>ac_consumed_at := Some clk\<rparr> else r) = i"
      using d by (intro bexI [of _ c]) (auto simp: pending_challenge_def)
    fix r assume "r \<in> set (am_challenges s)" "ac_id (if ?p r then r\<lparr>ac_consumed_at := Some clk\<rparr> else r) = i"
    then have "r = c" using only by (auto split: if_splits)
    then show "ac_consumed_at (if ?p r then r\<lparr>ac_consumed_at := Some clk\<rparr> else r) \<noteq> None" using d(2) by simp
  qed
qed

lemma spent_refuses: "spent i s \<Longrightarrow> fst (consume_challenge i p u b clk s) = None"
  by (auto simp: spent_def all_with_def consume_challenge_def pending_challenge_def sql_first_None_iff)

text \<open>C36. A WebAuthn challenge is good for one attempt: once it was consumed, no later transaction consumes it again,
  whatever administrators do in between and whatever it is presented for.\<close>

theorem admin_challenge_once:
  assumes "admin_ok s" "consume_challenge i p u b clk s = (Some h, s1)" "admin_step\<^sup>*\<^sup>* s1 s2"
  shows "fst (consume_challenge i p' u' b' clk' s2) = None"
  using admin_steps_kept [where Q = "spent i", OF assms(3) spent_kept consume_spends [OF assms(2,1)]]
  by (rule spent_refuses)

definition revoked_credential :: "uuid \<Rightarrow> admin_state \<Rightarrow> bool" where
  "revoked_credential i s \<longleftrightarrow> all_with cr_id i (\<lambda>c. cr_revoked_at c \<noteq> None) (am_credentials s)"

lemma revoked_kept: "admin_kept s s' \<Longrightarrow> revoked_credential i s \<Longrightarrow> revoked_credential i s'"
  unfolding revoked_credential_def admin_kept_def
  by (elim conjE, erule all_with_kept [where R = credential_kept]) (auto simp: credential_kept_def)

lemma revoke_revokes:
  assumes "revoke_credential u i current e clk s = Inr (Revoked, s1)"
  shows "revoked_credential i s1"
proof -
  let ?own = "filter (\<lambda>c. cr_user_id c = u \<and> cr_revoked_at c = None) (am_credentials s)"
  have own: "sql_exists (\<lambda>c. cr_id c = i) ?own"
    using assms by (auto simp: revoke_credential_def Let_def and_then_Inr_iff split: if_splits)
  have "am_credentials s1 = sql_update (\<lambda>c. cr_id c = i) (\<lambda>c. c\<lparr>cr_revoked_at := Some clk\<rparr>) (am_credentials s)"
    using assms by (auto simp: revoke_credential_def Let_def and_then_Inr_iff dest!: insert_event_frame split: if_splits)
  then show ?thesis using own
    by (auto simp: revoked_credential_def all_with_def bex_sql_update ball_sql_update sql_exists_iff)
qed

text \<open>C37. A revoked credential stays out: it neither signs in again nor keeps a session of its own alive, whatever
  transactions follow.\<close>

theorem revoked_credential_stays_out:
  assumes "revoke_credential u i current e clk s = Inr (Revoked, s1)" "admin_step\<^sup>*\<^sup>* s1 s2"
  shows "(\<nexists>x c. active_credential_by_external_id x s2 = Some c \<and> cr_id c = i) \<and>
    (\<nexists>h ttl t v s3. use_session h ttl t s2 = (Some v, s3) \<and> av_credential_id v = i)"
proof -
  have r: "revoked_credential i s2"
    by (rule admin_steps_kept [where Q = "revoked_credential i", OF assms(2) revoked_kept revoke_revokes [OF assms(1)]])
  have no: "cr_id c \<noteq> i" if "c \<in> set (am_credentials s2)" "cr_revoked_at c = None" for c
    using r that by (auto simp: revoked_credential_def all_with_def)
  have "cr_id c \<noteq> i" if "active_credential_by_external_id x s2 = Some c" for x c
    using no sql_first_SomeD that by (fastforce simp: active_credential_by_external_id_def active_credential_def)
  moreover have "av_credential_id v \<noteq> i" if u: "use_session h ttl t s2 = (Some v, s3)" for h ttl t v s3
  proof -
    obtain x where x: "sql_first (usable_session h t s2) (am_sessions s2) = Some x" "av_credential_id v = as_credential_id x"
      using u by (auto simp: use_session_def Let_def touch_session_def split: option.splits)
    then have "session_credential s2 x" using sql_first_SomeD by (fastforce simp: usable_session_def)
    then show ?thesis using no x(2) by (auto simp: session_credential_def sql_exists_iff)
  qed
  ultimately show ?thesis by blast
qed

section \<open>Sessions end\<close>

definition bound_to :: "string \<Rightarrow> uuid \<Rightarrow> pg_time \<Rightarrow> admin_state \<Rightarrow> bool" where
  "bound_to h u limit s \<longleftrightarrow>
     all_with as_token_hash h (\<lambda>x. as_user_id x = u \<and> as_absolute_expires_at x = limit) (am_sessions s)"

lemma bound_to_kept: "admin_kept s s' \<Longrightarrow> bound_to h u t s \<Longrightarrow> bound_to h u t s'"
  unfolding bound_to_def admin_kept_def
  by (elim conjE, drule table_kept_swap [of session_kept], erule all_with_kept [where R = session_kept])
    (auto simp: session_kept_def)

lemma insert_session_bound:
  assumes "insert_session i u r c n clk s = Inr (v, s1)"
  shows "bound_to (ns_token_hash n) u (pg_of_js (ns_absolute_expires_at n)) s1" "av_user_id v = u"
  using assms by (auto simp: insert_session_def Let_def bound_to_def all_with_def sql_exists_iff split: if_splits)

lemma login_bound:
  assumes "complete_authentication i k m multi backed n ids clk s = Inr (Some v, s1)"
  shows "bound_to (ns_token_hash n) (av_user_id v) (pg_of_js (ns_absolute_expires_at n)) s1"
proof -
  obtain u r s2 s3 where i: "insert_session (di_session ids) u r i n clk s2 = Inr (v, s3)"
    and e: "am_sessions s1 = am_sessions s3"
    using assms unfolding complete_authentication_def Let_def
    by (auto simp: and_then_Inr_iff dest!: insert_event_frame split: option.splits if_splits)
  show ?thesis using insert_session_bound [OF i] e by (simp add: bound_to_def)
qed

text \<open>C38. However often a session is used, it is its owner's and ends at the absolute expiry set when the administrator
  signed in: no request passes afterwards, and no answer announces a later end.\<close>

theorem admin_session_ends:
  assumes "complete_authentication i k m multi backed n ids clk s = Inr (Some v, s1)" "admin_step\<^sup>*\<^sup>* s1 s2"
    "use_session (ns_token_hash n) ttl t s2 = (Some w, s3)"
  shows "av_user_id w = av_user_id v \<and> t < pg_of_js (ns_absolute_expires_at n) \<and>
    av_expires_at w \<le> pg_of_js (ns_absolute_expires_at n)"
proof -
  have b: "bound_to (ns_token_hash n) (av_user_id v) (pg_of_js (ns_absolute_expires_at n)) s2"
    by (rule admin_steps_kept [where Q = "bound_to (ns_token_hash n) (av_user_id v) (pg_of_js (ns_absolute_expires_at n))",
      OF assms(2) bound_to_kept login_bound [OF assms(1)]])
  obtain x where x: "sql_first (usable_session (ns_token_hash n) t s2) (am_sessions s2) = Some x"
    and w: "av_user_id w = as_user_id x" "av_expires_at w \<le> as_absolute_expires_at x"
    using assms(3) by (auto simp: use_session_def Let_def touch_session_def split: option.splits)
  have "x \<in> set (am_sessions s2)" "usable_session (ns_token_hash n) t s2 x" using sql_first_SomeD [OF x] by auto
  then have "as_user_id x = av_user_id v" "as_absolute_expires_at x = pg_of_js (ns_absolute_expires_at n)"
    "t < as_absolute_expires_at x"
    using b by (auto simp: bound_to_def all_with_def usable_session_def unexpired_def)
  then show ?thesis using w by simp
qed

section \<open>An administrator keeps a credential\<close>

definition holds_credential :: "uuid \<Rightarrow> admin_state \<Rightarrow> bool" where
  "holds_credential u s \<longleftrightarrow> sql_exists (\<lambda>c. cr_user_id c = u \<and> cr_revoked_at c = None) (am_credentials s)"

lemma revoke_leaves_credential:
  assumes "revoke_credential u i current e clk s = Inr (rv, s')" "holds_credential v s" "admin_ok s"
  shows "holds_credential v s'"
proof (cases "rv = Revoked")
  case False
  then have "am_credentials s' = am_credentials s"
    using assms(1) by (auto simp: revoke_credential_def Let_def and_then_Inr_iff split: if_splits)
  then show ?thesis using assms(2) by (simp add: holds_credential_def)
next
  case True
  define own where "own = filter (\<lambda>c. cr_user_id c = u \<and> cr_revoked_at c = None) (am_credentials s)"
  have run: "sql_exists (\<lambda>c. cr_id c = i) own" "1 < length own"
    "am_credentials s' = sql_update (\<lambda>c. cr_id c = i) (\<lambda>c. c\<lparr>cr_revoked_at := Some clk\<rparr>) (am_credentials s)"
    using assms(1) True unfolding own_def
    by (auto simp: revoke_credential_def Let_def and_then_Inr_iff dest!: insert_event_frame split: if_splits)
  have ids: "distinct (map cr_id (am_credentials s))" using assms(3) by (simp add: admin_ok_def)
  have stays: "holds_credential v s'" if "c \<in> set (am_credentials s)" "cr_user_id c = v" "cr_revoked_at c = None" "cr_id c \<noteq> i" for c
    using that by (auto simp: holds_credential_def run(3) sql_exists_iff bex_sql_update)
  obtain d where d: "d \<in> set own" "cr_id d = i" using run(1) by (auto simp: sql_exists_iff)
  show ?thesis
  proof (cases "v = u")
    case True
    have "distinct own" using ids by (simp add: own_def distinct_key_distinct)
    then have "card (set own) = length own" by (rule distinct_card)
    then have "set own \<noteq> {d}" using run(2) by auto
    then obtain c where c: "c \<in> set own" "c \<noteq> d" using d(1) by blast
    have "cr_id c \<noteq> i"
      using distinct_keyD [OF ids, of c d] c d by (auto simp: own_def)
    then show ?thesis using stays [of c] c(1) True by (simp add: own_def)
  next
    case False
    obtain c where c: "c \<in> set (am_credentials s)" "cr_user_id c = v" "cr_revoked_at c = None"
      using assms(2) by (auto simp: holds_credential_def sql_exists_iff)
    have "cr_user_id d = u" "d \<in> set (am_credentials s)" using d(1) by (auto simp: own_def)
    then have "cr_id c \<noteq> i" using distinct_keyD [OF ids c(1), of d] c(2) d(2) False by auto
    then show ?thesis using stays c by blast
  qed
qed

text \<open>Every other transaction leaves the credentials alone, adds one, or rewrites columns that do not matter here.\<close>

definition credentials_grow :: "admin_state \<Rightarrow> admin_state \<Rightarrow> bool" where
  "credentials_grow s s' \<longleftrightarrow> (\<exists>p f b. am_credentials s' = sql_update p f (am_credentials s) @ b \<and>
     (\<forall>c. cr_user_id (f c) = cr_user_id c \<and> cr_revoked_at (f c) = cr_revoked_at c))"

lemma credentials_grow_holds: "credentials_grow s s' \<Longrightarrow> holds_credential v s \<Longrightarrow> holds_credential v s'"
  by (auto simp: credentials_grow_def holds_credential_def sql_exists_sql_update if_distrib cong: if_cong)

lemma credentials_grow_same: "am_credentials s' = am_credentials s \<Longrightarrow> credentials_grow s s'"
  unfolding credentials_grow_def by (intro exI [of _ "\<lambda>_. False"] exI [of _ id] exI [of _ "[]"]) (simp add: sql_update_id)

lemma credentials_grow_add: "am_credentials s' = am_credentials s @ b \<Longrightarrow> credentials_grow s s'"
  unfolding credentials_grow_def by (intro exI [of _ "\<lambda>_. False"] exI [of _ id] exI [of _ b]) (simp add: sql_update_id)

lemma credentials_grow_update:
  "am_credentials s' = sql_update p f (am_credentials s) \<Longrightarrow>
    (\<And>c. cr_user_id (f c) = cr_user_id c \<and> cr_revoked_at (f c) = cr_revoked_at c) \<Longrightarrow> credentials_grow s s'"
  unfolding credentials_grow_def by (intro exI [of _ p] exI [of _ f] exI [of _ "[]"]) simp

lemma insert_credential_adds:
  "insert_credential i u c clk s = Inr s' \<Longrightarrow> am_credentials s' = am_credentials s @ [credential_row_of i u c clk]"
  by (auto simp: insert_credential_def Let_def split: if_splits)

lemma insert_session_credentials: "insert_session i u r c n clk s = Inr (w, s') \<Longrightarrow> am_credentials s' = am_credentials s"
  by (auto dest: insert_session_kept)

lemma insert_event_credentials: "insert_event i u c x ty clk s = Inr s' \<Longrightarrow> am_credentials s' = am_credentials s"
  by (auto dest: insert_event_frame)

lemma admin_step_holds: "admin_step s s' \<Longrightarrow> admin_ok s \<Longrightarrow> holds_credential v s \<Longrightarrow> holds_credential v s'"
proof (induction rule: admin_step.induct)
  case (do_challenge i p h u b e clk s s')
  then show ?case by (auto simp: create_challenge_def Let_def holds_credential_def split: if_splits)
next
  case (do_consume i p u b clk s r s')
  then show ?case by (auto simp: consume_challenge_def holds_credential_def)
next
  case (do_bootstrap i h c n ids clk s v s')
  then have "credentials_grow s s'" unfolding complete_bootstrap_def Let_def
    by (auto simp: and_then_Inr_iff dest!: insert_credential_adds insert_session_credentials insert_event_credentials
      intro: credentials_grow_same credentials_grow_add split: option.splits prod.splits)
  then show ?case using do_bootstrap credentials_grow_holds by blast
next
  case (do_add u c ids clk s r s')
  then have "credentials_grow s s'" unfolding add_credential_def
    by (auto simp: and_then_Inr_iff dest!: insert_credential_adds insert_event_credentials
      intro: credentials_grow_same credentials_grow_add split: if_splits)
  then show ?case using do_add credentials_grow_holds by blast
next
  case (do_login i k m multi backed n ids clk s w s')
  then have "credentials_grow s s'" unfolding complete_authentication_def Let_def
    by (auto simp: and_then_Inr_iff dest!: insert_session_credentials insert_event_credentials
      intro: credentials_grow_same credentials_grow_update split: option.splits if_splits prod.splits)
  then show ?case using do_login credentials_grow_holds by blast
next
  case (do_rename u i current name e clk s r s')
  then have "credentials_grow s s'" unfolding rename_credential_def Let_def
    by (auto simp: and_then_Inr_iff dest!: insert_event_credentials
      intro: credentials_grow_same credentials_grow_update split: if_splits)
  then show ?case using do_rename credentials_grow_holds by blast
next
  case (do_revoke u i current e clk s rv s')
  then show ?case using revoke_leaves_credential by blast
next
  case (do_use h ttl clk s w s')
  then show ?case by (auto simp: use_session_def Let_def holds_credential_def split: option.splits)
next
  case (do_end u i e clk s s')
  then show ?case unfolding end_session_def Let_def
    by (auto simp: holds_credential_def dest!: insert_event_credentials split: if_splits)
next
  case (do_revoke_others u current e clk s n s')
  then show ?case unfolding revoke_other_sessions_def Let_def
    by (auto simp: and_then_Inr_iff holds_credential_def dest!: insert_event_credentials)
next
  case (do_revoke_one u i current e clk s r s')
  then show ?case unfolding revoke_selected_session_def Let_def
    by (auto simp: and_then_Inr_iff holds_credential_def dest!: insert_event_credentials split: if_splits)
qed

text \<open>C35. Whatever administrators do, in whatever order, the keys of the tables stay unique, no idle expiry passes the
  absolute one, and an administrator who holds a credential never loses the last one.\<close>

theorem admin_keeps_a_credential:
  assumes "admin_step\<^sup>*\<^sup>* s s'" "admin_ok s" "holds_credential u s"
  shows "admin_ok s' \<and> holds_credential u s'"
  using assms
  by (induction rule: rtranclp_induct) (auto intro: admin_ok_kept admin_step_kept admin_step_holds)

section \<open>Signing in opens the guard\<close>

definition cookie_name_ok :: "string \<Rightarrow> bool" where
  "cookie_name_ok n \<longleftrightarrow> list_all (\<lambda>c. c \<noteq> CHR '';'' \<and> \<not> js_space c) n"

lemma js_trim_plain: "list_all (\<lambda>c. \<not> js_space c) t \<Longrightarrow> js_trim t = t"
proof -
  have plain: "dropWhile js_space xs = xs" if "list_all (\<lambda>c. \<not> js_space c) xs" for xs
    using that by (cases xs) auto
  assume t: "list_all (\<lambda>c. \<not> js_space c) t"
  then have "list_all (\<lambda>c. \<not> js_space c) (rev t)" by (simp add: list_all_iff)
  then show "js_trim t = t" by (simp add: js_trim_def plain t)
qed

lemma split_semicolon_plain: "list_all (\<lambda>c. c \<noteq> CHR '';'') t \<Longrightarrow> split_semicolon t = [t]"
  by (induction t) auto

lemma b64url_plain: "list_all (\<lambda>c. c \<noteq> CHR '';'' \<and> \<not> js_space c) b64url_chars"
  by code_simp

lemma read_own_cookie:
  assumes "cookie_name_ok name" "admin_token_ok token"
  shows "read_admin_session_cookie (Some (name @ ''='' @ token)) name = Some token"
proof -
  have token: "list_all (\<lambda>c. c \<noteq> CHR '';'' \<and> \<not> js_space c) token"
    using assms(2) b64url_plain by (auto simp: admin_token_ok_def list_all_iff)
  define w where "w = name @ ''='' @ token"
  have "list_all (\<lambda>c. c \<noteq> CHR '';'' \<and> \<not> js_space c) ''=''" by code_simp
  then have w: "list_all (\<lambda>c. c \<noteq> CHR '';'' \<and> \<not> js_space c) w"
    using assms(1) token unfolding w_def cookie_name_ok_def list_all_append by blast
  have "list_all (\<lambda>c. c \<noteq> CHR '';'') w" "list_all (\<lambda>c. \<not> js_space c) w" using w unfolding list_all_iff by blast+
  then have "split_semicolon w = [w]" "js_trim w = w"
    by (simp_all add: split_semicolon_plain js_trim_plain)
  then have "split_semicolon (name @ ''='' @ token) = [name @ ''='' @ token]" "js_trim (name @ ''='' @ token) = name @ ''='' @ token"
    unfolding w_def .
  then show ?thesis using assms(2) by (simp add: read_admin_session_cookie_def starts_with_def)
qed

lemma login_opens:
  assumes "complete_authentication i k m multi backed n ids t s = Inr (Some v, s1)"
    "clk < pg_of_js (ns_idle_expires_at n)"
  shows "\<exists>w s2. use_session (ns_token_hash n) ttl clk s1 = (Some w, s2) \<and> av_id w = av_id v \<and> av_user_id w = av_user_id v \<and>
    av_credential_id w = av_credential_id v \<and> av_role w = av_role v"
proof -
  define f where "f = (\<lambda>c :: credential_row. c\<lparr>cr_counter := m, cr_multi_device := multi, cr_backed_up := backed, cr_last_used_at := Some t\<rparr>)"
  obtain c where c: "sql_first (\<lambda>c. cr_id c = i \<and> active_credential s c) (am_credentials s) = Some c"
    using assms(1) by (auto simp: complete_authentication_def split: option.splits)
  have d: "c \<in> set (am_credentials s)" "cr_id c = i" "active_credential s c" using sql_first_SomeD [OF c] by auto
  obtain a where a: "admin_account (cr_user_id c) s = Some a" using d(3) by (auto simp: active_credential_def)
  define s0 where "s0 = s\<lparr>am_credentials := sql_update (\<lambda>c. cr_id c = i) f (am_credentials s)\<rparr>"
  obtain s2 where ins: "insert_session (di_session ids) (cr_user_id c) (ua_role a) i n t s0 = Inr (v, s2)"
    and e: "am_accounts s1 = am_accounts s2" "am_sessions s1 = am_sessions s2" "am_credentials s1 = am_credentials s2"
    using assms(1) c a unfolding complete_authentication_def Let_def s0_def f_def
    by (auto simp: and_then_Inr_iff dest!: insert_event_frame split: if_splits)
  define x where "x = \<lparr> as_id = di_session ids, as_user_id = cr_user_id c, as_credential_id = i, as_token_hash = ns_token_hash n,
    as_authenticated_at = t, as_last_seen_at = t, as_idle_expires_at = pg_of_js (ns_idle_expires_at n),
    as_absolute_expires_at = pg_of_js (ns_absolute_expires_at n), as_revoked_at = None, as_created_at = t \<rparr>"
  have new: "\<forall>y \<in> set (am_sessions s). as_token_hash y \<noteq> ns_token_hash n" "admin_session_ok x"
    "am_sessions s1 = am_sessions s @ [x]" "am_credentials s1 = sql_update (\<lambda>c. cr_id c = i) f (am_credentials s)"
    "am_accounts s1 = am_accounts s"
    and v: "av_id v = as_id x" "av_user_id v = cr_user_id c" "av_credential_id v = i" "av_role v = ua_role a"
    using ins e unfolding insert_session_def Let_def s0_def x_def by (auto simp: sql_exists_iff split: if_splits)
  have acc: "admin_account (cr_user_id c) s1 = Some a" using a new(5) by (simp add: admin_account_def)
  have "f c \<in> set (am_credentials s1)" unfolding new(4) set_sql_update using d by force
  then have "session_credential s1 x"
    using d by (auto simp: session_credential_def sql_exists_iff x_def f_def active_credential_def intro!: bexI [of _ "f c"])
  moreover have "clk < pg_of_js (ns_absolute_expires_at n)"
    using assms(2) new(2) unfolding admin_session_ok_def x_def by (simp add: pg_of_js_def)
  ultimately have use: "usable_session (ns_token_hash n) clk s1 x"
    using acc assms(2) by (simp add: usable_session_def unexpired_def x_def admin_session_ok_def)
  have "sql_first (usable_session (ns_token_hash n) clk s1) (am_sessions s) = None"
    using new(1) by (auto simp: sql_first_None_iff usable_session_def)
  then have "sql_first (usable_session (ns_token_hash n) clk s1) (am_sessions s1) = Some x"
    using use by (simp add: new(3) sql_first_append)
  then show ?thesis using acc v by (simp add: use_session_def Let_def touch_session_def x_def)
qed

text \<open>C39. The cookie that a successful WebAuthn sign-in sets passes the guard of the administration: the request runs as
  that administrator, under that session, credential and role, until the idle time has passed.\<close>

theorem admin_sign_in_opens_guard:
  assumes "authenticate lib cfg challenge payload s = (Inr (token, v), s1)" "length (al_token_bytes lib) = 32"
    "cookie_name_ok (aa_cookie_name cfg)" "mutation_origin_ok cfg q" "aq_cookie q = Some (aa_cookie_name cfg @ ''='' @ token)"
    "clk < pg_of_js (al_now lib + aa_idle_ttl cfg)"
  shows "\<exists>w s2. admin_can_activate (al_digest lib) cfg q clk s1 = (Inr w, s2) \<and> av_id w = av_id v \<and>
    av_user_id w = av_user_id v \<and> av_credential_id w = av_credential_id v \<and> av_role w = av_role v"
proof -
  obtain tx n where tn: "new_session_of lib cfg = (tx, n)" by (cases "new_session_of lib cfg")
  have n: "token = tx" "\<exists>i k m multi backed ids t s0. complete_authentication i k m multi backed n ids t s0 = Inr (Some v, s1)"
    using assms(1) unfolding authenticate_def tn Let_def
    by (simp_all split: sum.splits prod.splits option.splits) metis
  have tx: "tx = base64url_encode (al_token_bytes lib)" "ns_token_hash n = al_digest lib tx"
    "ns_idle_expires_at n = al_now lib + aa_idle_ttl cfg"
    using tn by (auto simp: new_session_of_def Let_def)
  have "admin_token_ok token"
    using base64url_secret_ok [OF assms(2)] n(1) tx(1) by (simp add: admin_token_ok_def secret_ok_def)
  then have "read_admin_session_cookie (aq_cookie q) (aa_cookie_name cfg) = Some token"
    unfolding assms(5) by (rule read_own_cookie [OF assms(3)])
  moreover obtain w s2 where "use_session (ns_token_hash n) (aa_idle_ttl cfg) clk s1 = (Some w, s2)" "av_id w = av_id v"
    "av_user_id w = av_user_id v" "av_credential_id w = av_credential_id v" "av_role w = av_role v"
    using n(2) login_opens assms(6) tx(3) by metis
  ultimately show ?thesis using assms(4) n(1) tx(2) by (simp add: admin_can_activate_def)
qed

section \<open>An instance\<close>

definition sample_credential :: "uuid \<Rightarrow> string \<Rightarrow> credential_row" where
  "sample_credential i x = \<lparr> cr_id = i, cr_user_id = ''a'', cr_credential_id = x, cr_public_key = ''k'', cr_counter = 0,
     cr_multi_device = True, cr_backed_up = True, cr_transports = [], cr_aaguid = None, cr_name = [77], cr_created_at = 0,
     cr_last_used_at = None, cr_revoked_at = None \<rparr>"

definition sample_admin :: admin_state where
  "sample_admin = \<lparr> am_accounts = [\<lparr> ua_id = ''a'', ua_role = Superadmin, ua_phone_hash = ''h'', ua_phone_encrypted = ''e'',
       ua_banned = False, ua_deleted_at = None \<rparr>], am_bootstraps = [],
     am_challenges = [\<lparr> ac_id = ''q'', ac_purpose = Authentication, ac_hash = ''c'', ac_user_id = None, ac_bootstrap_id = None,
       ac_expires_at = 60000000, ac_consumed_at = None, ac_created_at = 0 \<rparr>],
     am_credentials = [sample_credential ''c1'' ''x1'', sample_credential ''c2'' ''x2''], am_sessions = [], am_events = [] \<rparr>"

definition sample_admin_library :: admin_library where
  "sample_admin_library = \<lparr> al_verify_registration = (\<lambda>_ _. None),
     al_verify_authentication = (\<lambda>r expected c. if expected ''c'' then Some \<lparr> ai_verified = True, ai_user_verified = True,
       ai_new_counter = 7, ai_multi_device = True, ai_backed_up = True \<rparr> else None),
     al_challenge = ''c'', al_digest = id, al_stringify = (\<lambda>_. ''{}''), al_normalize = id,
     al_token_bytes = replicate 32 CHR ''z'', al_ids = \<lparr> di_credential = ''c3'', di_session = ''s1'', di_event = ''e1'' \<rparr>,
     al_now = 1000, al_clock = (\<lambda>_. 1000000) \<rparr>"

definition sample_admin_config :: admin_auth_config where
  "sample_admin_config = \<lparr> aa_challenge_ttl = 60000, aa_idle_ttl = 1800000, aa_absolute_ttl = 28800000, aa_recent = 600000,
     aa_origin = ''https://admin'', aa_cookie_name = ''admin'', aa_secure = True \<rparr>"

definition sample_assertion :: "(string \<times> json) list" where
  "sample_assertion = [(''id'', Json_string ''x1''), (''rawId'', Json_string ''x1''), (''type'', Json_string ''public-key''),
     (''response'', Json_object [(''clientDataJSON'', Json_string ''d''), (''authenticatorData'', Json_string ''d''),
       (''signature'', Json_string ''s'')]), (''clientExtensionResults'', Json_object [])]"

lemma sample_admin_facts: "admin_ok sample_admin" "holds_credential ''a'' sample_admin"
  by code_simp+

lemma admin_challenge_once_witness:
  "\<exists>s1. consume_challenge ''q'' Authentication None None 5 sample_admin = (Some ''c'', s1) \<and>
     fst (consume_challenge ''q'' Authentication None None 6 s1) = None"
proof -
  obtain r s1 where c: "consume_challenge ''q'' Authentication None None 5 sample_admin = (r, s1)" by fastforce
  have "fst (consume_challenge ''q'' Authentication None None 5 sample_admin) = Some ''c''" by code_simp
  then have r: "r = Some ''c''" using c by simp
  show ?thesis using admin_challenge_once [OF sample_admin_facts(1) c [unfolded r] rtranclp.rtrancl_refl] c r by blast
qed

definition sample_login :: "(failure + string \<times> active_session) \<times> admin_state" where
  "sample_login = authenticate sample_admin_library sample_admin_config ''q'' sample_assertion sample_admin"

definition signed_in :: admin_state where
  "signed_in = snd sample_login"

lemma sample_login_ok:
  "fst sample_login = Inr (base64url_encode (replicate 32 CHR ''z''), \<lparr> av_id = ''s1'', av_user_id = ''a'', av_credential_id = ''c1'',
     av_role = Superadmin, av_authenticated_at = 1000000, av_expires_at = 1801000000 \<rparr>)"
  by code_simp

lemma admin_sign_in_opens_guard_witness:
  "\<exists>w s2. admin_can_activate id sample_admin_config \<lparr> aq_method = ''GET'', aq_origin = None,
     aq_cookie = Some (''admin='' @ base64url_encode (replicate 32 CHR ''z'')) \<rparr> 1800000000 signed_in = (Inr w, s2) \<and> av_user_id w = ''a''"
proof -
  let ?q = "\<lparr> aq_method = ''GET'', aq_origin = None, aq_cookie = Some (''admin='' @ base64url_encode (replicate 32 CHR ''z'')) \<rparr>"
  have login: "authenticate sample_admin_library sample_admin_config ''q'' sample_assertion sample_admin =
      (Inr (base64url_encode (replicate 32 CHR ''z''), \<lparr> av_id = ''s1'', av_user_id = ''a'', av_credential_id = ''c1'',
         av_role = Superadmin, av_authenticated_at = 1000000, av_expires_at = 1801000000 \<rparr>), signed_in)"
    using sample_login_ok unfolding sample_login_def signed_in_def by (metis prod.collapse)
  have pre: "length (al_token_bytes sample_admin_library) = 32" "cookie_name_ok (aa_cookie_name sample_admin_config)"
    "mutation_origin_ok sample_admin_config ?q"
    "aq_cookie ?q = Some (aa_cookie_name sample_admin_config @ ''='' @ base64url_encode (replicate 32 CHR ''z''))"
    "1800000000 < pg_of_js (al_now sample_admin_library + aa_idle_ttl sample_admin_config)"
    by (simp add: sample_admin_library_def, code_simp, simp add: mutation_origin_ok_def, simp add: sample_admin_config_def, code_simp)
  from admin_sign_in_opens_guard [OF login pre] show ?thesis by (auto simp: sample_admin_library_def)
qed

text \<open>A sign-in with one credential, a use of the session, and the revocation of the other credential.\<close>

definition first_session :: new_admin_session where
  "first_session = \<lparr> ns_token_hash = ''t'', ns_idle_expires_at = 100, ns_absolute_expires_at = 200 \<rparr>"

definition ids_one :: admin_ids where
  "ids_one = \<lparr> di_credential = ''c3'', di_session = ''s1'', di_event = ''e1'' \<rparr>"

lemma sample_path:
  obtains v s1 w s2 s3 where
    "complete_authentication ''c1'' 0 1 True True first_session ids_one 5 sample_admin = Inr (Some v, s1)"
    "use_session (ns_token_hash first_session) 1800000 99999 s1 = (Some w, s2)"
    "revoke_credential ''a'' ''c2'' ''s1'' ''e'' 7 s1 = Inr (Revoked, s3)"
proof -
  have "case complete_authentication ''c1'' 0 1 True True first_session ids_one 5 sample_admin of
      Inr (Some v, s1) \<Rightarrow> fst (use_session (ns_token_hash first_session) 1800000 99999 s1) \<noteq> None \<and>
        (case revoke_credential ''a'' ''c2'' ''s1'' ''e'' 7 s1 of Inr (r, _) \<Rightarrow> r = Revoked | _ \<Rightarrow> False)
    | _ \<Rightarrow> False" by code_simp
  then obtain v s1 where l: "complete_authentication ''c1'' 0 1 True True first_session ids_one 5 sample_admin = Inr (Some v, s1)"
    and u: "fst (use_session (ns_token_hash first_session) 1800000 99999 s1) \<noteq> None"
    and c: "case revoke_credential ''a'' ''c2'' ''s1'' ''e'' 7 s1 of Inr (r, _) \<Rightarrow> r = Revoked | _ \<Rightarrow> False"
    by (cases "complete_authentication ''c1'' 0 1 True True first_session ids_one 5 sample_admin") (auto split: option.splits)
  obtain s3 where "revoke_credential ''a'' ''c2'' ''s1'' ''e'' 7 s1 = Inr (Revoked, s3)"
    using c by (cases "revoke_credential ''a'' ''c2'' ''s1'' ''e'' 7 s1") auto
  moreover obtain w s2 where "use_session (ns_token_hash first_session) 1800000 99999 s1 = (Some w, s2)"
    using u by (cases "use_session (ns_token_hash first_session) 1800000 99999 s1") auto
  ultimately show thesis using that l by blast
qed

lemma revoked_credential_stays_out_witness:
  "\<exists>s s1. revoke_credential ''a'' ''c2'' ''s1'' ''e'' 7 s = Inr (Revoked, s1) \<and>
     (\<nexists>c. active_credential_by_external_id ''x2'' s1 = Some c \<and> cr_id c = ''c2'')"
proof -
  obtain v s1 w s2 s3 where r: "revoke_credential ''a'' ''c2'' ''s1'' ''e'' 7 s1 = Inr (Revoked, s3)" by (rule sample_path)
  show ?thesis using revoked_credential_stays_out [OF r rtranclp.rtrancl_refl] r by blast
qed

lemma admin_session_ends_witness:
  "\<exists>v s1 w s2. complete_authentication ''c1'' 0 1 True True first_session ids_one 5 sample_admin = Inr (Some v, s1) \<and>
     use_session (ns_token_hash first_session) 1800000 99999 s1 = (Some w, s2) \<and> av_expires_at w \<le> 200000"
proof -
  obtain v s1 w s2 s3 where l: "complete_authentication ''c1'' 0 1 True True first_session ids_one 5 sample_admin = Inr (Some v, s1)"
    and u: "use_session (ns_token_hash first_session) 1800000 99999 s1 = (Some w, s2)" by (rule sample_path)
  from admin_session_ends [OF l rtranclp.rtrancl_refl u] have "av_expires_at w \<le> 200000"
    by (simp add: first_session_def pg_of_js_def)
  then show ?thesis using l u by blast
qed

lemma admin_keeps_a_credential_witness:
  "\<exists>v s1 s2. complete_authentication ''c1'' 0 1 True True first_session ids_one 5 sample_admin = Inr (Some v, s1) \<and>
     revoke_credential ''a'' ''c2'' ''s1'' ''e'' 7 s1 = Inr (Revoked, s2) \<and> admin_ok s2 \<and> holds_credential ''a'' s2"
proof -
  obtain v s1 w s0 s2 where l: "complete_authentication ''c1'' 0 1 True True first_session ids_one 5 sample_admin = Inr (Some v, s1)"
    and r: "revoke_credential ''a'' ''c2'' ''s1'' ''e'' 7 s1 = Inr (Revoked, s2)" by (rule sample_path)
  have "admin_step\<^sup>*\<^sup>* sample_admin s2" using do_login [OF l] do_revoke [OF r] by (meson rtranclp.rtrancl_into_rtrancl rtranclp.rtrancl_refl)
  from admin_keeps_a_credential [OF this sample_admin_facts] l r show ?thesis by blast
qed

end
