(* ===== verification/Privacy.thy ===== *)
theory Privacy
  imports Match_Service Users_Service Sessions
begin

text \<open>
  The rights of a data subject: \<open>src/privacy/privacy.repository.ts\<close> (requests, blocks, the access log),
  \<open>erasure-enqueue.ts\<close>, \<open>acceptErasure\<close> of \<open>src/users/users.repository.ts\<close> and the services above
  them. A page is given by its cursor as a key (time and id): the listings select the time as text with its
  microseconds, so the cursor is exactly the key of a row. Ids drawn by the database are arguments.
\<close>

section \<open>The access log\<close>

definition log_access ::
  "uuid \<Rightarrow> uuid \<Rightarrow> uuid option \<Rightarrow> string \<Rightarrow> access_action \<Rightarrow> string \<Rightarrow> pg_time \<Rightarrow> privacy_tables \<Rightarrow> privacy_tables" where
  "log_access i accessed accessor role act reason now t =
     t\<lparr>data_access_log := data_access_log t @ [\<lparr> al_id = i, al_accessed_user_id = accessed, al_accessor_id = accessor,
       al_accessor_role = role, al_action = act, al_reason = Some reason, al_accessed_at = now \<rparr>]\<rparr>"

definition on_privacy :: "(privacy_tables \<Rightarrow> privacy_tables) \<Rightarrow> db \<Rightarrow> db" where
  "on_privacy f d = d\<lparr>privacy := f (privacy d)\<rparr>"

definition record_self_export :: "uuid \<Rightarrow> uuid \<Rightarrow> pg_time \<Rightarrow> db \<Rightarrow> db" where
  "record_self_export i u now d =
     on_privacy (log_access i u (Some u) ''user'' Export_data ''Self-service data export'' now) d"

definition access_log_key :: "access_log_row \<Rightarrow> pg_time \<times> uuid" where
  "access_log_key r = (al_accessed_at r, al_id r)"

text \<open>ORDER BY .. DESC LIMIT n OFFSET k below a cursor.\<close>

definition offset_page :: "('r \<Rightarrow> 'k::linorder) \<Rightarrow> nat \<Rightarrow> nat \<Rightarrow> 'k option \<Rightarrow> 'r list \<Rightarrow> 'r list" where
  "offset_page key n k c t = drop k (keyset_page key (n + k) c t)"

definition access_logs :: "uuid \<Rightarrow> nat \<Rightarrow> nat \<Rightarrow> (pg_time \<times> uuid) option \<Rightarrow> db \<Rightarrow> access_log_row list" where
  "access_logs u limit offset cursor d =
     offset_page access_log_key limit offset cursor
       (filter (\<lambda>r. al_accessed_user_id r = u) (data_access_log (privacy d)))"

section \<open>Requests\<close>

definition open_request :: "data_request_row \<Rightarrow> bool" where
  "open_request r \<longleftrightarrow> dr_status r = Dr_pending \<or> dr_status r = Dr_in_progress"

definition same_open_request :: "uuid \<Rightarrow> data_request_type \<Rightarrow> data_request_row \<Rightarrow> bool" where
  "same_open_request u ty r \<longleftrightarrow> dr_user_id r = u \<and> dr_type r = ty \<and> open_request r"

definition new_request :: "uuid \<Rightarrow> uuid \<Rightarrow> data_request_type \<Rightarrow> data_request_status \<Rightarrow> pg_time \<Rightarrow> data_request_row" where
  "new_request i u ty s now = \<lparr> dr_id = i, dr_user_id = u, dr_type = ty, dr_status = s, dr_requested_at = now,
     dr_completed_at = None, dr_handled_by = None, dr_notes = None \<rparr>"

text \<open>The primary key and \<open>idx_dsr_one_open_per_type\<close>.\<close>

definition request_rows_ok :: "data_request_row list \<Rightarrow> bool" where
  "request_rows_ok t \<longleftrightarrow> distinct (map dr_id t) \<and> unique_where open_request (\<lambda>r. (dr_user_id r, dr_type r)) t"

definition write_requests :: "data_request_row list \<Rightarrow> db \<Rightarrow> sql_error + db" where
  "write_requests t d =
     (if request_rows_ok t then Inr (on_privacy (data_subject_request_update (\<lambda>_. t)) d) else Inl Unique_violation)"

text \<open>\<open>trg_live_dsr\<close> runs before the conflict is seen; \<open>None\<close> when an open request of the type exists.\<close>

definition create_request ::
  "uuid \<Rightarrow> uuid \<Rightarrow> data_request_type \<Rightarrow> pg_time \<Rightarrow> db \<Rightarrow> sql_error + data_request_row option \<times> db" where
  "create_request i u ty now d =
     (let t = data_subject_request (privacy d); r = new_request i u ty Dr_pending now in
      if account_deleted u d then Inl Live_account_trigger
      else if sql_exists (same_open_request u ty) t then Inr (None, d)
      else and_then (write_requests (t @ [r]) d) (\<lambda>d1. Inr (Some r, d1)))"

definition request_key_of :: "data_request_row \<Rightarrow> pg_time \<times> uuid" where
  "request_key_of r = (dr_requested_at r, dr_id r)"

definition requests_for_user :: "uuid \<Rightarrow> db \<Rightarrow> data_request_row list" where
  "requests_for_user u d =
     rev (sort_key request_key_of (filter (\<lambda>r. dr_user_id r = u) (data_subject_request (privacy d))))"

text \<open>What an administrator sees of an erasure: the checkpoint and its event.\<close>

record erasure_view =
  ev_step :: erasure_step
  ev_updated_at :: pg_time
  ev_event_id :: "uuid option"
  ev_status :: "outbox_status option"
  ev_attempts :: nat
  ev_last_error_code :: "string option"

definition erasure_event :: "uuid \<Rightarrow> db \<Rightarrow> outbox_row option" where
  "erasure_event i d = sql_first (\<lambda>e. oe_aggregate_id e = i \<and> oe_event_type e = Account_erase) (outbox_event d)"

definition erasure_view_of :: "uuid \<Rightarrow> db \<Rightarrow> erasure_view option" where
  "erasure_view_of i d =
     map_option (\<lambda>x. let e = erasure_event i d in
         \<lparr> ev_step = ea_step x, ev_updated_at = ea_updated_at x, ev_event_id = map_option oe_id e,
           ev_status = map_option oe_status e, ev_attempts = (case e of None \<Rightarrow> 0 | Some v \<Rightarrow> oe_attempts v),
           ev_last_error_code = (case e of None \<Rightarrow> None | Some v \<Rightarrow> oe_last_error_code v) \<rparr>)
       (sql_first (\<lambda>x. ea_request_id x = i) (account_erasure (privacy d)))"

definition requests_for_admin ::
  "data_request_status option \<Rightarrow> nat \<Rightarrow> nat \<Rightarrow> (pg_time \<times> uuid) option \<Rightarrow> db
    \<Rightarrow> (data_request_row \<times> erasure_view option) list" where
  "requests_for_admin s limit offset cursor d =
     map (\<lambda>r. (r, erasure_view_of (dr_id r) d))
       (offset_page request_key_of limit offset cursor
         (filter (\<lambda>r. case s of None \<Rightarrow> True | Some x \<Rightarrow> dr_status r = x) (data_subject_request (privacy d))))"

section \<open>Accepting an erasure\<close>

text \<open>\<open>trg_erase_mobile_sessions\<close>: the families go, with their tokens and devices; \<open>trg_erase_notifications\<close>.\<close>

definition erase_mobile_sessions :: "uuid \<Rightarrow> db \<Rightarrow> db" where
  "erase_mobile_sessions u d =
     (let gone = (\<lambda>s. sql_exists (\<lambda>f. rf_user_id f = u \<and> rf_id f = s) (refresh_token_family d));
          d1 = d\<lparr>refresh_token_family := sql_delete (\<lambda>f. rf_user_id f = u) (refresh_token_family d),
            refresh_tokens := sql_delete (\<lambda>r. rt_user_id r = u \<and> gone (rt_family_id r)) (refresh_tokens d)\<rparr>
      in delete_devices (\<lambda>v. dt_user_id v = u \<and> (case dt_session_id v of None \<Rightarrow> False | Some s \<Rightarrow> gone s)) d1)"

definition delete_notifications :: "(notification_row \<Rightarrow> bool) \<Rightarrow> db \<Rightarrow> db" where
  "delete_notifications p d =
     (let gone = (\<lambda>i. sql_exists (\<lambda>n. p n \<and> no_id n = i) (notification d)) in
      d\<lparr>notification := sql_delete p (notification d),
        notification_push_delivery := sql_delete (\<lambda>r. gone (pd_notification_id r)) (notification_push_delivery d)\<rparr>)"

text \<open>UPDATE user_account SET deleted_at = COALESCE(deleted_at, ..) with its two triggers.\<close>

definition freeze_account :: "uuid \<Rightarrow> pg_time \<Rightarrow> db \<Rightarrow> db" where
  "freeze_account u clk d =
     (if sql_exists (\<lambda>a. ua_id a = u) (user_account d)
      then delete_notifications (\<lambda>n. no_user_id n = u) (erase_mobile_sessions u
        (d\<lparr>user_account := sql_update (\<lambda>a. ua_id a = u)
          (\<lambda>a. a\<lparr>ua_deleted_at := (case ua_deleted_at a of None \<Rightarrow> Some clk | Some t \<Rightarrow> Some t)\<rparr>) (user_account d)\<rparr>))
      else d)"

text \<open>What a transaction that accepts an erasure draws: the ids of the request and of the event, \<open>now()\<close>, the clock.\<close>

record accept_env =
  ce_request_id :: uuid
  ce_event_id :: uuid
  ce_now :: pg_time
  ce_clock :: pg_time

text \<open>INSERT INTO data_subject_request .. ON CONFLICT DO UPDATE SET status = 'in_progress' RETURNING id.\<close>

definition open_erasure_request :: "accept_env \<Rightarrow> uuid \<Rightarrow> db \<Rightarrow> sql_error + uuid \<times> db" where
  "open_erasure_request env u d =
     (let t = data_subject_request (privacy d) in
      if account_deleted u d then Inl Live_account_trigger
      else case sql_first (same_open_request u Erasure_request) t of
        Some r \<Rightarrow> and_then (write_requests (sql_update (\<lambda>x. dr_id x = dr_id r) (\<lambda>x. x\<lparr>dr_status := Dr_in_progress\<rparr>) t) d)
          (\<lambda>d1. Inr (dr_id r, d1))
      | None \<Rightarrow> and_then (write_requests (t @ [new_request (ce_request_id env) u Erasure_request Dr_in_progress (ce_now env)]) d)
          (\<lambda>d1. Inr (ce_request_id env, d1)))"

text \<open>INSERT INTO account_erasure: \<open>account_erasure_pkey\<close>, \<open>account_erasure_user_id_key\<close>.\<close>

definition insert_erasure :: "uuid \<Rightarrow> uuid \<Rightarrow> pg_time \<Rightarrow> db \<Rightarrow> sql_error + db" where
  "insert_erasure i u clk d =
     (if sql_exists (\<lambda>x. ea_request_id x = i \<or> ea_user_id x = u) (account_erasure (privacy d)) then Inl Unique_violation
      else Inr (on_privacy (\<lambda>t. t\<lparr>account_erasure := account_erasure t @ [\<lparr> ea_request_id = i, ea_user_id = u,
        ea_step = Step_stripe, ea_updated_at = clk, ea_completed_at = None \<rparr>]\<rparr>) d))"

definition erase_event_of :: "uuid \<Rightarrow> new_outbox_event" where
  "erase_event_of i = \<lparr> ne_event_type = Account_erase, ne_aggregate_id = i, ne_payload = None \<rparr>"

definition enqueue_account_erasure ::
  "accept_env \<Rightarrow> uuid \<Rightarrow> uuid option \<Rightarrow> db \<Rightarrow> sql_error + uuid \<times> db" where
  "enqueue_account_erasure env u supplied d =
     (case sql_first (\<lambda>x. ea_user_id x = u) (account_erasure (privacy d)) of
        Some x \<Rightarrow>
          if (case supplied of None \<Rightarrow> False | Some i \<Rightarrow> ea_request_id x \<noteq> i)
          then Inl (Thrown ''erasure_request_conflict'') else Inr (ea_request_id x, d)
      | None \<Rightarrow>
          and_then (case supplied of Some i \<Rightarrow> Inr (i, d) | None \<Rightarrow> open_erasure_request env u d) (\<lambda>(i, d1).
          and_then (insert_erasure i u (ce_clock env) d1) (\<lambda>d2.
          and_then (enqueue (ce_event_id env) (erase_event_of i) (ce_now env) d2) (\<lambda>(_, d3).
          Inr (i, (freeze_account u (ce_clock env) d3)\<lparr>account_deletion_token :=
            sql_delete (\<lambda>k. dk_user_id k = u) (account_deletion_token d3)\<rparr>)))))"

definition accept_erasure ::
  "accept_env \<Rightarrow> uuid \<Rightarrow> uuid \<Rightarrow> string \<Rightarrow> js_time \<Rightarrow> db \<Rightarrow> sql_error + uuid option \<times> db" where
  "accept_erasure env u i hash now d =
     (let p = (\<lambda>k. dk_id k = i \<and> dk_user_id k = u \<and> dk_token_hash k = hash \<and> pg_of_js now < dk_expires_at k) in
      if \<not> is_live u d then Inr (None, d)
      else if sql_count p (account_deletion_token d) \<noteq> 1 then Inr (None, d)
      else and_then (enqueue_account_erasure env u None
          (d\<lparr>account_deletion_token := sql_delete p (account_deletion_token d)\<rparr>))
        (\<lambda>(r, d1). Inr (Some r, d1)))"

text \<open>The identifier before the colon of a trimmed token; the hash is that of the token as it was sent.\<close>

definition parse_deletion_token :: "string \<Rightarrow> uuid option" where
  "parse_deletion_token v =
     (case split_colon (js_trim v) of
        [i, s] \<Rightarrow> if uuid_v4 i \<and> length s = 43 \<and> list_all (\<lambda>c. c \<in> set b64url_chars) s then Some i else None
      | _ \<Rightarrow> None)"

definition confirm_anonymize ::
  "(string \<Rightarrow> string) \<Rightarrow> accept_env \<Rightarrow> uuid \<Rightarrow> string \<Rightarrow> js_time \<Rightarrow> db \<Rightarrow> (failure + uuid) \<times> db" where
  "confirm_anonymize sha256 env u token now d =
     (let refused = Inl (Api (api_error 401 ''invalid_or_expired_deletion_token'')) in
      case parse_deletion_token token of
        None \<Rightarrow> (refused, d)
      | Some i \<Rightarrow>
          (case accept_erasure env u i (sha256 token) now d of
             Inl e \<Rightarrow> (Inl (Unhandled e), d)
           | Inr (None, d1) \<Rightarrow> (refused, d1)
           | Inr (Some r, d1) \<Rightarrow> (Inr r, d1)))"

section \<open>The decision of an administrator\<close>

datatype request_decision = Request_updated | Erasure_scheduled | Request_not_found | Invalid_transition

definition transition_allowed :: "data_request_status \<Rightarrow> data_request_status \<Rightarrow> bool" where
  "transition_allowed s s' \<longleftrightarrow>
     (if s = Dr_pending then s' = Dr_in_progress \<or> s' = Dr_rejected
      else s = Dr_in_progress \<and> (s' = Dr_completed \<or> s' = Dr_rejected))"

fun request_type_text :: "data_request_type \<Rightarrow> string" where
  "request_type_text Access_request = ''access''"
| "request_type_text Erasure_request = ''erasure''"
| "request_type_text Portability_request = ''portability''"
| "request_type_text Rectification_request = ''rectification''"
| "request_type_text Restriction_request = ''restriction''"
| "request_type_text Objection_request = ''objection''"

fun request_status_text :: "data_request_status \<Rightarrow> string" where
  "request_status_text Dr_pending = ''pending''"
| "request_status_text Dr_in_progress = ''in_progress''"
| "request_status_text Dr_completed = ''completed''"
| "request_status_text Dr_rejected = ''rejected''"

definition decide_row ::
  "data_request_status \<Rightarrow> uuid \<Rightarrow> string option \<Rightarrow> pg_time \<Rightarrow> data_request_row \<Rightarrow> data_request_row" where
  "decide_row s admin notes clk r = r\<lparr>dr_status := s, dr_handled_by := Some admin, dr_notes := notes,
     dr_completed_at := (if s = Dr_completed \<or> s = Dr_rejected then Some clk else None)\<rparr>"

definition update_request ::
  "accept_env \<Rightarrow> uuid \<Rightarrow> uuid \<Rightarrow> data_request_status \<Rightarrow> uuid \<Rightarrow> string \<Rightarrow> string option \<Rightarrow> db
    \<Rightarrow> sql_error + request_decision \<times> db" where
  "update_request env log_id i s admin role notes d =
     (case sql_first (\<lambda>r. dr_id r = i) (data_subject_request (privacy d)) of
        None \<Rightarrow> Inr (Request_not_found, d)
      | Some r \<Rightarrow>
          if sql_exists (\<lambda>x. ea_request_id x = i) (account_erasure (privacy d))
          then Inr (if dr_status r = Dr_in_progress \<and> s = Dr_completed then Erasure_scheduled else Invalid_transition, d)
          else if \<not> transition_allowed (dr_status r) s then Inr (Invalid_transition, d)
          else
            let scheduling = dr_type r = Erasure_request \<and> s = Dr_completed;
                stored = (if scheduling then Dr_in_progress else s);
                reason = (if scheduling then ''DSR erasure scheduled''
                  else ''DSR '' @ request_type_text (dr_type r) @ '' moved to '' @ request_status_text s)
            in and_then (write_requests (sql_update (\<lambda>x. dr_id x = i) (decide_row stored admin notes (ce_clock env))
                  (data_subject_request (privacy d))) d) (\<lambda>d1.
               let d2 = on_privacy (log_access log_id (dr_user_id r) (Some admin) role Admin_review_dsr reason (ce_now env)) d1 in
               if scheduling
               then and_then (enqueue_account_erasure env (dr_user_id r) (Some i) d2) (\<lambda>(_, d3). Inr (Erasure_scheduled, d3))
               else Inr (Request_updated, d2)))"

section \<open>Blocks\<close>

text \<open>The first name of an erased account is not shown. ORDER BY created_at DESC.\<close>

definition blocked_users :: "uuid \<Rightarrow> db \<Rightarrow> (uuid \<times> string option \<times> pg_time) list" where
  "blocked_users u d =
     map (\<lambda>b. (ub_blocked b, if is_live (ub_blocked b) d
          then map_option pr_firstname (sql_first (\<lambda>p. pr_user_id p = ub_blocked b) (user_profile d)) else None,
        ub_created_at b))
       (rev (sort_key ub_created_at (filter (\<lambda>b. ub_blocker b = u) (user_block d))))"

section \<open>The service\<close>

definition create_data_request ::
  "uuid \<Rightarrow> uuid \<Rightarrow> data_request_type \<Rightarrow> pg_time \<Rightarrow> db \<Rightarrow> (failure + data_request_row) \<times> db" where
  "create_data_request i u ty now d =
     (case create_request i u ty now d of
        Inl e \<Rightarrow> (Inl (Unhandled e), d)
      | Inr (None, d1) \<Rightarrow> (Inl (Api (api_error 409 ''data_request_already_open'')), d1)
      | Inr (Some r, d1) \<Rightarrow> (Inr r, d1))"

definition mixed_pagination :: "nat \<Rightarrow> 'c option \<Rightarrow> bool" where
  "mixed_pagination offset cursor \<longleftrightarrow> cursor \<noteq> None \<and> offset \<noteq> 0"

definition data_requests_page ::
  "data_request_status option \<Rightarrow> nat \<Rightarrow> nat \<Rightarrow> (pg_time \<times> uuid) option \<Rightarrow> db
    \<Rightarrow> failure + (data_request_row \<times> erasure_view option) list \<times> (pg_time \<times> uuid) option" where
  "data_requests_page s limit offset cursor d =
     (if mixed_pagination offset cursor then Inl (Api (api_error 400 ''invalid_cursor''))
      else Inr (cursor_page (requests_for_admin s (limit + 1) offset cursor d) limit (request_key_of \<circ> fst)))"

definition access_logs_page ::
  "uuid \<Rightarrow> nat \<Rightarrow> nat \<Rightarrow> (pg_time \<times> uuid) option \<Rightarrow> db
    \<Rightarrow> failure + access_log_row list \<times> (pg_time \<times> uuid) option" where
  "access_logs_page u limit offset cursor d =
     (if mixed_pagination offset cursor then Inl (Api (api_error 400 ''invalid_cursor''))
      else Inr (cursor_page (access_logs u (limit + 1) offset cursor d) limit access_log_key))"

definition decide_request ::
  "accept_env \<Rightarrow> uuid \<Rightarrow> uuid \<Rightarrow> data_request_status \<Rightarrow> uuid \<Rightarrow> string \<Rightarrow> string option \<Rightarrow> db
    \<Rightarrow> (failure + request_decision) \<times> db" where
  "decide_request env log_id i s admin role notes d =
     (case update_request env log_id i s admin role notes d of
        Inl e \<Rightarrow> (Inl (Unhandled e), d)
      | Inr (Request_not_found, d1) \<Rightarrow> (Inl (Api (api_error 404 ''data_request_not_found'')), d1)
      | Inr (Invalid_transition, d1) \<Rightarrow> (Inl (Api (api_error 409 ''invalid_data_request_transition'')), d1)
      | Inr (r, d1) \<Rightarrow> (Inr r, d1))"

text \<open>The ids are compared as the texts of the request; the database reads them as UUIDs. The value lists the users
  whose clients are told to reload their matches.\<close>

definition block_user_service ::
  "uuid \<Rightarrow> string \<Rightarrow> pg_time \<Rightarrow> pg_time \<Rightarrow> db \<Rightarrow> (failure + string list) \<times> db" where
  "block_user_service u v now clk d =
     (if u = v then (Inl (Api (api_error 400 ''invalid_block_request'')), d)
      else case block_user u (pg_uuid v) now clk d of
        Inl e \<Rightarrow> (Inl (Unhandled e), d)
      | Inr (d1, False) \<Rightarrow> (Inl (Api (api_error 404 ''user_not_found'')), d1)
      | Inr (d1, True) \<Rightarrow> (Inr [u, v], d1))"

definition unblock_user_service :: "uuid \<Rightarrow> string \<Rightarrow> db \<Rightarrow> string list \<times> db" where
  "unblock_user_service u v d = ([u, v], unblock_user u (pg_uuid v) d)"

text \<open>An account that names itself in capitals passes the first check; the CHECK of the table then raises.\<close>

lemma uppercase_self_block_fails:
  assumes "is_live u d" "v \<noteq> u" "pg_uuid v = u" "\<not> account_deleted u d"
  shows "block_user_service u v now clk d = (Inl (Unhandled Check_violation), d)"
  using assms by (auto simp: block_user_service_def block_user_def is_live_def live_account_def)

end
