(* ===== verification/Erasure.thy ===== *)
theory Erasure
  imports Privacy Photo_Service Billing_Service Admin_Auth Discovery
begin

text \<open>
  The erasure of an account: \<open>src/privacy/erasure.repository.ts\<close> and \<open>erasure.service.ts\<close>, with
  \<open>fct_anonymize_user\<close> and \<open>fct_cleanup_billing_identity\<close> of the database. A worker that holds the event
  \<open>account.erase\<close> runs one step per call; the checkpoint is the row of \<open>account_erasure\<close>. The state is what an
  erasure touches: the database, the stored objects, the calls made to Stripe and the tables of administrators.
\<close>

section \<open>The steps\<close>

text \<open>The steps in their order: a checkpoint never moves down.\<close>

fun step_index :: "erasure_step \<Rightarrow> nat" where
  "step_index Step_stripe = 0"
| "step_index Step_photos = 1"
| "step_index Step_swipes = 2"
| "step_index Step_postgres = 3"
| "step_index Step_completed = 4"

lemma step_index_inj: "step_index a = step_index b \<Longrightarrow> a = b"
  by (cases a; cases b) simp_all

instantiation erasure_step :: linorder
begin

definition less_eq_erasure_step :: "erasure_step \<Rightarrow> erasure_step \<Rightarrow> bool" where
  "less_eq_erasure_step a b \<longleftrightarrow> step_index a \<le> step_index b"

definition less_erasure_step :: "erasure_step \<Rightarrow> erasure_step \<Rightarrow> bool" where
  "less_erasure_step a b \<longleftrightarrow> step_index a < step_index b"

instance
  by standard (auto simp: less_eq_erasure_step_def less_erasure_step_def intro: step_index_inj)

end

fun step_text :: "erasure_step \<Rightarrow> string" where
  "step_text Step_stripe = ''stripe''"
| "step_text Step_photos = ''photos''"
| "step_text Step_swipes = ''swipes''"
| "step_text Step_postgres = ''postgres''"
| "step_text Step_completed = ''completed''"

section \<open>The state\<close>

record site =
  st_world :: world
  st_calls :: "stripe_call list"
  st_admin :: admin_state

abbreviation site_db :: "site \<Rightarrow> db" where
  "site_db s \<equiv> wd_db (st_world s)"

definition set_site_db :: "db \<Rightarrow> site \<Rightarrow> site" where
  "set_site_db d s = s\<lparr>st_world := (st_world s)\<lparr>wd_db := d\<rparr>\<rparr>"

record claimed_erasure =
  cl_request_id :: uuid
  cl_user_id :: uuid
  cl_step :: erasure_step

definition claimed :: "uuid \<Rightarrow> uuid \<Rightarrow> db \<Rightarrow> claimed_erasure option" where
  "claimed i w d =
     (case sql_first (\<lambda>e. owned i w e \<and> oe_event_type e = Account_erase) (outbox_event d) of
        None \<Rightarrow> None
      | Some e \<Rightarrow> map_option (\<lambda>x. \<lparr> cl_request_id = ea_request_id x, cl_user_id = ea_user_id x, cl_step = ea_step x \<rparr>)
          (sql_first (\<lambda>x. ea_request_id x = oe_aggregate_id e) (account_erasure (privacy d))))"

section \<open>Anonymising\<close>

text \<open>What the transaction draws: \<open>now()\<close>, the clock, the id of the log entry, the random text of the new phone
  hash, the text that replaces messages, and PostgreSQL's addition of three years.\<close>

record anonymise_env =
  ay_now :: pg_time
  ay_clock :: pg_time
  ay_log_id :: uuid
  ay_random_hex :: string
  ay_removed :: string
  ay_plus_years :: "nat \<Rightarrow> pg_time \<Rightarrow> pg_time"

definition bury_phone :: "anonymise_env \<Rightarrow> uuid \<Rightarrow> db \<Rightarrow> db" where
  "bury_phone env u d =
     (case sql_first (\<lambda>a. ua_id a = u \<and> ua_banned a) (user_account d) of
        None \<Rightarrow> d
      | Some a \<Rightarrow>
          let h = ua_phone_hash a; expires = ay_plus_years env 3 (ay_now env) in
          d\<lparr>account_tombstone := (if sql_exists (\<lambda>t. at_phone_hash t = h) (account_tombstone d)
            then sql_update (\<lambda>t. at_phone_hash t = h) (\<lambda>t. t\<lparr>at_expires_at := max (at_expires_at t) expires\<rparr>) (account_tombstone d)
            else account_tombstone d @ [\<lparr> at_phone_hash = h, at_expires_at = expires \<rparr>])\<rparr>)"

text \<open>DELETE FROM user_profile: photos, upload requests, answers and the moderation cases of texts go with it
  (ON DELETE CASCADE; a row of these tables has its profile).\<close>

definition delete_profile :: "uuid \<Rightarrow> db \<Rightarrow> db" where
  "delete_profile u d =
     (let d1 = delete_photos (\<lambda>p. up_user_id p = u) d in
      d1\<lparr>user_profile := sql_delete (\<lambda>p. pr_user_id p = u) (user_profile d1),
        photo_upload_request := sql_delete (\<lambda>r. ur_user_id r = u) (photo_upload_request d1),
        text_moderation_case := sql_delete (\<lambda>c. tm_user_id c = u) (text_moderation_case d1)\<rparr>)"

definition delete_personal_rows :: "uuid \<Rightarrow> db \<Rightarrow> db" where
  "delete_personal_rows u d =
     d\<lparr>user_preferences := sql_delete (\<lambda>p. pf_user_id p = u) (user_preferences d),
       user_presence := sql_delete (\<lambda>p. pe_user_id p = u) (user_presence d),
       refresh_tokens := sql_delete (\<lambda>r. rt_user_id r = u) (refresh_tokens d),
       user_block := sql_delete (\<lambda>b. ub_blocker b = u \<or> ub_blocked b = u) (user_block d),
       user_subscription := sql_delete (\<lambda>r. us_user_id r = u) (user_subscription d),
       continuation_usage := sql_delete (\<lambda>r. cu_user_id r = u) (continuation_usage d)\<rparr>"

definition withdraw_consents :: "uuid \<Rightarrow> pg_time \<Rightarrow> db \<Rightarrow> db" where
  "withdraw_consents u now d =
     d\<lparr>user_consent := sql_update (\<lambda>c. uc_user_id c = u)
       (\<lambda>c. c\<lparr>uc_withdrawn_at := (case uc_withdrawn_at c of None \<Rightarrow> Some now | Some t \<Rightarrow> Some t)\<rparr>) (user_consent d)\<rparr>"

text \<open>\<open>fct_cleanup_billing_identity\<close>.\<close>

definition cleanup_billing :: "uuid \<Rightarrow> db \<Rightarrow> db" where
  "cleanup_billing u d =
     d\<lparr>billing_invoice := sql_update (\<lambda>i. bi_user_id i = Some u) (\<lambda>i. i\<lparr>bi_user_id := None\<rparr>) (billing_invoice d),
       stripe := (stripe d)\<lparr>billing_checkout_session := sql_delete (\<lambda>c. bs_user_id c = u) (billing_checkout_session (stripe d)),
         billing_customer := sql_delete (\<lambda>c. bc_user_id c = u) (billing_customer (stripe d))\<rparr>\<rparr>"

text \<open>The last UPDATE of the function: the phone is replaced, the triggers on the deletion and on the anonymisation run.\<close>

definition anonymise_account :: "anonymise_env \<Rightarrow> uuid \<Rightarrow> db \<Rightarrow> sql_error + db" where
  "anonymise_account env u d =
     (let t = sql_update (\<lambda>a. ua_id a = u)
        (\<lambda>a. a\<lparr>ua_phone_hash := ''anon_'' @ ay_random_hex env, ua_phone_encrypted := [], ua_banned := False\<rparr>) (user_account d)
      in if \<not> distinct (map ua_phone_hash t) then Inl Unique_violation
      else Inr (cleanup_billing u (freeze_account u (ay_now env) (d\<lparr>user_account := t\<rparr>))))"

definition anonymise_user :: "anonymise_env \<Rightarrow> uuid \<Rightarrow> db \<Rightarrow> sql_error + db" where
  "anonymise_user env u d =
     (let d1 = on_privacy (log_access (ay_log_id env) u None ''system'' System_anonymize ''Account erasure'' (ay_now env))
            (bury_phone env u d);
          d2 = delete_profile u (anonymise_matches u (ay_now env) (ay_removed env) d1);
          d3 = delete_notifications (\<lambda>n. no_user_id n = u)
            (delete_devices (\<lambda>v. dt_user_id v = u) (delete_personal_rows u d2))
      in anonymise_account env u (withdraw_consents u (ay_now env) d3))"

text \<open>The four tables of administrators, in the order of the code: challenges go with their enrollment token, sessions
  with their credential, and the history forgets the sessions and credentials that are gone.\<close>

definition delete_admin :: "uuid \<Rightarrow> admin_state \<Rightarrow> admin_state" where
  "delete_admin u s =
     (let own = (\<lambda>b. sql_exists (\<lambda>x. ab_user_id x = u \<and> Some (ab_id x) = b) (am_bootstraps s));
          cred = (\<lambda>c. sql_exists (\<lambda>x. cr_user_id x = u \<and> cr_id x = c) (am_credentials s));
          gone = (\<lambda>x. as_user_id x = u \<or> cred (as_credential_id x));
          sess = (\<lambda>i. sql_exists (\<lambda>x. gone x \<and> as_id x = i) (am_sessions s))
      in s\<lparr>am_sessions := sql_delete gone (am_sessions s),
        am_challenges := sql_delete (\<lambda>c. ac_user_id c = Some u \<or> own (ac_bootstrap_id c)) (am_challenges s),
        am_bootstraps := sql_delete (\<lambda>b. ab_user_id b = u) (am_bootstraps s),
        am_credentials := sql_delete (\<lambda>c. cr_user_id c = u) (am_credentials s),
        am_events := map (\<lambda>e. e\<lparr>ae_session_id := (case ae_session_id e of None \<Rightarrow> None | Some i \<Rightarrow> if sess i then None else Some i),
          ae_credential_id := (case ae_credential_id e of None \<Rightarrow> None | Some c \<Rightarrow> if cred c then None else Some c)\<rparr>) (am_events s)\<rparr>)"

section \<open>Moving the checkpoint\<close>

text \<open>The upload requests of the account, and the events that reconcile its billing.\<close>

definition drop_jobs :: "uuid \<Rightarrow> db \<Rightarrow> db" where
  "drop_jobs u d =
     (let d1 = d\<lparr>photo_upload_request := sql_delete (\<lambda>r. ur_user_id r = u) (photo_upload_request d)\<rparr>;
          d2 = delete_outbox (\<lambda>e. oe_event_type e = Billing_subscription_reconcile \<and> oe_aggregate_id e = u) d1
      in delete_outbox (\<lambda>e. oe_event_type e = Billing_customer_reconcile \<and>
           sql_exists (\<lambda>k. bs_id k = oe_aggregate_id e \<and> bs_user_id k = u) (billing_checkout_session (stripe d2))) d2)"

text \<open>The last step: what earlier steps had to remove must be gone; then everything else goes in one transaction.\<close>

definition finish_erasure :: "anonymise_env \<Rightarrow> claimed_erasure \<Rightarrow> site \<Rightarrow> sql_error + site" where
  "finish_erasure env c s =
     (let d = site_db s; u = cl_user_id c in
      if \<not> sql_exists (\<lambda>r. dr_id r = cl_request_id c \<and> dr_user_id r = u \<and> dr_status r = Dr_in_progress \<and>
            dr_type r = Erasure_request) (data_subject_request (privacy d)) \<or> cl_step c \<noteq> Step_postgres
      then Inl (Thrown ''erasure_invalid_state'')
      else if sql_exists (\<lambda>p. up_user_id p = u) (user_photo d) then Inl (Thrown ''erasure_photos_remaining'')
      else if sql_exists (\<lambda>x. sd_actor x = u \<or> sd_target x = u) (swipe_decision d)
      then Inl (Thrown ''erasure_swipes_remaining'')
      else
        and_then (anonymise_user env u (drop_jobs u d)) (\<lambda>d4.
        and_then (write_requests (sql_update (\<lambda>r. dr_id r = cl_request_id c \<and> dr_status r = Dr_in_progress)
            (\<lambda>r. r\<lparr>dr_status := Dr_completed, dr_completed_at := Some (ay_clock env)\<rparr>)
            (data_subject_request (privacy d4))) d4) (\<lambda>d5.
        Inr ((set_site_db d5 s)\<lparr>st_admin := (delete_admin u (st_admin s))\<lparr>am_accounts := user_account d5\<rparr>\<rparr>))))"

definition set_step :: "claimed_erasure \<Rightarrow> erasure_step \<Rightarrow> pg_time \<Rightarrow> db \<Rightarrow> db" where
  "set_step c nxt clk d = on_privacy (\<lambda>t. t\<lparr>account_erasure := sql_update
     (\<lambda>x. ea_request_id x = cl_request_id c \<and> ea_step x = cl_step c)
     (\<lambda>x. x\<lparr>ea_step := nxt, ea_updated_at := clk, ea_completed_at := (if nxt = Step_completed then Some clk else None)\<rparr>)
     (account_erasure t)\<rparr>) d"

definition release_event :: "uuid \<Rightarrow> uuid \<Rightarrow> pg_time \<Rightarrow> db \<Rightarrow> sql_error + db" where
  "release_event i w clk d =
     write_outbox (sql_update (\<lambda>e. oe_id e = i \<and> oe_locked_by e = Some w)
       (\<lambda>e. e\<lparr>oe_status := Oe_pending, oe_attempts := 0, oe_available_at := clk + 1000000, oe_locked_at := None,
          oe_locked_by := None, oe_last_error_code := None\<rparr>) (outbox_event d)) d"

definition advance ::
  "anonymise_env \<Rightarrow> uuid \<Rightarrow> uuid \<Rightarrow> claimed_erasure \<Rightarrow> erasure_step \<Rightarrow> site \<Rightarrow> sql_error + bool \<times> site" where
  "advance env i w c nxt s =
     (if \<not> sql_exists (owned i w) (outbox_event (site_db s)) then Inr (False, s)
      else if \<not> sql_exists (\<lambda>x. ea_request_id x = cl_request_id c \<and> ea_step x = cl_step c)
          (account_erasure (privacy (site_db s))) then Inr (False, s)
      else and_then (if nxt = Step_completed then finish_erasure env c s else Inr s) (\<lambda>s1.
        let d = set_step c nxt (ay_clock env) (site_db s1) in
        if nxt = Step_completed then Inr (True, set_site_db d s1)
        else and_then (release_event i w (ay_clock env) d) (\<lambda>d1. Inr (True, set_site_db d1 s1))))"

definition swipe_batch :: "uuid \<Rightarrow> nat \<Rightarrow> db \<Rightarrow> swipe_row list" where
  "swipe_batch u n d =
     take n (sql_page sd_target n (filter (\<lambda>x. sd_actor x = u) (swipe_decision d)) @
       sql_page sd_actor n (filter (\<lambda>x. sd_target x = u) (swipe_decision d)))"

definition delete_swipe_batch ::
  "pg_time \<Rightarrow> uuid \<Rightarrow> uuid \<Rightarrow> claimed_erasure \<Rightarrow> nat \<Rightarrow> db \<Rightarrow> sql_error + bool \<times> db" where
  "delete_swipe_batch clk i w c n d =
     (let doomed = (\<lambda>x. sql_exists (\<lambda>y. sd_actor x = sd_actor y \<and> sd_target x = sd_target y) (swipe_batch (cl_user_id c) n d));
          d1 = d\<lparr>swipe_decision := sql_delete doomed (swipe_decision d)\<rparr>;
          nxt = (if sql_count doomed (swipe_decision d) < n then Step_postgres else Step_swipes)
      in if cl_step c \<noteq> Step_swipes then Inl (Thrown ''erasure_invalid_state'')
      else if \<not> sql_exists (owned i w) (outbox_event d) then Inr (False, d)
      else if \<not> sql_exists (\<lambda>x. ea_request_id x = cl_request_id c \<and> ea_step x = Step_swipes) (account_erasure (privacy d))
      then Inr (False, d)
      else and_then (release_event i w clk (set_step c nxt clk d1)) (\<lambda>d2. Inr (True, d2)))"

definition defer_erasure :: "uuid \<Rightarrow> uuid \<Rightarrow> pg_time \<Rightarrow> db \<Rightarrow> sql_error + db" where
  "defer_erasure i w clk d =
     write_outbox (sql_update (owned i w)
       (\<lambda>e. e\<lparr>oe_status := Oe_pending, oe_attempts := oe_attempts e - 1, oe_available_at := clk + 5000000,
          oe_locked_at := None, oe_locked_by := None\<rparr>) (outbox_event d)) d"

end
