(* ===== verification/Erasure_Service.thy ===== *)
theory Erasure_Service
  imports Erasure Outbox_Worker
begin

text \<open>
  \<open>src/privacy/erasure.service.ts\<close>: one run of the handler of an \<open>account.erase\<close> event. The lock of the account
  is exclusive: \<open>acquired\<close> when no other operation of the account holds it; \<open>held\<close> says whether its connection is
  alive at each check. Reading the claim again under the lock reads the same rows, as nothing runs in between.
\<close>

record erase_env =
  xe_acquired :: bool
  xe_held :: "nat \<Rightarrow> bool"
  xe_stripe :: stripe_answers
  xe_billing :: billing_config
  xe_now :: js_time
  xe_clock :: pg_time
  xe_delete_ok :: "string \<Rightarrow> bool"
  xe_final :: anonymise_env

definition erasure_swipe_batch :: nat where "erasure_swipe_batch = 1000"

definition erase_at_stripe :: "erase_env \<Rightarrow> uuid \<Rightarrow> site \<Rightarrow> (failure + bool) \<times> site" where
  "erase_at_stripe env u s =
     (let (r, b) = delete_customer_for_account (xe_stripe env) (xe_billing env) (xe_now env) (xe_clock env) u
            \<lparr> bw_db = site_db s, bw_calls = st_calls s \<rparr>
      in (r, (set_site_db (bw_db b) s)\<lparr>st_calls := bw_calls b\<rparr>))"

definition erase_photos :: "erase_env \<Rightarrow> uuid \<Rightarrow> site \<Rightarrow> (failure + bool) \<times> site" where
  "erase_photos env u s =
     (let (r, w) = delete_for_account (xe_delete_ok env) (xe_clock env) u (st_world s) in (r, s\<lparr>st_world := w\<rparr>))"

definition checkpoint ::
  "erase_env \<Rightarrow> uuid \<Rightarrow> uuid \<Rightarrow> claimed_erasure \<Rightarrow> erasure_step \<Rightarrow> site \<Rightarrow> (failure + bool) \<times> site" where
  "checkpoint env i w c nxt s =
     (if \<not> xe_held env 1 then (Inl activity_lost, s)
      else case advance (xe_final env) i w c nxt s of
        Inl e \<Rightarrow> (Inl (Unhandled e), s)
      | Inr (ok, s1) \<Rightarrow> (Inr (ok \<and> nxt = Step_completed), s1))"

text \<open>The body of the try block.\<close>

definition run_step :: "erase_env \<Rightarrow> uuid \<Rightarrow> uuid \<Rightarrow> claimed_erasure \<Rightarrow> site \<Rightarrow> (failure + bool) \<times> site" where
  "run_step env i w c s =
     (if \<not> xe_held env 0 then (Inl activity_lost, s)
      else case cl_step c of
        Step_stripe \<Rightarrow>
          (case erase_at_stripe env (cl_user_id c) s of
             (Inl e, s1) \<Rightarrow> (Inl e, s1)
           | (Inr b, s1) \<Rightarrow> checkpoint env i w c (if b then Step_photos else Step_stripe) s1)
      | Step_photos \<Rightarrow>
          (case erase_photos env (cl_user_id c) s of
             (Inl e, s1) \<Rightarrow> (Inl e, s1)
           | (Inr b, s1) \<Rightarrow> checkpoint env i w c (if b then Step_swipes else Step_photos) s1)
      | Step_swipes \<Rightarrow>
          (case delete_swipe_batch (xe_clock env) i w c erasure_swipe_batch (site_db s) of
             Inl e \<Rightarrow> (Inl (Unhandled e), s)
           | Inr (_, d) \<Rightarrow> (if xe_held env 1 then Inr False else Inl activity_lost, set_site_db d s))
      | Step_postgres \<Rightarrow> checkpoint env i w c Step_completed s
      | Step_completed \<Rightarrow> (Inr True, s))"

text \<open>No message of a provider, object key or personal data is kept: a failure is named after its step.\<close>

definition step_error :: "erasure_step \<Rightarrow> failure \<Rightarrow> handler_error" where
  "step_error st e = Erasure_error
     (case e of
        Api a \<Rightarrow> if err_code a = ''erasure_stripe_reconciliation_required'' then err_code a
          else ''erasure_'' @ step_text st @ ''_unavailable''
      | Unhandled _ \<Rightarrow> ''erasure_'' @ step_text st @ ''_unavailable'')"

text \<open>True when the erasure is complete, false when the event was released for another run.\<close>

definition process_erasure :: "erase_env \<Rightarrow> uuid \<Rightarrow> uuid \<Rightarrow> site \<Rightarrow> (handler_error + bool) \<times> site" where
  "process_erasure env i w s =
     (case claimed i w (site_db s) of
        None \<Rightarrow> (Inl (Erasure_error ''erasure_invalid_state''), s)
      | Some c \<Rightarrow>
          if cl_step c = Step_completed then (Inr True, s)
          else if \<not> xe_acquired env then
            (case defer_erasure i w (xe_clock env) (site_db s) of
               Inl e \<Rightarrow> (Inl Unexpected_error, s)
             | Inr d \<Rightarrow> (Inr False, set_site_db d s))
          else case run_step env i w c s of
            (Inl e, s1) \<Rightarrow> (Inl (step_error (cl_step c) e), s1)
          | (Inr b, s1) \<Rightarrow> (if xe_held env 2 then Inr b else Inl Unexpected_error, s1))"

end
