(* ===== verification/Erasure_Properties.thy ===== *)
theory Erasure_Properties
  imports Erasure_Service
begin

text \<open>
  What an erasure promises: when the handler reports it as complete, nothing of the account is left in the tables, and
  nothing comes back afterwards.
\<close>

section \<open>What is left of an account\<close>

text \<open>No row of the personal tables names the user.\<close>

definition no_profile :: "uuid \<Rightarrow> db \<Rightarrow> bool" where
  "no_profile u d \<longleftrightarrow>
     list_all (\<lambda>p. pr_user_id p \<noteq> u) (user_profile d) \<and> list_all (\<lambda>p. pf_user_id p \<noteq> u) (user_preferences d) \<and>
     list_all (\<lambda>p. pe_user_id p \<noteq> u) (user_presence d) \<and> list_all (\<lambda>p. up_user_id p \<noteq> u) (user_photo d) \<and>
     list_all (\<lambda>r. ur_user_id r \<noteq> u) (photo_upload_request d) \<and> list_all (\<lambda>c. tm_user_id c \<noteq> u) (text_moderation_case d)"

definition no_activity :: "uuid \<Rightarrow> db \<Rightarrow> bool" where
  "no_activity u d \<longleftrightarrow>
     list_all (\<lambda>x. sd_actor x \<noteq> u \<and> sd_target x \<noteq> u) (swipe_decision d) \<and>
     list_all (\<lambda>b. ub_blocker b \<noteq> u \<and> ub_blocked b \<noteq> u) (user_block d) \<and>
     list_all (\<lambda>m. participant u m \<longrightarrow> \<not> open_status (mi_status m)) (match_init d) \<and>
     list_all (\<lambda>x. ms_user_id x \<noteq> u) (match_state d) \<and> list_all (\<lambda>r. cu_user_id r \<noteq> u) (continuation_usage d)"

definition no_access :: "uuid \<Rightarrow> db \<Rightarrow> bool" where
  "no_access u d \<longleftrightarrow>
     list_all (\<lambda>f. rf_user_id f \<noteq> u) (refresh_token_family d) \<and> list_all (\<lambda>r. rt_user_id r \<noteq> u) (refresh_tokens d) \<and>
     list_all (\<lambda>v. dt_user_id v \<noteq> u) (device_token d) \<and> list_all (\<lambda>n. no_user_id n \<noteq> u) (notification d)"

definition no_billing :: "uuid \<Rightarrow> db \<Rightarrow> bool" where
  "no_billing u d \<longleftrightarrow>
     list_all (\<lambda>r. us_user_id r \<noteq> u) (user_subscription d) \<and> list_all (\<lambda>i. bi_user_id i \<noteq> Some u) (billing_invoice d) \<and>
     list_all (\<lambda>c. bs_user_id c \<noteq> u) (billing_checkout_session (stripe d)) \<and>
     list_all (\<lambda>c. bc_user_id c \<noteq> u) (billing_customer (stripe d))"

definition anonymous_account :: "uuid \<Rightarrow> db \<Rightarrow> bool" where
  "anonymous_account u d \<longleftrightarrow>
     list_all (\<lambda>a. ua_id a = u \<longrightarrow> ua_deleted_at a \<noteq> None \<and> ua_phone_encrypted a = [] \<and> \<not> ua_banned a) (user_account d) \<and>
     list_all (\<lambda>c. uc_user_id c = u \<longrightarrow> uc_withdrawn_at c \<noteq> None) (user_consent d)"

definition no_admin_access :: "uuid \<Rightarrow> admin_state \<Rightarrow> bool" where
  "no_admin_access u s \<longleftrightarrow>
     list_all (\<lambda>x. as_user_id x \<noteq> u) (am_sessions s) \<and> list_all (\<lambda>c. ac_user_id c \<noteq> Some u) (am_challenges s) \<and>
     list_all (\<lambda>b. ab_user_id b \<noteq> u) (am_bootstraps s) \<and> list_all (\<lambda>c. cr_user_id c \<noteq> u) (am_credentials s)"

definition nothing_left :: "uuid \<Rightarrow> site \<Rightarrow> bool" where
  "nothing_left u s \<longleftrightarrow> no_profile u (site_db s) \<and> no_activity u (site_db s) \<and> no_access u (site_db s) \<and>
     no_billing u (site_db s) \<and> anonymous_account u (site_db s) \<and> no_admin_access u (st_admin s)"

lemmas nothing_left_defs = no_profile_def no_activity_def no_access_def no_billing_def anonymous_account_def
  no_admin_access_def

section \<open>The last step\<close>

lemma list_all_sql_delete_where: "list_all (\<lambda>r. \<not> p r) (sql_delete p t)"
  by (simp add: sql_delete_def list_all_iff)

lemma list_all_sql_deleteI: "(\<And>r. r \<in> set t \<Longrightarrow> \<not> p r \<Longrightarrow> q r) \<Longrightarrow> list_all q (sql_delete p t)"
  by (auto simp: sql_delete_def list_all_iff)

lemma list_all_sql_updateI:
  "(\<And>r. r \<in> set t \<Longrightarrow> p r \<Longrightarrow> q (f r)) \<Longrightarrow> (\<And>r. r \<in> set t \<Longrightarrow> \<not> p r \<Longrightarrow> q r) \<Longrightarrow> list_all q (sql_update p f t)"
  by (auto simp: sql_update_def list_all_iff)

lemmas erase_defs = delete_profile_def delete_personal_rows_def withdraw_consents_def cleanup_billing_def
  anonymise_matches_def bury_phone_def on_privacy_def log_access_def delete_photos_def delete_devices_def
  delete_notifications_def erase_mobile_sessions_def freeze_account_def Let_def

lemma freeze_account_tables:
  fixes clk :: pg_time
  assumes "sql_exists (\<lambda>a. ua_id a = u) (user_account d)"
  defines "d' \<equiv> freeze_account u clk d"
  shows "refresh_token_family d' = sql_delete (\<lambda>f. rf_user_id f = u) (refresh_token_family d)"
    and "set (refresh_tokens d') \<subseteq> set (refresh_tokens d)" "set (device_token d') \<subseteq> set (device_token d)"
    and "notification d' = sql_delete (\<lambda>n. no_user_id n = u) (notification d)"
    and "user_account d' = sql_update (\<lambda>a. ua_id a = u)
      (\<lambda>a. a\<lparr>ua_deleted_at := (case ua_deleted_at a of None \<Rightarrow> Some clk | Some t \<Rightarrow> Some t)\<rparr>) (user_account d)"
  using assms(1) unfolding d'_def by (auto simp: freeze_account_def erase_mobile_sessions_def delete_notifications_def
      delete_devices_def Let_def sql_delete_def)

text \<open>The other tables stay as they are.\<close>

lemma freeze_account_frame:
  "user_profile (freeze_account u clk d) = user_profile d" "user_preferences (freeze_account u clk d) = user_preferences d"
  "user_presence (freeze_account u clk d) = user_presence d" "user_photo (freeze_account u clk d) = user_photo d"
  "photo_upload_request (freeze_account u clk d) = photo_upload_request d"
  "text_moderation_case (freeze_account u clk d) = text_moderation_case d"
  "swipe_decision (freeze_account u clk d) = swipe_decision d" "user_block (freeze_account u clk d) = user_block d"
  "match_init (freeze_account u clk d) = match_init d" "match_state (freeze_account u clk d) = match_state d"
  "continuation_usage (freeze_account u clk d) = continuation_usage d"
  "user_subscription (freeze_account u clk d) = user_subscription d" "billing_invoice (freeze_account u clk d) = billing_invoice d"
  "stripe (freeze_account u clk d) = stripe d" "user_consent (freeze_account u clk d) = user_consent d"
  "privacy (freeze_account u clk d) = privacy d" "outbox_event (freeze_account u clk d) = outbox_event d"
  "chat_message (freeze_account u clk d) = chat_message d"
  by (simp_all add: freeze_account_def erase_mobile_sessions_def delete_notifications_def delete_devices_def Let_def)

text \<open>The tables before the last UPDATE.\<close>

definition before_account :: "anonymise_env \<Rightarrow> uuid \<Rightarrow> db \<Rightarrow> db" where
  "before_account env u d = withdraw_consents u (ay_now env) (delete_notifications (\<lambda>n. no_user_id n = u)
     (delete_devices (\<lambda>v. dt_user_id v = u) (delete_personal_rows u (delete_profile u
       (anonymise_matches u (ay_now env) (ay_removed env) (on_privacy (log_access (ay_log_id env) u None ''system''
          System_anonymize ''Account erasure'' (ay_now env)) (bury_phone env u d)))))))"

lemma anonymise_user_eq: "anonymise_user env u d = anonymise_account env u (before_account env u d)"
  by (simp add: anonymise_user_def before_account_def Let_def)

lemma before_account_rows:
  "user_profile (before_account env u d) = sql_delete (\<lambda>p. pr_user_id p = u) (user_profile d)"
  "user_preferences (before_account env u d) = sql_delete (\<lambda>p. pf_user_id p = u) (user_preferences d)"
  "user_presence (before_account env u d) = sql_delete (\<lambda>p. pe_user_id p = u) (user_presence d)"
  "user_photo (before_account env u d) = sql_delete (\<lambda>p. up_user_id p = u) (user_photo d)"
  "text_moderation_case (before_account env u d) = sql_delete (\<lambda>c. tm_user_id c = u) (text_moderation_case d)"
  "user_block (before_account env u d) = sql_delete (\<lambda>b. ub_blocker b = u \<or> ub_blocked b = u) (user_block d)"
  "user_subscription (before_account env u d) = sql_delete (\<lambda>r. us_user_id r = u) (user_subscription d)"
  "continuation_usage (before_account env u d) = sql_delete (\<lambda>r. cu_user_id r = u) (continuation_usage d)"
  "match_state (before_account env u d) = sql_delete (\<lambda>s. ms_user_id s = u) (match_state d)"
  "refresh_tokens (before_account env u d) = sql_delete (\<lambda>r. rt_user_id r = u) (refresh_tokens d)"
  "device_token (before_account env u d) = sql_delete (\<lambda>v. dt_user_id v = u) (device_token d)"
  "notification (before_account env u d) = sql_delete (\<lambda>n. no_user_id n = u) (notification d)"
  "refresh_token_family (before_account env u d) = refresh_token_family d"
  "swipe_decision (before_account env u d) = swipe_decision d" "user_account (before_account env u d) = user_account d"
  "stripe (before_account env u d) = stripe d" "billing_invoice (before_account env u d) = billing_invoice d"
  "outbox_event (before_account env u d) = outbox_event d" "chat_message (before_account env u d) =
    sql_update (\<lambda>c. cm_sender_id c = u) (\<lambda>c. c\<lparr>cm_content := ay_removed env\<rparr>) (chat_message d)"
  "data_subject_request (privacy (before_account env u d)) = data_subject_request (privacy d)"
  "account_erasure (privacy (before_account env u d)) = account_erasure (privacy d)"
  by (simp_all add: before_account_def erase_defs split: option.split)

lemma before_account_marks:
  "list_all (\<lambda>r. ur_user_id r \<noteq> u) (photo_upload_request (before_account env u d))"
  "list_all (\<lambda>m. participant u m \<longrightarrow> \<not> open_status (mi_status m)) (match_init (before_account env u d))"
  "list_all (\<lambda>c. uc_user_id c = u \<longrightarrow> uc_withdrawn_at c \<noteq> None) (user_consent (before_account env u d))"
  by (simp_all add: before_account_def erase_defs list_all_sql_delete_where split: option.split)
    (auto intro!: list_all_sql_updateI simp: open_status_def participant_def split: option.split)

lemma sql_exists_updated:
  "sql_exists p t \<Longrightarrow> (\<And>r. p r \<Longrightarrow> q r \<and> h (f r)) \<Longrightarrow> sql_exists h (sql_update q f t)"
  by (auto simp: sql_exists_def list_ex_iff sql_update_def)

lemma list_all_set_mono: "set t \<subseteq> set t' \<Longrightarrow> list_all p t' \<Longrightarrow> list_all p t"
  by (auto simp: list_all_iff)

theorem anonymise_user_leaves:
  assumes "anonymise_user env u d = Inr d'" "sql_exists (\<lambda>a. ua_id a = u) (user_account d)"
    and "list_all (\<lambda>x. sd_actor x \<noteq> u \<and> sd_target x \<noteq> u) (swipe_decision d)"
  shows "no_profile u d'" "no_activity u d'" "no_access u d'" "no_billing u d'" "anonymous_account u d'"
proof -
  let ?b = "before_account env u d"
  let ?t = "sql_update (\<lambda>a. ua_id a = u)
    (\<lambda>a. a\<lparr>ua_phone_hash := ''anon_'' @ ay_random_hex env, ua_phone_encrypted := [], ua_banned := False\<rparr>) (user_account d)"
  define c where "c = ?b\<lparr>user_account := ?t\<rparr>"
  have d': "d' = cleanup_billing u (freeze_account u (ay_now env) c)"
    using assms(1) by (auto simp: c_def anonymise_user_eq anonymise_account_def Let_def before_account_rows split: if_splits)
  have ex: "sql_exists (\<lambda>a. ua_id a = u) (user_account c)"
    using assms(2) by (auto simp: c_def sql_exists_sql_update)
  note f = freeze_account_tables [OF ex, of "ay_now env"]
  note here = d' cleanup_billing_def freeze_account_frame before_account_rows before_account_marks list_all_sql_delete_where
  show "no_profile u d'" using list_all_sql_delete_where [where p = "\<lambda>p. pr_user_id p = u"] by (simp add: no_profile_def here c_def)
  show "no_activity u d'" using assms(3) list_all_sql_delete_where [of "\<lambda>b. ub_blocker b = u \<or> ub_blocked b = u"]
    by (simp add: no_activity_def here c_def)
  have "list_all (\<lambda>r. rt_user_id r \<noteq> u) (refresh_tokens c)" "list_all (\<lambda>v. dt_user_id v \<noteq> u) (device_token c)"
    by (simp_all add: c_def before_account_rows list_all_sql_delete_where)
  then show "no_access u d'"
    using list_all_set_mono [OF f(2)] list_all_set_mono [OF f(3)]
    by (simp add: no_access_def d' cleanup_billing_def f(1,4) list_all_sql_delete_where)
  show "no_billing u d'" by (auto simp: no_billing_def here c_def intro!: list_all_sql_updateI)
  have "list_all (\<lambda>a. ua_id a = u \<longrightarrow> ua_phone_encrypted a = [] \<and> \<not> ua_banned a) ?t"
    by (rule list_all_sql_updateI) auto
  moreover have "user_account c = ?t" by (simp add: c_def)
  ultimately have "list_all (\<lambda>a. ua_id a = u \<longrightarrow> ua_deleted_at a \<noteq> None \<and> ua_phone_encrypted a = [] \<and> \<not> ua_banned a)
      (user_account (freeze_account u (ay_now env) c))"
    unfolding f(5) by (intro list_all_sql_updateI) (auto simp: list_all_iff split: option.split)
  then have "list_all (\<lambda>a. ua_id a = u \<longrightarrow> ua_deleted_at a \<noteq> None \<and> ua_phone_encrypted a = [] \<and> \<not> ua_banned a)
      (user_account d')"
    by (simp add: d' cleanup_billing_def)
  moreover have "user_consent d' = user_consent ?b" by (simp add: d' cleanup_billing_def freeze_account_frame c_def)
  ultimately show "anonymous_account u d'" using before_account_marks(3) [of u env d] by (simp add: anonymous_account_def)
qed

lemma delete_admin_leaves: "no_admin_access u (delete_admin u s)"
  by (auto simp: no_admin_access_def delete_admin_def Let_def intro!: list_all_sql_deleteI)

lemma site_db_set [simp]: "site_db (set_site_db d s) = d" "st_admin (set_site_db d s) = st_admin s"
  by (simp_all add: set_site_db_def)

lemma set_step_frame [simp]:
  "no_profile u (set_step c n clk d) = no_profile u d" "no_activity u (set_step c n clk d) = no_activity u d"
  "no_access u (set_step c n clk d) = no_access u d" "no_billing u (set_step c n clk d) = no_billing u d"
  "anonymous_account u (set_step c n clk d) = anonymous_account u d"
  "data_subject_request (privacy (set_step c n clk d)) = data_subject_request (privacy d)"
  by (simp_all add: nothing_left_defs set_step_def on_privacy_def)

lemma write_requests_Inr_iff:
  "write_requests t d = Inr d' \<longleftrightarrow> request_rows_ok t \<and> d' = on_privacy (data_subject_request_update (\<lambda>_. t)) d"
  by (auto simp: write_requests_def)

lemma on_privacy_frame [simp]:
  "no_profile u (on_privacy f d) = no_profile u d" "no_activity u (on_privacy f d) = no_activity u d"
  "no_access u (on_privacy f d) = no_access u d" "no_billing u (on_privacy f d) = no_billing u d"
  "anonymous_account u (on_privacy f d) = anonymous_account u d"
  by (simp_all add: nothing_left_defs on_privacy_def)

lemma anonymise_user_privacy:
  assumes "anonymise_user env u d = Inr d'"
  shows "data_subject_request (privacy d') = data_subject_request (privacy d)"
    and "account_erasure (privacy d') = account_erasure (privacy d)" "outbox_event d' = outbox_event d"
  using assms by (auto simp: anonymise_user_eq anonymise_account_def Let_def cleanup_billing_def freeze_account_frame
      before_account_rows split: if_splits)

lemma finish_erasure_leaves:
  assumes "finish_erasure env c s = Inr s'" "sql_exists (\<lambda>a. ua_id a = cl_user_id c) (user_account (site_db s))"
  shows "nothing_left (cl_user_id c) s'"
    and "sql_exists (\<lambda>r. dr_id r = cl_request_id c \<and> dr_status r = Dr_completed) (data_subject_request (privacy (site_db s')))"
    and "account_erasure (privacy (site_db s')) = account_erasure (privacy (site_db s))" "cl_step c = Step_postgres"
proof -
  let ?d = "site_db s" and ?u = "cl_user_id c"
  obtain d4 d5 where swipes: "\<not> sql_exists (\<lambda>x. sd_actor x = ?u \<or> sd_target x = ?u) (swipe_decision ?d)"
    and request: "sql_exists (\<lambda>r. dr_id r = cl_request_id c \<and> dr_user_id r = ?u \<and> dr_status r = Dr_in_progress \<and>
      dr_type r = Erasure_request) (data_subject_request (privacy ?d))" "cl_step c = Step_postgres"
    and d4: "anonymise_user env ?u (drop_jobs ?u ?d) = Inr d4"
    and d5: "write_requests (sql_update (\<lambda>r. dr_id r = cl_request_id c \<and> dr_status r = Dr_in_progress)
      (\<lambda>r. r\<lparr>dr_status := Dr_completed, dr_completed_at := Some (ay_clock env)\<rparr>) (data_subject_request (privacy d4))) d4 = Inr d5"
    and s': "s' = (set_site_db d5 s)\<lparr>st_admin := (delete_admin ?u (st_admin s))\<lparr>am_accounts := user_account d5\<rparr>\<rparr>"
    using assms(1) by (auto simp: finish_erasure_def Let_def and_then_Inr_iff split: if_splits)
  have d3: "swipe_decision (drop_jobs ?u ?d) = swipe_decision ?d" "user_account (drop_jobs ?u ?d) = user_account ?d"
    "privacy (drop_jobs ?u ?d) = privacy ?d"
    by (simp_all add: drop_jobs_def delete_outbox_def Let_def)
  have "list_all (\<lambda>x. sd_actor x \<noteq> ?u \<and> sd_target x \<noteq> ?u) (swipe_decision (drop_jobs ?u ?d))"
    using swipes by (auto simp: d3 sql_exists_def list_ex_iff list_all_iff)
  note leaves = anonymise_user_leaves [OF d4 assms(2) [folded d3(2)] this]
  have d5': "d5 = on_privacy (data_subject_request_update (\<lambda>_. sql_update (\<lambda>r. dr_id r = cl_request_id c \<and> dr_status r = Dr_in_progress)
      (\<lambda>r. r\<lparr>dr_status := Dr_completed, dr_completed_at := Some (ay_clock env)\<rparr>) (data_subject_request (privacy d4)))) d4"
    using d5 by (simp add: write_requests_Inr_iff)
  have adm: "no_admin_access ?u (st_admin s')"
    using delete_admin_leaves [of ?u "st_admin s"] by (simp add: s' no_admin_access_def)
  have db: "site_db s' = d5" by (simp add: s' set_site_db_def)
  show "nothing_left ?u s'" using leaves adm by (simp add: nothing_left_def db d5')
  show "sql_exists (\<lambda>r. dr_id r = cl_request_id c \<and> dr_status r = Dr_completed) (data_subject_request (privacy (site_db s')))"
    using sql_exists_updated [OF request(1)] by (simp add: db d5' on_privacy_def anonymise_user_privacy [OF d4] d3)
  show "account_erasure (privacy (site_db s')) = account_erasure (privacy ?d)"
    by (simp add: db d5' on_privacy_def anonymise_user_privacy [OF d4] d3)
qed (use assms(1) in \<open>auto simp: finish_erasure_def Let_def and_then_Inr_iff split: if_splits\<close>)

text \<open>Only the last step reports an erasure as complete.\<close>

lemma run_step_done:
  assumes "run_step env i w c s = (Inr True, s')" "cl_step c \<noteq> Step_completed"
  shows "cl_step c = Step_postgres \<and> advance (xe_final env) i w c Step_completed s = Inr (True, s')"
proof -
  have "\<exists>s1 nxt. checkpoint env i w c nxt s1 = (Inr True, s') \<and> (nxt = Step_completed \<longrightarrow> s1 = s \<and> cl_step c = Step_postgres)"
    using assms by (auto simp: run_step_def split: if_splits erasure_step.splits prod.splits sum.splits)
  then obtain s1 nxt where n: "checkpoint env i w c nxt s1 = (Inr True, s')" "nxt = Step_completed \<longrightarrow> s1 = s \<and> cl_step c = Step_postgres"
    by blast
  then have "nxt = Step_completed" "advance (xe_final env) i w c nxt s1 = Inr (True, s')"
    by (auto simp: checkpoint_def split: if_splits sum.splits)
  with n show ?thesis by simp
qed


text \<open>A banned account at its last step, with a profile, a session and a block left.\<close>

definition erasing_db :: db where
  "erasing_db = empty_db\<lparr>
     user_account := [\<lparr> ua_id = ''u'', ua_role = User, ua_phone_hash = ''h'', ua_phone_encrypted = ''e'', ua_banned = True,
       ua_deleted_at = Some 1 \<rparr>],
     user_profile := [\<lparr> pr_user_id = ''u'', pr_firstname = ''Ann'', pr_birthdate = (1990, 1, 1), pr_sex = None, pr_bio = None \<rparr>],
     user_block := [\<lparr> ub_blocker = ''v'', ub_blocked = ''u'', ub_created_at = 0 \<rparr>],
     refresh_token_family := [\<lparr> rf_id = ''f'', rf_user_id = ''u'', rf_created_at = 0, rf_last_refreshed_at = 0,
       rf_expires_at = 9, rf_revoked_at = None, rf_revocation_reason = None \<rparr>],
     outbox_event := [(new_outbox_row ''e'' (erase_event_of ''r'') 0)\<lparr>oe_status := Oe_processing, oe_locked_at := Some 2,
       oe_locked_by := Some ''w''\<rparr>],
     privacy := \<lparr> data_subject_request = [new_request ''r'' ''u'' Erasure_request Dr_in_progress 0],
       account_erasure = [\<lparr> ea_request_id = ''r'', ea_user_id = ''u'', ea_step = Step_postgres, ea_updated_at = 1,
         ea_completed_at = None \<rparr>], data_access_log = [] \<rparr>\<rparr>"

definition erasing_site :: site where
  "erasing_site = \<lparr> st_world = \<lparr> wd_db = erasing_db, wd_objects = [] \<rparr>, st_calls = [],
     st_admin = \<lparr> am_accounts = user_account erasing_db, am_bootstraps = [], am_challenges = [], am_credentials = [],
       am_sessions = [], am_events = [] \<rparr> \<rparr>"

definition erasing_env :: erase_env where
  "erasing_env = \<lparr> xe_acquired = True, xe_held = (\<lambda>_. True),
     xe_stripe = \<lparr> sa_create_customer = (\<lambda>_ _ _. None), sa_create_session = (\<lambda>_. None), sa_delete_customer = (\<lambda>_ _. True),
       sa_retrieve_customer = (\<lambda>_. None), sa_portal = (\<lambda>_ _. None) \<rparr>,
     xe_billing = \<lparr> bg_enabled = True, bg_monthly_price = [], bg_annual_price = [], bg_product = [], bg_live_key = False \<rparr>,
     xe_now = 3, xe_clock = 3000, xe_delete_ok = (\<lambda>_. True),
     xe_final = \<lparr> ay_now = 3000, ay_clock = 3001, ay_log_id = ''l'', ay_random_hex = ''00'', ay_removed = ''gone'',
       ay_plus_years = (\<lambda>n t. t + int n * 31557600000000) \<rparr> \<rparr>"

lemma erasing_run: "fst (process_erasure erasing_env ''e'' ''w'' erasing_site) = Inr True"
  by code_simp

lemma erasing_claim:
  "claimed ''e'' ''w'' (site_db erasing_site) = Some \<lparr> cl_request_id = ''r'', cl_user_id = ''u'', cl_step = Step_postgres \<rparr>"
  by code_simp


end
