(* ===== verification/Spec2Isabelle.thy ===== *)
theory Spec2Isabelle
  imports Outbox_Worker Match_Pages Auth_Properties Rate_Limit Discovery_Walk Stripe_Delivery Billing_Access
    Admin_Properties Erasure_Properties
begin

text \<open>
  Verification of the histae API, a dating service: a NestJS server in TypeScript (\<open>src/\<close>) over PostgreSQL
  (\<open>db/schema_postgres.sql\<close>), Redis, an S3 store for photos, Sweego for text messages and Stripe for payments.

  \<^bold>\<open>The program.\<close> A user signs in with a one-time code (\<open>src/auth\<close>), gives consents and a profile
  (\<open>src/users\<close>), uploads a photo (\<open>src/photos\<close>, analysed by \<open>src/moderation\<close>), sees candidates and swipes
  (\<open>src/discovery\<close>), and talks in matches that end unless both continue (\<open>src/matches\<close>). A subscription bought
  through Stripe (\<open>src/billing\<close>) widens what a user may continue. Administrators sign in with WebAuthn
  (\<open>src/admin-auth\<close>). A data subject may ask for the erasure of the account (\<open>src/privacy\<close>). Work that leaves the
  database - pushes, the removal of stored objects, erasures, reconciliations - is an event of the outbox
  (\<open>src/outbox\<close>), written in the transaction that causes it and processed by workers. The components share the
  database; services call the repositories of their own component and the services of others.

  \<^bold>\<open>How the code is modelled.\<close> \<open>Prelude\<close> has times, errors and one combinator per shape of SQL statement;
  \<open>Schema\<close> has a record per table (the columns the modelled code uses) and the database \<open>db\<close>, with the constraints
  and triggers as checks of the writing functions. A transaction of a repository is a function from a database to an
  error or to an answer and a new database: an error value is the rollback. A service is a function that also returns
  an \<open>ApiError\<close> as a value (\<open>failure\<close>). What the code takes from outside is an argument: clock readings,
  generated ids, random bytes, rows that other transactions hold (SKIP LOCKED), answers of remote services, and whether
  a lock connection is alive. Names follow the code: \<open>claimBatch\<close> is \<open>claim_batch\<close>.

  \<^bold>\<open>The theories.\<close>
  \<^item> \<open>Common\<close>, \<open>Encoding\<close>, \<open>Pagination\<close>: \<open>src/common\<close> (idempotency keys, printable text, error
    responses, cursors and their Base64 text, keyset pages). The locale \<open>keyset_feed\<close> states when a client that
    follows the cursor sees every row once; \<open>Outbox_Lifecycle\<close> and \<open>Pagination\<close> interpret it.
  \<^item> \<open>Outbox\<close> is \<open>outbox.repository.ts\<close>; \<open>Outbox_Lifecycle\<close> has its invariant, the status machine over any
    interleaving, the leases (locale \<open>leased_jobs\<close>, interpreted for completion and for failure), the decisions of
    operators and the dead-letter listing; \<open>Outbox_Worker\<close> is \<open>outbox-worker.service.ts\<close> with the dispatcher.
  \<^item> \<open>Photos\<close>, \<open>Photo_Processor\<close>, \<open>Photo_Service\<close> are \<open>photos.repository.ts\<close>, \<open>photo-processor.service.ts\<close> and
    the services around them; \<open>Photo_Lifecycle\<close> and \<open>Photo_Storage\<close> have the status machine, idempotent uploads, the
    agreement of the database with the object store under failures, and the maintenance.
  \<^item> \<open>Matches\<close>, \<open>Match_Messages\<close>, \<open>Match_Maintenance\<close>, \<open>Match_Service\<close> are \<open>src/matches\<close>, \<open>Notifications\<close>
    is \<open>notification-outbox.ts\<close>; \<open>Match_Lifecycle\<close>, \<open>Match_Steps\<close>, \<open>Match_Consent\<close>, \<open>Match_Messaging\<close> and
    \<open>Match_Pages\<close> have the invariant and the life of a match, the consents and the weekly quota, messages sent once,
    and the page query over two index ranges as the page of one list.
  \<^item> \<open>Otp\<close>, \<open>Otp_Service\<close>, \<open>Sessions\<close>, \<open>Auth_Service\<close> are \<open>src/auth\<close> and the devices of \<open>src/mobile\<close>;
    \<open>Otp_Lifecycle\<close>, \<open>Session_Lifecycle\<close>, \<open>Session_Steps\<close> and \<open>Auth_Properties\<close> show one usable code per phone,
    one SMS per key, the rotation of refresh tokens as a refinement of an abstract session, and that signing in opens
    the guard and leaving closes it for good.
  \<^item> \<open>Rate_Limit\<close> is \<open>src/ratelimit\<close> with the script of Redis; the locale \<open>fixed_window\<close> is interpreted for the
    counters in memory and in Redis.
  \<^item> \<open>Text_Moderation\<close>, \<open>Users\<close>, \<open>Users_Service\<close>, \<open>Users_Lifecycle\<close>: \<open>text-moderation.service.ts\<close> and
    \<open>src/users\<close>; sensitive data are on record only under an active consent.
  \<^item> \<open>Discovery\<close>, \<open>Discovery_Service\<close>, \<open>Discovery_Walk\<close>: \<open>src/discovery\<close>; the walk along the feed is complete
    (locale \<open>stable_feed\<close>, interpreted for a request that reads at one instant), and candidates are mutual.
  \<^item> \<open>Billing\<close>, \<open>Billing_Service\<close>, \<open>Stripe_Webhook\<close> are \<open>src/billing\<close>; \<open>Billing_Projection\<close>,
    \<open>Billing_Checkout\<close>, \<open>Billing_Access\<close> and \<open>Stripe_Delivery\<close> show that the newest event of a subscription wins in
    any order of arrival, one live checkout per account, that a failed checkout does not block the next, and that a
    webhook takes effect exactly once.
  \<^item> \<open>Admin_Auth\<close>, \<open>Admin_Service\<close> are \<open>src/admin-auth\<close>; \<open>Admin_Properties\<close> has the invariant and what it gives:
    challenges are good once, revoked credentials stay out, sessions end.
  \<^item> \<open>Privacy\<close>, \<open>Erasure\<close>, \<open>Erasure_Service\<close> are the requests, blocks and erasures of \<open>src/privacy\<close>, with
    \<open>fct_anonymize_user\<close>; \<open>Erasure_Properties\<close> shows that an erasure reported as complete left nothing of the account.

  \<^bold>\<open>Kinds of lemmas.\<close> An invariant (\<open>.._inv\<close>, \<open>.._table_ok\<close>) and one lemma per transaction that keeps it and
  does not raise; a step relation of all transactions of a component and an induction over its runs; equations for each
  branch of an operation; and the numbered properties, each one theorem with its claim before it. A property with
  hypotheses is followed by a witness that applies it to a concrete database.

  \<^bold>\<open>Bounds and fuel.\<close> The loops of the code are bounded by the code: 100 batches of the maintenances, the batches
  of the outbox purge, the six attempts of the picture encoder, the batches of a feed request. They are structural
  recursions over the number of rounds left, so nothing is lost. The walks of a client (\<open>keyset_walk\<close>,
  \<open>follow_dead_letters\<close>, the walk of the feed) take a number of requests; the theorems prove that one request more than
  there are rows is enough.

  \<^bold>\<open>Idealisations.\<close> A string holds the characters up to U+00FF; where code points matter a text is a list of
  them. Identifiers are canonical lower-case UUIDs; where the code compares the text of a request, \<open>pg_uuid\<close> makes the
  difference visible. PostgreSQL times are microseconds, JavaScript times milliseconds, as integers; distances are real
  numbers; the week of a quota starts in UTC. Transactions run one after the other, as their row locks make them; a
  service call is a sequence of them, with what happens between them as an argument where the code depends on it. The
  readings of the clock inside a transaction are free, so no order between them is assumed unless a theorem says so.
  Third-party code is a parameter: \<open>JSON.parse\<close> and \<open>JSON.stringify\<close>, SHA-256 and HMAC, JWT, WebAuthn, sharp, the
  validation of a UUID, Unicode folding, calendar intervals of PostgreSQL. The laws used of it are hypotheses with a
  name. The tables of administrators are a state of their own, \<open>admin_state\<close>.

  \<^bold>\<open>Not modelled.\<close> Controllers, request formats, modules and start-up (declarative or wiring); configuration,
  metrics, logging and health (values and observation); data export, push and realtime delivery, the Stripe gateway, the
  database driver and phone encryption (calls of libraries and I/O); timers that start the workers. The review of
  moderation cases, reports, the administration of accounts, profile questions, traits, plans, the reconciliation of
  billing and the retention cleanup are parts with a state that are left out: their tables are in the model where
  another component reads or writes them.
\<close>

end
